(* ===== verification/Mks_Prelude.thy ===== *)
theory Mks_Prelude
  imports Main "HOL-Library.Monad_Syntax" "HOL-Library.List_Lexorder" "HOL-Library.Char_ord"
begin

text \<open>
  Shared vocabulary of the development.

  \<^item> \<open>'a ub\<close>: a C++ expression that may have undefined behaviour. \<open>None\<close> is undefined behaviour
    (signed overflow, a dereferenced dangling pointer), \<open>Some v\<close> is the value.
  \<^item> \<open>i32\<close>: the value of a signed 32-bit arithmetic expression, undefined outside the type's range.
  \<^item> \<open>std_clamp\<close> and the ordered containers \<open>std::map\<close> and \<open>std::multimap\<close>, as association lists
    in the order in which C++ iterates over them.

  The collection \<open>mks_defs\<close> holds the unfolding rules of the small definitions, \<open>ub_simps\<close> the rules
  that evaluate a defined computation.
\<close>

named_theorems mks_defs \<open>unfolding rules of the small definitions of the model\<close>
named_theorems ub_simps \<open>evaluation rules for computations that are defined\<close>

section \<open>Undefined behaviour and signed 32-bit arithmetic\<close>

type_synonym 'a ub = "'a option"

definition in_i32 :: "int \<Rightarrow> bool" where
  "in_i32 x \<longleftrightarrow> - 2147483648 \<le> x \<and> x \<le> 2147483647"

definition i32 :: "int \<Rightarrow> int ub" where
  "i32 x = (if in_i32 x then Some x else None)"

lemma i32_defined [simp, ub_simps]: "in_i32 x \<Longrightarrow> i32 x = Some x"
  by (simp add: i32_def)

lemma i32_eq_Some_iff [simp]: "i32 x = Some y \<longleftrightarrow> in_i32 x \<and> y = x"
  by (auto simp: i32_def)

lemma i32_eq_None_iff [simp]: "i32 x = None \<longleftrightarrow> \<not> in_i32 x"
  by (simp add: i32_def)

lemma in_i32_numeral [simp]:
  "in_i32 0" "in_i32 1" "in_i32 (- 1)"
  "in_i32 (numeral n) \<longleftrightarrow> numeral n \<le> (2147483647 :: int)"
  "in_i32 (- numeral n) \<longleftrightarrow> numeral n \<le> (2147483648 :: int)"
  by (auto simp: in_i32_def intro: order_trans [OF _ zero_le_numeral])

definition i64 :: "int \<Rightarrow> int ub" where
  "i64 v = (if - 9223372036854775808 \<le> v \<and> v \<le> 9223372036854775807 then Some v else None)"

text \<open>The conversion of an integer to 32 bits, which wraps around.\<close>

definition int32_cast :: "int \<Rightarrow> int" where
  "int32_cast x = (x + 2147483648) mod 4294967296 - 2147483648"

lemma int32_cast_id [simp]: "in_i32 x \<Longrightarrow> int32_cast x = x"
  by (simp add: int32_cast_def in_i32_def)

lemma in_i32I: "- 2147483648 \<le> x \<Longrightarrow> x \<le> 2147483647 \<Longrightarrow> in_i32 x"
  by (simp add: in_i32_def)

lemma in_i32_pred: "in_i32 x \<Longrightarrow> 0 < x \<Longrightarrow> in_i32 (x - 1)"
  by (simp add: in_i32_def)

lemma in_i32_between: "in_i32 lo \<Longrightarrow> in_i32 hi \<Longrightarrow> lo \<le> x \<Longrightarrow> x \<le> hi \<Longrightarrow> in_i32 x"
  by (simp add: in_i32_def)

lemma ub_bind_eq_Some: "Option.bind m f = Some r \<longleftrightarrow> (\<exists>x. m = Some x \<and> f x = Some r)"
  by (cases m) auto

lemma ub_bind_eq_None: "Option.bind m f = None \<longleftrightarrow> m = None \<or> (\<exists>x. m = Some x \<and> f x = None)"
  by (cases m) auto

lemma find_SomeD: "find P xs = Some x \<Longrightarrow> x \<in> set xs \<and> P x"
  by (auto simp: find_Some_iff in_set_conv_nth)

text \<open>\<open>std::clamp\<close>: the standard requires \<open>lo \<le> hi\<close>, which every call of the program meets.\<close>

definition std_clamp :: "int \<Rightarrow> int \<Rightarrow> int \<Rightarrow> int" where
  "std_clamp v lo hi = (if v < lo then lo else if hi < v then hi else v)"

lemma std_clamp_bounds:
  "lo \<le> hi \<Longrightarrow> lo \<le> std_clamp v lo hi" "lo \<le> hi \<Longrightarrow> std_clamp v lo hi \<le> hi"
  by (simp_all add: std_clamp_def)

lemma std_clamp_id [simp]: "lo \<le> v \<Longrightarrow> v \<le> hi \<Longrightarrow> std_clamp v lo hi = v"
  by (simp add: std_clamp_def)

lemma std_clamp_mono: "lo \<le> hi \<Longrightarrow> v \<le> w \<Longrightarrow> std_clamp v lo hi \<le> std_clamp w lo hi"
  by (simp add: std_clamp_def)

section \<open>Distinctness of long lists of numbers\<close>

text \<open>Sorting a concrete list and comparing neighbours costs far less than comparing all pairs.\<close>

fun strictly_up :: "nat list \<Rightarrow> bool" where
  "strictly_up (x # y # xs) = (x < y \<and> strictly_up (y # xs))"
| "strictly_up _ = True"

lemma strictly_up_distinct: "strictly_up xs \<Longrightarrow> distinct xs \<and> (\<forall>x \<in> set xs. hd xs \<le> x)"
proof (induction xs rule: strictly_up.induct)
  case (1 x y xs)
  then have "x < y" "distinct (y # xs)" "\<forall>z \<in> set (y # xs). y \<le> z" by simp_all
  then show ?case by fastforce
qed simp_all

lemma distinct_by_sorting: "strictly_up (sort (map f xs)) \<Longrightarrow> distinct xs"
  using strictly_up_distinct [of "sort (map f xs)"] by (simp add: distinct_map)

lemma distinct_keys_map_of:
  assumes "distinct (map fst m)"
  shows "map (\<lambda>x. case map_of m x of Some v \<Rightarrow> v | None \<Rightarrow> d) (map fst m) = map snd m"
proof -
  have "map_of m (fst p) = Some (snd p)" if "p \<in> set m" for p
    by (rule map_of_is_SomeI [OF assms]) (use that in simp)
  then show ?thesis by simp
qed

section \<open>\<open>std::map\<close>\<close>

text \<open>
  The interface of an ordered map: lookup, \<open>emplace\<close> (keeps an existing entry), assignment through
  \<open>operator[]\<close> (replaces it) and \<open>erase\<close>. The laws determine lookup after every operation.
\<close>

locale std_map_interface =
  fixes find :: "'m \<Rightarrow> 'k \<Rightarrow> 'v option"
    and emplace :: "'k \<Rightarrow> 'v \<Rightarrow> 'm \<Rightarrow> 'm"
    and assign :: "'k \<Rightarrow> 'v \<Rightarrow> 'm \<Rightarrow> 'm"
    and erase :: "'k \<Rightarrow> 'm \<Rightarrow> 'm"
    and invar :: "'m \<Rightarrow> bool"
  assumes find_emplace: "invar m \<Longrightarrow> find m k = None \<Longrightarrow> find (emplace k v m) = (find m)(k \<mapsto> v)"
    and emplace_present: "invar m \<Longrightarrow> find m k = Some w \<Longrightarrow> emplace k v m = m"
    and find_assign: "invar m \<Longrightarrow> find (assign k v m) = (find m)(k \<mapsto> v)"
    and find_erase: "invar m \<Longrightarrow> find (erase k m) = (find m)(k := None)"
    and invar_emplace: "invar m \<Longrightarrow> invar (emplace k v m)"
    and invar_assign: "invar m \<Longrightarrow> invar (assign k v m)"
    and invar_erase: "invar m \<Longrightarrow> invar (erase k m)"
begin

lemma emplace_same: "invar m \<Longrightarrow> find (emplace k v m) k \<noteq> None"
  by (cases "find m k") (auto simp: find_emplace emplace_present)

lemma emplace_other: "invar m \<Longrightarrow> j \<noteq> k \<Longrightarrow> find (emplace k v m) j = find m j"
  by (cases "find m k") (auto simp: find_emplace emplace_present)

lemma dom_emplace: "invar m \<Longrightarrow> dom (find (emplace k v m)) = insert k (dom (find m))"
  by (cases "find m k") (auto simp: find_emplace emplace_present)

lemma erase_emplace: "invar m \<Longrightarrow> find m k = None \<Longrightarrow> find (erase k (emplace k v m)) = find m"
  by (simp add: find_erase find_emplace invar_emplace fun_eq_iff)

end

type_synonym ('k, 'v) std_map = "('k \<times> 'v) list"

definition map_wf :: "('k::linorder, 'v) std_map \<Rightarrow> bool" where
  "map_wf m \<longleftrightarrow> sorted_wrt (<) (map fst m)"

abbreviation map_find :: "('k, 'v) std_map \<Rightarrow> 'k \<Rightarrow> 'v option" where
  "map_find m k \<equiv> map_of m k"

fun map_emplace :: "'k::linorder \<Rightarrow> 'v \<Rightarrow> ('k, 'v) std_map \<Rightarrow> ('k, 'v) std_map" where
  "map_emplace k v [] = [(k, v)]"
| "map_emplace k v ((a, b) # m) =
     (if k < a then (k, v) # (a, b) # m
      else if k = a then (a, b) # m
      else (a, b) # map_emplace k v m)"

fun map_assign :: "'k::linorder \<Rightarrow> 'v \<Rightarrow> ('k, 'v) std_map \<Rightarrow> ('k, 'v) std_map" where
  "map_assign k v [] = [(k, v)]"
| "map_assign k v ((a, b) # m) =
     (if k < a then (k, v) # (a, b) # m
      else if k = a then (a, v) # m
      else (a, b) # map_assign k v m)"

definition map_erase :: "'k \<Rightarrow> ('k, 'v) std_map \<Rightarrow> ('k, 'v) std_map" where
  "map_erase k m = filter (\<lambda>(a, b). a \<noteq> k) m"

lemma map_wf_Nil [simp]: "map_wf []"
  by (simp add: map_wf_def)

lemma map_wf_Cons: "map_wf ((a, b) # m) \<longleftrightarrow> (\<forall>k \<in> fst ` set m. a < k) \<and> map_wf m"
  by (simp add: map_wf_def)

lemma set_map_emplace: "fst ` set (map_emplace k v m) = insert k (fst ` set m)"
  by (induction k v m rule: map_emplace.induct) auto

lemma set_map_assign: "fst ` set (map_assign k v m) = insert k (fst ` set m)"
  by (induction k v m rule: map_assign.induct) auto

lemma map_wf_emplace: "map_wf m \<Longrightarrow> map_wf (map_emplace k v m)"
  by (induction k v m rule: map_emplace.induct) (auto simp: map_wf_Cons set_map_emplace)

lemma map_wf_assign: "map_wf m \<Longrightarrow> map_wf (map_assign k v m)"
  by (induction k v m rule: map_assign.induct) (auto simp: map_wf_Cons set_map_assign)

lemma map_wf_filter: "map_wf m \<Longrightarrow> map_wf (filter P m)"
  by (induction m) (auto simp: map_wf_Cons)

lemma map_wf_erase: "map_wf m \<Longrightarrow> map_wf (map_erase k m)"
  by (simp add: map_erase_def map_wf_filter)

lemma map_wf_distinct: "map_wf m \<Longrightarrow> distinct (map fst m)"
  by (simp add: map_wf_def strict_sorted_iff)

lemma map_of_less: "\<forall>a \<in> fst ` set m. k < a \<Longrightarrow> map_of m k = None"
  for k :: "'k::linorder"
  by (auto simp: map_of_eq_None_iff)

lemma map_of_emplace: "map_wf m \<Longrightarrow> map_of m k = None \<Longrightarrow> map_of (map_emplace k v m) = (map_of m)(k \<mapsto> v)"
  by (induction k v m rule: map_emplace.induct)
     (auto simp: map_wf_Cons fun_eq_iff split: if_splits)

lemma map_emplace_present: "map_wf m \<Longrightarrow> map_of m k = Some w \<Longrightarrow> map_emplace k v m = m"
proof (induction k v m rule: map_emplace.induct)
  case (2 k v a b m)
  show ?case
  proof (cases "k < a")
    case True
    with 2(2) have "\<forall>x \<in> fst ` set ((a, b) # m). k < x"
      by (auto simp: map_wf_Cons)
    then have "map_of ((a, b) # m) k = None"
      by (rule map_of_less)
    with 2(3) show ?thesis by simp
  next
    case False
    with 2 show ?thesis by (auto simp: map_wf_Cons split: if_splits)
  qed
qed simp

lemma map_of_assign: "map_wf m \<Longrightarrow> map_of (map_assign k v m) = (map_of m)(k \<mapsto> v)"
  by (induction k v m rule: map_assign.induct) (auto simp: map_wf_Cons fun_eq_iff)

lemma map_of_erase: "map_of (map_erase k m) = (map_of m)(k := None)"
  by (induction m) (auto simp: map_erase_def fun_eq_iff)

interpretation std_map: std_map_interface map_of map_emplace map_assign map_erase map_wf
  by unfold_locales
     (simp_all add: map_of_emplace map_emplace_present map_of_assign map_of_erase
        map_wf_emplace map_wf_assign map_wf_erase)

lemma map_of_filter_keys: "map_of (filter (\<lambda>(k, v). P k) m) k = (if P k then map_of m k else None)"
  by (induction m) auto

lemma map_of_SomeD_set: "map_of m k = Some v \<Longrightarrow> (k, v) \<in> set m"
  by (rule map_of_SomeD)

lemma map_of_iff_set: "map_wf m \<Longrightarrow> map_of m k = Some v \<longleftrightarrow> (k, v) \<in> set m"
  by (simp add: map_wf_distinct)

section \<open>\<open>std::multimap\<close>\<close>

text \<open>
  The entries in iteration order: sorted by key, entries with equal keys in the order of their
  insertion (\<open>emplace\<close> inserts after the entries with an equal key).
\<close>

type_synonym ('k, 'v) std_multimap = "('k \<times> 'v) list"

definition mm_emplace :: "'k::linorder \<Rightarrow> 'v \<Rightarrow> ('k, 'v) std_multimap \<Rightarrow> ('k, 'v) std_multimap" where
  "mm_emplace k v m = takeWhile (\<lambda>(a, b). a \<le> k) m @ (k, v) # dropWhile (\<lambda>(a, b). a \<le> k) m"

definition mm_equal_range :: "'k \<Rightarrow> ('k, 'v) std_multimap \<Rightarrow> 'v list" where
  "mm_equal_range k m = map snd (filter (\<lambda>(a, b). a = k) m)"

definition mm_erase :: "'k \<Rightarrow> ('k, 'v) std_multimap \<Rightarrow> ('k, 'v) std_multimap" where
  "mm_erase k m = filter (\<lambda>(a, b). a \<noteq> k) m"

definition mm_wf :: "('k::linorder, 'v) std_multimap \<Rightarrow> bool" where
  "mm_wf m \<longleftrightarrow> sorted (map fst m)"

lemma set_mm_emplace [simp]: "set (mm_emplace k v m) = insert (k, v) (set m)"
  by (simp add: mm_emplace_def) (metis set_append takeWhile_dropWhile_id Un_commute)

lemma set_mm_erase [simp]: "set (mm_erase k m) = {e \<in> set m. fst e \<noteq> k}"
  by (auto simp: mm_erase_def)

lemma set_mm_equal_range [simp]: "set (mm_equal_range k m) = {v. (k, v) \<in> set m}"
  by (force simp: mm_equal_range_def)

lemma length_mm_emplace [simp]: "length (mm_emplace k v m) = Suc (length m)"
  by (simp add: mm_emplace_def) (metis length_append takeWhile_dropWhile_id)

lemma mm_emplace_rec:
  "mm_emplace k v [] = [(k, v)]"
  "mm_emplace k v ((a, b) # m) = (if a \<le> k then (a, b) # mm_emplace k v m else (k, v) # (a, b) # m)"
  by (simp_all add: mm_emplace_def)

lemma mm_wf_Nil [simp]: "mm_wf []"
  by (simp add: mm_wf_def)

lemma mm_wf_emplace: "mm_wf m \<Longrightarrow> mm_wf (mm_emplace k v m)"
  by (induction m) (force simp: mm_emplace_rec mm_wf_def split: if_splits)+

lemma mm_wf_erase: "mm_wf m \<Longrightarrow> mm_wf (mm_erase k m)"
  by (simp add: mm_wf_def mm_erase_def sorted_filter)

lemma distinct_mm_emplace:
  "distinct (map (f \<circ> snd) (mm_emplace k v m)) \<longleftrightarrow>
     f v \<notin> set (map (f \<circ> snd) m) \<and> distinct (map (f \<circ> snd) m)"
proof (induction m)
  case Nil
  then show ?case by (simp add: mm_emplace_rec)
next
  case (Cons e m)
  then show ?case by (cases e) (auto simp: mm_emplace_rec image_iff)
qed

lemma distinct_mm_erase: "distinct (map f m) \<Longrightarrow> distinct (map f (mm_erase k m))"
  by (simp add: mm_erase_def distinct_map_filter)

end
