(* ===== verification/Cxx_Double.thy ===== *)
theory Cxx_Double
  imports Mks_Prelude
begin

text \<open>
  The part of IEEE 754 binary64 arithmetic that the program uses: conversion of a
  non-negative \<open>int32_t\<close>, multiplication, division and \<open>std::lround\<close>, on non-negative values in the
  normal range. A value is a pair \<open>(m, e)\<close> that stands for \<open>m / 2 ^ e\<close>. Every operation computes the
  exact result and rounds its significand to 53 bits, to nearest with ties to even, as the standard's
  default rounding mode does. All of it is integer arithmetic, so it evaluates.

  The lemmas bound the rounding error of a product and show when \<open>lround\<close> of a quotient is the exact
  quotient rounded half up.
\<close>

type_synonym dbl = "nat \<times> nat"

text \<open>The quotient \<open>a / b\<close> rounded to the nearest integer, ties to even.\<close>

definition rne_div :: "nat \<Rightarrow> nat \<Rightarrow> nat" where
  "rne_div a b =
     (let q = a div b; r = a mod b
      in if 2 * r < b then q else if b < 2 * r then Suc q else if even q then q else Suc q)"

fun bit_len :: "nat \<Rightarrow> nat" where
  "bit_len n = (if n = 0 then 0 else Suc (bit_len (n div 2)))"

declare bit_len.simps [simp del]

text \<open>An integer rounded to 53 significant bits.\<close>

definition round53 :: "nat \<Rightarrow> nat" where
  "round53 n = (let k = bit_len n - 53 in rne_div n (2 ^ k) * 2 ^ k)"

text \<open>The power of two that scales \<open>p / q\<close> to at least \<open>2 ^ 52\<close>.\<close>

function dbl_scale :: "nat \<Rightarrow> nat \<Rightarrow> nat" where
  "dbl_scale p q = (if p = 0 \<or> 4503599627370496 * q \<le> p then 0 else Suc (dbl_scale (2 * p) q))"
  by pat_completeness auto
termination
  by (relation "measure (\<lambda>(p, q). 4503599627370496 * q - p)") auto

declare dbl_scale.simps [simp del]

definition dbl_of_nat :: "nat \<Rightarrow> dbl" where
  "dbl_of_nat n = (round53 n, 0)"

definition dbl_mul :: "dbl \<Rightarrow> dbl \<Rightarrow> dbl" where
  "dbl_mul x y = (round53 (fst x * fst y), snd x + snd y)"

definition dbl_div :: "dbl \<Rightarrow> dbl \<Rightarrow> dbl" where
  "dbl_div x y =
     (let p = fst x * 2 ^ snd y; q = fst y * 2 ^ snd x
      in if p < 9007199254740992 * q
         then (let s = dbl_scale p q in (rne_div (p * 2 ^ s) q, s))
         else (let k = bit_len (p div q) - 53 in (rne_div p (q * 2 ^ k) * 2 ^ k, 0)))"

text \<open>\<open>std::lround\<close>: to the nearest integer, halves away from zero.\<close>

definition dbl_lround :: "dbl \<Rightarrow> nat" where
  "dbl_lround x = (2 * fst x + 2 ^ snd x) div 2 ^ Suc (snd x)"

text \<open>The literal 25.4 is the double with this significand, over \<open>2 ^ 48\<close>.\<close>

definition mm_per_inch :: dbl where
  "mm_per_inch = (0x19666666666666, 48)"

section \<open>Rounding to an integer\<close>

lemma rne_div_cases: "rne_div a b = a div b \<or> rne_div a b = Suc (a div b)"
  by (simp add: rne_div_def Let_def)

lemma rne_div_ge:
  assumes "0 < b" and "x * b \<le> a"
  shows "x \<le> rne_div a b"
proof -
  from assms have "x \<le> a div b"
    by (simp add: less_eq_div_iff_mult_less_eq)
  then show ?thesis using rne_div_cases [of a b] by linarith
qed

lemma rne_div_less:
  assumes b: "0 < b" and lt: "2 * a + b < 2 * (x * b)"
  shows "rne_div a b < x"
proof -
  define q r where "q = a div b" and "r = a mod b"
  have a: "a = q * b + r" and r: "r < b"
    using b by (simp_all add: q_def r_def)
  from lt a have 1: "2 * (q * b) + 2 * r + b < 2 * (x * b)"
    by simp
  then have "q * b < x * b" by linarith
  then have qx: "q < x" by simp
  show ?thesis
  proof (cases "2 * r < b")
    case True
    then show ?thesis using qx by (simp add: rne_div_def Let_def q_def r_def)
  next
    case False
    with 1 have "2 * (q * b) + 2 * b < 2 * (x * b)" by linarith
    then have "(Suc q) * b < x * b" by simp
    then have "Suc q < x" by (simp only: mult_less_cancel2)
    then show ?thesis using rne_div_cases [of a b] by (auto simp: q_def)
  qed
qed

lemma rne_div_one [simp]: "rne_div n (Suc 0) = n"
  by (simp add: rne_div_def Let_def)

lemma rne_div_error:
  assumes "0 < b"
  shows "2 * (rne_div a b * b) \<le> 2 * a + b" and "2 * a \<le> 2 * (rne_div a b * b) + b"
proof -
  define q r where "q = a div b" and "r = a mod b"
  have a: "a = q * b + r" and r: "r < b"
    using assms by (simp_all add: q_def r_def)
  have R: "rne_div a b = (if 2 * r < b then q else if b < 2 * r then Suc q else if even q then q else Suc q)"
    by (simp add: rne_div_def q_def r_def)
  have "2 * (rne_div a b * b) \<le> 2 * (q * b) + 2 * r + b"
    and "2 * (q * b) + 2 * r \<le> 2 * (rne_div a b * b) + b"
    using r by (simp_all add: R)
  then show "2 * (rne_div a b * b) \<le> 2 * a + b" "2 * a \<le> 2 * (rne_div a b * b) + b"
    by (simp_all add: a)
qed

section \<open>Products\<close>

lemma bit_len_bound: "n < 2 ^ bit_len n"
proof (induction n rule: bit_len.induct)
  case (1 n)
  show ?case
  proof (cases "n = 0")
    case True
    then show ?thesis by simp
  next
    case False
    with "1.IH" have "n div 2 < 2 ^ bit_len (n div 2)" by simp
    then have "n < 2 * 2 ^ bit_len (n div 2)" by linarith
    with False show ?thesis by (simp add: bit_len.simps [of n])
  qed
qed

lemma bit_len_lower: "0 < n \<Longrightarrow> 2 ^ bit_len n \<le> 2 * n"
proof (induction n rule: bit_len.induct)
  case (1 n)
  show ?case
  proof (cases "n div 2 = 0")
    case True
    with "1.prems" have "n = 1" by linarith
    then show ?thesis by (simp add: bit_len.simps [of "Suc 0"] bit_len.simps [of 0])
  next
    case False
    with 1 have "2 ^ bit_len (n div 2) \<le> 2 * (n div 2)" by simp
    then show ?thesis using "1.prems" by (simp add: bit_len.simps [of n])
  qed
qed

lemma bit_len_le:
  assumes "n < 2 ^ k"
  shows "bit_len n \<le> k"
proof (cases "n = 0")
  case True
  then show ?thesis by (simp add: bit_len.simps)
next
  case False
  then have "(2::nat) ^ bit_len n \<le> 2 * n" by (simp add: bit_len_lower)
  also have "\<dots> < 2 ^ Suc k" using assms by simp
  finally have "(2::nat) ^ bit_len n < 2 ^ Suc k" .
  then show ?thesis by (metis less_Suc_eq_le one_less_numeral_iff power_less_imp_less_exp semiring_norm(76))
qed

lemma round53_exact: "n < 2 ^ 53 \<Longrightarrow> round53 n = n"
  using bit_len_le [of n 53] by (simp add: round53_def)

lemma round53_upper: "2 ^ 53 * round53 n \<le> (2 ^ 53 + 1) * n"
  and round53_lower: "2 ^ 53 * n \<le> 2 ^ 53 * round53 n + n"
proof -
  define k where "k = bit_len n - 53"
  have e1: "2 * round53 n \<le> 2 * n + 2 ^ k" and e2: "2 * n \<le> 2 * round53 n + 2 ^ k"
    using rne_div_error [of "2 ^ k" n] by (simp_all add: round53_def k_def Let_def)
  have "round53 n = n \<or> 2 ^ 52 * 2 ^ k \<le> n"
  proof (cases "bit_len n \<le> 53")
    case True
    then show ?thesis by (simp add: round53_def)
  next
    case False
    then have "n \<noteq> 0" by (cases "n = 0") (simp_all add: bit_len.simps [of 0])
    then have "2 ^ bit_len n \<le> 2 * n" by (simp add: bit_len_lower)
    moreover have "bit_len n = 53 + k" using False by (simp add: k_def)
    ultimately have "2 ^ (53 + k) \<le> 2 * n" by simp
    then show ?thesis by (simp add: power_add)
  qed
  then show "2 ^ 53 * round53 n \<le> (2 ^ 53 + 1) * n" "2 ^ 53 * n \<le> 2 ^ 53 * round53 n + n"
    using e1 e2 by auto
qed

section \<open>Quotients\<close>

lemma dbl_scale_ge: "0 < p \<Longrightarrow> 2 ^ 52 * q \<le> p * 2 ^ dbl_scale p q"
proof (induction p q rule: dbl_scale.induct)
  case (1 p q)
  show ?case
  proof (cases "4503599627370496 * q \<le> p")
    case True
    with "1.prems" show ?thesis by (simp add: dbl_scale.simps [of p q])
  next
    case False
    with 1 have "2 ^ 52 * q \<le> (2 * p) * 2 ^ dbl_scale (2 * p) q" by simp
    with False "1.prems" show ?thesis by (simp add: dbl_scale.simps [of p q])
  qed
qed

text \<open>
  The common argument: the quotient \<open>p / q\<close> is at least \<open>t - 1 / 2\<close> and so far below \<open>t + 1 / 2\<close> that
  rounding the significand does not reach it.
\<close>

lemma lround_dbl_div:
  assumes q: "0 < q" and p: "0 < p" and small: "p < 2 ^ 53 * q"
    and s: "s = dbl_scale p q" "0 < s"
    and lo: "(2 * t) * q \<le> 2 * p + q"
    and hi: "2 * (p * 2 ^ s) + q < (2 * t + 1) * 2 ^ s * q"
  shows "dbl_lround (dbl_div (p, 0) (q, 0)) = t"
proof -
  define m where "m = rne_div (p * 2 ^ s) q"
  have D: "dbl_div (p, 0) (q, 0) = (m, s)"
    using small by (simp add: dbl_div_def Let_def m_def s(1))
  from s(2) obtain h :: nat where h: "2 ^ s = 2 * h" and h0: "0 < h"
    by (cases s) auto
  have "2 * t * h \<le> m + h"
  proof (cases t)
    case 0
    then show ?thesis by simp
  next
    case (Suc u)
    with lo have "(2 * u + 1) * q \<le> 2 * p" by (simp add: algebra_simps)
    then have "(2 * u + 1) * h * q \<le> p * (2 * h)"
      using mult_le_mono1 [of "(2 * u + 1) * q" "2 * p" h] by (simp add: algebra_simps)
    then have "(2 * u + 1) * h \<le> m"
      using rne_div_ge [OF q, of "(2 * u + 1) * h" "p * 2 ^ s"] by (simp add: m_def h)
    then show ?thesis by (simp add: Suc algebra_simps)
  qed
  moreover have "m < (2 * t + 1) * h"
    unfolding m_def by (rule rne_div_less [OF q]) (use hi in \<open>simp add: h algebra_simps\<close>)
  ultimately have "(2 * t) * (2 * h) \<le> 2 * m + 2 * h" "2 * m + 2 * h < (2 * t + 2) * (2 * h)"
    by (simp_all add: algebra_simps)
  then have "(2 * m + 2 * h) div (2 * (2 * h)) = t"
    using h0 by (intro div_nat_eqI) (simp_all add: algebra_simps)
  then show ?thesis by (simp add: D dbl_lround_def h)
qed

lemma lround_dbl_div_exact:
  assumes q: "0 < q" and p: "p < 2 ^ 52"
  shows "dbl_lround (dbl_div (p, 0) (q, 0)) = (2 * p + q) div (2 * q)"
proof (cases "p = 0")
  case True
  then show ?thesis
    using q by (simp add: dbl_div_def dbl_lround_def rne_div_def dbl_scale.simps [of 0])
next
  case False
  define s where "s = dbl_scale p q"
  define t where "t = (2 * p + q) div (2 * q)"
  have "2 ^ 52 * q \<le> p * 2 ^ s" using False by (simp add: dbl_scale_ge s_def del: power_numeral)
  also have "\<dots> < 2 ^ 52 * 2 ^ s" using p by (intro mult_strict_right_mono) simp_all
  finally have qs: "q < 2 ^ s" by simp
  with q have s0: "0 < s" by (cases s) auto
  have lo: "(2 * t) * q \<le> 2 * p + q"
    using div_times_less_eq_dividend [of "2 * p + q" "2 * q"] by (simp add: t_def ac_simps)
  have "2 * p + q < 2 * q * (t + 1)"
    using q dividend_less_div_times [of "2 * q" "2 * p + q"] by (simp add: t_def algebra_simps)
  then have "2 * p + 1 \<le> (2 * t + 1) * q" by (simp add: algebra_simps)
  then have "(2 * p + 1) * 2 ^ s \<le> (2 * t + 1) * q * 2 ^ s" by (rule mult_le_mono1)
  with qs have hi: "2 * (p * 2 ^ s) + q < (2 * t + 1) * 2 ^ s * q"
    by (simp add: algebra_simps)
  have "p < 2 ^ 53 * q" using p q by simp
  from lround_dbl_div [OF q _ this s_def s0 lo hi] False show ?thesis by (simp add: t_def)
qed

lemma lround_dbl_div_close:
  assumes q: "0 < q" and p: "0 < p" "p < 2 ^ 50 * q"
    and lo: "4 * q * t \<le> 4 * p + q" and hi: "4 * p \<le> 4 * q * t + q"
  shows "dbl_lround (dbl_div (p, 0) (q, 0)) = t"
proof -
  define s where "s = dbl_scale p q"
  have "2 ^ 52 * q \<le> p * 2 ^ s" using p by (simp add: dbl_scale_ge s_def del: power_numeral)
  also have "\<dots> < 2 ^ 50 * q * 2 ^ s" using p by (intro mult_strict_right_mono) simp_all
  finally have s4: "4 < (2::nat) ^ s" using q by simp
  then have s0: "0 < s" by (cases s) auto
  define P Q T where "P = p * 2 ^ s" and "Q = q * 2 ^ s" and "T = q * t * 2 ^ s"
  have "4 * p * 2 ^ s \<le> (4 * q * t + q) * 2 ^ s" using hi by (rule mult_le_mono1)
  then have "4 * P \<le> 4 * T + Q" by (simp add: P_def Q_def T_def algebra_simps)
  moreover have "4 * q < Q" using s4 q by (simp add: Q_def)
  ultimately have "2 * P + q < 2 * T + Q" by linarith
  then have "2 * (p * 2 ^ s) + q < (2 * t + 1) * 2 ^ s * q"
    by (simp add: P_def Q_def T_def algebra_simps)
  moreover have "p < 2 ^ 53 * q" using p by simp
  moreover have "(2 * t) * q \<le> 2 * p + q"
  proof -
    from lo have "4 * (q * t) \<le> 4 * p + q" by (simp add: mult.assoc)
    then have "2 * (q * t) \<le> 2 * p + q" by linarith
    then show ?thesis by (simp add: ac_simps)
  qed
  ultimately show ?thesis using lround_dbl_div [OF q p(1) _ s_def s0] by blast
qed

section \<open>Signed values\<close>

text \<open>
  A finite signed value is a pair \<open>(n, e)\<close> that stands for \<open>n / 2 ^ e\<close>. Sums, differences and products are
  exact and rounded to 53 bits; comparisons are exact. Infinities and NaN are left out.
\<close>

type_synonym sdbl = "int \<times> nat"

definition round53s :: "int \<Rightarrow> int" where
  "round53s n = sgn n * int (round53 (nat \<bar>n\<bar>))"

definition sdbl_of_int :: "int \<Rightarrow> sdbl" where
  "sdbl_of_int n = (round53s n, 0)"

definition sdbl_add :: "sdbl \<Rightarrow> sdbl \<Rightarrow> sdbl" where
  "sdbl_add x y =
     (let e = max (snd x) (snd y) in (round53s (fst x * 2 ^ (e - snd x) + fst y * 2 ^ (e - snd y)), e))"

definition sdbl_neg :: "sdbl \<Rightarrow> sdbl" where
  "sdbl_neg x = (- fst x, snd x)"

definition sdbl_sub :: "sdbl \<Rightarrow> sdbl \<Rightarrow> sdbl" where
  "sdbl_sub x y = sdbl_add x (sdbl_neg y)"

definition sdbl_mul :: "sdbl \<Rightarrow> sdbl \<Rightarrow> sdbl" where
  "sdbl_mul x y = (round53s (fst x * fst y), snd x + snd y)"

definition sdbl_less :: "sdbl \<Rightarrow> sdbl \<Rightarrow> bool" where
  "sdbl_less x y \<longleftrightarrow> fst x * 2 ^ snd y < fst y * 2 ^ snd x"

definition sdbl_clamp :: "sdbl \<Rightarrow> sdbl \<Rightarrow> sdbl \<Rightarrow> sdbl" where
  "sdbl_clamp v lo hi = (if sdbl_less v lo then lo else if sdbl_less hi v then hi else v)"

text \<open>\<open>std::floor\<close>, and \<open>std::lround\<close> with halves away from zero.\<close>

definition sdbl_floor :: "sdbl \<Rightarrow> int" where
  "sdbl_floor x = fst x div 2 ^ snd x"

definition sdbl_lround :: "sdbl \<Rightarrow> int" where
  "sdbl_lround x = sgn (fst x) * int (dbl_lround (nat \<bar>fst x\<bar>, snd x))"

lemma round53s_exact: "\<bar>n\<bar> < 2 ^ 53 \<Longrightarrow> round53s n = n"
  using round53_exact [of "nat \<bar>n\<bar>"] by (simp add: round53s_def nat_less_iff sgn_mult_abs)

lemma sdbl_of_int_exact: "in_i32 n \<Longrightarrow> sdbl_of_int n = (n, 0)"
  unfolding sdbl_of_int_def in_i32_def by (subst round53s_exact) auto

lemma sdbl_less_int: "in_i32 n \<Longrightarrow> sdbl_less x (sdbl_of_int n) \<longleftrightarrow> fst x < n * 2 ^ snd x"
  "in_i32 n \<Longrightarrow> sdbl_less (sdbl_of_int n) x \<longleftrightarrow> n * 2 ^ snd x < fst x"
  by (simp_all add: sdbl_less_def sdbl_of_int_exact)

lemma sdbl_sub_int:
  assumes "in_i32 n" "\<bar>fst x - n * 2 ^ snd x\<bar> < 2 ^ 53"
  shows "sdbl_sub x (sdbl_of_int n) = (fst x - n * 2 ^ snd x, snd x)"
  using assms by (simp add: sdbl_sub_def sdbl_add_def sdbl_neg_def sdbl_of_int_exact round53s_exact Let_def)

end
