(* ===== verification/Key_Codes.thy ===== *)
theory Key_Codes
  imports "HOL-Library.Word" Mks_Prelude
begin

text \<open>
  The key model of \<open>src/core/key.hpp\<close>. \<open>Key\<close> is an enumeration over \<open>uint32_t\<close> whose values are USB
  HID usages; the program casts between the enumeration and its number (\<open>keyFromEvdev\<close> even casts
  numbers that no enumerator names), so a key is its 32-bit word and every enumerator is a name for a
  number. \<open>KeyModifier\<close> is a set of flags in eight bits. The tables list the enumerators with their
  names in the order of the source.
\<close>

unbundle bit_operations_syntax

type_synonym key = "32 word"
type_synonym key_modifier = "8 word"

section \<open>Enumerators\<close>

abbreviation (input) Key_None :: key where "Key_None \<equiv> 0"
abbreviation (input) Key_ErrorOverflow :: key where "Key_ErrorOverflow \<equiv> 1"
abbreviation (input) Key_KeyboardPostFail :: key where "Key_KeyboardPostFail \<equiv> 2"
abbreviation (input) Key_KeyboardErrorUndefined :: key where "Key_KeyboardErrorUndefined \<equiv> 3"
abbreviation (input) Key_A :: key where "Key_A \<equiv> 4"
abbreviation (input) Key_B :: key where "Key_B \<equiv> 5"
abbreviation (input) Key_C :: key where "Key_C \<equiv> 6"
abbreviation (input) Key_D :: key where "Key_D \<equiv> 7"
abbreviation (input) Key_E :: key where "Key_E \<equiv> 8"
abbreviation (input) Key_F :: key where "Key_F \<equiv> 9"
abbreviation (input) Key_G :: key where "Key_G \<equiv> 10"
abbreviation (input) Key_H :: key where "Key_H \<equiv> 11"
abbreviation (input) Key_I :: key where "Key_I \<equiv> 12"
abbreviation (input) Key_J :: key where "Key_J \<equiv> 13"
abbreviation (input) Key_K :: key where "Key_K \<equiv> 14"
abbreviation (input) Key_L :: key where "Key_L \<equiv> 15"
abbreviation (input) Key_M :: key where "Key_M \<equiv> 16"
abbreviation (input) Key_N :: key where "Key_N \<equiv> 17"
abbreviation (input) Key_O :: key where "Key_O \<equiv> 18"
abbreviation (input) Key_P :: key where "Key_P \<equiv> 19"
abbreviation (input) Key_Q :: key where "Key_Q \<equiv> 20"
abbreviation (input) Key_R :: key where "Key_R \<equiv> 21"
abbreviation (input) Key_S :: key where "Key_S \<equiv> 22"
abbreviation (input) Key_T :: key where "Key_T \<equiv> 23"
abbreviation (input) Key_U :: key where "Key_U \<equiv> 24"
abbreviation (input) Key_V :: key where "Key_V \<equiv> 25"
abbreviation (input) Key_W :: key where "Key_W \<equiv> 26"
abbreviation (input) Key_X :: key where "Key_X \<equiv> 27"
abbreviation (input) Key_Y :: key where "Key_Y \<equiv> 28"
abbreviation (input) Key_Z :: key where "Key_Z \<equiv> 29"
abbreviation (input) Key_Digit1 :: key where "Key_Digit1 \<equiv> 30"
abbreviation (input) Key_Digit2 :: key where "Key_Digit2 \<equiv> 31"
abbreviation (input) Key_Digit3 :: key where "Key_Digit3 \<equiv> 32"
abbreviation (input) Key_Digit4 :: key where "Key_Digit4 \<equiv> 33"
abbreviation (input) Key_Digit5 :: key where "Key_Digit5 \<equiv> 34"
abbreviation (input) Key_Digit6 :: key where "Key_Digit6 \<equiv> 35"
abbreviation (input) Key_Digit7 :: key where "Key_Digit7 \<equiv> 36"
abbreviation (input) Key_Digit8 :: key where "Key_Digit8 \<equiv> 37"
abbreviation (input) Key_Digit9 :: key where "Key_Digit9 \<equiv> 38"
abbreviation (input) Key_Digit0 :: key where "Key_Digit0 \<equiv> 39"
abbreviation (input) Key_Enter :: key where "Key_Enter \<equiv> 40"
abbreviation (input) Key_Esc :: key where "Key_Esc \<equiv> 41"
abbreviation (input) Key_Backspace :: key where "Key_Backspace \<equiv> 42"
abbreviation (input) Key_Tab :: key where "Key_Tab \<equiv> 43"
abbreviation (input) Key_Space :: key where "Key_Space \<equiv> 44"
abbreviation (input) Key_Minus :: key where "Key_Minus \<equiv> 45"
abbreviation (input) Key_Equal :: key where "Key_Equal \<equiv> 46"
abbreviation (input) Key_LeftBrace :: key where "Key_LeftBrace \<equiv> 47"
abbreviation (input) Key_RightBrace :: key where "Key_RightBrace \<equiv> 48"
abbreviation (input) Key_Backslash :: key where "Key_Backslash \<equiv> 49"
abbreviation (input) Key_HashTilde :: key where "Key_HashTilde \<equiv> 50"
abbreviation (input) Key_Semicolon :: key where "Key_Semicolon \<equiv> 51"
abbreviation (input) Key_Apostrophe :: key where "Key_Apostrophe \<equiv> 52"
abbreviation (input) Key_Grave :: key where "Key_Grave \<equiv> 53"
abbreviation (input) Key_Comma :: key where "Key_Comma \<equiv> 54"
abbreviation (input) Key_Dot :: key where "Key_Dot \<equiv> 55"
abbreviation (input) Key_Slash :: key where "Key_Slash \<equiv> 56"
abbreviation (input) Key_CapsLock :: key where "Key_CapsLock \<equiv> 57"
abbreviation (input) Key_F1 :: key where "Key_F1 \<equiv> 58"
abbreviation (input) Key_F2 :: key where "Key_F2 \<equiv> 59"
abbreviation (input) Key_F3 :: key where "Key_F3 \<equiv> 60"
abbreviation (input) Key_F4 :: key where "Key_F4 \<equiv> 61"
abbreviation (input) Key_F5 :: key where "Key_F5 \<equiv> 62"
abbreviation (input) Key_F6 :: key where "Key_F6 \<equiv> 63"
abbreviation (input) Key_F7 :: key where "Key_F7 \<equiv> 64"
abbreviation (input) Key_F8 :: key where "Key_F8 \<equiv> 65"
abbreviation (input) Key_F9 :: key where "Key_F9 \<equiv> 66"
abbreviation (input) Key_F10 :: key where "Key_F10 \<equiv> 67"
abbreviation (input) Key_F11 :: key where "Key_F11 \<equiv> 68"
abbreviation (input) Key_F12 :: key where "Key_F12 \<equiv> 69"
abbreviation (input) Key_SysRq :: key where "Key_SysRq \<equiv> 70"
abbreviation (input) Key_ScrollLock :: key where "Key_ScrollLock \<equiv> 71"
abbreviation (input) Key_Pause :: key where "Key_Pause \<equiv> 72"
abbreviation (input) Key_Insert :: key where "Key_Insert \<equiv> 73"
abbreviation (input) Key_Home :: key where "Key_Home \<equiv> 74"
abbreviation (input) Key_PageUp :: key where "Key_PageUp \<equiv> 75"
abbreviation (input) Key_Delete :: key where "Key_Delete \<equiv> 76"
abbreviation (input) Key_End :: key where "Key_End \<equiv> 77"
abbreviation (input) Key_PageDown :: key where "Key_PageDown \<equiv> 78"
abbreviation (input) Key_Right :: key where "Key_Right \<equiv> 79"
abbreviation (input) Key_Left :: key where "Key_Left \<equiv> 80"
abbreviation (input) Key_Down :: key where "Key_Down \<equiv> 81"
abbreviation (input) Key_Up :: key where "Key_Up \<equiv> 82"
abbreviation (input) Key_NumLock :: key where "Key_NumLock \<equiv> 83"
abbreviation (input) Key_KeypadSlash :: key where "Key_KeypadSlash \<equiv> 84"
abbreviation (input) Key_KeypadAsterisk :: key where "Key_KeypadAsterisk \<equiv> 85"
abbreviation (input) Key_KeypadMinus :: key where "Key_KeypadMinus \<equiv> 86"
abbreviation (input) Key_KeypadPlus :: key where "Key_KeypadPlus \<equiv> 87"
abbreviation (input) Key_KeypadEnter :: key where "Key_KeypadEnter \<equiv> 88"
abbreviation (input) Key_Keypad1 :: key where "Key_Keypad1 \<equiv> 89"
abbreviation (input) Key_Keypad2 :: key where "Key_Keypad2 \<equiv> 90"
abbreviation (input) Key_Keypad3 :: key where "Key_Keypad3 \<equiv> 91"
abbreviation (input) Key_Keypad4 :: key where "Key_Keypad4 \<equiv> 92"
abbreviation (input) Key_Keypad5 :: key where "Key_Keypad5 \<equiv> 93"
abbreviation (input) Key_Keypad6 :: key where "Key_Keypad6 \<equiv> 94"
abbreviation (input) Key_Keypad7 :: key where "Key_Keypad7 \<equiv> 95"
abbreviation (input) Key_Keypad8 :: key where "Key_Keypad8 \<equiv> 96"
abbreviation (input) Key_Keypad9 :: key where "Key_Keypad9 \<equiv> 97"
abbreviation (input) Key_Keypad0 :: key where "Key_Keypad0 \<equiv> 98"
abbreviation (input) Key_KeypadDot :: key where "Key_KeypadDot \<equiv> 99"
abbreviation (input) Key_Key102nd :: key where "Key_Key102nd \<equiv> 100"
abbreviation (input) Key_Compose :: key where "Key_Compose \<equiv> 101"
abbreviation (input) Key_Power :: key where "Key_Power \<equiv> 102"
abbreviation (input) Key_KeypadEqual :: key where "Key_KeypadEqual \<equiv> 103"
abbreviation (input) Key_F13 :: key where "Key_F13 \<equiv> 104"
abbreviation (input) Key_F14 :: key where "Key_F14 \<equiv> 105"
abbreviation (input) Key_F15 :: key where "Key_F15 \<equiv> 106"
abbreviation (input) Key_F16 :: key where "Key_F16 \<equiv> 107"
abbreviation (input) Key_F17 :: key where "Key_F17 \<equiv> 108"
abbreviation (input) Key_F18 :: key where "Key_F18 \<equiv> 109"
abbreviation (input) Key_F19 :: key where "Key_F19 \<equiv> 110"
abbreviation (input) Key_F20 :: key where "Key_F20 \<equiv> 111"
abbreviation (input) Key_F21 :: key where "Key_F21 \<equiv> 112"
abbreviation (input) Key_F22 :: key where "Key_F22 \<equiv> 113"
abbreviation (input) Key_F23 :: key where "Key_F23 \<equiv> 114"
abbreviation (input) Key_F24 :: key where "Key_F24 \<equiv> 115"
abbreviation (input) Key_Open :: key where "Key_Open \<equiv> 116"
abbreviation (input) Key_Help :: key where "Key_Help \<equiv> 117"
abbreviation (input) Key_Props :: key where "Key_Props \<equiv> 118"
abbreviation (input) Key_Front :: key where "Key_Front \<equiv> 119"
abbreviation (input) Key_Stop :: key where "Key_Stop \<equiv> 120"
abbreviation (input) Key_Again :: key where "Key_Again \<equiv> 121"
abbreviation (input) Key_Undo :: key where "Key_Undo \<equiv> 122"
abbreviation (input) Key_Cut :: key where "Key_Cut \<equiv> 123"
abbreviation (input) Key_Copy :: key where "Key_Copy \<equiv> 124"
abbreviation (input) Key_Paste :: key where "Key_Paste \<equiv> 125"
abbreviation (input) Key_Find :: key where "Key_Find \<equiv> 126"
abbreviation (input) Key_Mute :: key where "Key_Mute \<equiv> 127"
abbreviation (input) Key_VolumeUp :: key where "Key_VolumeUp \<equiv> 128"
abbreviation (input) Key_VolumeDown :: key where "Key_VolumeDown \<equiv> 129"
abbreviation (input) Key_LockingCapsLock :: key where "Key_LockingCapsLock \<equiv> 130"
abbreviation (input) Key_LockingNumLock :: key where "Key_LockingNumLock \<equiv> 131"
abbreviation (input) Key_LockingScrollLock :: key where "Key_LockingScrollLock \<equiv> 132"
abbreviation (input) Key_KeypadComma :: key where "Key_KeypadComma \<equiv> 133"
abbreviation (input) Key_KeypadEqualSign :: key where "Key_KeypadEqualSign \<equiv> 134"
abbreviation (input) Key_Ro :: key where "Key_Ro \<equiv> 135"
abbreviation (input) Key_KatakanaHiragana :: key where "Key_KatakanaHiragana \<equiv> 136"
abbreviation (input) Key_Yen :: key where "Key_Yen \<equiv> 137"
abbreviation (input) Key_Henkan :: key where "Key_Henkan \<equiv> 138"
abbreviation (input) Key_Muhenkan :: key where "Key_Muhenkan \<equiv> 139"
abbreviation (input) Key_KeypadJpComma :: key where "Key_KeypadJpComma \<equiv> 140"
abbreviation (input) Key_Intl7 :: key where "Key_Intl7 \<equiv> 141"
abbreviation (input) Key_Intl8 :: key where "Key_Intl8 \<equiv> 142"
abbreviation (input) Key_Intl9 :: key where "Key_Intl9 \<equiv> 143"
abbreviation (input) Key_Hangeul :: key where "Key_Hangeul \<equiv> 144"
abbreviation (input) Key_Hanja :: key where "Key_Hanja \<equiv> 145"
abbreviation (input) Key_Katakana :: key where "Key_Katakana \<equiv> 146"
abbreviation (input) Key_Hiragana :: key where "Key_Hiragana \<equiv> 147"
abbreviation (input) Key_ZenkakuHankaku :: key where "Key_ZenkakuHankaku \<equiv> 148"
abbreviation (input) Key_Lang6 :: key where "Key_Lang6 \<equiv> 149"
abbreviation (input) Key_Lang7 :: key where "Key_Lang7 \<equiv> 150"
abbreviation (input) Key_Lang8 :: key where "Key_Lang8 \<equiv> 151"
abbreviation (input) Key_Lang9 :: key where "Key_Lang9 \<equiv> 152"
abbreviation (input) Key_AlternateErase :: key where "Key_AlternateErase \<equiv> 153"
abbreviation (input) Key_SysReqAttention :: key where "Key_SysReqAttention \<equiv> 154"
abbreviation (input) Key_Cancel :: key where "Key_Cancel \<equiv> 155"
abbreviation (input) Key_Clear :: key where "Key_Clear \<equiv> 156"
abbreviation (input) Key_Prior :: key where "Key_Prior \<equiv> 157"
abbreviation (input) Key_Return :: key where "Key_Return \<equiv> 158"
abbreviation (input) Key_Separator :: key where "Key_Separator \<equiv> 159"
abbreviation (input) Key_Out :: key where "Key_Out \<equiv> 160"
abbreviation (input) Key_Oper :: key where "Key_Oper \<equiv> 161"
abbreviation (input) Key_ClearAgain :: key where "Key_ClearAgain \<equiv> 162"
abbreviation (input) Key_CrSelProps :: key where "Key_CrSelProps \<equiv> 163"
abbreviation (input) Key_ExSel :: key where "Key_ExSel \<equiv> 164"
abbreviation (input) Key_Keypad00 :: key where "Key_Keypad00 \<equiv> 176"
abbreviation (input) Key_Keypad000 :: key where "Key_Keypad000 \<equiv> 177"
abbreviation (input) Key_ThousandsSeparator :: key where "Key_ThousandsSeparator \<equiv> 178"
abbreviation (input) Key_DecimalSeparator :: key where "Key_DecimalSeparator \<equiv> 179"
abbreviation (input) Key_CurrencyUnit :: key where "Key_CurrencyUnit \<equiv> 180"
abbreviation (input) Key_CurrencySubUnit :: key where "Key_CurrencySubUnit \<equiv> 181"
abbreviation (input) Key_KeypadLeftParen :: key where "Key_KeypadLeftParen \<equiv> 182"
abbreviation (input) Key_KeypadRightParen :: key where "Key_KeypadRightParen \<equiv> 183"
abbreviation (input) Key_KeypadLeftBrace :: key where "Key_KeypadLeftBrace \<equiv> 184"
abbreviation (input) Key_KeypadRightBrace :: key where "Key_KeypadRightBrace \<equiv> 185"
abbreviation (input) Key_KeypadTab :: key where "Key_KeypadTab \<equiv> 186"
abbreviation (input) Key_KeypadBackspace :: key where "Key_KeypadBackspace \<equiv> 187"
abbreviation (input) Key_KeypadA :: key where "Key_KeypadA \<equiv> 188"
abbreviation (input) Key_KeypadB :: key where "Key_KeypadB \<equiv> 189"
abbreviation (input) Key_KeypadC :: key where "Key_KeypadC \<equiv> 190"
abbreviation (input) Key_KeypadD :: key where "Key_KeypadD \<equiv> 191"
abbreviation (input) Key_KeypadE :: key where "Key_KeypadE \<equiv> 192"
abbreviation (input) Key_KeypadF :: key where "Key_KeypadF \<equiv> 193"
abbreviation (input) Key_KeypadXor :: key where "Key_KeypadXor \<equiv> 194"
abbreviation (input) Key_KeypadCaret :: key where "Key_KeypadCaret \<equiv> 195"
abbreviation (input) Key_KeypadPercent :: key where "Key_KeypadPercent \<equiv> 196"
abbreviation (input) Key_KeypadLess :: key where "Key_KeypadLess \<equiv> 197"
abbreviation (input) Key_KeypadGreater :: key where "Key_KeypadGreater \<equiv> 198"
abbreviation (input) Key_KeypadAmpersand :: key where "Key_KeypadAmpersand \<equiv> 199"
abbreviation (input) Key_KeypadDoubleAmp :: key where "Key_KeypadDoubleAmp \<equiv> 200"
abbreviation (input) Key_KeypadPipe :: key where "Key_KeypadPipe \<equiv> 201"
abbreviation (input) Key_KeypadDoublePipe :: key where "Key_KeypadDoublePipe \<equiv> 202"
abbreviation (input) Key_KeypadColon :: key where "Key_KeypadColon \<equiv> 203"
abbreviation (input) Key_KeypadHash :: key where "Key_KeypadHash \<equiv> 204"
abbreviation (input) Key_KeypadSpace :: key where "Key_KeypadSpace \<equiv> 205"
abbreviation (input) Key_KeypadAt :: key where "Key_KeypadAt \<equiv> 206"
abbreviation (input) Key_KeypadExclaim :: key where "Key_KeypadExclaim \<equiv> 207"
abbreviation (input) Key_KeypadMemStore :: key where "Key_KeypadMemStore \<equiv> 208"
abbreviation (input) Key_KeypadMemRecall :: key where "Key_KeypadMemRecall \<equiv> 209"
abbreviation (input) Key_KeypadMemClear :: key where "Key_KeypadMemClear \<equiv> 210"
abbreviation (input) Key_KeypadMemAdd :: key where "Key_KeypadMemAdd \<equiv> 211"
abbreviation (input) Key_KeypadMemSub :: key where "Key_KeypadMemSub \<equiv> 212"
abbreviation (input) Key_KeypadMemMult :: key where "Key_KeypadMemMult \<equiv> 213"
abbreviation (input) Key_KeypadMemDiv :: key where "Key_KeypadMemDiv \<equiv> 214"
abbreviation (input) Key_KeypadPlusMinus :: key where "Key_KeypadPlusMinus \<equiv> 215"
abbreviation (input) Key_KeypadClear :: key where "Key_KeypadClear \<equiv> 216"
abbreviation (input) Key_KeypadClearEntry :: key where "Key_KeypadClearEntry \<equiv> 217"
abbreviation (input) Key_KeypadBinary :: key where "Key_KeypadBinary \<equiv> 218"
abbreviation (input) Key_KeypadOctal :: key where "Key_KeypadOctal \<equiv> 219"
abbreviation (input) Key_KeypadDecimal :: key where "Key_KeypadDecimal \<equiv> 220"
abbreviation (input) Key_KeypadHexadecimal :: key where "Key_KeypadHexadecimal \<equiv> 221"
abbreviation (input) Key_LeftCtrl :: key where "Key_LeftCtrl \<equiv> 224"
abbreviation (input) Key_LeftShift :: key where "Key_LeftShift \<equiv> 225"
abbreviation (input) Key_LeftAlt :: key where "Key_LeftAlt \<equiv> 226"
abbreviation (input) Key_LeftMeta :: key where "Key_LeftMeta \<equiv> 227"
abbreviation (input) Key_RightCtrl :: key where "Key_RightCtrl \<equiv> 228"
abbreviation (input) Key_RightShift :: key where "Key_RightShift \<equiv> 229"
abbreviation (input) Key_RightAlt :: key where "Key_RightAlt \<equiv> 230"
abbreviation (input) Key_RightMeta :: key where "Key_RightMeta \<equiv> 231"
abbreviation (input) Key_MediaPlayPause :: key where "Key_MediaPlayPause \<equiv> 232"
abbreviation (input) Key_MediaStopCd :: key where "Key_MediaStopCd \<equiv> 233"
abbreviation (input) Key_MediaPreviousSong :: key where "Key_MediaPreviousSong \<equiv> 234"
abbreviation (input) Key_MediaNextSong :: key where "Key_MediaNextSong \<equiv> 235"
abbreviation (input) Key_MediaEjectCd :: key where "Key_MediaEjectCd \<equiv> 236"
abbreviation (input) Key_MediaVolumeUp :: key where "Key_MediaVolumeUp \<equiv> 237"
abbreviation (input) Key_MediaVolumeDown :: key where "Key_MediaVolumeDown \<equiv> 238"
abbreviation (input) Key_MediaMute :: key where "Key_MediaMute \<equiv> 239"
abbreviation (input) Key_MediaWww :: key where "Key_MediaWww \<equiv> 240"
abbreviation (input) Key_MediaBack :: key where "Key_MediaBack \<equiv> 241"
abbreviation (input) Key_MediaForward :: key where "Key_MediaForward \<equiv> 242"
abbreviation (input) Key_MediaStop :: key where "Key_MediaStop \<equiv> 243"
abbreviation (input) Key_MediaFind :: key where "Key_MediaFind \<equiv> 244"
abbreviation (input) Key_MediaScrollUp :: key where "Key_MediaScrollUp \<equiv> 245"
abbreviation (input) Key_MediaScrollDown :: key where "Key_MediaScrollDown \<equiv> 246"
abbreviation (input) Key_MediaEdit :: key where "Key_MediaEdit \<equiv> 247"
abbreviation (input) Key_MediaSleep :: key where "Key_MediaSleep \<equiv> 248"
abbreviation (input) Key_MediaCoffee :: key where "Key_MediaCoffee \<equiv> 249"
abbreviation (input) Key_MediaRefresh :: key where "Key_MediaRefresh \<equiv> 250"
abbreviation (input) Key_MediaCalc :: key where "Key_MediaCalc \<equiv> 251"

abbreviation (input) Mod_None :: key_modifier where "Mod_None \<equiv> 0"
abbreviation (input) Mod_LeftCtrl :: key_modifier where "Mod_LeftCtrl \<equiv> 1"
abbreviation (input) Mod_LeftShift :: key_modifier where "Mod_LeftShift \<equiv> 2"
abbreviation (input) Mod_LeftAlt :: key_modifier where "Mod_LeftAlt \<equiv> 4"
abbreviation (input) Mod_LeftMeta :: key_modifier where "Mod_LeftMeta \<equiv> 8"
abbreviation (input) Mod_RightCtrl :: key_modifier where "Mod_RightCtrl \<equiv> 16"
abbreviation (input) Mod_RightShift :: key_modifier where "Mod_RightShift \<equiv> 32"
abbreviation (input) Mod_RightAlt :: key_modifier where "Mod_RightAlt \<equiv> 64"
abbreviation (input) Mod_RightMeta :: key_modifier where "Mod_RightMeta \<equiv> 128"

section \<open>The enumerators by name\<close>

definition key_table_keyboard :: "(string \<times> key) list" where
  "key_table_keyboard =
    [(''None'', Key_None), (''ErrorOverflow'', Key_ErrorOverflow),
     (''KeyboardPostFail'', Key_KeyboardPostFail),
     (''KeyboardErrorUndefined'', Key_KeyboardErrorUndefined), (''A'', Key_A), (''B'', Key_B),
     (''C'', Key_C), (''D'', Key_D), (''E'', Key_E), (''F'', Key_F), (''G'', Key_G),
     (''H'', Key_H), (''I'', Key_I), (''J'', Key_J), (''K'', Key_K), (''L'', Key_L),
     (''M'', Key_M), (''N'', Key_N), (''O'', Key_O), (''P'', Key_P), (''Q'', Key_Q),
     (''R'', Key_R), (''S'', Key_S), (''T'', Key_T), (''U'', Key_U), (''V'', Key_V),
     (''W'', Key_W), (''X'', Key_X), (''Y'', Key_Y), (''Z'', Key_Z), (''Digit1'', Key_Digit1),
     (''Digit2'', Key_Digit2), (''Digit3'', Key_Digit3), (''Digit4'', Key_Digit4),
     (''Digit5'', Key_Digit5), (''Digit6'', Key_Digit6), (''Digit7'', Key_Digit7),
     (''Digit8'', Key_Digit8), (''Digit9'', Key_Digit9), (''Digit0'', Key_Digit0),
     (''Enter'', Key_Enter), (''Esc'', Key_Esc), (''Backspace'', Key_Backspace),
     (''Tab'', Key_Tab), (''Space'', Key_Space), (''Minus'', Key_Minus), (''Equal'', Key_Equal),
     (''LeftBrace'', Key_LeftBrace), (''RightBrace'', Key_RightBrace),
     (''Backslash'', Key_Backslash), (''HashTilde'', Key_HashTilde),
     (''Semicolon'', Key_Semicolon), (''Apostrophe'', Key_Apostrophe), (''Grave'', Key_Grave),
     (''Comma'', Key_Comma), (''Dot'', Key_Dot), (''Slash'', Key_Slash),
     (''CapsLock'', Key_CapsLock), (''F1'', Key_F1), (''F2'', Key_F2), (''F3'', Key_F3),
     (''F4'', Key_F4), (''F5'', Key_F5), (''F6'', Key_F6), (''F7'', Key_F7), (''F8'', Key_F8),
     (''F9'', Key_F9), (''F10'', Key_F10), (''F11'', Key_F11), (''F12'', Key_F12)]"

definition key_table_navigation :: "(string \<times> key) list" where
  "key_table_navigation =
    [(''SysRq'', Key_SysRq), (''ScrollLock'', Key_ScrollLock), (''Pause'', Key_Pause),
     (''Insert'', Key_Insert), (''Home'', Key_Home), (''PageUp'', Key_PageUp),
     (''Delete'', Key_Delete), (''End'', Key_End), (''PageDown'', Key_PageDown),
     (''Right'', Key_Right), (''Left'', Key_Left), (''Down'', Key_Down), (''Up'', Key_Up),
     (''NumLock'', Key_NumLock), (''KeypadSlash'', Key_KeypadSlash),
     (''KeypadAsterisk'', Key_KeypadAsterisk), (''KeypadMinus'', Key_KeypadMinus),
     (''KeypadPlus'', Key_KeypadPlus), (''KeypadEnter'', Key_KeypadEnter),
     (''Keypad1'', Key_Keypad1), (''Keypad2'', Key_Keypad2), (''Keypad3'', Key_Keypad3),
     (''Keypad4'', Key_Keypad4), (''Keypad5'', Key_Keypad5), (''Keypad6'', Key_Keypad6),
     (''Keypad7'', Key_Keypad7), (''Keypad8'', Key_Keypad8), (''Keypad9'', Key_Keypad9),
     (''Keypad0'', Key_Keypad0), (''KeypadDot'', Key_KeypadDot), (''Key102nd'', Key_Key102nd),
     (''Compose'', Key_Compose), (''Power'', Key_Power), (''KeypadEqual'', Key_KeypadEqual)]"

definition key_table_function :: "(string \<times> key) list" where
  "key_table_function =
    [(''F13'', Key_F13), (''F14'', Key_F14), (''F15'', Key_F15), (''F16'', Key_F16),
     (''F17'', Key_F17), (''F18'', Key_F18), (''F19'', Key_F19), (''F20'', Key_F20),
     (''F21'', Key_F21), (''F22'', Key_F22), (''F23'', Key_F23), (''F24'', Key_F24),
     (''Open'', Key_Open), (''Help'', Key_Help), (''Props'', Key_Props), (''Front'', Key_Front),
     (''Stop'', Key_Stop), (''Again'', Key_Again), (''Undo'', Key_Undo), (''Cut'', Key_Cut),
     (''Copy'', Key_Copy), (''Paste'', Key_Paste), (''Find'', Key_Find), (''Mute'', Key_Mute),
     (''VolumeUp'', Key_VolumeUp), (''VolumeDown'', Key_VolumeDown)]"

definition key_table_international :: "(string \<times> key) list" where
  "key_table_international =
    [(''LockingCapsLock'', Key_LockingCapsLock), (''LockingNumLock'', Key_LockingNumLock),
     (''LockingScrollLock'', Key_LockingScrollLock), (''KeypadComma'', Key_KeypadComma),
     (''KeypadEqualSign'', Key_KeypadEqualSign), (''Ro'', Key_Ro),
     (''KatakanaHiragana'', Key_KatakanaHiragana), (''Yen'', Key_Yen), (''Henkan'', Key_Henkan),
     (''Muhenkan'', Key_Muhenkan), (''KeypadJpComma'', Key_KeypadJpComma),
     (''Intl7'', Key_Intl7), (''Intl8'', Key_Intl8), (''Intl9'', Key_Intl9),
     (''Hangeul'', Key_Hangeul), (''Hanja'', Key_Hanja), (''Katakana'', Key_Katakana),
     (''Hiragana'', Key_Hiragana), (''ZenkakuHankaku'', Key_ZenkakuHankaku),
     (''Lang6'', Key_Lang6), (''Lang7'', Key_Lang7), (''Lang8'', Key_Lang8),
     (''Lang9'', Key_Lang9), (''AlternateErase'', Key_AlternateErase),
     (''SysReqAttention'', Key_SysReqAttention), (''Cancel'', Key_Cancel),
     (''Clear'', Key_Clear), (''Prior'', Key_Prior), (''Return'', Key_Return),
     (''Separator'', Key_Separator), (''Out'', Key_Out), (''Oper'', Key_Oper),
     (''ClearAgain'', Key_ClearAgain), (''CrSelProps'', Key_CrSelProps), (''ExSel'', Key_ExSel)]"

definition key_table_keypad :: "(string \<times> key) list" where
  "key_table_keypad =
    [(''Keypad00'', Key_Keypad00), (''Keypad000'', Key_Keypad000),
     (''ThousandsSeparator'', Key_ThousandsSeparator),
     (''DecimalSeparator'', Key_DecimalSeparator), (''CurrencyUnit'', Key_CurrencyUnit),
     (''CurrencySubUnit'', Key_CurrencySubUnit), (''KeypadLeftParen'', Key_KeypadLeftParen),
     (''KeypadRightParen'', Key_KeypadRightParen), (''KeypadLeftBrace'', Key_KeypadLeftBrace),
     (''KeypadRightBrace'', Key_KeypadRightBrace), (''KeypadTab'', Key_KeypadTab),
     (''KeypadBackspace'', Key_KeypadBackspace), (''KeypadA'', Key_KeypadA),
     (''KeypadB'', Key_KeypadB), (''KeypadC'', Key_KeypadC), (''KeypadD'', Key_KeypadD),
     (''KeypadE'', Key_KeypadE), (''KeypadF'', Key_KeypadF), (''KeypadXor'', Key_KeypadXor),
     (''KeypadCaret'', Key_KeypadCaret), (''KeypadPercent'', Key_KeypadPercent),
     (''KeypadLess'', Key_KeypadLess), (''KeypadGreater'', Key_KeypadGreater),
     (''KeypadAmpersand'', Key_KeypadAmpersand), (''KeypadDoubleAmp'', Key_KeypadDoubleAmp),
     (''KeypadPipe'', Key_KeypadPipe), (''KeypadDoublePipe'', Key_KeypadDoublePipe),
     (''KeypadColon'', Key_KeypadColon), (''KeypadHash'', Key_KeypadHash),
     (''KeypadSpace'', Key_KeypadSpace), (''KeypadAt'', Key_KeypadAt),
     (''KeypadExclaim'', Key_KeypadExclaim), (''KeypadMemStore'', Key_KeypadMemStore),
     (''KeypadMemRecall'', Key_KeypadMemRecall), (''KeypadMemClear'', Key_KeypadMemClear),
     (''KeypadMemAdd'', Key_KeypadMemAdd), (''KeypadMemSub'', Key_KeypadMemSub),
     (''KeypadMemMult'', Key_KeypadMemMult), (''KeypadMemDiv'', Key_KeypadMemDiv),
     (''KeypadPlusMinus'', Key_KeypadPlusMinus), (''KeypadClear'', Key_KeypadClear),
     (''KeypadClearEntry'', Key_KeypadClearEntry), (''KeypadBinary'', Key_KeypadBinary),
     (''KeypadOctal'', Key_KeypadOctal), (''KeypadDecimal'', Key_KeypadDecimal),
     (''KeypadHexadecimal'', Key_KeypadHexadecimal)]"

definition key_table_control :: "(string \<times> key) list" where
  "key_table_control =
    [(''LeftCtrl'', Key_LeftCtrl), (''LeftShift'', Key_LeftShift), (''LeftAlt'', Key_LeftAlt),
     (''LeftMeta'', Key_LeftMeta), (''RightCtrl'', Key_RightCtrl),
     (''RightShift'', Key_RightShift), (''RightAlt'', Key_RightAlt),
     (''RightMeta'', Key_RightMeta), (''MediaPlayPause'', Key_MediaPlayPause),
     (''MediaStopCd'', Key_MediaStopCd), (''MediaPreviousSong'', Key_MediaPreviousSong),
     (''MediaNextSong'', Key_MediaNextSong), (''MediaEjectCd'', Key_MediaEjectCd),
     (''MediaVolumeUp'', Key_MediaVolumeUp), (''MediaVolumeDown'', Key_MediaVolumeDown),
     (''MediaMute'', Key_MediaMute), (''MediaWww'', Key_MediaWww),
     (''MediaBack'', Key_MediaBack), (''MediaForward'', Key_MediaForward),
     (''MediaStop'', Key_MediaStop), (''MediaFind'', Key_MediaFind),
     (''MediaScrollUp'', Key_MediaScrollUp), (''MediaScrollDown'', Key_MediaScrollDown),
     (''MediaEdit'', Key_MediaEdit), (''MediaSleep'', Key_MediaSleep),
     (''MediaCoffee'', Key_MediaCoffee), (''MediaRefresh'', Key_MediaRefresh),
     (''MediaCalc'', Key_MediaCalc)]"

definition key_table :: "(string \<times> key) list" where
  "key_table = key_table_keyboard @ key_table_navigation @ key_table_function @
     key_table_international @ key_table_keypad @ key_table_control"

definition modifier_table :: "(string \<times> key_modifier) list" where
  "modifier_table =
    [(''None'', Mod_None),
     (''LeftCtrl'', Mod_LeftCtrl),
     (''LeftShift'', Mod_LeftShift),
     (''LeftAlt'', Mod_LeftAlt),
     (''LeftMeta'', Mod_LeftMeta),
     (''RightCtrl'', Mod_RightCtrl),
     (''RightShift'', Mod_RightShift),
     (''RightAlt'', Mod_RightAlt),
     (''RightMeta'', Mod_RightMeta)]"

section \<open>Operators on modifiers\<close>

definition modifier_or :: "key_modifier \<Rightarrow> key_modifier \<Rightarrow> key_modifier" where
  "modifier_or lhs rhs = lhs OR rhs"

definition modifier_and :: "key_modifier \<Rightarrow> key_modifier \<Rightarrow> key_modifier" where
  "modifier_and lhs rhs = lhs AND rhs"

definition modifier_not :: "key_modifier \<Rightarrow> key_modifier" where
  "modifier_not lhs = NOT lhs"

lemma modifier_set_clear: "modifier_and (modifier_or m f) (modifier_not f) = modifier_and m (modifier_not f)"
  by (simp add: modifier_or_def modifier_and_def modifier_not_def bit.conj_disj_distrib2)

lemma modifier_or_and: "modifier_and (modifier_or m f) f = f"
  by (simp add: modifier_or_def modifier_and_def bit.conj_disj_distrib2 word_bw_comms)

lemma modifier_cleared: "modifier_and (modifier_and m (modifier_not f)) f = 0"
  by (simp add: modifier_and_def modifier_not_def word_bw_assocs)

text \<open>A fold that adds one flag per name has exactly the flags of the names that satisfy the test.\<close>

lemma flag_of_fold:
  assumes "distinct (map snd flags)" "\<forall>f \<in> set (map snd flags). \<forall>g \<in> set (map snd flags). f \<noteq> g \<longrightarrow> f AND g = 0"
    and "(name, flag) \<in> set flags" "flag \<noteq> 0" "\<forall>g \<in> set (map snd flags). m AND g = 0"
  shows "fold (\<lambda>(name, flag) m. if down name then modifier_or m flag else m) flags m AND flag \<noteq> 0 \<longleftrightarrow> down name"
proof -
  have keep: "fold (\<lambda>(name, flag) m. if down name then modifier_or m flag else m) fs m AND g = m AND g"
    if "\<forall>f \<in> set (map snd fs). f AND g = 0" for fs m and g :: "8 word"
    using that
    by (induction fs arbitrary: m) (auto simp: modifier_or_def bit.conj_disj_distrib2)
  obtain before after where flags: "flags = before @ (name, flag) # after"
    using assms(3) by (auto dest: split_list)
  have "\<forall>f \<in> set (map snd before) \<union> set (map snd after). f AND flag = 0"
    using assms(1,2) by (auto simp: flags image_iff)
  moreover have "m AND flag = 0" using assms(3,5) by (force)
  ultimately show ?thesis
    using assms(4) keep [of before flag m]
    by (simp add: flags keep [of after flag]) (simp add: modifier_or_def bit.conj_disj_distrib2)
qed

end
