(* ===== verification/Core_Events.thy ===== *)
theory Core_Events
  imports Key_Codes
begin

text \<open>
  The value types of \<open>src/core/events.hpp\<close> and \<open>src/core/mouse.hpp\<close>: the input events that capture,
  router, transport and injector exchange, and the description of one monitor. \<open>int32_t\<close> fields are
  integers that \<open>in_i32\<close> bounds, \<open>uint32_t\<close> fields that are only stored and compared are naturals,
  key codes are words (theory \<open>Key_Codes\<close>). The fields of a record carry its initials.
\<close>

datatype mouse_button = MouseButton_None | MouseButton_Left | MouseButton_Right | MouseButton_Middle

record mouse_move_event =
  mv_x :: int
  mv_y :: int
  mv_screenIndex :: nat
  mv_deltaX :: int
  mv_deltaY :: int

record mouse_button_event =
  mb_x :: int
  mb_y :: int
  mb_screenIndex :: nat
  mb_button :: mouse_button
  mb_release :: bool

record mouse_wheel_event =
  mw_x :: int
  mw_y :: int
  mw_deltaX :: int
  mw_deltaY :: int

record key_event =
  ke_key :: key
  ke_modifiers :: key_modifier
  ke_nativeCode :: "32 word"
  ke_repeat :: bool
  ke_release :: bool

record screen_info =
  si_x :: int
  si_y :: int
  si_width :: int
  si_height :: int
  si_dpi :: int
  si_name :: string
  si_primary :: bool

datatype input_event =
    KeyEvent key_event
  | MouseButtonEvent mouse_button_event
  | MouseMoveEvent mouse_move_event
  | MouseWheelEvent mouse_wheel_event

text \<open>The absolute moves that the server sends: every other field keeps its default.\<close>

definition absolute_move :: "int \<Rightarrow> int \<Rightarrow> nat \<Rightarrow> mouse_move_event" where
  "absolute_move x y screen =
     \<lparr>mv_x = x, mv_y = y, mv_screenIndex = screen, mv_deltaX = 0, mv_deltaY = 0\<rparr>"

text \<open>The ranges of the C++ types.\<close>

definition screen_info_typed :: "screen_info \<Rightarrow> bool" where
  "screen_info_typed info \<longleftrightarrow>
     in_i32 (si_x info) \<and> in_i32 (si_y info) \<and> in_i32 (si_width info) \<and> in_i32 (si_height info) \<and>
     in_i32 (si_dpi info)"

definition mouse_move_typed :: "mouse_move_event \<Rightarrow> bool" where
  "mouse_move_typed e \<longleftrightarrow>
     in_i32 (mv_x e) \<and> in_i32 (mv_y e) \<and> in_i32 (mv_deltaX e) \<and> in_i32 (mv_deltaY e)"

lemma screen_info_typedD:
  "screen_info_typed info \<Longrightarrow> in_i32 (si_width info)"
  "screen_info_typed info \<Longrightarrow> in_i32 (si_height info)"
  by (simp_all add: screen_info_typed_def)

end
