(* ===== verification/Screen_Topology.thy ===== *)
theory Screen_Topology
  imports Cxx_Double Core_Events
begin

text \<open>
  The square-grid topology of \<open>src/core/topology.hpp\<close> and \<open>src/core/topology.cpp\<close>. A screen occupies
  one integer cell; the grid answers who is next to whom, the real rectangle of a screen answers which
  border a point touches and at which pixel the cursor enters the neighbour.

  \<^item> \<open>topology\<close> is the class \<open>ScreenTopology\<close>: the map of screens by key and the map of keys by cell.
  \<^item> \<open>addScreen\<close>, \<open>removeOwner\<close>, \<open>findScreen\<close>, \<open>screens\<close>, \<open>findNeighbor\<close>, \<open>hitEdge\<close> and
    \<open>mapEntryPoint\<close> are its methods; signed overflow is undefined behaviour (\<open>None\<close>).
  \<^item> \<open>topo_inv\<close> is the invariant that the two maps are inverse to each other and hold valid rectangles;
    \<open>grid_of\<close> is the abstract view, one partial function from cells to screens.
\<close>

section \<open>Data\<close>

datatype topology_error =
  TopologyOk | InvalidScreenRect | DuplicateScreen | CellOccupied | UnknownScreen | MissingNeighbor

datatype edge = Edge_Left | Edge_Right | Edge_Top | Edge_Bottom

datatype grid_position = GridPosition (cell_x: int) (cell_y: int)

datatype screen_key = ScreenKey (key_ownerId: string) (key_screenIndex: nat)

text \<open>\<open>operator<=>\<close> is defaulted: lexicographic in the members.\<close>

instantiation grid_position :: linorder
begin

definition less_eq_grid_position :: "grid_position \<Rightarrow> grid_position \<Rightarrow> bool" where
  "a \<le> b \<longleftrightarrow> cell_x a < cell_x b \<or> (cell_x a = cell_x b \<and> cell_y a \<le> cell_y b)"

definition less_grid_position :: "grid_position \<Rightarrow> grid_position \<Rightarrow> bool" where
  "a < b \<longleftrightarrow> cell_x a < cell_x b \<or> (cell_x a = cell_x b \<and> cell_y a < cell_y b)"

instance
  by standard
     (auto simp: less_eq_grid_position_def less_grid_position_def intro: grid_position.expand)

end

instantiation screen_key :: linorder
begin

definition less_eq_screen_key :: "screen_key \<Rightarrow> screen_key \<Rightarrow> bool" where
  "a \<le> b \<longleftrightarrow> key_ownerId a < key_ownerId b \<or>
     (key_ownerId a = key_ownerId b \<and> key_screenIndex a \<le> key_screenIndex b)"

definition less_screen_key :: "screen_key \<Rightarrow> screen_key \<Rightarrow> bool" where
  "a < b \<longleftrightarrow> key_ownerId a < key_ownerId b \<or>
     (key_ownerId a = key_ownerId b \<and> key_screenIndex a < key_screenIndex b)"

instance
  by standard
     (auto simp: less_eq_screen_key_def less_screen_key_def intro: screen_key.expand)

end

record topology_screen =
  ts_key :: screen_key
  ts_cell :: grid_position
  ts_info :: screen_info
  ts_local :: bool

record screen_point =
  sp_key :: screen_key
  sp_x :: int
  sp_y :: int

record topology =
  topo_screens :: "(screen_key, topology_screen) std_map"
  topo_cells :: "(grid_position, screen_key) std_map"

definition empty_topology :: topology where
  "empty_topology = \<lparr>topo_screens = [], topo_cells = []\<rparr>"

section \<open>File-local helpers\<close>

definition isValidRect :: "screen_info \<Rightarrow> bool" where
  "isValidRect info \<longleftrightarrow> si_width info > 0 \<and> si_height info > 0"

fun neighborCell :: "grid_position \<Rightarrow> edge \<Rightarrow> grid_position ub" where
  "neighborCell cell Edge_Left = do { x \<leftarrow> i32 (cell_x cell - 1); Some (GridPosition x (cell_y cell)) }"
| "neighborCell cell Edge_Right = do { x \<leftarrow> i32 (cell_x cell + 1); Some (GridPosition x (cell_y cell)) }"
| "neighborCell cell Edge_Top = do { y \<leftarrow> i32 (cell_y cell - 1); Some (GridPosition (cell_x cell) y) }"
| "neighborCell cell Edge_Bottom = do { y \<leftarrow> i32 (cell_y cell + 1); Some (GridPosition (cell_x cell) y) }"

definition entryCoordinate :: "int \<Rightarrow> int \<Rightarrow> int \<Rightarrow> int ub" where
  "entryCoordinate source sourceExtent targetExtent =
     (if sourceExtent \<le> 1 \<or> targetExtent \<le> 1 then Some 0
      else do {
        sourceSpan \<leftarrow> i32 (sourceExtent - 1);
        targetSpan \<leftarrow> i32 (targetExtent - 1);
        let clamped = std_clamp source 0 sourceSpan;
        let mapped = dbl_lround (dbl_div
              (dbl_mul (dbl_of_nat (nat clamped)) (dbl_of_nat (nat targetSpan)))
              (dbl_of_nat (nat sourceSpan)));
        Some (std_clamp (int32_cast (int mapped)) 0 targetSpan)
      })"

section \<open>Methods\<close>

definition addScreen :: "topology_screen \<Rightarrow> topology \<Rightarrow> topology_error + topology" where
  "addScreen screen t =
     (if \<not> isValidRect (ts_info screen) then Inl InvalidScreenRect
      else if map_find (topo_screens t) (ts_key screen) \<noteq> None then Inl DuplicateScreen
      else if map_find (topo_cells t) (ts_cell screen) \<noteq> None then Inl CellOccupied
      else Inr \<lparr>topo_screens = map_emplace (ts_key screen) screen (topo_screens t),
                topo_cells = map_emplace (ts_cell screen) (ts_key screen) (topo_cells t)\<rparr>)"

fun removeOwner_loop ::
  "string \<Rightarrow> (screen_key, topology_screen) std_map \<Rightarrow> (grid_position, screen_key) std_map \<Rightarrow>
     (screen_key, topology_screen) std_map \<times> (grid_position, screen_key) std_map" where
  "removeOwner_loop owner [] cells = ([], cells)"
| "removeOwner_loop owner ((key, screen) # rest) cells =
     (if key_ownerId key = owner
      then removeOwner_loop owner rest (map_erase (ts_cell screen) cells)
      else (let (kept, cells') = removeOwner_loop owner rest cells
            in ((key, screen) # kept, cells')))"

definition removeOwner :: "string \<Rightarrow> topology \<Rightarrow> topology" where
  "removeOwner owner t =
     (let (screens, cells) = removeOwner_loop owner (topo_screens t) (topo_cells t)
      in \<lparr>topo_screens = screens, topo_cells = cells\<rparr>)"

definition findScreen :: "topology \<Rightarrow> screen_key \<Rightarrow> topology_screen option" where
  "findScreen t key = map_find (topo_screens t) key"

definition screens :: "topology \<Rightarrow> topology_screen list" where
  "screens t = map snd (topo_screens t)"

definition findNeighbor :: "topology \<Rightarrow> screen_key \<Rightarrow> edge \<Rightarrow> screen_key option ub" where
  "findNeighbor t key edge =
     (case findScreen t key of
        None \<Rightarrow> Some None
      | Some screen \<Rightarrow> do {
          cell \<leftarrow> neighborCell (ts_cell screen) edge;
          Some (map_find (topo_cells t) cell)
        })"

definition hitEdge :: "topology \<Rightarrow> screen_point \<Rightarrow> edge option ub" where
  "hitEdge t point =
     (case findScreen t (sp_key point) of
        None \<Rightarrow> Some None
      | Some screen \<Rightarrow>
          if sp_x point \<le> 0 then Some (Some Edge_Left)
          else do {
            right \<leftarrow> i32 (si_width (ts_info screen) - 1);
            if sp_x point \<ge> right then Some (Some Edge_Right)
            else if sp_y point \<le> 0 then Some (Some Edge_Top)
            else do {
              bottom \<leftarrow> i32 (si_height (ts_info screen) - 1);
              if sp_y point \<ge> bottom then Some (Some Edge_Bottom) else Some None
            }
          })"

fun entryPixel :: "edge \<Rightarrow> screen_point \<Rightarrow> screen_info \<Rightarrow> screen_info \<Rightarrow> (int \<times> int) ub" where
  "entryPixel Edge_Left from source target = do {
     x \<leftarrow> i32 (si_width target - 1);
     y \<leftarrow> entryCoordinate (sp_y from) (si_height source) (si_height target);
     Some (x, y) }"
| "entryPixel Edge_Right from source target = do {
     y \<leftarrow> entryCoordinate (sp_y from) (si_height source) (si_height target);
     Some (0, y) }"
| "entryPixel Edge_Top from source target = do {
     x \<leftarrow> entryCoordinate (sp_x from) (si_width source) (si_width target);
     y \<leftarrow> i32 (si_height target - 1);
     Some (x, y) }"
| "entryPixel Edge_Bottom from source target = do {
     x \<leftarrow> entryCoordinate (sp_x from) (si_width source) (si_width target);
     Some (x, 0) }"

definition mapEntryPoint :: "topology \<Rightarrow> screen_point \<Rightarrow> edge \<Rightarrow> (topology_error + screen_point) ub" where
  "mapEntryPoint t from edge =
     (case findScreen t (sp_key from) of
        None \<Rightarrow> Some (Inl UnknownScreen)
      | Some source \<Rightarrow> do {
          targetKey \<leftarrow> findNeighbor t (sp_key from) edge;
          case targetKey of
            None \<Rightarrow> Some (Inl MissingNeighbor)
          | Some key \<Rightarrow>
              (case findScreen t key of
                 None \<Rightarrow> Some (Inl UnknownScreen)
               | Some target \<Rightarrow> do {
                   (x, y) \<leftarrow> entryPixel edge from (ts_info source) (ts_info target);
                   Some (Inr \<lparr>sp_key = key, sp_x = x, sp_y = y\<rparr>)
                 })
        })"

section \<open>Entry coordinates\<close>

lemma round53_i32:
  assumes "in_i32 x"
  shows "round53 (nat x) = nat x"
proof -
  from assms have "nat x \<le> 2147483647" by (simp add: in_i32_def nat_le_iff)
  then have "nat x < 2 ^ 53" by simp
  then show ?thesis by (rule round53_exact)
qed

lemma entryCoordinate_degenerate [simp]:
  "sourceExtent \<le> 1 \<or> targetExtent \<le> 1 \<Longrightarrow> entryCoordinate y sourceExtent targetExtent = Some 0"
  by (simp add: entryCoordinate_def)

lemma entryCoordinate_unfold:
  assumes "1 < s" "1 < t" "in_i32 s" "in_i32 t"
  shows "entryCoordinate y s t =
    Some (std_clamp (int32_cast (int (dbl_lround (dbl_div
      (round53 (nat (std_clamp y 0 (s - 1)) * nat (t - 1)), 0) (nat (s - 1), 0))))) 0 (t - 1))"
proof -
  have r: "in_i32 (s - 1)" "in_i32 (t - 1)" "in_i32 (std_clamp y 0 (s - 1))"
    using assms std_clamp_bounds [of 0 "s - 1" y] by (simp_all add: in_i32_def)
  then show ?thesis
    using assms by (simp add: entryCoordinate_def dbl_of_nat_def dbl_mul_def round53_i32)
qed

lemma round_quotient_le:
  fixes c s t :: nat
  assumes "0 < s" "c \<le> s"
  shows "(2 * (c * t) + s) div (2 * s) \<le> t"
proof -
  have "c * t \<le> s * t" using assms(2) by (rule mult_le_mono1)
  then have "2 * (c * t) + s < 2 * (s * t) + 2 * s" using assms(1) by linarith
  then have "2 * (c * t) + s < Suc t * (2 * s)" by (simp add: algebra_simps)
  then have "(2 * (c * t) + s) div (2 * s) < Suc t"
    by (simp add: div_less_iff_less_mult assms(1))
  then show ?thesis by simp
qed

lemma entryCoordinate_nat:
  assumes c: "c \<le> s" and s: "0 < s" and t: "0 < t" and small: "s * t < 2 ^ 52"
    and r: "in_i32 (int s + 1)" "in_i32 (int t + 1)"
  shows "entryCoordinate (int c) (int s + 1) (int t + 1) = Some (int ((2 * (c * t) + s) div (2 * s)))"
proof -
  define n where "n = (2 * (c * t) + s) div (2 * s)"
  have ct: "c * t < 2 ^ 52" using mult_le_mono1 [OF c, of t] small by linarith
  then have "round53 (c * t) = c * t" by (intro round53_exact) simp
  then have "dbl_lround (dbl_div (round53 (c * t), 0) (s, 0)) = n"
    using lround_dbl_div_exact [OF s ct] by (simp add: n_def)
  moreover have "n \<le> t" unfolding n_def by (rule round_quotient_le [OF s c])
  moreover from this r have "in_i32 (int n)" by (simp add: in_i32_def)
  ultimately show ?thesis
    using s t c r by (simp add: entryCoordinate_unfold n_def [symmetric])
qed

lemma nat_spans:
  assumes "1 < s" "1 < t"
  obtains S T where "s = int S + 1" "t = int T + 1" "0 < S" "0 < T"
proof
  show "s = int (nat (s - 1)) + 1" "t = int (nat (t - 1)) + 1" "0 < nat (s - 1)" "0 < nat (t - 1)"
    using assms by simp_all
qed

lemma entryCoordinate_clamped: "entryCoordinate (std_clamp y 0 (s - 1)) s t = entryCoordinate y s t"
proof (cases "s \<le> 1")
  case False
  then have "std_clamp (std_clamp y 0 (s - 1)) 0 (s - 1) = std_clamp y 0 (s - 1)"
    using std_clamp_bounds [of 0 "s - 1" y] by simp
  then show ?thesis
    by (auto simp: entryCoordinate_def Let_def i32_def split: if_splits)
qed simp

lemma entryCoordinate_exact_clamped:
  assumes s: "1 < s" and t: "1 < t" and r: "in_i32 s" "in_i32 t"
    and small: "(s - 1) * (t - 1) < 2 ^ 52"
  shows "entryCoordinate y s t =
    Some ((2 * (std_clamp y 0 (s - 1) * (t - 1)) + (s - 1)) div (2 * (s - 1)))"
proof -
  obtain S T where ST: "s = int S + 1" "t = int T + 1" "0 < S" "0 < T"
    using s t by (rule nat_spans)
  define C where "C = nat (std_clamp y 0 (s - 1))"
  have C: "std_clamp y 0 (s - 1) = int C" "C \<le> S"
    using std_clamp_bounds [of 0 "s - 1" y] s by (simp_all add: C_def ST(1) nat_le_iff)
  from small have "int (S * T) < int (2 ^ 52)" by (simp add: ST)
  then have "S * T < 2 ^ 52" by (simp only: of_nat_less_iff)
  from entryCoordinate_nat [OF C(2) ST(3,4) this] r
  have "entryCoordinate (int C) s t = Some (int ((2 * (C * T) + S) div (2 * S)))"
    by (simp add: ST)
  then show ?thesis
    using entryCoordinate_clamped [of y s t] C(1) by (simp add: ST zdiv_int)
qed

lemma entryCoordinate_defined_bounds:
  assumes "in_i32 s" "in_i32 t"
  obtains v where "entryCoordinate y s t = Some v" "0 \<le> v" "v \<le> max 0 (t - 1)"
proof (cases "s \<le> 1 \<or> t \<le> 1")
  case True
  then show ?thesis using that by simp
next
  case False
  then obtain w where w: "entryCoordinate y s t = Some (std_clamp w 0 (t - 1))"
    using assms by (simp add: entryCoordinate_unfold)
  have "0 \<le> t - 1" using False by simp
  then show ?thesis
    using that [OF w] std_clamp_bounds [of 0 "t - 1" w] by simp
qed

lemma entryCoordinate_first:
  assumes "in_i32 s" "in_i32 t" "y \<le> 0"
  shows "entryCoordinate y s t = Some 0"
proof (cases "s \<le> 1 \<or> t \<le> 1")
  case False
  with assms have "std_clamp y 0 (s - 1) = 0" by (simp add: std_clamp_def)
  with False assms show ?thesis
    by (simp add: entryCoordinate_unfold round53_exact dbl_div_def dbl_lround_def rne_div_def
          dbl_scale.simps [of 0])
qed simp

lemma entryCoordinate_last:
  assumes r: "in_i32 s" "in_i32 t" and s: "1 < s" and t: "1 < t" and y: "s - 1 \<le> y"
  shows "entryCoordinate y s t = Some (t - 1)"
proof -
  obtain S T where ST: "s = int S + 1" "t = int T + 1" "0 < S" "0 < T"
    using s t by (rule nat_spans)
  have T: "T < 2 ^ 31" using r by (simp add: ST in_i32_def)
  define A where "A = S * T"
  define p where "p = round53 A"
  have up: "9007199254740992 * p \<le> 9007199254740993 * A" and dn: "9007199254740991 * A \<le> 9007199254740992 * p"
    using round53_upper [of A] round53_lower [of A] by (simp_all add: p_def)
  have A31: "A < 2147483648 * S" and A0: "0 < A" using T ST by (simp_all add: A_def)
  have hi: "4 * p \<le> 4 * A + S" and lo: "4 * A \<le> 4 * p + S" and p0: "0 < p"
    using up dn A31 A0 by linarith+
  have p50: "p < 2 ^ 50 * S" using hi A31 ST(3) by simp
  have "dbl_lround (dbl_div (p, 0) (S, 0)) = T"
    by (rule lround_dbl_div_close [OF ST(3) p0 p50]) (use hi lo in \<open>simp_all add: A_def mult.assoc\<close>)
  moreover have "std_clamp y 0 (s - 1) = s - 1" using y s by (simp add: std_clamp_def)
  moreover have "in_i32 (int T)" using r by (simp add: ST in_i32_def)
  ultimately show ?thesis
    using r s t by (simp add: entryCoordinate_unfold ST p_def A_def)
qed

text \<open>Crossing to a screen that is at least as large and back again returns to the same pixel.\<close>

lemma round_there_and_back:
  fixes c s t :: nat
  assumes s: "0 < s" and st: "s \<le> t" and c: "c \<le> s"
  shows "(2 * (((2 * (c * t) + s) div (2 * s)) * s) + t) div (2 * t) = c"
proof -
  define n where "n = (2 * (c * t) + s) div (2 * s)"
  have lo: "n * (2 * s) \<le> 2 * (c * t) + s"
    unfolding n_def by (rule div_times_less_eq_dividend)
  have hi: "2 * (c * t) + s < (n + 1) * (2 * s)"
    using dividend_less_div_times [of "2 * s" "2 * (c * t) + s"] s by (simp add: n_def)
  have "c * (2 * t) \<le> 2 * (n * s) + t"
    using hi st by (simp add: algebra_simps)
  moreover have "2 * (n * s) + t < (c + 1) * (2 * t)"
  proof (cases "s = t")
    case True
    with s have "n = c"
      by (simp add: n_def div_nat_eqI algebra_simps)
    with True s show ?thesis by (simp add: algebra_simps)
  next
    case False
    with lo st show ?thesis by (simp add: algebra_simps)
  qed
  ultimately show ?thesis
    by (intro div_nat_eqI) (simp_all add: n_def ac_simps)
qed

section \<open>The invariant and the abstract grid\<close>

definition topo_inv :: "topology \<Rightarrow> bool" where
  "topo_inv t \<longleftrightarrow>
     map_wf (topo_screens t) \<and> map_wf (topo_cells t) \<and>
     (\<forall>k s. findScreen t k = Some s \<longrightarrow>
        ts_key s = k \<and> isValidRect (ts_info s) \<and> map_find (topo_cells t) (ts_cell s) = Some k) \<and>
     (\<forall>c k. map_find (topo_cells t) c = Some k \<longrightarrow> (\<exists>s. findScreen t k = Some s \<and> ts_cell s = c))"

definition grid_of :: "topology \<Rightarrow> grid_position \<Rightarrow> topology_screen option" where
  "grid_of t c = (case map_find (topo_cells t) c of None \<Rightarrow> None | Some k \<Rightarrow> findScreen t k)"

definition cell_typed :: "grid_position \<Rightarrow> bool" where
  "cell_typed c \<longleftrightarrow> in_i32 (cell_x c) \<and> in_i32 (cell_y c)"

definition topo_typed :: "topology \<Rightarrow> bool" where
  "topo_typed t \<longleftrightarrow>
     (\<forall>k s. findScreen t k = Some s \<longrightarrow> screen_info_typed (ts_info s) \<and> cell_typed (ts_cell s))"

text \<open>A cell with all four neighbours inside the range of \<open>int32_t\<close>.\<close>

definition cell_inner :: "grid_position \<Rightarrow> bool" where
  "cell_inner c \<longleftrightarrow> (\<forall>e. neighborCell c e \<noteq> None)"

lemma topo_invD:
  assumes "topo_inv t" and "findScreen t k = Some s"
  shows "ts_key s = k" "isValidRect (ts_info s)" "map_find (topo_cells t) (ts_cell s) = Some k"
    "grid_of t (ts_cell s) = Some s"
  using assms by (auto simp: topo_inv_def grid_of_def)

lemma topo_inv_cellD:
  assumes "topo_inv t" and "map_find (topo_cells t) c = Some k"
  obtains s where "findScreen t k = Some s" "ts_cell s = c" "grid_of t c = Some s"
  using assms by (fastforce simp: topo_inv_def grid_of_def)

lemma topo_inv_cell:
  "topo_inv t \<Longrightarrow> map_find (topo_cells t) c = Some k \<Longrightarrow> \<exists>s. findScreen t k = Some s \<and> ts_cell s = c"
  by (auto simp: topo_inv_def)

lemma topo_inv_wf: "topo_inv t \<Longrightarrow> map_wf (topo_screens t)" "topo_inv t \<Longrightarrow> map_wf (topo_cells t)"
  by (simp_all add: topo_inv_def)

lemma topo_invI:
  assumes "map_wf (topo_screens t)" "map_wf (topo_cells t)"
    and "\<And>k s. findScreen t k = Some s \<Longrightarrow>
      ts_key s = k \<and> isValidRect (ts_info s) \<and> map_find (topo_cells t) (ts_cell s) = Some k"
    and "\<And>c k. map_find (topo_cells t) c = Some k \<Longrightarrow> \<exists>s. findScreen t k = Some s \<and> ts_cell s = c"
  shows "topo_inv t"
  using assms by (auto simp: topo_inv_def)

lemma topo_typedD:
  "topo_typed t \<Longrightarrow> findScreen t k = Some s \<Longrightarrow> screen_info_typed (ts_info s)"
  "topo_typed t \<Longrightarrow> findScreen t k = Some s \<Longrightarrow> cell_typed (ts_cell s)"
  by (auto simp: topo_typed_def)

lemma valid_rectD: "isValidRect info \<Longrightarrow> 0 < si_width info" "isValidRect info \<Longrightarrow> 0 < si_height info"
  by (simp_all add: isValidRect_def)

lemma topo_inv_empty [simp]: "topo_inv empty_topology"
  by (simp add: topo_inv_def empty_topology_def findScreen_def)

lemma topo_typed_empty [simp]: "topo_typed empty_topology"
  by (simp add: topo_typed_def empty_topology_def findScreen_def)

lemma findScreen_empty [simp]: "findScreen empty_topology k = None"
  by (simp add: findScreen_def empty_topology_def)

lemma set_screens_iff:
  assumes "topo_inv t"
  shows "s \<in> set (screens t) \<longleftrightarrow> findScreen t (ts_key s) = Some s"
proof -
  have "s \<in> set (screens t) \<longleftrightarrow> (\<exists>k. (k, s) \<in> set (topo_screens t))"
    by (force simp: screens_def)
  also have "\<dots> \<longleftrightarrow> (\<exists>k. findScreen t k = Some s)"
    using assms by (simp add: topo_inv_def findScreen_def map_of_iff_set)
  also have "\<dots> \<longleftrightarrow> findScreen t (ts_key s) = Some s"
    using assms by (auto simp: topo_inv_def)
  finally show ?thesis .
qed

lemma grid_of_iff:
  assumes "topo_inv t"
  shows "grid_of t c = Some s \<longleftrightarrow> findScreen t (ts_key s) = Some s \<and> ts_cell s = c"
proof
  assume "grid_of t c = Some s"
  then obtain k where k: "map_find (topo_cells t) c = Some k" "findScreen t k = Some s"
    by (auto simp: grid_of_def split: option.splits)
  with topo_inv_cell [OF assms k(1)] have "ts_cell s = c" by auto
  with k topo_invD(1) [OF assms k(2)] show "findScreen t (ts_key s) = Some s \<and> ts_cell s = c" by simp
next
  assume "findScreen t (ts_key s) = Some s \<and> ts_cell s = c"
  with assms show "grid_of t c = Some s" using topo_invD(4) by blast
qed

lemma cell_free_iff:
  assumes "topo_inv t"
  shows "map_find (topo_cells t) c = None \<longleftrightarrow> c \<notin> ts_cell ` set (screens t)"
proof -
  have "(\<exists>k. map_find (topo_cells t) c = Some k) \<longleftrightarrow> (\<exists>s. findScreen t (ts_key s) = Some s \<and> ts_cell s = c)"
    using topo_inv_cell [OF assms] topo_invD [OF assms] by metis
  then show ?thesis using assms by (auto simp: set_screens_iff)
qed

subsection \<open>Adding a screen\<close>

lemma addScreen_Inr_iff:
  "addScreen s t = Inr t' \<longleftrightarrow>
     isValidRect (ts_info s) \<and> findScreen t (ts_key s) = None \<and>
     map_find (topo_cells t) (ts_cell s) = None \<and>
     t' = \<lparr>topo_screens = map_emplace (ts_key s) s (topo_screens t),
           topo_cells = map_emplace (ts_cell s) (ts_key s) (topo_cells t)\<rparr>"
  by (auto simp: addScreen_def findScreen_def)

lemma addScreen_find:
  assumes "topo_inv t" "addScreen s t = Inr t'"
  shows "findScreen t' = (findScreen t)(ts_key s \<mapsto> s)"
    and "map_of (topo_cells t') = (map_of (topo_cells t))(ts_cell s \<mapsto> ts_key s)"
  using assms by (auto simp: addScreen_Inr_iff topo_inv_def findScreen_def [abs_def]
      std_map.find_emplace)

lemma addScreen_inv:
  assumes inv: "topo_inv t" and add: "addScreen s t = Inr t'"
  shows "topo_inv t'"
proof -
  note find = addScreen_find [OF inv add]
  have wf: "map_wf (topo_screens t')" "map_wf (topo_cells t')"
    using inv add by (simp_all add: addScreen_Inr_iff topo_inv_def std_map.invar_emplace)
  have new: "isValidRect (ts_info s)" "findScreen t (ts_key s) = None"
    "map_find (topo_cells t) (ts_cell s) = None"
    using add by (simp_all add: addScreen_Inr_iff)
  show ?thesis
  proof (rule topo_invI [OF wf])
    fix k r
    assume r: "findScreen t' k = Some r"
    show "ts_key r = k \<and> isValidRect (ts_info r) \<and> map_find (topo_cells t') (ts_cell r) = Some k"
    proof (cases "k = ts_key s")
      case True
      with r new show ?thesis by (simp add: find)
    next
      case False
      with r have old: "findScreen t k = Some r" by (simp add: find)
      note D = topo_invD [OF inv old]
      with new have "ts_cell r \<noteq> ts_cell s" by auto
      with D show ?thesis by (simp add: find)
    qed
  next
    fix c k
    assume k: "map_find (topo_cells t') c = Some k"
    show "\<exists>r. findScreen t' k = Some r \<and> ts_cell r = c"
    proof (cases "c = ts_cell s")
      case True
      with k show ?thesis by (simp add: find)
    next
      case False
      with k have "map_find (topo_cells t) c = Some k" by (simp add: find)
      from topo_inv_cell [OF inv this] new show ?thesis by (auto simp: find)
    qed
  qed
qed

lemma addScreen_grid:
  assumes inv: "topo_inv t" and add: "addScreen s t = Inr t'"
  shows "grid_of t' = (grid_of t)(ts_cell s \<mapsto> s)"
proof
  fix c
  have "findScreen t (ts_key s) = None" using add by (simp add: addScreen_Inr_iff)
  then have "map_find (topo_cells t) c \<noteq> Some (ts_key s)"
    using topo_inv_cell [OF inv] by fastforce
  then show "grid_of t' c = ((grid_of t)(ts_cell s \<mapsto> s)) c"
    using addScreen_find [OF inv add] by (auto simp: grid_of_def split: option.splits)
qed

lemma addScreen_typed:
  assumes "topo_inv t" "addScreen s t = Inr t'" "topo_typed t" "screen_info_typed (ts_info s)"
    "cell_typed (ts_cell s)"
  shows "topo_typed t'"
  using assms addScreen_find(1) [OF assms(1,2)] by (auto simp: topo_typed_def)

subsection \<open>Removing an owner\<close>

definition owned_cells :: "string \<Rightarrow> (screen_key, topology_screen) std_map \<Rightarrow> grid_position set" where
  "owned_cells owner m = {ts_cell s | k s. (k, s) \<in> set m \<and> key_ownerId k = owner}"

lemma owned_cells_Cons:
  "owned_cells owner ((k, s) # m) =
     (if key_ownerId k = owner then insert (ts_cell s) (owned_cells owner m) else owned_cells owner m)"
  by (auto simp: owned_cells_def)

lemma filter_erase_cells:
  "filter (\<lambda>(c, _). c \<notin> A) (map_erase d cells) = filter (\<lambda>(c, _). c \<notin> insert d A) cells"
  by (induction cells) (auto simp: map_erase_def)

lemma removeOwner_loop_eq:
  "removeOwner_loop owner m cells =
     (filter (\<lambda>(k, s). key_ownerId k \<noteq> owner) m, filter (\<lambda>(c, _). c \<notin> owned_cells owner m) cells)"
proof (induction owner m cells rule: removeOwner_loop.induct)
  case (1 owner cells)
  show ?case by (simp add: owned_cells_def)
next
  case (2 owner key screen rest cells)
  show ?case
  proof (cases "key_ownerId key = owner")
    case True
    then show ?thesis
      using "2.IH"(1) [OF True] by (simp add: owned_cells_Cons filter_erase_cells)
  next
    case False
    then show ?thesis using "2.IH"(2) [OF False] by (simp add: owned_cells_Cons)
  qed
qed

lemma owned_cells_iff:
  assumes "topo_inv t"
  shows "c \<in> owned_cells owner (topo_screens t) \<longleftrightarrow>
    (\<exists>k. map_find (topo_cells t) c = Some k \<and> key_ownerId k = owner)"
proof -
  have "c \<in> owned_cells owner (topo_screens t) \<longleftrightarrow>
      (\<exists>k s. findScreen t k = Some s \<and> key_ownerId k = owner \<and> ts_cell s = c)"
    using topo_inv_wf(1) [OF assms] by (auto simp: owned_cells_def findScreen_def map_of_iff_set)
  also have "\<dots> \<longleftrightarrow> (\<exists>k. map_find (topo_cells t) c = Some k \<and> key_ownerId k = owner)"
    using topo_inv_cell [OF assms] topo_invD(3) [OF assms] by metis
  finally show ?thesis .
qed

lemma removeOwner_find:
  assumes "topo_inv t"
  shows "findScreen (removeOwner owner t) k =
      (if key_ownerId k = owner then None else findScreen t k)"
    and "map_find (topo_cells (removeOwner owner t)) c =
      (case map_find (topo_cells t) c of
         None \<Rightarrow> None | Some k \<Rightarrow> if key_ownerId k = owner then None else Some k)"
proof -
  show "findScreen (removeOwner owner t) k = (if key_ownerId k = owner then None else findScreen t k)"
    by (simp add: removeOwner_def removeOwner_loop_eq findScreen_def map_of_filter_keys)
  have "map_find (topo_cells (removeOwner owner t)) c =
      (if c \<in> owned_cells owner (topo_screens t) then None else map_find (topo_cells t) c)"
    by (simp add: removeOwner_def removeOwner_loop_eq map_of_filter_keys)
  then show "map_find (topo_cells (removeOwner owner t)) c =
      (case map_find (topo_cells t) c of
         None \<Rightarrow> None | Some k \<Rightarrow> if key_ownerId k = owner then None else Some k)"
    by (auto simp: owned_cells_iff [OF assms] split: option.splits)
qed

lemma removeOwner_inv:
  assumes inv: "topo_inv t"
  shows "topo_inv (removeOwner owner t)"
proof (rule topo_invI)
  show "map_wf (topo_screens (removeOwner owner t))" "map_wf (topo_cells (removeOwner owner t))"
    using topo_inv_wf [OF inv] by (simp_all add: removeOwner_def removeOwner_loop_eq map_wf_filter)
next
  fix k s
  assume "findScreen (removeOwner owner t) k = Some s"
  then have "key_ownerId k \<noteq> owner" "findScreen t k = Some s"
    by (simp_all add: removeOwner_find [OF inv] split: if_splits)
  with topo_invD [OF inv this(2)]
  show "ts_key s = k \<and> isValidRect (ts_info s) \<and>
      map_find (topo_cells (removeOwner owner t)) (ts_cell s) = Some k"
    by (simp add: removeOwner_find [OF inv])
next
  fix c k
  assume "map_find (topo_cells (removeOwner owner t)) c = Some k"
  then have "key_ownerId k \<noteq> owner" "map_find (topo_cells t) c = Some k"
    by (simp_all add: removeOwner_find [OF inv] split: option.splits if_splits)
  with topo_inv_cell [OF inv this(2)]
  show "\<exists>s. findScreen (removeOwner owner t) k = Some s \<and> ts_cell s = c"
    by (simp add: removeOwner_find [OF inv])
qed

lemma removeOwner_grid:
  assumes inv: "topo_inv t"
  shows "grid_of (removeOwner owner t) c =
    (case grid_of t c of
       None \<Rightarrow> None | Some s \<Rightarrow> if key_ownerId (ts_key s) = owner then None else Some s)"
proof (cases "map_find (topo_cells t) c")
  case None
  then show ?thesis by (simp add: grid_of_def removeOwner_find [OF inv])
next
  case (Some k)
  from topo_inv_cell [OF inv this] obtain s where s: "findScreen t k = Some s" by auto
  with topo_invD(1) [OF inv s] Some show ?thesis by (simp add: grid_of_def removeOwner_find [OF inv])
qed

lemma removeOwner_typed: "topo_inv t \<Longrightarrow> topo_typed t \<Longrightarrow> topo_typed (removeOwner owner t)"
  by (simp add: topo_typed_def removeOwner_find)

subsection \<open>The interface that the screen store relies on\<close>

text \<open>
  What a client of the grid may assume: lookup after registration and after the removal of an owner,
  and that a registration fails exactly for an invalid rectangle, a known key or an occupied cell.
\<close>

locale screen_grid =
  fixes invar :: "'t \<Rightarrow> bool"
    and find :: "'t \<Rightarrow> screen_key \<Rightarrow> topology_screen option"
    and occupied :: "'t \<Rightarrow> grid_position \<Rightarrow> bool"
    and add :: "topology_screen \<Rightarrow> 't \<Rightarrow> topology_error + 't"
    and remove :: "string \<Rightarrow> 't \<Rightarrow> 't"
  assumes find_cell: "invar t \<Longrightarrow> occupied t c \<longleftrightarrow> (\<exists>k s. find t k = Some s \<and> ts_cell s = c)"
    and find_key: "invar t \<Longrightarrow> find t k = Some s \<Longrightarrow> ts_key s = k \<and> isValidRect (ts_info s)"
    and cell_unique: "invar t \<Longrightarrow> find t j = Some r \<Longrightarrow> find t k = Some s \<Longrightarrow>
      ts_cell r = ts_cell s \<Longrightarrow> j = k"
    and add_find: "invar t \<Longrightarrow> add s t = Inr t' \<Longrightarrow> find t' = (find t)(ts_key s \<mapsto> s)"
    and add_invar: "invar t \<Longrightarrow> add s t = Inr t' \<Longrightarrow> invar t'"
    and add_succeeds: "invar t \<Longrightarrow> (\<exists>t'. add s t = Inr t') \<longleftrightarrow>
      isValidRect (ts_info s) \<and> find t (ts_key s) = None \<and> \<not> occupied t (ts_cell s)"
    and remove_find: "invar t \<Longrightarrow> find (remove owner t) k =
      (if key_ownerId k = owner then None else find t k)"
    and remove_invar: "invar t \<Longrightarrow> invar (remove owner t)"
begin

lemma remove_frees_cell:
  assumes "invar t" "find t k = Some s" "key_ownerId k = owner"
  shows "\<not> occupied (remove owner t) (ts_cell s)"
proof
  assume "occupied (remove owner t) (ts_cell s)"
  then obtain j r where jr: "find (remove owner t) j = Some r" "ts_cell r = ts_cell s"
    using find_cell [OF remove_invar [OF assms(1)]] by blast
  then have "find t j = Some r" "key_ownerId j \<noteq> owner"
    using remove_find [OF assms(1), of owner j] by (simp_all split: if_splits)
  with cell_unique [OF assms(1) _ assms(2) jr(2)] assms(3) show False by blast
qed

lemma add_after_remove:
  assumes "invar t" "find t (ts_key s) = Some s"
  shows "\<exists>t'. add s (remove (key_ownerId (ts_key s)) t) = Inr t'"
proof -
  let ?t = "remove (key_ownerId (ts_key s)) t"
  have "isValidRect (ts_info s)" using find_key [OF assms] by simp
  moreover have "find ?t (ts_key s) = None" by (simp add: remove_find [OF assms(1)])
  moreover have "\<not> occupied ?t (ts_cell s)" by (rule remove_frees_cell [OF assms refl])
  ultimately show ?thesis
    using add_succeeds [OF remove_invar [OF assms(1)]] by blast
qed

lemma remove_idem: "invar t \<Longrightarrow> find (remove owner (remove owner t)) = find (remove owner t)"
  by (simp add: fun_eq_iff remove_find remove_invar)

end

interpretation grid: screen_grid topo_inv findScreen
  "\<lambda>t c. map_find (topo_cells t) c \<noteq> None" addScreen removeOwner
proof
  fix t c
  assume inv: "topo_inv t"
  show "map_find (topo_cells t) c \<noteq> None \<longleftrightarrow> (\<exists>k s. findScreen t k = Some s \<and> ts_cell s = c)"
    using topo_inv_cell [OF inv] topo_invD(3) [OF inv] by fastforce
next
  fix t j k r s
  assume "topo_inv t" "findScreen t j = Some r" "findScreen t k = Some s" "ts_cell r = ts_cell s"
  then show "j = k" using topo_invD(3) by (metis option.inject)
next
  fix t s
  assume "topo_inv t"
  show "(\<exists>t'. addScreen s t = Inr t') \<longleftrightarrow> isValidRect (ts_info s) \<and> findScreen t (ts_key s) = None \<and>
      \<not> map_find (topo_cells t) (ts_cell s) \<noteq> None"
    by (auto simp: addScreen_Inr_iff)
qed (simp_all add: topo_invD addScreen_find addScreen_inv removeOwner_find removeOwner_inv)

section \<open>Neighbours, borders and entry points\<close>

fun opposite :: "edge \<Rightarrow> edge" where
  "opposite Edge_Left = Edge_Right"
| "opposite Edge_Right = Edge_Left"
| "opposite Edge_Top = Edge_Bottom"
| "opposite Edge_Bottom = Edge_Top"

lemma neighborCell_back:
  "cell_typed c \<Longrightarrow> neighborCell c e = Some d \<Longrightarrow> neighborCell d (opposite e) = Some c"
  by (cases e) (auto simp: cell_typed_def ub_bind_eq_Some)

lemma findNeighbor_SomeD:
  assumes "topo_inv t" and "findNeighbor t k e = Some (Some j)"
  obtains s r where "findScreen t k = Some s" "findScreen t j = Some r"
    "neighborCell (ts_cell s) e = Some (ts_cell r)"
proof -
  from assms(2) obtain s d where s: "findScreen t k = Some s" "neighborCell (ts_cell s) e = Some d"
    and j: "map_find (topo_cells t) d = Some j"
    by (auto simp: findNeighbor_def ub_bind_eq_Some split: option.splits)
  from topo_inv_cell [OF assms(1) j] obtain r where "findScreen t j = Some r" "ts_cell r = d" by auto
  with s that show ?thesis by blast
qed

lemma findNeighbor_defined:
  assumes "\<And>s. findScreen t k = Some s \<Longrightarrow> cell_inner (ts_cell s)"
  obtains n where "findNeighbor t k e = Some n"
proof (cases "findScreen t k")
  case None
  then show ?thesis using that by (simp add: findNeighbor_def)
next
  case (Some s)
  with assms obtain d where "neighborCell (ts_cell s) e = Some d" by (auto simp: cell_inner_def)
  with Some that show ?thesis by (simp add: findNeighbor_def)
qed

lemma hitEdge_eq:
  assumes "topo_inv t" "topo_typed t" and s: "findScreen t (sp_key p) = Some s"
  shows "hitEdge t p = Some
    (if sp_x p \<le> 0 then Some Edge_Left
     else if si_width (ts_info s) - 1 \<le> sp_x p then Some Edge_Right
     else if sp_y p \<le> 0 then Some Edge_Top
     else if si_height (ts_info s) - 1 \<le> sp_y p then Some Edge_Bottom
     else None)"
proof -
  note rect = valid_rectD [OF topo_invD(2) [OF assms(1) s]]
  note typed = screen_info_typedD [OF topo_typedD(1) [OF assms(2) s]]
  show ?thesis using s rect typed by (simp add: hitEdge_def in_i32_pred)
qed

lemma hitEdge_defined: "topo_inv t \<Longrightarrow> topo_typed t \<Longrightarrow> hitEdge t p \<noteq> None"
  using hitEdge_eq [of t p] by (cases "findScreen t (sp_key p)") (auto simp: hitEdge_def)

text \<open>The border of a screen on which an entry pixel lies.\<close>

fun on_border :: "edge \<Rightarrow> screen_info \<Rightarrow> int \<Rightarrow> int \<Rightarrow> bool" where
  "on_border Edge_Left info x y \<longleftrightarrow> x = 0"
| "on_border Edge_Right info x y \<longleftrightarrow> x = si_width info - 1"
| "on_border Edge_Top info x y \<longleftrightarrow> y = 0"
| "on_border Edge_Bottom info x y \<longleftrightarrow> y = si_height info - 1"

definition inside :: "screen_info \<Rightarrow> int \<Rightarrow> int \<Rightarrow> bool" where
  "inside info x y \<longleftrightarrow> 0 \<le> x \<and> x < si_width info \<and> 0 \<le> y \<and> y < si_height info"

lemma entryPixel_lands:
  assumes "screen_info_typed source" "screen_info_typed target" "isValidRect target"
  obtains x y where "entryPixel e p source target = Some (x, y)" "inside target x y"
    "on_border (opposite e) target x y"
proof -
  note ranges = screen_info_typedD [OF assms(1)] screen_info_typedD [OF assms(2)]
  obtain h where h: "entryCoordinate (sp_y p) (si_height source) (si_height target) = Some h"
    "0 \<le> h" "h \<le> max 0 (si_height target - 1)"
    by (rule entryCoordinate_defined_bounds [OF ranges(2,4)])
  obtain w where w: "entryCoordinate (sp_x p) (si_width source) (si_width target) = Some w"
    "0 \<le> w" "w \<le> max 0 (si_width target - 1)"
    by (rule entryCoordinate_defined_bounds [OF ranges(1,3)])
  show ?thesis
    using that h w ranges valid_rectD [OF assms(3)]
    by (cases e) (simp_all add: in_i32_pred inside_def)
qed

lemma mapEntryPoint_Inr_cases:
  assumes "topo_inv t" and "mapEntryPoint t p e = Some (Inr q)"
  obtains s r where "findScreen t (sp_key p) = Some s" "findScreen t (sp_key q) = Some r"
    "findNeighbor t (sp_key p) e = Some (Some (sp_key q))"
    "entryPixel e p (ts_info s) (ts_info r) = Some (sp_x q, sp_y q)"
proof -
  from assms(2) obtain s where s: "findScreen t (sp_key p) = Some s"
    by (cases "findScreen t (sp_key p)") (simp_all add: mapEntryPoint_def)
  with assms(2) obtain j where j: "findNeighbor t (sp_key p) e = Some (Some j)"
    by (auto simp: mapEntryPoint_def ub_bind_eq_Some split: option.splits)
  with s assms(2) obtain r where r: "findScreen t j = Some r"
    by (cases "findScreen t j") (simp_all add: mapEntryPoint_def)
  from s j r assms(2) have "sp_key q = j"
    and "entryPixel e p (ts_info s) (ts_info r) = Some (sp_x q, sp_y q)"
    by (auto simp: mapEntryPoint_def ub_bind_eq_Some)
  with s j r that show ?thesis by blast
qed

lemma mapEntryPoint_lands:
  assumes "topo_inv t" "topo_typed t" "mapEntryPoint t p e = Some (Inr q)"
  obtains r where "findNeighbor t (sp_key p) e = Some (Some (sp_key q))"
    "findScreen t (sp_key q) = Some r" "inside (ts_info r) (sp_x q) (sp_y q)"
    "on_border (opposite e) (ts_info r) (sp_x q) (sp_y q)"
proof -
  obtain s r where s: "findScreen t (sp_key p) = Some s" and r: "findScreen t (sp_key q) = Some r"
    and n: "findNeighbor t (sp_key p) e = Some (Some (sp_key q))"
    and xy: "entryPixel e p (ts_info s) (ts_info r) = Some (sp_x q, sp_y q)"
    using assms(1,3) by (rule mapEntryPoint_Inr_cases)
  obtain x y where "entryPixel e p (ts_info s) (ts_info r) = Some (x, y)" "inside (ts_info r) x y"
    "on_border (opposite e) (ts_info r) x y"
    by (rule entryPixel_lands [OF topo_typedD(1) [OF assms(2) s] topo_typedD(1) [OF assms(2) r]
          topo_invD(2) [OF assms(1) r]])
  with n r xy that show ?thesis by simp
qed

lemma mapEntryPoint_defined:
  assumes inv: "topo_inv t" and typed: "topo_typed t"
    and cells: "\<And>k s. findScreen t k = Some s \<Longrightarrow> cell_inner (ts_cell s)"
  shows "mapEntryPoint t p e \<noteq> None"
proof (cases "findScreen t (sp_key p)")
  case None
  then show ?thesis by (simp add: mapEntryPoint_def)
next
  case (Some s)
  note s = this
  obtain n where n: "findNeighbor t (sp_key p) e = Some n"
    by (rule findNeighbor_defined [OF cells])
  show ?thesis
  proof (cases n)
    case None
    with Some n show ?thesis by (simp add: mapEntryPoint_def)
  next
    case (Some j)
    with n inv obtain r where r: "findScreen t j = Some r" by (auto elim: findNeighbor_SomeD)
    obtain x y where "entryPixel e p (ts_info s) (ts_info r) = Some (x, y)"
      by (rule entryPixel_lands [OF topo_typedD(1) [OF typed s] topo_typedD(1) [OF typed r]
            topo_invD(2) [OF inv r]])
    with n Some r s show ?thesis by (simp add: mapEntryPoint_def)
  qed
qed

section \<open>Properties\<close>

text \<open>Two screens of different resolution side by side, for the witnesses.\<close>

definition demo_info :: "int \<Rightarrow> int \<Rightarrow> screen_info" where
  "demo_info w h = \<lparr>si_x = 0, si_y = 0, si_width = w, si_height = h, si_dpi = 72,
     si_name = ''demo'', si_primary = False\<rparr>"

definition demo_screen :: "string \<Rightarrow> int \<Rightarrow> int \<Rightarrow> int \<Rightarrow> int \<Rightarrow> topology_screen" where
  "demo_screen owner x y w h = \<lparr>ts_key = ScreenKey owner 0, ts_cell = GridPosition x y,
     ts_info = demo_info w h, ts_local = False\<rparr>"

definition demo_topology :: topology where
  "demo_topology =
     \<lparr>topo_screens = [(ScreenKey ''a'' 0, demo_screen ''a'' 0 0 1920 1080),
                      (ScreenKey ''b'' 0, demo_screen ''b'' 1 0 2560 1440)],
      topo_cells = [(GridPosition 0 0, ScreenKey ''a'' 0), (GridPosition 1 0, ScreenKey ''b'' 0)]\<rparr>"

lemmas demo_defs = demo_topology_def demo_screen_def demo_info_def

lemma demo_build:
  "addScreen (demo_screen ''a'' 0 0 1920 1080) empty_topology =
     Inr \<lparr>topo_screens = [(ScreenKey ''a'' 0, demo_screen ''a'' 0 0 1920 1080)],
          topo_cells = [(GridPosition 0 0, ScreenKey ''a'' 0)]\<rparr>"
  "addScreen (demo_screen ''b'' 1 0 2560 1440)
     \<lparr>topo_screens = [(ScreenKey ''a'' 0, demo_screen ''a'' 0 0 1920 1080)],
      topo_cells = [(GridPosition 0 0, ScreenKey ''a'' 0)]\<rparr> = Inr demo_topology"
  by (simp_all add: addScreen_def empty_topology_def demo_defs isValidRect_def
        less_screen_key_def less_grid_position_def)

lemma demo_inv: "topo_inv demo_topology"
  by (rule addScreen_inv [OF addScreen_inv [OF topo_inv_empty demo_build(1)] demo_build(2)])

lemma demo_typed: "topo_typed demo_topology"
  by (auto simp: topo_typed_def findScreen_def demo_defs screen_info_typed_def cell_typed_def
        split: if_splits)

text \<open>
  C14. Registering a screen in the topology refines one partial function from cells to screens: on
  success the invariant is kept, the screen is found under its key and sits alone in its cell, and
  nothing else changes; on failure the error names exactly the violated condition, in the order in
  which the code checks them.
\<close>

theorem addScreen_refines_grid:
  assumes "topo_inv t"
  shows "case addScreen s t of
      Inr t' \<Rightarrow> topo_inv t' \<and> findScreen t' = (findScreen t)(ts_key s \<mapsto> s) \<and>
        grid_of t' = (grid_of t)(ts_cell s \<mapsto> s) \<and> findScreen t (ts_key s) = None \<and>
        grid_of t (ts_cell s) = None \<and> isValidRect (ts_info s)
    | Inl e \<Rightarrow>
        (e = InvalidScreenRect \<and> \<not> isValidRect (ts_info s)) \<or>
        (e = DuplicateScreen \<and> isValidRect (ts_info s) \<and> findScreen t (ts_key s) \<noteq> None) \<or>
        (e = CellOccupied \<and> isValidRect (ts_info s) \<and> findScreen t (ts_key s) = None \<and>
           grid_of t (ts_cell s) \<noteq> None)"
proof (cases "addScreen s t")
  case (Inl e)
  then show ?thesis
    using topo_inv_cell [OF assms, of "ts_cell s"]
    by (fastforce simp: addScreen_def findScreen_def grid_of_def split: if_splits)
next
  case (Inr t')
  have free: "findScreen t (ts_key s) = None" "map_find (topo_cells t) (ts_cell s) = None"
    "isValidRect (ts_info s)"
    using Inr by (simp_all add: addScreen_Inr_iff)
  then have "grid_of t (ts_cell s) = None" by (simp add: grid_of_def)
  with free show ?thesis
    by (simp add: Inr addScreen_inv [OF assms Inr] addScreen_find(1) [OF assms Inr]
          addScreen_grid [OF assms Inr])
qed

theorem addScreen_refines_grid_witness:
  "topo_inv demo_topology \<and>
   addScreen (demo_screen ''c'' 1 0 800 600) demo_topology = Inl CellOccupied \<and>
   grid_of demo_topology (GridPosition 1 0) \<noteq> None"
proof -
  have e: "addScreen (demo_screen ''c'' 1 0 800 600) demo_topology = Inl CellOccupied"
    by (simp add: addScreen_def demo_defs isValidRect_def)
  show ?thesis
    using demo_inv e addScreen_refines_grid [OF demo_inv, of "demo_screen ''c'' 1 0 800 600"]
    by (simp add: demo_screen_def)
qed

text \<open>
  Removing an owner removes exactly the screens with that owner id, frees exactly their cells and
  keeps every other screen, its cell and the invariant.
\<close>

theorem removeOwner_exact:
  assumes "topo_inv t"
  shows "topo_inv (removeOwner owner t) \<and>
    (\<forall>k. findScreen (removeOwner owner t) k = (if key_ownerId k = owner then None else findScreen t k)) \<and>
    (\<forall>c. grid_of (removeOwner owner t) c =
       (case grid_of t c of
          None \<Rightarrow> None | Some s \<Rightarrow> if key_ownerId (ts_key s) = owner then None else Some s))"
  using assms by (simp add: grid.remove_invar grid.remove_find removeOwner_grid)

theorem removeOwner_exact_witness:
  "topo_inv demo_topology \<and> findScreen (removeOwner ''b'' demo_topology) (ScreenKey ''b'' 0) = None \<and>
   findScreen (removeOwner ''b'' demo_topology) (ScreenKey ''a'' 0) \<noteq> None"
  using demo_inv removeOwner_exact [OF demo_inv, of "''b''"]
  by (simp add: findScreen_def demo_defs)

text \<open>
  Adjacency is symmetric: if the screen across one edge of \<open>k\<close> is \<open>j\<close>, then the screen across the
  opposite edge of \<open>j\<close> is \<open>k\<close>, so a cursor that crossed a border can cross back.
\<close>

theorem findNeighbor_symmetric:
  assumes "topo_inv t" and "topo_typed t" and "findNeighbor t k e = Some (Some j)"
  shows "findNeighbor t j (opposite e) = Some (Some k)"
proof -
  obtain s r where s: "findScreen t k = Some s" and r: "findScreen t j = Some r"
    and n: "neighborCell (ts_cell s) e = Some (ts_cell r)"
    using assms(1,3) by (rule findNeighbor_SomeD)
  from topo_typedD(2) [OF assms(2) s] n have "neighborCell (ts_cell r) (opposite e) = Some (ts_cell s)"
    by (rule neighborCell_back)
  with r topo_invD(3) [OF assms(1) s] show ?thesis by (simp add: findNeighbor_def)
qed

theorem findNeighbor_symmetric_witness:
  "findNeighbor demo_topology (ScreenKey ''a'' 0) Edge_Right = Some (Some (ScreenKey ''b'' 0)) \<and>
   findNeighbor demo_topology (ScreenKey ''b'' 0) Edge_Left = Some (Some (ScreenKey ''a'' 0))"
proof -
  have n: "findNeighbor demo_topology (ScreenKey ''a'' 0) Edge_Right = Some (Some (ScreenKey ''b'' 0))"
    by (simp add: findNeighbor_def findScreen_def demo_defs)
  show ?thesis using n findNeighbor_symmetric [OF demo_inv demo_typed n] by simp
qed

text \<open>
  C15. A mapped entry point lies on the neighbour that the grid names, inside its real rectangle and on
  the border opposite to the one that was crossed.
\<close>

theorem mapEntryPoint_on_opposite_border:
  assumes "topo_inv t" and "topo_typed t" and "mapEntryPoint t p e = Some (Inr q)"
  shows "findNeighbor t (sp_key p) e = Some (Some (sp_key q)) \<and>
    (\<exists>r. findScreen t (sp_key q) = Some r \<and> inside (ts_info r) (sp_x q) (sp_y q) \<and>
         on_border (opposite e) (ts_info r) (sp_x q) (sp_y q))"
  by (rule mapEntryPoint_lands [OF assms]) blast

lemma demo_crossing:
  "mapEntryPoint demo_topology \<lparr>sp_key = ScreenKey ''a'' 0, sp_x = 1919, sp_y = 810\<rparr> Edge_Right =
     Some (Inr \<lparr>sp_key = ScreenKey ''b'' 0, sp_x = 0, sp_y = 1080\<rparr>)"
  by (simp add: mapEntryPoint_def findNeighbor_def findScreen_def demo_defs
        entryCoordinate_exact_clamped)

theorem mapEntryPoint_on_opposite_border_witness:
  "mapEntryPoint demo_topology \<lparr>sp_key = ScreenKey ''a'' 0, sp_x = 1919, sp_y = 810\<rparr> Edge_Right =
     Some (Inr \<lparr>sp_key = ScreenKey ''b'' 0, sp_x = 0, sp_y = 1080\<rparr>) \<and>
   findNeighbor demo_topology (ScreenKey ''a'' 0) Edge_Right = Some (Some (ScreenKey ''b'' 0))"
  using demo_crossing mapEntryPoint_on_opposite_border [OF demo_inv demo_typed demo_crossing] by simp

text \<open>
  C16. The floating-point entry coordinate is exact: for every pair of extents whose spans multiply to
  less than \<open>2 ^ 52\<close> (every real monitor is far below), the double computation with \<open>lround\<close> equals the
  clamped source coordinate scaled by the exact ratio of the spans and rounded half up in integers.
\<close>

theorem entryCoordinate_exact:
  assumes "1 < sourceExtent" and "1 < targetExtent"
    and "in_i32 sourceExtent" and "in_i32 targetExtent"
    and "(sourceExtent - 1) * (targetExtent - 1) < 2 ^ 52"
  shows "entryCoordinate y sourceExtent targetExtent =
    Some ((2 * (std_clamp y 0 (sourceExtent - 1) * (targetExtent - 1)) + (sourceExtent - 1))
            div (2 * (sourceExtent - 1)))"
  using assms by (rule entryCoordinate_exact_clamped)

theorem entryCoordinate_exact_witness:
  "entryCoordinate 810 1080 1440 = Some ((2 * (810 * 1439) + 1079) div (2 * (1079 :: int)))"
  using entryCoordinate_exact [of 1080 1440 810] by simp

text \<open>
  For all extents of type \<open>int32_t\<close>, even those whose product a double cannot hold, the entry
  coordinate is defined, stays inside the target, and maps corner to corner: the first pixel to the
  first and the last to the last.
\<close>

theorem entryCoordinate_corners:
  assumes "in_i32 sourceExtent" and "in_i32 targetExtent"
  shows "(\<exists>v. entryCoordinate y sourceExtent targetExtent = Some v \<and> 0 \<le> v \<and> v \<le> max 0 (targetExtent - 1)) \<and>
    entryCoordinate 0 sourceExtent targetExtent = Some 0 \<and>
    (1 < sourceExtent \<longrightarrow> 1 < targetExtent \<longrightarrow>
       entryCoordinate (sourceExtent - 1) sourceExtent targetExtent = Some (targetExtent - 1))"
proof -
  obtain v where "entryCoordinate y sourceExtent targetExtent = Some v" "0 \<le> v"
    "v \<le> max 0 (targetExtent - 1)"
    by (rule entryCoordinate_defined_bounds [OF assms])
  then show ?thesis
    using assms by (simp add: entryCoordinate_first entryCoordinate_last)
qed

theorem entryCoordinate_corners_witness:
  "entryCoordinate 2147483646 2147483647 2147483647 = Some 2147483646"
  using entryCoordinate_corners [of 2147483647 2147483647 0] by simp

text \<open>
  Crossing to a screen whose border is at least as long and crossing straight back returns the
  cursor to the pixel it left.
\<close>

theorem entryCoordinate_round_trip:
  assumes "1 < s" and "s \<le> t" and "in_i32 t" and "(s - 1) * (t - 1) < 2 ^ 52"
    and "0 \<le> y" and "y < s"
  shows "(do { v \<leftarrow> entryCoordinate y s t; entryCoordinate v t s }) = Some y"
proof -
  obtain S T where ST: "s = int S + 1" "t = int T + 1" "0 < S" "0 < T"
    using assms(1,2) nat_spans [of s t] by auto
  have r: "in_i32 (int S + 1)" "in_i32 (int T + 1)"
    using assms by (simp_all add: ST in_i32_def)
  define c where "c = nat y"
  have c: "y = int c" "c \<le> S" using assms by (simp_all add: c_def ST nat_le_iff)
  from assms(4) have "int (S * T) < int (2 ^ 52)" by (simp add: ST)
  then have small: "S * T < 2 ^ 52" by (simp only: of_nat_less_iff)
  define n where "n = (2 * (c * T) + S) div (2 * S)"
  have "n \<le> T" unfolding n_def by (rule round_quotient_le [OF ST(3) c(2)])
  moreover have "entryCoordinate (int c) (int S + 1) (int T + 1) = Some (int n)"
    unfolding n_def by (rule entryCoordinate_nat [OF c(2) ST(3,4) small r])
  moreover have "entryCoordinate (int n) (int T + 1) (int S + 1) = Some (int c)"
    using entryCoordinate_nat [OF \<open>n \<le> T\<close> ST(4,3) _ r(2,1)] small
      round_there_and_back [OF ST(3) _ c(2), of T] assms(2)
    by (simp add: n_def ST mult.commute [of T S])
  ultimately show ?thesis by (simp add: ST c)
qed

theorem entryCoordinate_round_trip_witness:
  "(do { v \<leftarrow> entryCoordinate 810 1080 1440; entryCoordinate v 1440 1080 }) = Some 810"
  using entryCoordinate_round_trip [of 1080 1440 810] by simp



end
