(* ===== verification/App_Config.thy ===== *)
theory App_Config
  imports Screen_Topology
begin

text \<open>
  The persistent configuration of \<open>src/config/app_config.hpp\<close> and \<open>src/config/app_config.cpp\<close>.

  \<^item> \<open>app_config\<close> and its parts are the structs of the header; \<open>findScreenLayout\<close>,
    \<open>upsertScreenLayout\<close>, \<open>isTrustedClient\<close>, \<open>generateMachineId\<close> and \<open>ensureMachineId\<close> are the
    functions on them. The random device is a parameter: the sequence of numbers it yields.
  \<^item> The JSON serializer and deserializer are not part of the repository: they are the parameters
    \<open>ser\<close> and \<open>deser\<close>, a record \<open>json_codec\<close>; \<open>json_round_trip\<close> is the documented law.
  \<^item> Files are a map from paths to contents. Every operation that the operating system can refuse
    takes its outcome from the parameter \<open>io_faults\<close>; \<open>no_faults\<close> is a system that refuses nothing.
  \<^item> A failing read throws out of \<open>loadConfig\<close> (the stream iterator reads the buffer directly, and the
    buffer of \<open>libstdc++\<close> throws); this is \<open>None\<close>.
  \<^item> The locale \<open>layout_store\<close> is what the screen store relies on: a persistent map from screens to
    cells.
\<close>

section \<open>Data\<close>

datatype config_error =
  ConfigOk | InvalidConfig | SerializeFailed | DeserializeFailed | ConfigIoError

text \<open>A \<open>std::error_code\<close> of this component: its own error or an \<open>errno\<close> of the system.\<close>

datatype config_failure = ConfigFailure config_error | SystemFailure nat

record screen_layout_config =
  sl_ownerId :: string
  sl_screenIndex :: nat
  sl_cell :: grid_position

record trusted_client_config =
  tc_machineId :: string
  tc_name :: string

record app_config =
  cfg_version :: nat
  cfg_machineId :: string
  cfg_screens :: "screen_layout_config list"
  cfg_trustedClients :: "trusted_client_config list"

definition default_config :: app_config where
  "default_config =
     \<lparr>cfg_version = 1, cfg_machineId = '''', cfg_screens = [], cfg_trustedClients = []\<rparr>"

section \<open>Machine ids\<close>

definition randomBytes :: "(nat \<Rightarrow> 32 word) \<Rightarrow> 8 word list" where
  "randomBytes rd = map (\<lambda>i. ucast (rd i AND 0xFF)) [0..<16]"

definition hex_digits :: string where
  "hex_digits = ''0123456789abcdef''"

definition hex_byte :: "8 word \<Rightarrow> string" where
  "hex_byte byte =
     [hex_digits ! unat (drop_bit 4 byte AND 0xF), hex_digits ! unat (byte AND 0xF)]"

definition generateMachineId :: "(nat \<Rightarrow> 32 word) \<Rightarrow> string" where
  "generateMachineId rd = ''mks-'' @ concat (map hex_byte (randomBytes rd))"

definition ensureMachineId :: "(nat \<Rightarrow> 32 word) \<Rightarrow> app_config \<Rightarrow> app_config" where
  "ensureMachineId rd config =
     (if cfg_machineId config = [] then config\<lparr>cfg_machineId := generateMachineId rd\<rparr> else config)"

section \<open>Screen layout and trusted clients\<close>

definition layout_matches :: "string \<Rightarrow> nat \<Rightarrow> screen_layout_config \<Rightarrow> bool" where
  "layout_matches ownerId screenIndex layout \<longleftrightarrow>
     sl_ownerId layout = ownerId \<and> sl_screenIndex layout = screenIndex"

definition findScreenLayout :: "app_config \<Rightarrow> string \<Rightarrow> nat \<Rightarrow> grid_position option" where
  "findScreenLayout config ownerId screenIndex =
     map_option sl_cell (find (layout_matches ownerId screenIndex) (cfg_screens config))"

fun upsert_layout :: "screen_layout_config \<Rightarrow> screen_layout_config list \<Rightarrow> screen_layout_config list" where
  "upsert_layout layout [] = [layout]"
| "upsert_layout layout (current # rest) =
     (if layout_matches (sl_ownerId layout) (sl_screenIndex layout) current then layout # rest
      else current # upsert_layout layout rest)"

definition upsertScreenLayout :: "screen_layout_config \<Rightarrow> app_config \<Rightarrow> app_config" where
  "upsertScreenLayout layout config = config\<lparr>cfg_screens := upsert_layout layout (cfg_screens config)\<rparr>"

definition isTrustedClient :: "app_config \<Rightarrow> string \<Rightarrow> string \<Rightarrow> bool" where
  "isTrustedClient config machineId name =
     (if cfg_trustedClients config = [] then True
      else list_ex (\<lambda>client.
             (machineId \<noteq> [] \<and> tc_machineId client = machineId) \<or> (name \<noteq> [] \<and> tc_name client = name))
           (cfg_trustedClients config))"

section \<open>Serialization and files\<close>

record json_codec =
  json_ser :: "app_config \<Rightarrow> string option"
  json_deser :: "string \<Rightarrow> app_config option"

definition json_round_trip :: "json_codec \<Rightarrow> app_config \<Rightarrow> bool" where
  "json_round_trip json config \<longleftrightarrow>
     (case json_ser json config of
        None \<Rightarrow> False
      | Some content \<Rightarrow> json_deser json content = Some config)"

definition serializeConfig :: "json_codec \<Rightarrow> app_config \<Rightarrow> config_failure + string" where
  "serializeConfig json config =
     (case json_ser json config of
        None \<Rightarrow> Inl (ConfigFailure SerializeFailed)
      | Some text \<Rightarrow> Inr text)"

definition deserializeConfig :: "json_codec \<Rightarrow> string \<Rightarrow> config_failure + app_config" where
  "deserializeConfig json text =
     (case json_deser json text of
        None \<Rightarrow> Inl (ConfigFailure DeserializeFailed)
      | Some config \<Rightarrow>
          if cfg_version config = 0 then Inl (ConfigFailure InvalidConfig) else Inr config)"

text \<open>A path is the list of its components; \<open>has_parent_path\<close> asks for more than one.\<close>

type_synonym path = "string list"

definition has_parent_path :: "path \<Rightarrow> bool" where
  "has_parent_path p \<longleftrightarrow> 1 < length p"

definition parent_path :: "path \<Rightarrow> path" where
  "parent_path p = butlast p"

record file_system =
  fs_files :: "path \<Rightarrow> string option"
  fs_dirs :: "path set"

text \<open>
  What the operating system answers. \<open>io_exists\<close> and \<open>io_mkdir\<close> give the error code of a failing call,
  \<open>io_open_read\<close> and \<open>io_open_write\<close> the \<open>errno\<close> that a failing stream leaves behind, \<open>io_write\<close> this and
  how many characters have reached the file. A read gives the whole text, throws, or ends early without a
  trace (with a library that does not throw). \<open>io_flush\<close> maps the text in the stream buffer to what reaches
  the file when the stream is destroyed: no call of the program observes this last step.
\<close>

datatype read_outcome = ReadAll | ReadThrows | ReadPart nat

record io_faults =
  io_exists :: "path \<Rightarrow> nat option"
  io_mkdir :: "path \<Rightarrow> nat option"
  io_open_read :: "path \<Rightarrow> nat option"
  io_read :: "path \<Rightarrow> read_outcome"
  io_open_write :: "path \<Rightarrow> nat option"
  io_write :: "path \<Rightarrow> (nat \<times> nat) option"
  io_flush :: "path \<Rightarrow> string \<Rightarrow> string"

definition no_faults :: io_faults where
  "no_faults = \<lparr>io_exists = \<lambda>_. None, io_mkdir = \<lambda>_. None, io_open_read = \<lambda>_. None,
     io_read = \<lambda>_. ReadAll, io_open_write = \<lambda>_. None, io_write = \<lambda>_. None, io_flush = \<lambda>_ text. text\<rparr>"

definition is_directory :: "path \<Rightarrow> file_system \<Rightarrow> bool" where
  "is_directory p fs \<longleftrightarrow> fs_files fs p = None \<and> p \<in> fs_dirs fs"

definition streamError :: "nat \<Rightarrow> config_failure" where
  "streamError errno = (if errno \<noteq> 0 then SystemFailure errno else ConfigFailure ConfigIoError)"

definition create_directories :: "path \<Rightarrow> file_system \<Rightarrow> file_system" where
  "create_directories p fs =
     fs\<lparr>fs_dirs := set (map (\<lambda>n. take (Suc n) p) [0..<length p]) \<union> fs_dirs fs\<rparr>"

text \<open>
  \<open>std::ofstream\<close> with \<open>trunc\<close>: the directory must exist, the path must not be one, and an old file is emptied
  (\<open>errno\<close> 2 is \<open>ENOENT\<close>, 21 is \<open>EISDIR\<close>). What is written goes over the old content from the start.
\<close>

definition open_truncate :: "io_faults \<Rightarrow> path \<Rightarrow> file_system \<Rightarrow> nat + file_system" where
  "open_truncate io p fs =
     (case io_open_write io p of
        Some errno \<Rightarrow> Inl errno
      | None \<Rightarrow>
          if has_parent_path p \<and> parent_path p \<notin> fs_dirs fs then Inl 2
          else if is_directory p fs then Inl 21
          else Inr (fs\<lparr>fs_files := (fs_files fs)(p \<mapsto> '''')\<rparr>))"

definition write_over :: "path \<Rightarrow> string \<Rightarrow> file_system \<Rightarrow> file_system" where
  "write_over p text fs =
     fs\<lparr>fs_files := (fs_files fs)(p \<mapsto>
       text @ drop (length text) (case fs_files fs p of None \<Rightarrow> '''' | Some old \<Rightarrow> old))\<rparr>"

definition write_and_close :: "io_faults \<Rightarrow> path \<Rightarrow> string \<Rightarrow> file_system \<Rightarrow> file_system" where
  "write_and_close io p text fs = write_over p (io_flush io p text) fs"

text \<open>\<open>std::ifstream\<close> opens a directory as well; reading it fails.\<close>

definition open_read :: "io_faults \<Rightarrow> path \<Rightarrow> file_system \<Rightarrow> nat + string option" where
  "open_read io p fs =
     (case io_open_read io p of
        Some errno \<Rightarrow> Inl errno
      | None \<Rightarrow>
          (case fs_files fs p of
             None \<Rightarrow> if p \<in> fs_dirs fs then Inr None else Inl 2
           | Some text \<Rightarrow> Inr (Some text)))"

definition read_text :: "io_faults \<Rightarrow> path \<Rightarrow> string option \<Rightarrow> string option" where
  "read_text io p file =
     (case file of
        None \<Rightarrow> None
      | Some text \<Rightarrow>
          (case io_read io p of ReadAll \<Rightarrow> Some text | ReadThrows \<Rightarrow> None | ReadPart n \<Rightarrow> Some (take n text)))"

definition loadConfig ::
  "json_codec \<Rightarrow> io_faults \<Rightarrow> path \<Rightarrow> file_system \<Rightarrow> (config_failure + app_config) option" where
  "loadConfig json io p fs =
     (case open_read io p fs of
        Inl errno \<Rightarrow> Some (Inl (streamError errno))
      | Inr file \<Rightarrow> (case read_text io p file of
                      None \<Rightarrow> None
                    | Some text \<Rightarrow> Some (deserializeConfig json text)))"

definition save_text ::
  "json_codec \<Rightarrow> io_faults \<Rightarrow> path \<Rightarrow> app_config \<Rightarrow> file_system \<Rightarrow> (config_failure + unit) \<times> file_system" where
  "save_text json io p config fs =
     (case serializeConfig json config of
        Inl e \<Rightarrow> (Inl e, fs)
      | Inr text \<Rightarrow>
          (case open_truncate io p fs of
             Inl errno \<Rightarrow> (Inl (streamError errno), fs)
           | Inr opened \<Rightarrow>
               (case io_write io p of
                  Some (errno, n) \<Rightarrow> (Inl (streamError errno), write_over p (take n text) opened)
                | None \<Rightarrow> (Inr (), write_and_close io p text opened))))"

definition saveConfig ::
  "json_codec \<Rightarrow> io_faults \<Rightarrow> path \<Rightarrow> app_config \<Rightarrow> file_system \<Rightarrow> (config_failure + unit) \<times> file_system" where
  "saveConfig json io p config fs =
     (if has_parent_path p then
        (case io_mkdir io (parent_path p) of
           Some errno \<Rightarrow> (Inl (SystemFailure errno), fs)
         | None \<Rightarrow> save_text json io p config (create_directories (parent_path p) fs))
      else save_text json io p config fs)"

definition loadOrCreateConfig ::
  "json_codec \<Rightarrow> io_faults \<Rightarrow> (nat \<Rightarrow> 32 word) \<Rightarrow> path \<Rightarrow> file_system \<Rightarrow>
     ((config_failure + app_config) \<times> file_system) option" where
  "loadOrCreateConfig json io rd p fs =
     (case io_exists io p of
        Some errno \<Rightarrow> Some (Inl (SystemFailure errno), fs)
      | None \<Rightarrow>
          if fs_files fs p = None \<and> p \<notin> fs_dirs fs then
            (let config = ensureMachineId rd default_config
             in case saveConfig json io p config fs of
                  (Inl e, fs') \<Rightarrow> Some (Inl e, fs')
                | (Inr _, fs') \<Rightarrow> Some (Inr config, fs'))
          else
            (case loadConfig json io p fs of
               None \<Rightarrow> None
             | Some (Inl e) \<Rightarrow> Some (Inl e, fs)
             | Some (Inr loaded) \<Rightarrow>
                 (let config = ensureMachineId rd loaded
                  in if cfg_machineId config \<noteq> cfg_machineId loaded then
                       (case saveConfig json io p config fs of
                          (Inl e, fs') \<Rightarrow> Some (Inl e, fs')
                        | (Inr _, fs') \<Rightarrow> Some (Inr config, fs'))
                     else Some (Inr config, fs))))"

section \<open>The layout as a persistent map\<close>

text \<open>What a client of the layout relies on: the cell remembered last for a screen is the one found.\<close>

locale layout_store =
  fixes lookup :: "'c \<Rightarrow> string \<Rightarrow> nat \<Rightarrow> grid_position option"
    and upsert :: "screen_layout_config \<Rightarrow> 'c \<Rightarrow> 'c"
  assumes lookup_upsert: "lookup (upsert layout c) owner index =
    (if layout_matches owner index layout then Some (sl_cell layout) else lookup c owner index)"
begin

lemma lookup_upsert_same: "lookup (upsert layout c) (sl_ownerId layout) (sl_screenIndex layout) = Some (sl_cell layout)"
  by (simp add: lookup_upsert layout_matches_def)

lemma upsert_twice:
  "sl_ownerId a = sl_ownerId b \<Longrightarrow> sl_screenIndex a = sl_screenIndex b \<Longrightarrow>
     lookup (upsert b (upsert a c)) = lookup (upsert b c)"
  by (simp add: fun_eq_iff lookup_upsert layout_matches_def)

lemma lookup_upserts:
  "lookup (fold upsert layouts c) owner index =
     (case find (layout_matches owner index) (rev layouts) of
        Some layout \<Rightarrow> Some (sl_cell layout)
      | None \<Rightarrow> lookup c owner index)"
proof (induction layouts rule: rev_induct)
  case Nil
  then show ?case by simp
next
  case (snoc layout layouts)
  then show ?case by (simp add: lookup_upsert)
qed

end

lemma layout_matches_cong:
  "layout_matches (sl_ownerId layout) (sl_screenIndex layout) current \<Longrightarrow>
     layout_matches owner index current = layout_matches owner index layout"
  by (auto simp: layout_matches_def)

lemma layout_matches_both:
  "layout_matches owner index a \<Longrightarrow> layout_matches owner index b \<Longrightarrow>
     layout_matches (sl_ownerId a) (sl_screenIndex a) b"
  by (auto simp: layout_matches_def)

lemma find_upsert_layout:
  "find (layout_matches owner index) (upsert_layout layout ls) =
     (if layout_matches owner index layout then Some layout else find (layout_matches owner index) ls)"
  by (induction layout ls rule: upsert_layout.induct) (auto dest: layout_matches_cong layout_matches_both)

interpretation layout: layout_store findScreenLayout upsertScreenLayout
  by unfold_locales (simp add: findScreenLayout_def upsertScreenLayout_def find_upsert_layout)

definition layout_id :: "screen_layout_config \<Rightarrow> string \<times> nat" where
  "layout_id layout = (sl_ownerId layout, sl_screenIndex layout)"

definition layouts_unique :: "app_config \<Rightarrow> bool" where
  "layouts_unique config \<longleftrightarrow> distinct (map layout_id (cfg_screens config))"

lemma layout_matches_id: "layout_matches owner index layout \<longleftrightarrow> layout_id layout = (owner, index)"
  by (simp add: layout_matches_def layout_id_def)

lemma ids_upsert_layout:
  "set (map layout_id (upsert_layout layout ls)) = insert (layout_id layout) (set (map layout_id ls))"
  by (induction layout ls rule: upsert_layout.induct) (auto simp: layout_matches_id layout_id_def)

lemma distinct_upsert_layout:
  "distinct (map layout_id ls) \<Longrightarrow> distinct (map layout_id (upsert_layout layout ls))"
proof (induction layout ls rule: upsert_layout.induct)
  case (2 layout current rest)
  then show ?case
    using ids_upsert_layout [of layout rest]
    by (auto simp: layout_matches_def layout_id_def)
qed simp

lemma layouts_unique_upsert [intro]:
  "layouts_unique config \<Longrightarrow> layouts_unique (upsertScreenLayout layout config)"
  by (simp add: layouts_unique_def upsertScreenLayout_def distinct_upsert_layout)

lemma upsertScreenLayout_others [simp]:
  "cfg_version (upsertScreenLayout layout config) = cfg_version config"
  "cfg_machineId (upsertScreenLayout layout config) = cfg_machineId config"
  "cfg_trustedClients (upsertScreenLayout layout config) = cfg_trustedClients config"
  by (simp_all add: upsertScreenLayout_def)

section \<open>Machine ids\<close>

lemma length_hex_bytes: "length (concat (map hex_byte bytes)) = 2 * length bytes"
  by (induction bytes) (simp_all add: hex_byte_def)

lemma length_randomBytes [simp]: "length (randomBytes rd) = 16"
  by (simp add: randomBytes_def)

lemma hex_digits_inj: "i < 16 \<Longrightarrow> j < 16 \<Longrightarrow> hex_digits ! i = hex_digits ! j \<longleftrightarrow> i = j"
proof -
  assume "i < 16" "j < 16"
  moreover have "distinct hex_digits" "length hex_digits = 16" by (simp_all add: hex_digits_def)
  ultimately show ?thesis by (simp add: nth_eq_iff_index_eq)
qed

lemma nibble_less: "unat (byte AND 0xF) < 16" for byte :: "8 word"
proof -
  have m: "(0xF :: 8 word) = mask 4" by (simp add: mask_eq_exp_minus_1)
  have "unat (byte AND 0xF) = take_bit 4 (unat byte)"
    by (simp only: m unsigned_take_bit_eq flip: take_bit_eq_mask)
  then show ?thesis using take_bit_nat_less_exp [of 4 "unat byte"] by simp
qed

lemma nibbles_eq:
  fixes a b :: "8 word"
  assumes "drop_bit 4 a AND 0xF = drop_bit 4 b AND 0xF" and "a AND 0xF = b AND 0xF"
  shows "a = b"
proof (rule bit_word_eqI)
  fix n
  assume "n < LENGTH(8)"
  then have n: "n < 8" by simp
  have lo: "bit (a AND 0xF) n = bit (b AND 0xF) n"
    and hi: "bit (drop_bit 4 a AND 0xF) (n - 4) = bit (drop_bit 4 b AND 0xF) (n - 4)"
    using assms by simp_all
  have m: "(0xF :: 8 word) = mask 4" by (simp add: mask_eq_exp_minus_1)
  show "bit a n = bit b n"
  proof (cases "n < 4")
    case True
    with lo show ?thesis by (simp add: m bit_and_iff bit_mask_iff)
  next
    case False
    then have "4 + (n - 4) = n" "n - 4 < 4" using n by simp_all
    with hi show ?thesis by (simp add: m bit_and_iff bit_mask_iff bit_drop_bit_eq)
  qed
qed

lemma hex_byte_inj: "hex_byte a = hex_byte b \<longleftrightarrow> a = b"
proof
  assume "hex_byte a = hex_byte b"
  then have d: "hex_digits ! unat (drop_bit 4 a AND 0xF) = hex_digits ! unat (drop_bit 4 b AND 0xF)"
    "hex_digits ! unat (a AND 0xF) = hex_digits ! unat (b AND 0xF)"
    unfolding hex_byte_def by (simp_all only: list.inject)
  have "unat (drop_bit 4 a AND 0xF) = unat (drop_bit 4 b AND 0xF)"
    by (rule iffD1 [OF hex_digits_inj [OF nibble_less nibble_less] d(1)])
  moreover have "unat (a AND 0xF) = unat (b AND 0xF)"
    by (rule iffD1 [OF hex_digits_inj [OF nibble_less nibble_less] d(2)])
  ultimately show "a = b" using nibbles_eq [of a b] unsigned_word_eqI by blast
qed simp

lemma hex_bytes_inj:
  "length xs = length ys \<Longrightarrow> concat (map hex_byte xs) = concat (map hex_byte ys) \<longleftrightarrow> xs = ys"
proof (induction xs ys rule: list_induct2)
  case (Cons a xs b ys)
  have "length (hex_byte a) = length (hex_byte b)" by (simp add: hex_byte_def)
  then show ?case using Cons.IH by (simp add: hex_byte_inj)
qed simp

lemma generateMachineId_nonempty [simp]: "generateMachineId rd \<noteq> []"
  by (simp add: generateMachineId_def)

lemma ensureMachineId_nonempty [simp]: "cfg_machineId (ensureMachineId rd config) \<noteq> []"
  by (simp add: ensureMachineId_def)

lemma ensureMachineId_stable [simp]: "cfg_machineId config \<noteq> [] \<Longrightarrow> ensureMachineId rd config = config"
  by (simp add: ensureMachineId_def)

lemma ensureMachineId_others [simp]:
  "cfg_version (ensureMachineId rd config) = cfg_version config"
  "cfg_screens (ensureMachineId rd config) = cfg_screens config"
  "cfg_trustedClients (ensureMachineId rd config) = cfg_trustedClients config"
  by (simp_all add: ensureMachineId_def)

section \<open>Saving and loading\<close>

lemma loadOrCreate_machineId:
  "loadOrCreateConfig json io rd p fs = Some (Inr config, fs') \<Longrightarrow> cfg_machineId config \<noteq> []"
  by (auto simp: loadOrCreateConfig_def Let_def split: option.splits if_splits sum.splits prod.splits)

lemma no_faults_simps [simp]:
  "io_exists no_faults p = None" "io_mkdir no_faults p = None" "io_open_read no_faults p = None"
  "io_read no_faults p = ReadAll" "io_open_write no_faults p = None" "io_write no_faults p = None"
  "io_flush no_faults p text = text"
  by (simp_all add: no_faults_def)

lemma parent_created:
  assumes "has_parent_path p"
  shows "parent_path p \<in> fs_dirs (create_directories (parent_path p) fs)"
proof -
  let ?q = "parent_path p"
  have "0 < length ?q" using assms by (simp add: has_parent_path_def parent_path_def)
  then have "?q = take (Suc (length ?q - 1)) ?q" "length ?q - 1 < length ?q" by simp_all
  then have "?q \<in> (\<lambda>n. take (Suc n) ?q) ` {..<length ?q}" by blast
  then show ?thesis by (auto simp: create_directories_def)
qed

text \<open>Why a file cannot be opened for writing, once its directory is there.\<close>

definition save_refusal :: "io_faults \<Rightarrow> path \<Rightarrow> file_system \<Rightarrow> config_failure option" where
  "save_refusal io p fs =
     (case (if has_parent_path p then io_mkdir io (parent_path p) else None) of
        Some errno \<Rightarrow> Some (SystemFailure errno)
      | None \<Rightarrow>
          (case io_open_write io p of
             Some errno \<Rightarrow> Some (streamError errno)
           | None \<Rightarrow> if is_directory p fs then Some (streamError 21) else None))"

lemma created_directories:
  "fs_files (create_directories q fs) = fs_files fs"
  "has_parent_path p \<Longrightarrow> is_directory p (create_directories (parent_path p) fs) = is_directory p fs"
proof -
  have "p \<noteq> take (Suc n) (parent_path p)" if "has_parent_path p" for n
  proof
    assume "p = take (Suc n) (parent_path p)"
    from arg_cong [OF this, of length] that show False by (simp add: has_parent_path_def parent_path_def)
  qed
  then show "has_parent_path p \<Longrightarrow> is_directory p (create_directories (parent_path p) fs) = is_directory p fs"
    by (auto simp: is_directory_def create_directories_def)
qed (simp add: create_directories_def)

lemma saveConfig_result:
  assumes "json_ser json config = Some text" "saveConfig json io p config fs = (result, fs')"
  shows "case save_refusal io p fs of
      Some e \<Rightarrow> result = Inl e \<and> fs_files fs' = fs_files fs
    | None \<Rightarrow>
        (case io_write io p of
           Some (errno, n) \<Rightarrow>
             result = Inl (streamError errno) \<and> fs_files fs' = (fs_files fs)(p \<mapsto> take n text)
         | None \<Rightarrow> result = Inr () \<and> fs_files fs' = (fs_files fs)(p \<mapsto> io_flush io p text))"
  using assms parent_created [of p fs]
  by (cases "has_parent_path p"; cases "is_directory p fs")
     (auto simp: saveConfig_def save_text_def save_refusal_def serializeConfig_def open_truncate_def write_over_def
        write_and_close_def created_directories split: option.splits if_splits)

lemma saveConfig_no_faults:
  assumes "json_ser json config = Some text" "\<not> is_directory p fs"
  obtains fs' where "saveConfig json no_faults p config fs = (Inr (), fs')"
    "fs_files fs' = (fs_files fs)(p \<mapsto> text)"
proof -
  obtain result fs' where save: "saveConfig json no_faults p config fs = (result, fs')"
    by (cases "saveConfig json no_faults p config fs")
  from saveConfig_result [OF assms(1) this] assms(2) have "result = Inr ()" "fs_files fs' = (fs_files fs)(p \<mapsto> text)"
    by (simp_all add: save_refusal_def cong: if_cong)
  with save that show ?thesis by simp
qed

lemma loadConfig_whole:
  "fs_files fs p = Some text \<Longrightarrow> io_open_read io p = None \<Longrightarrow> io_read io p = ReadAll \<Longrightarrow>
     loadConfig json io p fs = Some (deserializeConfig json text)"
  by (simp add: loadConfig_def open_read_def read_text_def)

lemma loadConfig_no_faults:
  "fs_files fs p = Some text \<Longrightarrow> loadConfig json no_faults p fs = Some (deserializeConfig json text)"
  by (simp add: loadConfig_whole)

text \<open>When the load of a configuration ends in an exception.\<close>

definition read_throws :: "io_faults \<Rightarrow> path \<Rightarrow> file_system \<Rightarrow> bool" where
  "read_throws io p fs \<longleftrightarrow> io_open_read io p = None \<and>
     (is_directory p fs \<or> fs_files fs p \<noteq> None \<and> io_read io p = ReadThrows)"

lemma loadConfig_None: "loadConfig json io p fs = None \<longleftrightarrow> read_throws io p fs"
  by (auto simp: loadConfig_def open_read_def read_text_def read_throws_def is_directory_def
      split: option.split read_outcome.split)

lemma loadOrCreate_None:
  "loadOrCreateConfig json io rd p fs = None \<longleftrightarrow> io_exists io p = None \<and> read_throws io p fs"
proof (cases "fs_files fs p = None \<and> p \<notin> fs_dirs fs")
  case True
  then show ?thesis
    by (auto simp: loadOrCreateConfig_def read_throws_def is_directory_def Let_def
        split: option.split sum.split prod.split)
next
  case False
  then have "loadOrCreateConfig json io rd p fs = None \<longleftrightarrow> io_exists io p = None \<and> loadConfig json io p fs = None"
    by (auto simp: loadOrCreateConfig_def Let_def split: option.splits sum.splits prod.splits)
  then show ?thesis by (simp add: loadConfig_None)
qed

lemma json_round_tripD:
  assumes "json_round_trip json config"
  obtains content where "json_ser json config = Some content" "json_deser json content = Some config"
  using assms by (auto simp: json_round_trip_def split: option.splits)

lemma save_then_load:
  assumes json: "json_round_trip json config" and version: "cfg_version config \<noteq> 0" and no_dir: "\<not> is_directory p fs"
  obtains fs' where "saveConfig json no_faults p config fs = (Inr (), fs')"
    "loadConfig json no_faults p fs' = Some (Inr config)" "fs_files fs' p \<noteq> None"
    "\<forall>q. q \<noteq> p \<longrightarrow> fs_files fs' q = fs_files fs q"
proof -
  obtain content where content: "json_ser json config = Some content" "json_deser json content = Some config"
    using json by (rule json_round_tripD)
  obtain fs' where fs': "saveConfig json no_faults p config fs = (Inr (), fs')"
    "fs_files fs' = (fs_files fs)(p \<mapsto> content)"
    using content(1) no_dir by (rule saveConfig_no_faults)
  with content version that show ?thesis
    by (simp add: loadConfig_no_faults deserializeConfig_def)
qed

section \<open>Properties\<close>

definition demo_config :: app_config where
  "demo_config = \<lparr>cfg_version = 1, cfg_machineId = ''mks-demo'',
     cfg_screens = [\<lparr>sl_ownerId = ''mks-demo'', sl_screenIndex = 0, sl_cell = GridPosition 0 0\<rparr>,
                    \<lparr>sl_ownerId = ''mks-peer'', sl_screenIndex = 0, sl_cell = GridPosition 1 0\<rparr>],
     cfg_trustedClients = [\<lparr>tc_machineId = ''mks-peer'', tc_name = ''laptop''\<rparr>]\<rparr>"

definition demo_rd :: "nat \<Rightarrow> 32 word" where
  "demo_rd i = word_of_nat (17 * i + 300)"

definition fresh_config :: app_config where
  "fresh_config = ensureMachineId demo_rd default_config"

definition demo_json :: json_codec where
  "demo_json =
     \<lparr>json_ser = \<lambda>c. if c = demo_config then Some ''demo'' else if c = fresh_config then Some ''fresh'' else None,
      json_deser = \<lambda>t. if t = ''demo'' then Some demo_config else if t = ''fresh'' then Some fresh_config else None\<rparr>"

definition empty_disk :: file_system where
  "empty_disk = \<lparr>fs_files = \<lambda>_. None, fs_dirs = {}\<rparr>"

lemma demo_json_round_trip: "json_round_trip demo_json demo_config" "json_round_trip demo_json fresh_config"
  by (simp_all add: json_round_trip_def demo_json_def)

text \<open>
  The layout list implements a map from screens (owner and index) to cells: after remembering a
  screen, exactly this screen's cell is the new one, every other screen keeps its cell, no screen is
  listed twice, and the machine id and the trust list are untouched.
\<close>

theorem upsertScreenLayout_refines_map:
  assumes "layouts_unique config"
  shows "findScreenLayout (upsertScreenLayout layout config) owner index =
      (if (owner, index) = layout_id layout then Some (sl_cell layout)
       else findScreenLayout config owner index) \<and>
    layouts_unique (upsertScreenLayout layout config) \<and>
    cfg_machineId (upsertScreenLayout layout config) = cfg_machineId config \<and>
    cfg_trustedClients (upsertScreenLayout layout config) = cfg_trustedClients config"
  using layouts_unique_upsert [OF assms] by (auto simp: layout.lookup_upsert layout_matches_id)

theorem upsertScreenLayout_refines_map_witness:
  "findScreenLayout (upsertScreenLayout
       \<lparr>sl_ownerId = ''mks-peer'', sl_screenIndex = 0, sl_cell = GridPosition 0 1\<rparr> demo_config)
     ''mks-peer'' 0 = Some (GridPosition 0 1)"
proof -
  have "layouts_unique demo_config" by (simp add: layouts_unique_def demo_config_def layout_id_def)
  from upsertScreenLayout_refines_map [OF this,
      of "\<lparr>sl_ownerId = ''mks-peer'', sl_screenIndex = 0, sl_cell = GridPosition 0 1\<rparr>" "''mks-peer''" 0]
  show ?thesis by (simp add: layout_id_def)
qed

text \<open>
  A generated machine id is the prefix and 32 further characters, and it determines the sixteen random
  bytes: two machines share an id only if the random device gave both the same low bytes.
\<close>

theorem generateMachineId_injective:
  "length (generateMachineId rd) = 36 \<and>
   (generateMachineId rd = generateMachineId rd' \<longleftrightarrow> randomBytes rd = randomBytes rd')"
  by (simp add: generateMachineId_def length_hex_bytes hex_bytes_inj)

text \<open>
  The trust decision: an empty list accepts everyone; otherwise a client is accepted exactly if a
  listed entry agrees with its machine id or with its name, and empty strings never match.
\<close>

theorem isTrustedClient_iff:
  "isTrustedClient config machineId name \<longleftrightarrow>
     cfg_trustedClients config = [] \<or>
     (machineId \<noteq> [] \<and> machineId \<in> tc_machineId ` set (cfg_trustedClients config)) \<or>
     (name \<noteq> [] \<and> name \<in> tc_name ` set (cfg_trustedClients config))"
  by (auto simp: isTrustedClient_def list_ex_iff)

text \<open>
  C19. Saving either reports exactly what went wrong or makes the configuration loadable, whatever the
  system refuses. If the path cannot be opened for writing, the error says why and no file has changed. If
  writing fails, its \<open>errno\<close> is reported and the file holds a first part of the new text. Otherwise the save
  succeeds, and, provided the buffered text reaches the file, every later load that can open and read the
  file gives the configuration back, or refuses it for its version 0. Never is another file touched. That the
  serializer is inverted by the deserializer on this configuration is assumed.
\<close>

theorem saveConfig_loadConfig_round_trip:
  assumes "json_ser json config = Some text" and "json_deser json text = Some config"
  shows "case saveConfig json io p config fs of (result, fs') \<Rightarrow>
    (\<forall>q. q \<noteq> p \<longrightarrow> fs_files fs' q = fs_files fs q) \<and>
    (case (save_refusal io p fs, io_write io p) of
       (Some e, _) \<Rightarrow> result = Inl e \<and> fs_files fs' p = fs_files fs p
     | (None, Some (errno, n)) \<Rightarrow> result = Inl (streamError errno) \<and> fs_files fs' p = Some (take n text)
     | (None, None) \<Rightarrow> result = Inr () \<and>
         (io_flush io p text = text \<longrightarrow>
            (\<forall>io'. io_open_read io' p = None \<and> io_read io' p = ReadAll \<longrightarrow>
               loadConfig json io' p fs' =
                 Some (if cfg_version config = 0 then Inl (ConfigFailure InvalidConfig) else Inr config))))"
proof -
  obtain result fs' where save: "saveConfig json io p config fs = (result, fs')"
    by (cases "saveConfig json io p config fs")
  note saved = saveConfig_result [OF assms(1) save]
  have "loadConfig json io' p fs' =
      Some (if cfg_version config = 0 then Inl (ConfigFailure InvalidConfig) else Inr config)"
    if "fs_files fs' p = Some text" "io_open_read io' p = None" "io_read io' p = ReadAll" for io'
    using loadConfig_whole [OF that] assms(2) by (simp add: deserializeConfig_def)
  with saved show ?thesis by (auto simp: save split: option.splits)
qed

theorem saveConfig_loadConfig_round_trip_witness:
  "loadConfig demo_json no_faults [''etc'', ''mks.json'']
     (snd (saveConfig demo_json no_faults [''etc'', ''mks.json''] demo_config empty_disk)) = Some (Inr demo_config)"
proof -
  have json: "json_ser demo_json demo_config = Some ''demo''" "json_deser demo_json ''demo'' = Some demo_config"
    by (simp_all add: demo_json_def)
  have "save_refusal no_faults [''etc'', ''mks.json''] empty_disk = None"
    by (simp add: save_refusal_def is_directory_def empty_disk_def)
  moreover have "cfg_version demo_config \<noteq> 0" by (simp add: demo_config_def)
  ultimately show ?thesis
    using saveConfig_loadConfig_round_trip [OF json, where io = no_faults and p = "[''etc'', ''mks.json'']" and fs = empty_disk]
    by (simp split: prod.splits)
qed

text \<open>
  A failing read is not reported as a result: it leaves \<open>loadConfig\<close> as an exception, exactly if the path can
  be opened and is a directory or a file whose read throws. The check of \<open>bad\<close> after the read is never
  reached with this bit set.
\<close>

theorem loadConfig_throws_iff:
  "loadConfig json io p fs = None \<longleftrightarrow> read_throws io p fs"
  by (rule loadConfig_None)

text \<open>
  The first start writes a configuration with a fresh machine id, and every later start, whatever its
  random device yields, reads back the same configuration and leaves the disk alone.
\<close>

theorem loadOrCreateConfig_stable:
  assumes "json_round_trip json (ensureMachineId rd default_config)" and "fs_files fs p = None" and "p \<notin> fs_dirs fs"
  shows "case loadOrCreateConfig json no_faults rd p fs of
      Some (Inr config, fs') \<Rightarrow> cfg_machineId config = generateMachineId rd \<and>
        loadOrCreateConfig json no_faults rd' p fs' = Some (Inr config, fs')
    | _ \<Rightarrow> False"
proof -
  let ?config = "ensureMachineId rd default_config"
  have "cfg_version ?config \<noteq> 0" "\<not> is_directory p fs" using assms(3) by (simp_all add: default_config_def is_directory_def)
  then obtain fs' where "saveConfig json no_faults p ?config fs = (Inr (), fs')"
    "loadConfig json no_faults p fs' = Some (Inr ?config)" "fs_files fs' p \<noteq> None"
    by (rule save_then_load [OF assms(1), of p fs])
  moreover have "cfg_machineId ?config = generateMachineId rd"
    by (simp add: ensureMachineId_def default_config_def)
  ultimately show ?thesis
    using assms(2,3) by (auto simp: loadOrCreateConfig_def Let_def)
qed

theorem loadOrCreateConfig_stable_witness:
  "\<exists>config fs. loadOrCreateConfig demo_json no_faults demo_rd [''mks.json''] empty_disk = Some (Inr config, fs) \<and>
     cfg_machineId config = generateMachineId demo_rd"
proof -
  have "json_round_trip demo_json (ensureMachineId demo_rd default_config)"
    using demo_json_round_trip(2) by (simp add: fresh_config_def)
  moreover have "fs_files empty_disk [''mks.json''] = None" "[''mks.json''] \<notin> fs_dirs empty_disk"
    by (simp_all add: empty_disk_def)
  ultimately show ?thesis
    using loadOrCreateConfig_stable [of demo_json demo_rd empty_disk "[''mks.json'']" demo_rd]
    by (auto split: option.splits prod.splits sum.splits)
qed

text \<open>
  Success of \<open>saveConfig\<close> does not mean that the text is on the disk: the stream is checked before
  its buffer is flushed. A disk that loses the buffered text lets \<open>saveConfig\<close> report success, and
  the previous content of the file is gone because it was opened with \<open>trunc\<close>.
\<close>

theorem saveConfig_unreported_loss:
  "\<exists>io fs'. saveConfig demo_json io [''mks.json''] demo_config
       (empty_disk\<lparr>fs_files := [[''mks.json''] \<mapsto> ''demo'']\<rparr>) = (Inr (), fs') \<and>
     fs_files fs' [''mks.json''] = Some '''' \<and>
     loadConfig demo_json no_faults [''mks.json''] fs' = Some (Inl (ConfigFailure DeserializeFailed))"
  by (intro exI [of _ "no_faults\<lparr>io_flush := \<lambda>_ _. ''''\<rparr>"])
     (simp add: saveConfig_def has_parent_path_def save_text_def serializeConfig_def demo_json_def
        open_truncate_def is_directory_def write_and_close_def write_over_def loadConfig_def read_text_def open_read_def deserializeConfig_def no_faults_def)

end
