(* ===== verification/Screen_Store.thy ===== *)
theory Screen_Store
  imports App_Config
begin

text \<open>
  The screen store of the server, \<open>src/app/server_screens.hpp\<close>, \<open>src/app/server_screens.cpp\<close> and the
  struct of \<open>src/app/server_types.hpp\<close>: which endpoint owns which screen, in which cell it sits, and
  what of this is remembered in the configuration file.

  \<^item> \<open>screen_store\<close> is the class \<open>ServerScreenStore\<close>. A node of its multimap has an address that other
    components keep (the active screen of the router): a node is an id from a counter with the screen,
    \<open>node_at\<close> dereferences an id and yields \<open>None\<close> for a node that was erased.
  \<^item> Endpoints are an ordered type of the network library: the type variable \<open>'ep\<close>; how an endpoint is
    printed, the JSON codec and the system's answers are the parameter \<open>store_env\<close>.
  \<^item> \<open>store_inv\<close> always holds; \<open>store_sync\<close> (nodes and topology describe the same screens) holds as long
    as no two endpoints use the same owner id.
\<close>

section \<open>Data\<close>

record 'ep virtual_screen =
  vs_endpoint :: 'ep
  vs_key :: screen_key
  vs_cell :: grid_position
  vs_local :: bool
  vs_info :: screen_info

type_synonym 'ep node = "nat \<times> 'ep virtual_screen"

record 'ep screen_store =
  st_config :: app_config
  st_configPath :: path
  st_screens :: "('ep, 'ep node) std_multimap"
  st_topology :: topology
  st_owners :: "('ep, string) std_map"
  st_nextNode :: nat
  st_disk :: file_system

record 'ep store_env =
  env_json :: json_codec
  env_io :: io_faults
  env_format :: "'ep \<Rightarrow> string"

definition new_store :: "app_config \<Rightarrow> path \<Rightarrow> file_system \<Rightarrow> 'ep screen_store" where
  "new_store config configPath disk =
     \<lparr>st_config = config, st_configPath = configPath, st_screens = [], st_topology = empty_topology,
      st_owners = [], st_nextNode = 0, st_disk = disk\<rparr>"

definition topologyScreens :: "'ep screen_store \<Rightarrow> topology_screen list" where
  "topologyScreens st = screens (st_topology st)"

section \<open>Layout persistence and automatic placement\<close>

definition configuredCell :: "'ep screen_store \<Rightarrow> screen_key \<Rightarrow> grid_position option" where
  "configuredCell st key = findScreenLayout (st_config st) (key_ownerId key) (key_screenIndex key)"

definition saveConfigIfNeeded :: "'ep store_env \<Rightarrow> 'ep screen_store \<Rightarrow> 'ep screen_store" where
  "saveConfigIfNeeded env st =
     (if st_configPath st = [] then st
      else st\<lparr>st_disk := snd (saveConfig (env_json env) (env_io env) (st_configPath st) (st_config st) (st_disk st))\<rparr>)"

definition rememberScreenLayout ::
  "'ep store_env \<Rightarrow> screen_key \<Rightarrow> grid_position \<Rightarrow> 'ep screen_store \<Rightarrow> 'ep screen_store" where
  "rememberScreenLayout env key cell st =
     saveConfigIfNeeded env
       (st\<lparr>st_config := upsertScreenLayout
             \<lparr>sl_ownerId = key_ownerId key, sl_screenIndex = key_screenIndex key, sl_cell = cell\<rparr>
             (st_config st)\<rparr>)"

text \<open>The scan to the right; \<open>++cell.x\<close> is undefined at the end of the range.\<close>

function nextFreeX :: "grid_position list \<Rightarrow> int \<Rightarrow> int ub" where
  "nextFreeX cells x =
     (if GridPosition x 0 \<in> set cells
      then (case i32 (x + 1) of None \<Rightarrow> None | Some y \<Rightarrow> nextFreeX cells y)
      else Some x)"
  by pat_completeness auto

termination
  by (relation "measure (\<lambda>(cells, x). nat (2147483648 - x))") (auto simp: in_i32_def)

declare nextFreeX.simps [simp del]

definition nextFreeCell :: "'ep screen_store \<Rightarrow> int \<Rightarrow> grid_position ub" where
  "nextFreeCell st startX =
     do { x \<leftarrow> nextFreeX (map ts_cell (topologyScreens st)) startX; Some (GridPosition x 0) }"

section \<open>Registration and removal\<close>

definition store_addScreen ::
  "'ep::linorder store_env \<Rightarrow> 'ep \<Rightarrow> screen_key \<Rightarrow> grid_position \<Rightarrow> screen_info \<Rightarrow> bool \<Rightarrow>
     'ep screen_store \<Rightarrow> nat option \<times> 'ep screen_store" where
  "store_addScreen env ep key cell info local st =
     (case addScreen \<lparr>ts_key = key, ts_cell = cell, ts_info = info, ts_local = local\<rparr> (st_topology st) of
        Inl e \<Rightarrow> (None, st)
      | Inr t \<Rightarrow>
          (let node = st_nextNode st;
               screen = \<lparr>vs_endpoint = ep, vs_key = key, vs_cell = cell, vs_local = local, vs_info = info\<rparr>
           in (Some node, rememberScreenLayout env key cell
                 (st\<lparr>st_topology := t, st_screens := mm_emplace ep (node, screen) (st_screens st),
                     st_nextNode := Suc node\<rparr>))))"

fun first_primary :: "nat \<Rightarrow> screen_info list \<Rightarrow> nat" where
  "first_primary index [] = 0"
| "first_primary index (info # rest) = (if si_primary info then index else first_primary (Suc index) rest)"

text \<open>The cell that one screen of a registration gets, and whether the local anchor is now placed.\<close>

definition placeScreen ::
  "bool \<Rightarrow> nat \<Rightarrow> nat \<Rightarrow> bool \<Rightarrow> screen_key \<Rightarrow> screen_info \<Rightarrow> 'ep screen_store \<Rightarrow> (grid_position \<times> bool) ub" where
  "placeScreen local primaryIndex index primaryRegistered key info st =
     do {
       (cell, used, registered) \<leftarrow>
         (case configuredCell st key of
            Some configured \<Rightarrow>
              Some (configured, True,
                    primaryRegistered \<or> (local \<and> (si_primary info \<or> index = primaryIndex)))
          | None \<Rightarrow>
              if local \<and> si_primary info \<and> \<not> primaryRegistered then Some (GridPosition 0 0, False, True)
              else if local \<and> index = primaryIndex \<and> \<not> primaryRegistered
                then Some (GridPosition 0 0, False, True)
              else do { cell \<leftarrow> nextFreeCell st 1; Some (cell, False, primaryRegistered) });
       let occupied = list_ex (\<lambda>screen. ts_cell screen = cell) (topologyScreens st);
       if used \<and> occupied then do { cell \<leftarrow> nextFreeCell st 1; Some (cell, registered) }
       else Some (cell, registered)
     }"

fun registerScreens_loop ::
  "'ep::linorder store_env \<Rightarrow> 'ep \<Rightarrow> string \<Rightarrow> bool \<Rightarrow> nat \<Rightarrow> nat \<Rightarrow> bool \<Rightarrow> screen_info list \<Rightarrow>
     'ep screen_store \<Rightarrow> 'ep screen_store ub" where
  "registerScreens_loop env ep ownerId local primaryIndex index primaryRegistered [] st = Some st"
| "registerScreens_loop env ep ownerId local primaryIndex index primaryRegistered (info # rest) st =
     do {
       (cell, registered) \<leftarrow>
         placeScreen local primaryIndex index primaryRegistered (ScreenKey ownerId index) info st;
       registerScreens_loop env ep ownerId local primaryIndex (Suc index) registered rest
         (snd (store_addScreen env ep (ScreenKey ownerId index) cell info local st))
     }"

definition registerScreens_owner ::
  "'ep::linorder store_env \<Rightarrow> 'ep \<Rightarrow> string \<Rightarrow> screen_info list \<Rightarrow> bool \<Rightarrow> 'ep screen_store \<Rightarrow>
     'ep screen_store ub" where
  "registerScreens_owner env ep ownerId infos local st =
     registerScreens_loop env ep ownerId local (first_primary 0 infos) 0 False infos st"

definition ownerIdFromEndpoint :: "'ep store_env \<Rightarrow> 'ep \<Rightarrow> string" where
  "ownerIdFromEndpoint env ep = env_format env ep"

definition defaultOwnerId :: "'ep store_env \<Rightarrow> 'ep \<Rightarrow> bool \<Rightarrow> 'ep screen_store \<Rightarrow> string" where
  "defaultOwnerId env ep local st =
     (if local \<and> cfg_machineId (st_config st) \<noteq> [] then cfg_machineId (st_config st)
      else (case map_find (st_owners st) ep of
              Some owner \<Rightarrow> if owner \<noteq> [] then owner else ownerIdFromEndpoint env ep
            | None \<Rightarrow> ownerIdFromEndpoint env ep))"

definition registerScreens ::
  "'ep::linorder store_env \<Rightarrow> 'ep \<Rightarrow> screen_info list \<Rightarrow> bool \<Rightarrow> 'ep screen_store \<Rightarrow> 'ep screen_store ub" where
  "registerScreens env ep infos local st =
     registerScreens_owner env ep (defaultOwnerId env ep local st) infos local st"

fun collect_owners :: "string list \<Rightarrow> 'ep node list \<Rightarrow> string list" where
  "collect_owners ownerIds [] = ownerIds"
| "collect_owners ownerIds ((_, screen) # rest) =
     (let owner = key_ownerId (vs_key screen)
      in collect_owners (if owner \<in> set ownerIds then ownerIds else ownerIds @ [owner]) rest)"

definition removeScreen :: "'ep \<Rightarrow> nat option \<Rightarrow> 'ep screen_store \<Rightarrow> bool \<times> 'ep screen_store" where
  "removeScreen ep activeScreen st =
     (let range = mm_equal_range ep (st_screens st);
          activeRemoved = (case activeScreen of
             None \<Rightarrow> False | Some active \<Rightarrow> list_ex (\<lambda>(node, _). node = active) range)
      in (activeRemoved,
          st\<lparr>st_screens := mm_erase ep (st_screens st),
             st_topology := fold removeOwner (collect_owners [] range) (st_topology st)\<rparr>))"

section \<open>Lookup and owners\<close>

definition nodes :: "'ep screen_store \<Rightarrow> 'ep node list" where
  "nodes st = map snd (st_screens st)"

definition node_at :: "'ep screen_store \<Rightarrow> nat \<Rightarrow> 'ep virtual_screen ub" where
  "node_at st node = map_of (nodes st) node"

definition store_findScreen :: "screen_key \<Rightarrow> 'ep screen_store \<Rightarrow> 'ep node option" where
  "store_findScreen key st = find (\<lambda>(_, screen). vs_key screen = key) (nodes st)"

fun first_local :: "'ep node option \<Rightarrow> 'ep node list \<Rightarrow> 'ep node option" where
  "first_local selected [] = selected"
| "first_local selected (node # rest) =
     (if \<not> vs_local (snd node) then first_local selected rest
      else (let selected' = (if selected = None \<or> si_primary (vs_info (snd node)) then Some node else selected)
            in if si_primary (vs_info (snd node)) then selected' else first_local selected' rest))"

definition firstLocalScreen :: "'ep screen_store \<Rightarrow> 'ep node option" where
  "firstLocalScreen st = first_local None (nodes st)"

definition rememberOwner :: "'ep::linorder \<Rightarrow> string \<Rightarrow> 'ep screen_store \<Rightarrow> 'ep screen_store" where
  "rememberOwner ep ownerId st = st\<lparr>st_owners := map_assign ep ownerId (st_owners st)\<rparr>"

definition forgetOwner :: "'ep \<Rightarrow> 'ep screen_store \<Rightarrow> 'ep screen_store" where
  "forgetOwner ep st = st\<lparr>st_owners := map_erase ep (st_owners st)\<rparr>"

section \<open>The scan for a free cell\<close>

lemma nextFreeX_free: "GridPosition x 0 \<notin> set cells \<Longrightarrow> nextFreeX cells x = Some x"
  by (subst nextFreeX.simps) simp

lemma nextFreeX_occupied:
  "GridPosition x 0 \<in> set cells \<Longrightarrow> in_i32 (x + 1) \<Longrightarrow> nextFreeX cells x = nextFreeX cells (x + 1)"
  by (subst nextFreeX.simps) simp

lemma nextFreeX_occupiedD:
  assumes "GridPosition x 0 \<in> set cells" "nextFreeX cells x = Some y"
  shows "in_i32 (x + 1) \<and> nextFreeX cells (x + 1) = Some y"
proof -
  have "nextFreeX cells x = (case i32 (x + 1) of None \<Rightarrow> None | Some y \<Rightarrow> nextFreeX cells y)"
    using assms(1) by (subst nextFreeX.simps) simp
  with assms(2) show ?thesis by (simp split: option.splits)
qed

lemma nextFreeX_Some:
  "nextFreeX cells x = Some y \<Longrightarrow>
     x \<le> y \<and> GridPosition y 0 \<notin> set cells \<and> (\<forall>z. x \<le> z \<and> z < y \<longrightarrow> GridPosition z 0 \<in> set cells)"
proof (induction cells x rule: nextFreeX.induct)
  case (1 cells x)
  show ?case
  proof (cases "GridPosition x 0 \<in> set cells")
    case True
    then have r: "in_i32 (x + 1)" "nextFreeX cells (x + 1) = Some y"
      using nextFreeX_occupiedD [OF True 1(2)] by simp_all
    note IH = 1(1) [OF True i32_defined [OF r(1)] r(2)]
    have "GridPosition z 0 \<in> set cells" if "x \<le> z" "z < y" for z
    proof (cases "z = x")
      case False
      with that have "x + 1 \<le> z \<and> z < y" by simp
      with IH show ?thesis by blast
    qed (simp add: True)
    with IH show ?thesis by simp
  next
    case False
    with 1(2) show ?thesis by (auto simp: nextFreeX_free)
  qed
qed

lemma nextFreeX_typed: "nextFreeX cells x = Some y \<Longrightarrow> in_i32 x \<Longrightarrow> in_i32 y"
proof (induction cells x rule: nextFreeX.induct)
  case (1 cells x)
  show ?case
  proof (cases "GridPosition x 0 \<in> set cells")
    case True
    then have r: "in_i32 (x + 1)" "nextFreeX cells (x + 1) = Some y"
      using nextFreeX_occupiedD [OF True 1(2)] by simp_all
    with 1(1) [OF True i32_defined [OF r(1)] r(2)] show ?thesis by simp
  next
    case False
    with 1(2,3) show ?thesis by (simp add: nextFreeX_free)
  qed
qed

lemma nextFreeX_defined:
  "x \<le> z \<Longrightarrow> in_i32 z \<Longrightarrow> in_i32 x \<Longrightarrow> GridPosition z 0 \<notin> set cells \<Longrightarrow> \<exists>y. nextFreeX cells x = Some y \<and> y \<le> z"
proof (induction cells x rule: nextFreeX.induct)
  case (1 cells x)
  show ?case
  proof (cases "GridPosition x 0 \<in> set cells")
    case True
    with 1(2,5) have "x + 1 \<le> z" by (cases "x = z") auto
    moreover from this have r: "in_i32 (x + 1)" using 1(3,4) by (simp add: in_i32_def)
    ultimately show ?thesis
      using 1(1) [OF True i32_defined [OF r]] 1(3,5) True by (simp add: nextFreeX_occupied)
  next
    case False
    with 1(2) show ?thesis by (simp add: nextFreeX_free)
  qed
qed

text \<open>The scan passes at most as many cells as there are screens.\<close>

lemma free_cell_exists:
  obtains z where "x \<le> z" "z \<le> x + int (length cells)" "GridPosition z 0 \<notin> set cells"
proof (rule ccontr)
  assume "\<not> thesis"
  with that have "(\<lambda>z. GridPosition z 0) ` {x .. x + int (length cells)} \<subseteq> set cells" by force
  then have "card ((\<lambda>z. GridPosition z 0) ` {x .. x + int (length cells)}) \<le> card (set cells)"
    by (intro card_mono) simp_all
  also have "\<dots> \<le> length cells" by (rule card_length)
  finally show False by (simp add: card_image inj_on_def)
qed

lemma nextFreeX_small:
  assumes "in_i32 x" "x + int (length cells) \<le> 2147483647"
  obtains y where "nextFreeX cells x = Some y" "y \<le> x + int (length cells)"
proof -
  obtain z where z: "x \<le> z" "z \<le> x + int (length cells)" "GridPosition z 0 \<notin> set cells"
    by (rule free_cell_exists)
  moreover from z assms have "in_i32 z" by (simp add: in_i32_def)
  ultimately show ?thesis using nextFreeX_defined [OF z(1) _ assms(1) z(3)] that by force
qed

definition few_screens :: "'ep screen_store \<Rightarrow> nat \<Rightarrow> bool" where
  "few_screens st extra \<longleftrightarrow> length (topologyScreens st) + extra < 2147483647"

lemma nextFreeCell_defined:
  assumes "few_screens st 0"
  obtains y where "nextFreeCell st 1 = Some (GridPosition y 0)"
proof -
  have small: "in_i32 1" "1 + int (length (map ts_cell (topologyScreens st))) \<le> 2147483647"
    using assms by (simp_all add: few_screens_def in_i32_def)
  obtain y where "nextFreeX (map ts_cell (topologyScreens st)) 1 = Some y"
    by (rule nextFreeX_small [OF small])
  with that show ?thesis by (simp add: nextFreeCell_def)
qed

lemma nextFreeCell_SomeD:
  assumes "nextFreeCell st 1 = Some cell"
  shows "cell \<notin> ts_cell ` set (topologyScreens st)" "cell_typed cell" "cell_y cell = 0" "1 \<le> cell_x cell"
proof -
  obtain x where x: "nextFreeX (map ts_cell (topologyScreens st)) 1 = Some x" "cell = GridPosition x 0"
    using assms by (auto simp: nextFreeCell_def ub_bind_eq_Some)
  from nextFreeX_Some [OF x(1)] nextFreeX_typed [OF x(1)]
  show "cell \<notin> ts_cell ` set (topologyScreens st)" "cell_typed cell" "cell_y cell = 0" "1 \<le> cell_x cell"
    by (auto simp: x cell_typed_def)
qed

section \<open>Invariants\<close>

definition topo_screen_of :: "'ep virtual_screen \<Rightarrow> topology_screen" where
  "topo_screen_of s = \<lparr>ts_key = vs_key s, ts_cell = vs_cell s, ts_info = vs_info s, ts_local = vs_local s\<rparr>"

definition store_inv :: "'ep::linorder screen_store \<Rightarrow> bool" where
  "store_inv st \<longleftrightarrow>
     topo_inv (st_topology st) \<and> mm_wf (st_screens st) \<and> map_wf (st_owners st) \<and>
     distinct (map fst (nodes st)) \<and> (\<forall>(n, s) \<in> set (nodes st). n < st_nextNode st) \<and>
     (\<forall>(ep, (n, s)) \<in> set (st_screens st). vs_endpoint s = ep) \<and>
     (\<forall>k t. findScreen (st_topology st) k = Some t \<longrightarrow> (\<exists>n s. (n, s) \<in> set (nodes st) \<and> topo_screen_of s = t))"

definition store_sync :: "'ep::linorder screen_store \<Rightarrow> bool" where
  "store_sync st \<longleftrightarrow>
     store_inv st \<and>
     (\<forall>(n, s) \<in> set (nodes st). findScreen (st_topology st) (vs_key s) = Some (topo_screen_of s)) \<and>
     distinct (map (vs_key \<circ> snd) (nodes st)) \<and>
     (\<forall>(n, s) \<in> set (nodes st). \<forall>(m, r) \<in> set (nodes st).
        key_ownerId (vs_key s) = key_ownerId (vs_key r) \<longrightarrow> vs_endpoint s = vs_endpoint r)"

text \<open>The cell of every registered screen is remembered in the configuration.\<close>

definition layout_sync :: "'ep screen_store \<Rightarrow> bool" where
  "layout_sync st \<longleftrightarrow>
     (\<forall>k t. findScreen (st_topology st) k = Some t \<longrightarrow> configuredCell st k = Some (ts_cell t))"

lemma topo_screen_of_simps [simp]:
  "ts_key (topo_screen_of s) = vs_key s" "ts_cell (topo_screen_of s) = vs_cell s"
  "ts_info (topo_screen_of s) = vs_info s" "ts_local (topo_screen_of s) = vs_local s"
  by (simp_all add: topo_screen_of_def)

lemma store_invD:
  assumes "store_inv st"
  shows "topo_inv (st_topology st)" "mm_wf (st_screens st)" "map_wf (st_owners st)"
    "distinct (map fst (nodes st))"
    "(n, s) \<in> set (nodes st) \<Longrightarrow> n < st_nextNode st"
    "(ep, (n, s)) \<in> set (st_screens st) \<Longrightarrow> vs_endpoint s = ep"
    "findScreen (st_topology st) k = Some t \<Longrightarrow> \<exists>n s. (n, s) \<in> set (nodes st) \<and> topo_screen_of s = t"
  using assms unfolding store_inv_def by (blast dest: bspec)+

lemma store_syncD:
  assumes "store_sync st"
  shows "store_inv st" "topo_inv (st_topology st)"
    "(n, s) \<in> set (nodes st) \<Longrightarrow> findScreen (st_topology st) (vs_key s) = Some (topo_screen_of s)"
    "distinct (map (vs_key \<circ> snd) (nodes st))"
    "(n, s) \<in> set (nodes st) \<Longrightarrow> (m, r) \<in> set (nodes st) \<Longrightarrow>
       key_ownerId (vs_key s) = key_ownerId (vs_key r) \<Longrightarrow> vs_endpoint s = vs_endpoint r"
  using assms unfolding store_sync_def by (auto dest: store_invD(1))

lemma set_nodes: "(n, s) \<in> set (nodes st) \<longleftrightarrow> (\<exists>ep. (ep, (n, s)) \<in> set (st_screens st))"
  by (force simp: nodes_def)

lemma nodes_endpoint:
  assumes "store_inv st"
  shows "(n, s) \<in> set (nodes st) \<longleftrightarrow> (vs_endpoint s, (n, s)) \<in> set (st_screens st)"
  using store_invD(6) [OF assms] by (auto simp: set_nodes)

lemma node_at_iff:
  assumes "store_inv st"
  shows "node_at st n = Some s \<longleftrightarrow> (n, s) \<in> set (nodes st)"
  using store_invD(4) [OF assms] by (simp add: node_at_def)

lemma new_store_inv [simp]: "store_inv (new_store config configPath disk)"
  by (simp add: store_inv_def new_store_def nodes_def)

lemma new_store_sync [simp]: "store_sync (new_store config configPath disk)"
  by (simp add: store_sync_def) (simp add: new_store_def nodes_def)

lemma new_store_layout [simp]: "layout_sync (new_store config configPath disk)"
  by (simp add: layout_sync_def new_store_def)

subsection \<open>Adding one screen\<close>

lemma saveConfigIfNeeded_fields [simp]:
  "st_screens (saveConfigIfNeeded env st) = st_screens st"
  "st_topology (saveConfigIfNeeded env st) = st_topology st"
  "st_owners (saveConfigIfNeeded env st) = st_owners st"
  "st_nextNode (saveConfigIfNeeded env st) = st_nextNode st"
  "st_config (saveConfigIfNeeded env st) = st_config st"
  "st_configPath (saveConfigIfNeeded env st) = st_configPath st"
  by (simp_all add: saveConfigIfNeeded_def)

definition new_screen :: "'ep \<Rightarrow> screen_key \<Rightarrow> grid_position \<Rightarrow> screen_info \<Rightarrow> bool \<Rightarrow> 'ep virtual_screen" where
  "new_screen ep key cell info local =
     \<lparr>vs_endpoint = ep, vs_key = key, vs_cell = cell, vs_local = local, vs_info = info\<rparr>"

lemma new_screen_simps [simp]:
  "vs_endpoint (new_screen ep key cell info local) = ep" "vs_key (new_screen ep key cell info local) = key"
  "vs_cell (new_screen ep key cell info local) = cell" "vs_local (new_screen ep key cell info local) = local"
  "vs_info (new_screen ep key cell info local) = info"
  by (simp_all add: new_screen_def)

lemma store_addScreen_cases:
  obtains (failed) e where
      "addScreen (topo_screen_of (new_screen ep key cell info local)) (st_topology st) = Inl e"
      "store_addScreen env ep key cell info local st = (None, st)"
  | (added) t st' where
      "addScreen (topo_screen_of (new_screen ep key cell info local)) (st_topology st) = Inr t"
      "store_addScreen env ep key cell info local st = (Some (st_nextNode st), st')"
      "st_topology st' = t" "st_owners st' = st_owners st" "st_configPath st' = st_configPath st"
      "st_nextNode st' = Suc (st_nextNode st)"
      "st_screens st' = mm_emplace ep (st_nextNode st, new_screen ep key cell info local) (st_screens st)"
      "st_config st' = upsertScreenLayout
         \<lparr>sl_ownerId = key_ownerId key, sl_screenIndex = key_screenIndex key, sl_cell = cell\<rparr> (st_config st)"
proof (cases "addScreen (topo_screen_of (new_screen ep key cell info local)) (st_topology st)")
  case (Inl e)
  with failed show ?thesis by (simp add: store_addScreen_def topo_screen_of_def)
next
  case (Inr t)
  with added show ?thesis
    by (simp add: store_addScreen_def topo_screen_of_def rememberScreenLayout_def Let_def new_screen_def)
qed

lemma set_nodes_emplace:
  "st_screens st' = mm_emplace ep e (st_screens st) \<Longrightarrow> set (nodes st') = insert e (set (nodes st))"
  by (simp add: nodes_def)

lemma distinct_nodes_emplace:
  "st_screens st' = mm_emplace ep e (st_screens st) \<Longrightarrow>
     distinct (map f (nodes st')) \<longleftrightarrow> f e \<notin> f ` set (nodes st) \<and> distinct (map f (nodes st))"
  using distinct_mm_emplace [of f ep e "st_screens st"] by (simp add: nodes_def image_image)

lemma configuredCell_remember:
  "st_config st' = upsertScreenLayout
       \<lparr>sl_ownerId = key_ownerId key, sl_screenIndex = key_screenIndex key, sl_cell = cell\<rparr> (st_config st) \<Longrightarrow>
     configuredCell st' k = (if k = key then Some cell else configuredCell st k)"
  by (cases k; cases key) (auto simp: configuredCell_def layout.lookup_upsert layout_matches_def)

lemma store_addScreen_inv:
  assumes inv: "store_inv st"
  shows "store_inv (snd (store_addScreen env ep key cell info local st))"
proof (cases rule: store_addScreen_cases [of ep key cell info local st env])
  case (failed e)
  then show ?thesis using inv by simp
next
  case (added t st')
  note I = store_invD [OF inv]
  note find = addScreen_find(1) [OF I(1) added(1)]
  have fresh: "st_nextNode st \<notin> fst ` set (nodes st)" using I(5) by fastforce
  have "store_inv st'"
    unfolding store_inv_def
  proof (intro conjI allI impI)
    show "topo_inv (st_topology st')" using addScreen_inv [OF I(1) added(1)] added(3) by simp
    show "mm_wf (st_screens st')" using I(2) added(7) by (simp add: mm_wf_emplace)
    show "map_wf (st_owners st')" using I(3) added(4) by simp
    show "distinct (map fst (nodes st'))" using fresh I(4) by (simp add: distinct_nodes_emplace [OF added(7)])
    show "\<forall>(n, s) \<in> set (nodes st'). n < st_nextNode st'"
      using I(5) added(6) by (auto simp: set_nodes_emplace [OF added(7)] less_Suc_eq)
    show "\<forall>(ep, (n, s)) \<in> set (st_screens st'). vs_endpoint s = ep"
      using I(6) added(7) by auto
  next
    fix k r
    assume "findScreen (st_topology st') k = Some r"
    then show "\<exists>n s. (n, s) \<in> set (nodes st') \<and> topo_screen_of s = r"
      using I(7) [of k r] by (auto simp: added(3) find set_nodes_emplace [OF added(7)] split: if_splits)
  qed
  then show ?thesis using added(2) by simp
qed

lemma store_addScreen_layout:
  assumes inv: "store_inv st" and layout: "layout_sync st"
  shows "layout_sync (snd (store_addScreen env ep key cell info local st))"
proof (cases rule: store_addScreen_cases [of ep key cell info local st env])
  case (failed e)
  then show ?thesis using layout by simp
next
  case (added t st')
  then show ?thesis
    using layout addScreen_find(1) [OF store_invD(1) [OF inv] added(1)]
    by (simp add: layout_sync_def configuredCell_remember [OF added(8)])
qed

definition owner_exclusive :: "'ep \<Rightarrow> string \<Rightarrow> 'ep screen_store \<Rightarrow> bool" where
  "owner_exclusive ep owner st \<longleftrightarrow>
     (\<forall>(n, s) \<in> set (nodes st). key_ownerId (vs_key s) = owner \<longrightarrow> vs_endpoint s = ep)"

lemma owner_exclusive_add:
  "owner_exclusive ep owner st \<Longrightarrow>
     owner_exclusive ep owner (snd (store_addScreen env ep key cell info local st))"
  by (cases rule: store_addScreen_cases [of ep key cell info local st env])
     (auto simp: owner_exclusive_def set_nodes_emplace)

lemma store_addScreen_sync:
  assumes sync: "store_sync st" and ex: "owner_exclusive ep (key_ownerId key) st"
  shows "store_sync (snd (store_addScreen env ep key cell info local st))"
proof (cases rule: store_addScreen_cases [of ep key cell info local st env])
  case (failed e)
  then show ?thesis using sync by simp
next
  case (added t st')
  note S = store_syncD [OF sync]
  note find = addScreen_find(1) [OF S(2) added(1)]
  have new: "findScreen (st_topology st) key = None"
    using added(1) by (simp add: addScreen_Inr_iff)
  have nodes: "set (nodes st') = insert (st_nextNode st, new_screen ep key cell info local) (set (nodes st))"
    by (rule set_nodes_emplace [OF added(7)])
  have "store_inv st'" using store_addScreen_inv [OF S(1), of env ep key cell info local] added(2) by simp
  moreover have "findScreen (st_topology st') (vs_key s) = Some (topo_screen_of s)"
    if "(n, s) \<in> set (nodes st')" for n s
    using that S(3) [of n s] new by (auto simp: nodes added(3) find)
  moreover have "distinct (map (vs_key \<circ> snd) (nodes st'))"
    using S(3,4) new by (force simp: distinct_nodes_emplace [OF added(7)])
  moreover have "vs_endpoint s = vs_endpoint r"
    if "(n, s) \<in> set (nodes st')" "(m, r) \<in> set (nodes st')" "key_ownerId (vs_key s) = key_ownerId (vs_key r)"
    for n s m r
    using that S(5) [of n s m r] ex unfolding nodes owner_exclusive_def by fastforce
  ultimately have "store_sync st'" unfolding store_sync_def by blast
  then show ?thesis using added(2) by simp
qed

lemma registerScreens_loop_invariant:
  assumes "registerScreens_loop env ep owner local primaryIndex index registered infos st = Some st'"
    and "P st"
    and "\<And>st i reg info cell reg'. P st \<Longrightarrow> info \<in> set infos \<Longrightarrow>
      placeScreen local primaryIndex i reg (ScreenKey owner i) info st = Some (cell, reg') \<Longrightarrow>
      P (snd (store_addScreen env ep (ScreenKey owner i) cell info local st))"
  shows "P st'"
  using assms
proof (induction infos arbitrary: st index registered)
  case (Cons info infos)
  from Cons.prems(1) obtain cell reg where
    place: "placeScreen local primaryIndex index registered (ScreenKey owner index) info st = Some (cell, reg)"
    and rest: "registerScreens_loop env ep owner local primaryIndex (Suc index) reg infos
      (snd (store_addScreen env ep (ScreenKey owner index) cell info local st)) = Some st'"
    by (auto simp: ub_bind_eq_Some)
  show ?case
    by (rule Cons.IH [OF rest Cons.prems(3) [OF Cons.prems(2) _ place] Cons.prems(3)]) auto
qed simp

lemma registerScreens_owner_inv:
  assumes "registerScreens_owner env ep owner infos local st = Some st'" "store_inv st"
  shows "store_inv st'"
  using assms unfolding registerScreens_owner_def
  by (rule registerScreens_loop_invariant) (rule store_addScreen_inv)

lemma registerScreens_owner_layout:
  assumes "registerScreens_owner env ep owner infos local st = Some st'" "store_inv st" "layout_sync st"
  shows "layout_sync st'"
proof -
  have "store_inv st' \<and> layout_sync st'"
    using assms(1) conjI [OF assms(2,3)] unfolding registerScreens_owner_def
    by (rule registerScreens_loop_invariant) (simp add: store_addScreen_inv store_addScreen_layout)
  then show ?thesis by simp
qed

lemma registerScreens_owner_sync:
  assumes "registerScreens_owner env ep owner infos local st = Some st'" "store_sync st"
    "owner_exclusive ep owner st"
  shows "store_sync st'"
proof -
  have "store_sync st' \<and> owner_exclusive ep owner st'"
    using assms(1) conjI [OF assms(2,3)] unfolding registerScreens_owner_def
    by (rule registerScreens_loop_invariant) (simp add: store_addScreen_sync owner_exclusive_add)
  then show ?thesis by simp
qed

subsection \<open>Removing the screens of an endpoint\<close>

lemma set_collect_owners:
  "set (collect_owners ownerIds ns) = set ownerIds \<union> (\<lambda>(n, s). key_ownerId (vs_key s)) ` set ns"
  by (induction ownerIds ns rule: collect_owners.induct) (auto simp: Let_def)

lemma fold_removeOwner:
  assumes "topo_inv t"
  shows "topo_inv (fold removeOwner owners t) \<and>
    findScreen (fold removeOwner owners t) k = (if key_ownerId k \<in> set owners then None else findScreen t k)"
  using assms
proof (induction owners arbitrary: t)
  case (Cons owner owners)
  from Cons.IH [OF removeOwner_inv [OF Cons.prems]] show ?case
    by (simp add: removeOwner_find [OF Cons.prems])
qed simp

lemma removeScreen_fields:
  "st_config (snd (removeScreen ep active st)) = st_config st"
  "st_configPath (snd (removeScreen ep active st)) = st_configPath st"
  "st_owners (snd (removeScreen ep active st)) = st_owners st"
  "st_nextNode (snd (removeScreen ep active st)) = st_nextNode st"
  "st_disk (snd (removeScreen ep active st)) = st_disk st"
  "st_screens (snd (removeScreen ep active st)) = mm_erase ep (st_screens st)"
  by (simp_all add: removeScreen_def Let_def)

lemma removeScreen_nodes:
  assumes "store_inv st"
  shows "(n, s) \<in> set (nodes (snd (removeScreen ep active st))) \<longleftrightarrow> (n, s) \<in> set (nodes st) \<and> vs_endpoint s \<noteq> ep"
  using store_invD(6) [OF assms] by (auto simp: set_nodes removeScreen_fields)

definition owned_by :: "'ep \<Rightarrow> string \<Rightarrow> 'ep screen_store \<Rightarrow> bool" where
  "owned_by ep owner st \<longleftrightarrow> (\<exists>(n, s) \<in> set (nodes st). vs_endpoint s = ep \<and> key_ownerId (vs_key s) = owner)"

lemma equal_range_nodes:
  assumes "store_inv st"
  shows "(n, s) \<in> set (mm_equal_range ep (st_screens st)) \<longleftrightarrow> (n, s) \<in> set (nodes st) \<and> vs_endpoint s = ep"
  using store_invD(6) [OF assms, of ep n s] by (auto simp: nodes_endpoint [OF assms])

lemma owned_byI:
  "(n, s) \<in> set (nodes st) \<Longrightarrow> vs_endpoint s = ep \<Longrightarrow> key_ownerId (vs_key s) = owner \<Longrightarrow> owned_by ep owner st"
  unfolding owned_by_def by auto

lemma owner_exclusiveD:
  "owner_exclusive ep owner st \<Longrightarrow> (n, s) \<in> set (nodes st) \<Longrightarrow> key_ownerId (vs_key s) = owner \<Longrightarrow>
     vs_endpoint s = ep"
  unfolding owner_exclusive_def by auto

lemma removeScreen_find:
  assumes "store_inv st"
  shows "findScreen (st_topology (snd (removeScreen ep active st))) k =
    (if owned_by ep (key_ownerId k) st then None else findScreen (st_topology st) k)"
proof -
  have "owner \<in> set (collect_owners [] (mm_equal_range ep (st_screens st))) \<longleftrightarrow> owned_by ep owner st" for owner
  proof -
    have "set (mm_equal_range ep (st_screens st)) = {e \<in> set (nodes st). vs_endpoint (snd e) = ep}"
      using equal_range_nodes [OF assms] by auto
    then show ?thesis by (force simp: set_collect_owners owned_by_def)
  qed
  then show ?thesis
    using fold_removeOwner [OF store_invD(1) [OF assms]]
    by (simp add: removeScreen_def Let_def)
qed

lemma removeScreen_reports:
  assumes "store_inv st"
  shows "fst (removeScreen ep active st) \<longleftrightarrow>
    (\<exists>n s. active = Some n \<and> node_at st n = Some s \<and> vs_endpoint s = ep)"
  unfolding removeScreen_def Let_def list_ex_iff Bex_def split_paired_Ex fst_conv
  by (cases active)
     (auto simp del: set_mm_equal_range simp: equal_range_nodes [OF assms] node_at_iff [OF assms])

lemma nodes_removeScreen: "nodes (snd (removeScreen ep active st)) = map snd (mm_erase ep (st_screens st))"
  by (simp add: nodes_def removeScreen_fields)

lemma distinct_nodes_erase:
  "distinct (map f (nodes st)) \<Longrightarrow> distinct (map f (nodes (snd (removeScreen ep active st))))"
  using distinct_mm_erase [of "f \<circ> snd" "st_screens st" ep]
  by (simp add: nodes_removeScreen) (simp add: nodes_def)

lemma removeScreen_inv:
  assumes inv: "store_inv st"
  shows "store_inv (snd (removeScreen ep active st))"
proof -
  note I = store_invD [OF inv]
  show ?thesis
    unfolding store_inv_def
  proof (intro conjI allI impI)
    show "topo_inv (st_topology (snd (removeScreen ep active st)))"
      using fold_removeOwner [OF I(1)] by (simp add: removeScreen_def Let_def)
    show "mm_wf (st_screens (snd (removeScreen ep active st)))"
      using I(2) by (simp add: removeScreen_fields mm_wf_erase)
    show "map_wf (st_owners (snd (removeScreen ep active st)))" using I(3) by (simp add: removeScreen_fields)
    show "distinct (map fst (nodes (snd (removeScreen ep active st))))"
      by (rule distinct_nodes_erase [OF I(4)])
    show "\<forall>(n, s) \<in> set (nodes (snd (removeScreen ep active st))). n < st_nextNode (snd (removeScreen ep active st))"
      using I(5) by (auto simp: removeScreen_nodes [OF inv] removeScreen_fields)
    show "\<forall>(ep', (n, s)) \<in> set (st_screens (snd (removeScreen ep active st))). vs_endpoint s = ep'"
      using I(6) by (auto simp: removeScreen_fields)
  next
    fix k t
    assume "findScreen (st_topology (snd (removeScreen ep active st))) k = Some t"
    then have k: "findScreen (st_topology st) k = Some t" "\<not> owned_by ep (key_ownerId k) st"
      by (simp_all add: removeScreen_find [OF inv] split: if_splits)
    obtain n s where s: "(n, s) \<in> set (nodes st)" "topo_screen_of s = t" using I(7) [OF k(1)] by blast
    moreover have "vs_key s = k" using topo_invD(1) [OF I(1) k(1)] s(2) by auto
    ultimately have "vs_endpoint s \<noteq> ep" using k(2) by (auto simp: owned_by_def)
    with s show "\<exists>n s. (n, s) \<in> set (nodes (snd (removeScreen ep active st))) \<and> topo_screen_of s = t"
      using removeScreen_nodes [OF inv] by blast
  qed
qed

lemma removeScreen_sync:
  assumes sync: "store_sync st"
  shows "store_sync (snd (removeScreen ep active st))"
proof -
  note S = store_syncD [OF sync]
  have "findScreen (st_topology (snd (removeScreen ep active st))) (vs_key s) = Some (topo_screen_of s)"
    if "(n, s) \<in> set (nodes (snd (removeScreen ep active st)))" for n s
  proof -
    from that have s: "(n, s) \<in> set (nodes st)" "vs_endpoint s \<noteq> ep" by (simp_all add: removeScreen_nodes [OF S(1)])
    have "\<not> owned_by ep (key_ownerId (vs_key s)) st"
    proof
      assume "owned_by ep (key_ownerId (vs_key s)) st"
      then obtain m r where "(m, r) \<in> set (nodes st)" "vs_endpoint r = ep"
        "key_ownerId (vs_key r) = key_ownerId (vs_key s)"
        by (auto simp: owned_by_def)
      with S(5) [OF this(1) s(1) this(3)] s(2) show False by simp
    qed
    with S(3) [OF s(1)] show ?thesis by (simp add: removeScreen_find [OF S(1)])
  qed
  moreover have "vs_endpoint s = vs_endpoint r"
    if "(n, s) \<in> set (nodes (snd (removeScreen ep active st)))"
      "(m, r) \<in> set (nodes (snd (removeScreen ep active st)))" "key_ownerId (vs_key s) = key_ownerId (vs_key r)"
    for n s m r
    using that S(5) [of n s m r] by (simp add: removeScreen_nodes [OF S(1)])
  ultimately show ?thesis
    using removeScreen_inv [OF S(1)] distinct_nodes_erase [OF S(4)]
    unfolding store_sync_def by blast
qed

lemma removeScreen_layout:
  assumes "store_inv st" "layout_sync st"
  shows "layout_sync (snd (removeScreen ep active st))"
  using assms by (simp add: layout_sync_def removeScreen_find configuredCell_def removeScreen_fields)

lemma removeScreen_exclusive: "store_inv st \<Longrightarrow> owner_exclusive ep owner st \<Longrightarrow>
  owner_exclusive ep owner (snd (removeScreen ep' active st))"
  by (auto simp: owner_exclusive_def removeScreen_nodes)

subsection \<open>Lookup\<close>

lemma store_findScreen_SomeD:
  "store_findScreen key st = Some (n, s) \<Longrightarrow> (n, s) \<in> set (nodes st) \<and> vs_key s = key"
  by (auto simp: store_findScreen_def find_Some_iff in_set_conv_nth)

lemma store_findScreen_None: "store_findScreen key st = None \<longleftrightarrow> (\<forall>(n, s) \<in> set (nodes st). vs_key s \<noteq> key)"
  by (auto simp: store_findScreen_def find_None_iff)

lemma store_findScreen_of_topology:
  assumes "store_inv st" "findScreen (st_topology st) key = Some t"
  obtains n s where "store_findScreen key st = Some (n, s)"
proof -
  obtain m r where r: "(m, r) \<in> set (nodes st)" "topo_screen_of r = t"
    using store_invD(7) [OF assms] by blast
  then have "vs_key r = key" using topo_invD(1) [OF store_invD(1) [OF assms(1)] assms(2)] by auto
  with r(1) have "store_findScreen key st \<noteq> None" unfolding store_findScreen_None by blast
  with that show ?thesis by (auto split: prod.splits)
qed

lemma store_findScreen_sync:
  assumes "store_sync st"
  shows "store_findScreen key st = Some (n, s) \<longleftrightarrow> (n, s) \<in> set (nodes st) \<and> vs_key s = key"
proof
  assume "(n, s) \<in> set (nodes st) \<and> vs_key s = key"
  moreover from this obtain m r where m: "store_findScreen key st = Some (m, r)"
    using store_findScreen_None [of key st] by (cases "store_findScreen key st") fastforce+
  ultimately have "(m, r) \<in> set (nodes st)" "vs_key r = vs_key s" "(n, s) \<in> set (nodes st)"
    using store_findScreen_SomeD [OF m] by simp_all
  moreover have "inj_on (vs_key \<circ> snd) (set (nodes st))"
    using store_syncD(4) [OF assms] by (simp add: distinct_map)
  ultimately have "(m, r) = (n, s)" using inj_onD [of "vs_key \<circ> snd" _ "(m, r)" "(n, s)"] by simp
  with m show "store_findScreen key st = Some (n, s)" by simp
qed (rule store_findScreen_SomeD)

lemma first_local_Some:
  "first_local selected ns = Some node \<Longrightarrow> (\<forall>x. selected = Some x \<longrightarrow> vs_local (snd x)) \<Longrightarrow>
     vs_local (snd node) \<and> (node \<in> set ns \<or> selected = Some node)"
  by (induction selected ns rule: first_local.induct) (auto simp: Let_def split: if_splits)

lemma first_local_None: "first_local selected ns = None \<longleftrightarrow> selected = None \<and> (\<forall>x \<in> set ns. \<not> vs_local (snd x))"
  by (induction selected ns rule: first_local.induct) (auto simp: Let_def)

lemma first_local_primary:
  "\<exists>x \<in> set ns. vs_local (snd x) \<and> si_primary (vs_info (snd x)) \<Longrightarrow>
     \<exists>x. first_local selected ns = Some x \<and> si_primary (vs_info (snd x))"
proof (induction selected ns rule: first_local.induct)
  case (2 selected node rest)
  show ?case
  proof (cases "vs_local (snd node)")
    case False
    with 2 show ?thesis by simp
  next
    case True
    show ?thesis
    proof (cases "si_primary (vs_info (snd node))")
      case True
      with \<open>vs_local (snd node)\<close> show ?thesis by (simp add: Let_def)
    next
      case False
      with 2(3) have "\<exists>x \<in> set rest. vs_local (snd x) \<and> si_primary (vs_info (snd x))" by auto
      from 2(2) [OF _ refl False this] True False show ?thesis by (simp add: Let_def)
    qed
  qed
qed simp

lemma firstLocalScreen_SomeD:
  "firstLocalScreen st = Some (n, s) \<Longrightarrow> (n, s) \<in> set (nodes st) \<and> vs_local s"
  using first_local_Some [of None "nodes st" "(n, s)"] by (simp add: firstLocalScreen_def)

section \<open>What a registration achieves\<close>

lemma length_map_emplace: "length (map_emplace k v m) \<le> Suc (length m)"
  by (induction k v m rule: map_emplace.induct) auto

lemma few_screens_add:
  "few_screens st (Suc n) \<Longrightarrow> few_screens (snd (store_addScreen env ep key cell info local st)) n"
proof (cases rule: store_addScreen_cases [of ep key cell info local st env])
  case (added t st')
  assume "few_screens st (Suc n)"
  moreover have "length (screens t) \<le> Suc (length (topologyScreens st))"
    using added(1) length_map_emplace by (auto simp: addScreen_Inr_iff screens_def topologyScreens_def)
  ultimately show ?thesis using added(2,3) by (simp add: few_screens_def topologyScreens_def)
qed (simp add: few_screens_def)

definition occupied :: "'ep screen_store \<Rightarrow> grid_position set" where
  "occupied st = ts_cell ` set (topologyScreens st)"

lemma occupied_iff:
  assumes "store_inv st"
  shows "c \<in> occupied st \<longleftrightarrow> map_find (topo_cells (st_topology st)) c \<noteq> None"
  using cell_free_iff [OF store_invD(1) [OF assms], of c] by (auto simp: occupied_def topologyScreens_def)

lemma occupied_iff_find:
  assumes "store_inv st"
  shows "c \<in> occupied st \<longleftrightarrow> (\<exists>k t. findScreen (st_topology st) k = Some t \<and> ts_cell t = c)"
  using grid.find_cell [OF store_invD(1) [OF assms]] by (simp add: occupied_iff [OF assms])

lemma occupied_ran: "store_inv st \<Longrightarrow> occupied st = ts_cell ` ran (findScreen (st_topology st))"
  unfolding set_eq_iff image_iff ran_def by (simp add: occupied_iff_find) blast

lemma list_ex_occupied: "list_ex (\<lambda>screen. ts_cell screen = c) (topologyScreens st) \<longleftrightarrow> c \<in> occupied st"
  by (auto simp: occupied_def list_ex_iff)

text \<open>A placed cell is free unless it is the anchor.\<close>

lemma placeScreen_remote:
  assumes "few_screens st 0"
  obtains cell where "placeScreen False primaryIndex index registered key info st = Some (cell, registered)"
    "cell \<notin> occupied st"
proof -
  obtain y where y: "nextFreeCell st 1 = Some (GridPosition y 0)"
    using assms by (rule nextFreeCell_defined)
  have free: "GridPosition y 0 \<notin> occupied st"
    using nextFreeCell_SomeD(1) [OF y] by (simp add: occupied_def)
  show ?thesis
  proof (cases "configuredCell st key")
    case None
    with y free that show ?thesis by (simp add: placeScreen_def)
  next
    case (Some cell)
    show ?thesis
    proof (cases "cell \<in> occupied st")
      case True
      with Some y free that [of "GridPosition y 0"] show ?thesis
        by (simp add: placeScreen_def list_ex_occupied)
    next
      case False
      with Some that [of cell] show ?thesis by (simp add: placeScreen_def list_ex_occupied)
    qed
  qed
qed

lemma placeScreen_configured:
  assumes "configuredCell st key = Some cell" "cell \<notin> occupied st"
  shows "\<exists>reg. placeScreen local primaryIndex index registered key info st = Some (cell, reg)"
  using assms by (simp add: placeScreen_def list_ex_occupied)

lemma store_addScreen_free:
  assumes "store_inv st" "isValidRect info" "findScreen (st_topology st) key = None" "cell \<notin> occupied st"
  shows "findScreen (st_topology (snd (store_addScreen env ep key cell info local st))) =
    (findScreen (st_topology st))(key \<mapsto> topo_screen_of (new_screen ep key cell info local))"
proof (cases rule: store_addScreen_cases [of ep key cell info local st env])
  case (failed e)
  have "\<exists>t. addScreen (topo_screen_of (new_screen ep key cell info local)) (st_topology st) = Inr t"
    using assms(2-4) by (simp add: addScreen_Inr_iff occupied_iff [OF assms(1)])
  with failed(1) show ?thesis by simp
next
  case (added t st')
  then show ?thesis using addScreen_find(1) [OF store_invD(1) [OF assms(1)] added(1)] by simp
qed

lemma store_addScreen_config:
  "j \<noteq> key \<Longrightarrow> configuredCell (snd (store_addScreen env ep key cell info local st)) j = configuredCell st j"
  by (cases rule: store_addScreen_cases [of ep key cell info local st env])
     (simp_all add: configuredCell_remember)

lemma register_remote_complete:
  assumes "store_inv st" "few_screens st (length infos)" "\<forall>info \<in> set infos. isValidRect info"
    "\<forall>i \<ge> index. findScreen (st_topology st) (ScreenKey owner i) = None"
  shows "\<exists>st'. registerScreens_loop env ep owner False primaryIndex index registered infos st = Some st' \<and>
    (\<forall>i < length infos. \<exists>t. findScreen (st_topology st') (ScreenKey owner (index + i)) = Some t \<and>
        ts_info t = infos ! i \<and> \<not> ts_local t) \<and>
    (\<forall>i \<ge> index + length infos. findScreen (st_topology st') (ScreenKey owner i) = None) \<and>
    (\<forall>k. key_ownerId k \<noteq> owner \<or> key_screenIndex k < index \<longrightarrow>
        findScreen (st_topology st') k = findScreen (st_topology st) k)"
  using assms
proof (induction infos arbitrary: st index)
  case (Cons info infos)
  let ?key = "ScreenKey owner index"
  have few: "few_screens st 0" using Cons.prems(2) by (simp add: few_screens_def)
  obtain cell where place: "placeScreen False primaryIndex index registered ?key info st = Some (cell, registered)"
    and free: "cell \<notin> occupied st"
    by (rule placeScreen_remote [OF few])
  let ?st = "snd (store_addScreen env ep ?key cell info False st)"
  have find: "findScreen (st_topology ?st) =
      (findScreen (st_topology st))(?key \<mapsto> topo_screen_of (new_screen ep ?key cell info False))"
    by (rule store_addScreen_free [OF Cons.prems(1) _ _ free]) (use Cons.prems in simp_all)
  have later: "\<forall>i \<ge> Suc index. findScreen (st_topology ?st) (ScreenKey owner i) = None"
    using Cons.prems(4) by (simp add: find)
  have few': "few_screens ?st (length infos)" using Cons.prems(2) by (simp add: few_screens_add)
  have valid: "\<forall>info \<in> set infos. isValidRect info" using Cons.prems(3) by simp
  obtain st' where
    loop: "registerScreens_loop env ep owner False primaryIndex (Suc index) registered infos ?st = Some st'"
    and all: "\<forall>i < length infos. \<exists>t. findScreen (st_topology st') (ScreenKey owner (Suc index + i)) = Some t \<and>
        ts_info t = infos ! i \<and> \<not> ts_local t"
    and rest: "\<forall>i \<ge> Suc index + length infos. findScreen (st_topology st') (ScreenKey owner i) = None"
    and old: "\<forall>k. key_ownerId k \<noteq> owner \<or> key_screenIndex k < Suc index \<longrightarrow>
        findScreen (st_topology st') k = findScreen (st_topology ?st) k"
    using Cons.IH [OF store_addScreen_inv [OF Cons.prems(1)] few' valid later] by blast
  have "\<exists>t. findScreen (st_topology st') (ScreenKey owner (index + i)) = Some t \<and>
      ts_info t = (info # infos) ! i \<and> \<not> ts_local t" if "i < Suc (length infos)" for i
  proof (cases i)
    case 0
    then show ?thesis using old by (simp add: find)
  next
    case (Suc j)
    with that all show ?thesis by simp
  qed
  moreover have "findScreen (st_topology st') k = findScreen (st_topology st) k"
    if "key_ownerId k \<noteq> owner \<or> key_screenIndex k < index" for k
    using that old by (auto simp: find)
  ultimately show ?case using place loop rest by simp
qed simp

text \<open>A registration whose screens all have a remembered free cell puts each into its cell.\<close>

definition placed :: "string \<Rightarrow> bool \<Rightarrow> (nat \<Rightarrow> grid_position) \<Rightarrow> nat \<Rightarrow> screen_info list \<Rightarrow> screen_key \<Rightarrow>
    topology_screen option" where
  "placed owner local cell index infos k =
     (if key_ownerId k = owner \<and> index \<le> key_screenIndex k \<and> key_screenIndex k < index + length infos
      then Some \<lparr>ts_key = k, ts_cell = cell (key_screenIndex k),
                 ts_info = infos ! (key_screenIndex k - index), ts_local = local\<rparr>
      else None)"

lemma placed_Cons:
  "placed owner local cell index (info # infos) k =
     (if k = ScreenKey owner index
      then Some (topo_screen_of (new_screen ep k (cell index) info local))
      else placed owner local cell (Suc index) infos k)"
  by (cases k) (auto simp: placed_def topo_screen_of_def nth_Cons' Suc_le_eq)

lemma register_configured:
  assumes "store_inv st" "\<forall>info \<in> set infos. isValidRect info"
    "\<forall>i \<ge> index. findScreen (st_topology st) (ScreenKey owner i) = None"
    "\<forall>i \<ge> index. i < index + length infos \<longrightarrow>
       configuredCell st (ScreenKey owner i) = Some (cell i) \<and> cell i \<notin> occupied st"
    "inj_on cell {index ..< index + length infos}"
  shows "\<exists>st'. registerScreens_loop env ep owner local primaryIndex index registered infos st = Some st' \<and>
    (\<forall>k. findScreen (st_topology st') k =
       (case placed owner local cell index infos k of
          Some t \<Rightarrow> Some t | None \<Rightarrow> findScreen (st_topology st) k))"
  using assms
proof (induction infos arbitrary: st index registered)
  case Nil
  then show ?case by (auto simp: placed_def)
next
  case (Cons info infos)
  let ?key = "ScreenKey owner index"
  have conf: "configuredCell st ?key = Some (cell index)" and free: "cell index \<notin> occupied st"
    using Cons.prems(4) by simp_all
  obtain reg where place: "placeScreen local primaryIndex index registered ?key info st = Some (cell index, reg)"
    using placeScreen_configured [OF conf free] by blast
  let ?st = "snd (store_addScreen env ep ?key (cell index) info local st)"
  have find: "findScreen (st_topology ?st) =
      (findScreen (st_topology st))(?key \<mapsto> topo_screen_of (new_screen ep ?key (cell index) info local))"
    by (rule store_addScreen_free [OF Cons.prems(1) _ _ free]) (use Cons.prems in simp_all)
  have inv: "store_inv ?st" by (rule store_addScreen_inv [OF Cons.prems(1)])
  have later: "\<forall>i \<ge> Suc index. findScreen (st_topology ?st) (ScreenKey owner i) = None"
    using Cons.prems(3) by (simp add: find)
  have valid: "\<forall>info \<in> set infos. isValidRect info" using Cons.prems(2) by simp
  have occ: "occupied ?st = insert (cell index) (occupied st)"
    using Cons.prems(3)
    by (simp add: occupied_ran [OF inv] occupied_ran [OF Cons.prems(1)] find ran_map_upd)
  have cells: "configuredCell ?st (ScreenKey owner i) = Some (cell i) \<and> cell i \<notin> occupied ?st"
    if i: "Suc index \<le> i" "i < Suc index + length infos" for i
  proof -
    have "cell i \<noteq> cell index" using inj_onD [OF Cons.prems(5), of i index] i by auto
    then show ?thesis using Cons.prems(4) i by (simp add: occ store_addScreen_config)
  qed
  have inj: "inj_on cell {Suc index ..< Suc index + length infos}"
    by (rule inj_on_subset [OF Cons.prems(5)]) auto
  obtain st' where
    loop: "registerScreens_loop env ep owner local primaryIndex (Suc index) reg infos ?st = Some st'"
    and found: "\<forall>k. findScreen (st_topology st') k =
       (case placed owner local cell (Suc index) infos k of
          Some t \<Rightarrow> Some t | None \<Rightarrow> findScreen (st_topology ?st) k)"
    using Cons.IH [OF inv valid later _ inj] cells by blast
  have "findScreen (st_topology st') k =
      (case placed owner local cell index (info # infos) k of
         Some t \<Rightarrow> Some t | None \<Rightarrow> findScreen (st_topology st) k)" for k
  proof (cases "k = ?key")
    case True
    have "placed owner local cell (Suc index) infos ?key = None" by (simp add: placed_def)
    with True show ?thesis
      using spec [OF found, of ?key] by (simp add: placed_Cons [where ep = ep] find)
  next
    case False
    then show ?thesis
      using spec [OF found, of k] by (simp add: placed_Cons [where ep = ep] find split: option.split)
  qed
  with place loop show ?case by simp
qed

definition fresh_client :: "'ep \<Rightarrow> string \<Rightarrow> 'ep screen_store \<Rightarrow> bool" where
  "fresh_client ep owner st \<longleftrightarrow>
     (\<forall>(n, s) \<in> set (nodes st). vs_endpoint s \<noteq> ep \<and> key_ownerId (vs_key s) \<noteq> owner)"

definition endpoint_exclusive :: "'ep \<Rightarrow> string \<Rightarrow> 'ep screen_store \<Rightarrow> bool" where
  "endpoint_exclusive ep owner st \<longleftrightarrow>
     (\<forall>(n, s) \<in> set (nodes st). vs_endpoint s = ep \<longrightarrow> key_ownerId (vs_key s) = owner)"

lemma fresh_client_exclusive:
  "fresh_client ep owner st \<Longrightarrow> owner_exclusive ep owner st"
  "fresh_client ep owner st \<Longrightarrow> endpoint_exclusive ep owner st"
  by (auto simp: fresh_client_def owner_exclusive_def endpoint_exclusive_def)

lemma endpoint_exclusive_add:
  "endpoint_exclusive ep (key_ownerId key) st \<Longrightarrow>
     endpoint_exclusive ep (key_ownerId key) (snd (store_addScreen env ep key cell info local st))"
  by (cases rule: store_addScreen_cases [of ep key cell info local st env])
     (auto simp: endpoint_exclusive_def set_nodes_emplace)

lemma registerScreens_owner_exclusive:
  assumes "registerScreens_owner env ep owner infos local st = Some st'" "fresh_client ep owner st"
  shows "owner_exclusive ep owner st' \<and> endpoint_exclusive ep owner st'"
  using assms(1) conjI [OF fresh_client_exclusive [OF assms(2)]] unfolding registerScreens_owner_def
proof (rule registerScreens_loop_invariant)
  fix st i info cell
  assume "owner_exclusive ep owner st \<and> endpoint_exclusive ep owner st"
  then show "owner_exclusive ep owner (snd (store_addScreen env ep (ScreenKey owner i) cell info local st)) \<and>
      endpoint_exclusive ep owner (snd (store_addScreen env ep (ScreenKey owner i) cell info local st))"
    using endpoint_exclusive_add [of ep "ScreenKey owner i" st] by (simp add: owner_exclusive_add)
qed

lemma fresh_client_topology:
  assumes "store_inv st" "fresh_client ep owner st" "key_ownerId k = owner"
  shows "findScreen (st_topology st) k = None"
proof (rule ccontr)
  assume "findScreen (st_topology st) k \<noteq> None"
  then obtain t where t: "findScreen (st_topology st) k = Some t" by blast
  obtain n s where "(n, s) \<in> set (nodes st)" "topo_screen_of s = t"
    using store_invD(7) [OF assms(1) t] by blast
  moreover have "ts_key t = k" by (rule topo_invD(1) [OF store_invD(1) [OF assms(1)] t])
  ultimately show False using assms(2,3) by (fastforce simp: fresh_client_def)
qed

lemma remove_own_screens:
  assumes inv: "store_inv st" and ex: "owner_exclusive ep owner st \<and> endpoint_exclusive ep owner st"
  shows "findScreen (st_topology (snd (removeScreen ep active st))) k =
    (if key_ownerId k = owner then None else findScreen (st_topology st) k)"
proof -
  have only: "owned_by ep o' st \<Longrightarrow> o' = owner" for o'
    using ex by (auto simp: owned_by_def endpoint_exclusive_def)
  have gone: "findScreen (st_topology st) k = None" if none: "\<not> owned_by ep owner st" "key_ownerId k = owner"
  proof (rule ccontr)
    assume "findScreen (st_topology st) k \<noteq> None"
    then obtain t where t: "findScreen (st_topology st) k = Some t" by blast
    obtain n s where s: "(n, s) \<in> set (nodes st)" "topo_screen_of s = t"
      using store_invD(7) [OF inv t] by blast
    have "vs_key s = k" using topo_invD(1) [OF store_invD(1) [OF inv] t] s(2) by auto
    with none(2) have owner: "key_ownerId (vs_key s) = owner" by simp
    have "owned_by ep owner st"
      by (rule owned_byI [OF s(1) owner_exclusiveD [OF conjunct1 [OF ex] s(1) owner] owner])
    with none(1) show False by simp
  qed
  show ?thesis
  proof (cases "owned_by ep (key_ownerId k) st")
    case True
    from only [OF True] have "key_ownerId k = owner" .
    then show ?thesis unfolding removeScreen_find [OF inv] using True by simp
  next
    case False
    with gone show ?thesis unfolding removeScreen_find [OF inv] by (cases "key_ownerId k = owner") simp_all
  qed
qed

text \<open>What may happen to the store while a client is away: others register, leave and are remembered.\<close>

inductive others :: "string \<Rightarrow> 'ep::linorder screen_store \<Rightarrow> 'ep screen_store \<Rightarrow> bool" for owner where
  nothing: "others owner st st"
| registered: "others owner st st1 \<Longrightarrow> owner' \<noteq> owner \<Longrightarrow>
    registerScreens_owner env ep owner' infos local st1 = Some st2 \<Longrightarrow> others owner st st2"
| left: "others owner st st1 \<Longrightarrow> others owner st (snd (removeScreen ep active st1))"
| remembered: "others owner st st1 \<Longrightarrow> others owner st (rememberOwner ep name st1)"
| forgotten: "others owner st st1 \<Longrightarrow> others owner st (forgetOwner ep st1)"

definition away :: "string \<Rightarrow> 'ep::linorder screen_store \<Rightarrow> 'ep screen_store \<Rightarrow> bool" where
  "away owner st0 st \<longleftrightarrow> store_inv st \<and>
     (\<forall>k. key_ownerId k = owner \<longrightarrow>
        findScreen (st_topology st) k = None \<and> configuredCell st k = configuredCell st0 k)"

lemma store_addScreen_find:
  assumes "store_inv st" "k \<noteq> key"
  shows "findScreen (st_topology (snd (store_addScreen env ep key cell info local st))) k = findScreen (st_topology st) k"
proof (cases rule: store_addScreen_cases [of ep key cell info local st env])
  case (failed e)
  then show ?thesis by simp
next
  case (added t st')
  with addScreen_find(1) [OF store_invD(1) [OF assms(1)] added(1)] assms(2) show ?thesis by simp
qed

lemma registered_away:
  assumes "registerScreens_owner env ep owner' infos local st = Some st'" "away owner st0 st" "owner' \<noteq> owner"
  shows "away owner st0 st'"
  using assms(1,2) unfolding registerScreens_owner_def
proof (rule registerScreens_loop_invariant)
  fix st i info cell
  have "k \<noteq> ScreenKey owner' i" if "key_ownerId k = owner" for k using that assms(3) by auto
  moreover assume "away owner st0 st"
  ultimately show "away owner st0 (snd (store_addScreen env ep (ScreenKey owner' i) cell info local st))"
    by (simp add: away_def store_addScreen_inv store_addScreen_find store_addScreen_config)
qed

lemma others_away:
  assumes "others owner st0 st" "away owner st0 st0"
  shows "away owner st0 st"
  using assms
proof (induction rule: others.induct)
  case (registered st0 st1 owner' env ep infos local st2)
  with registered_away show ?case by blast
next
  case (left st0 st1 ep active)
  then have "store_inv st1" by (simp add: away_def)
  with left show ?case
    by (simp add: away_def removeScreen_inv removeScreen_find configuredCell_def removeScreen_fields)
next
  case (remembered st0 st1 ep name)
  then show ?case
    by (simp add: away_def store_inv_def rememberOwner_def nodes_def configuredCell_def std_map.invar_assign)
next
  case (forgotten st0 st1 ep)
  then show ?case
    by (simp add: away_def store_inv_def forgetOwner_def nodes_def configuredCell_def std_map.invar_erase)
qed

lemma reconnect_cells:
  assumes sync: "store_sync st" and layout: "layout_sync st" and fresh: "fresh_client ep owner st"
    and few: "few_screens st (length infos)" and valid: "\<forall>info \<in> set infos. isValidRect info"
  shows "\<exists>st1. registerScreens_owner env ep owner infos False st = Some st1 \<and>
    (\<forall>st2. others owner (snd (removeScreen ep active st1)) st2 \<and>
       (\<forall>k t. key_ownerId k = owner \<longrightarrow> findScreen (st_topology st1) k = Some t \<longrightarrow> ts_cell t \<notin> occupied st2) \<longrightarrow>
       (\<exists>st3. registerScreens_owner env' ep' owner infos False st2 = Some st3 \<and>
          (\<forall>k. findScreen (st_topology st3) k =
             findScreen (st_topology (if key_ownerId k = owner then st1 else st2)) k)))"
proof -
  note inv = store_syncD(1) [OF sync]
  have none: "\<forall>i \<ge> 0. findScreen (st_topology st) (ScreenKey owner i) = None"
    using fresh_client_topology [OF inv fresh] by simp
  obtain st1 where st1: "registerScreens_owner env ep owner infos False st = Some st1"
    and all: "\<forall>i < length infos. \<exists>t. findScreen (st_topology st1) (ScreenKey owner i) = Some t \<and>
        ts_info t = infos ! i \<and> \<not> ts_local t"
    and no_more: "\<forall>i \<ge> length infos. findScreen (st_topology st1) (ScreenKey owner i) = None"
    using register_remote_complete [OF inv few valid none, of env ep "first_primary 0 infos" False]
    unfolding registerScreens_owner_def by auto
  have inv1: "store_inv st1" using st1 inv by (rule registerScreens_owner_inv)
  have layout1: "layout_sync st1" using st1 inv layout by (rule registerScreens_owner_layout)
  have topo1: "topo_inv (st_topology st1)" by (rule store_invD(1) [OF inv1])
  let ?r = "snd (removeScreen ep active st1)"
  have find: "findScreen (st_topology ?r) k =
      (if key_ownerId k = owner then None else findScreen (st_topology st1) k)" for k
    using inv1 registerScreens_owner_exclusive [OF st1 fresh] by (rule remove_own_screens)
  have start: "away owner ?r ?r"
    by (simp add: away_def removeScreen_inv [OF inv1] find)
  define cell where "cell i = ts_cell (the (findScreen (st_topology st1) (ScreenKey owner i)))" for i
  have remembered: "configuredCell ?r (ScreenKey owner i) = Some (cell i)" if "i < length infos" for i
  proof -
    from all that obtain t where t: "findScreen (st_topology st1) (ScreenKey owner i) = Some t" by blast
    then have "configuredCell st1 (ScreenKey owner i) = Some (ts_cell t)"
      using layout1 unfolding layout_sync_def by blast
    with t show ?thesis by (simp add: configuredCell_def removeScreen_fields cell_def)
  qed
  have inj: "inj_on cell {0 ..< 0 + length infos}"
  proof (rule inj_onI)
    fix i j
    assume ij: "i \<in> {0 ..< 0 + length infos}" "j \<in> {0 ..< 0 + length infos}" "cell i = cell j"
    with all obtain t u where "findScreen (st_topology st1) (ScreenKey owner i) = Some t"
      "findScreen (st_topology st1) (ScreenKey owner j) = Some u" by fastforce
    with ij(3) grid.cell_unique [OF topo1 this] show "i = j" by (simp add: cell_def)
  qed
  have again: "\<exists>st3. registerScreens_owner env' ep' owner infos False st2 = Some st3 \<and>
      (\<forall>k. findScreen (st_topology st3) k = findScreen (st_topology (if key_ownerId k = owner then st1 else st2)) k)"
    if between: "others owner ?r st2"
      and free: "\<And>k t. key_ownerId k = owner \<Longrightarrow> findScreen (st_topology st1) k = Some t \<Longrightarrow> ts_cell t \<notin> occupied st2"
    for st2
  proof -
    have still: "away owner ?r st2" by (rule others_away [OF between start])
    then have inv2: "store_inv st2" and gone: "\<And>k. key_ownerId k = owner \<Longrightarrow> findScreen (st_topology st2) k = None"
      by (simp_all add: away_def)
    have cells: "configuredCell st2 (ScreenKey owner i) = Some (cell i) \<and> cell i \<notin> occupied st2"
      if "i < length infos" for i
    proof -
      from all that obtain t where t: "findScreen (st_topology st1) (ScreenKey owner i) = Some t" by blast
      with free [of "ScreenKey owner i" t] remembered [OF that] still show ?thesis
        by (simp add: away_def cell_def)
    qed
    obtain st3 where st3: "registerScreens_owner env' ep' owner infos False st2 = Some st3"
      and found: "\<forall>k. findScreen (st_topology st3) k = (case placed owner False cell 0 infos k of
          Some t \<Rightarrow> Some t | None \<Rightarrow> findScreen (st_topology st2) k)"
      using register_configured [OF inv2 valid _ _ inj, of owner env' ep' False "first_primary 0 infos" False]
        cells gone unfolding registerScreens_owner_def by auto
    have "findScreen (st_topology st3) k = findScreen (st_topology (if key_ownerId k = owner then st1 else st2)) k" for k
    proof (cases "key_ownerId k = owner \<and> key_screenIndex k < length infos")
      case False
      have "findScreen (st_topology st1) k = None" if "key_ownerId k = owner"
        using no_more False that by (cases k) auto
      with False found gone [of k] show ?thesis by (simp add: placed_def)
    next
      case True
      then have k: "k = ScreenKey owner (key_screenIndex k)" by (cases k) simp
      with True obtain t where t: "findScreen (st_topology st1) k = Some t"
        "ts_info t = infos ! key_screenIndex k" "\<not> ts_local t"
        using all by metis
      have "t = \<lparr>ts_key = k, ts_cell = cell (key_screenIndex k), ts_info = infos ! key_screenIndex k, ts_local = False\<rparr>"
        using topo_invD(1) [OF topo1 t(1)] t k by (cases t) (simp add: cell_def)
      with t(1) found True show ?thesis by (simp add: placed_def)
    qed
    with st3 show ?thesis by blast
  qed
  with st1 show ?thesis by blast
qed

text \<open>If nobody comes in between, the cells are still free.\<close>

lemma own_cells_freed:
  assumes "store_inv st" "owner_exclusive ep owner st \<and> endpoint_exclusive ep owner st"
    and "key_ownerId k = owner" "findScreen (st_topology st) k = Some t"
  shows "ts_cell t \<notin> occupied (snd (removeScreen ep active st))"
proof
  let ?r = "snd (removeScreen ep active st)"
  assume "ts_cell t \<in> occupied ?r"
  then obtain j u where u: "findScreen (st_topology ?r) j = Some u" "ts_cell u = ts_cell t"
    by (auto simp: occupied_iff_find [OF removeScreen_inv [OF assms(1)]])
  then have "findScreen (st_topology st) j = Some u" "key_ownerId j \<noteq> owner"
    by (simp_all add: remove_own_screens [OF assms(1,2)] split: if_splits)
  with grid.cell_unique [OF store_invD(1) [OF assms(1)] assms(4), of j u] u(2) assms(3) show False by simp
qed

section \<open>Properties\<close>

text \<open>Endpoints of the examples are numbers; the example server has one local screen.\<close>

definition demo_env :: "nat store_env" where
  "demo_env = \<lparr>env_json = demo_json, env_io = no_faults, env_format = \<lambda>n. replicate n CHR ''1''\<rparr>"

definition demo_store :: "nat screen_store" where
  "demo_store = new_store default_config [] empty_disk"

definition demo_monitor :: "bool \<Rightarrow> screen_info" where
  "demo_monitor primary = (demo_info 1920 1080)\<lparr>si_primary := primary\<rparr>"

lemma demo_store_inv: "store_sync demo_store" "store_inv demo_store" "layout_sync demo_store"
  by (simp_all add: demo_store_def)

lemma demo_store_few: "n \<le> 10 \<Longrightarrow> few_screens demo_store n"
  by (simp add: few_screens_def demo_store_def new_store_def topologyScreens_def screens_def empty_topology_def)

lemma demo_store_fresh: "fresh_client ep owner demo_store"
  by (simp add: fresh_client_def demo_store_def new_store_def nodes_def)

lemma demo_monitor_valid: "isValidRect (demo_monitor p)"
  by (simp add: isValidRect_def demo_monitor_def demo_info_def)

lemma demo_store_empty: "findScreen (st_topology demo_store) k = None"
  by (simp add: demo_store_def new_store_def)

text \<open>
  C18. The automatic placement returns the first free cell of row 0 from column 1 on, and it returns as long
  as there are fewer than \<open>2 ^ 31 - 1\<close> screens: the loop ends and the counter does not overflow.
\<close>

theorem nextFreeCell_least:
  assumes "few_screens st 0"
  shows "\<exists>x \<ge> 1. nextFreeCell st 1 = Some (GridPosition x 0) \<and> GridPosition x 0 \<notin> occupied st \<and>
    (\<forall>z. 1 \<le> z \<and> z < x \<longrightarrow> GridPosition z 0 \<in> occupied st)"
proof -
  obtain x where x: "nextFreeCell st 1 = Some (GridPosition x 0)"
    using assms by (rule nextFreeCell_defined)
  then have "nextFreeX (map ts_cell (topologyScreens st)) 1 = Some x"
    by (auto simp: nextFreeCell_def ub_bind_eq_Some)
  from nextFreeX_Some [OF this] x show ?thesis by (auto simp: occupied_def)
qed

theorem nextFreeCell_least_witness:
  "\<exists>x \<ge> 1. nextFreeCell demo_store 1 = Some (GridPosition x 0)"
  using nextFreeCell_least [OF demo_store_few [of 0]] by auto

text \<open>
  Registering the screens of a remote client that is not yet known never fails: every screen with a
  positive size is found under its owner and index with the reported geometry, and every screen of
  another owner keeps its place.
\<close>

theorem registerScreens_remote_complete:
  assumes "store_inv st" and "few_screens st (length infos)" and "\<forall>info \<in> set infos. isValidRect info"
    and "\<forall>i. findScreen (st_topology st) (ScreenKey owner i) = None"
  shows "\<exists>st'. registerScreens_owner env ep owner infos False st = Some st' \<and>
    (\<forall>i < length infos. \<exists>t. findScreen (st_topology st') (ScreenKey owner i) = Some t \<and>
        ts_info t = infos ! i \<and> \<not> ts_local t) \<and>
    (\<forall>k. key_ownerId k \<noteq> owner \<longrightarrow> findScreen (st_topology st') k = findScreen (st_topology st) k)"
  using register_remote_complete [of st infos 0 owner env ep "first_primary 0 infos" False] assms
  by (auto simp: registerScreens_owner_def)

theorem registerScreens_remote_complete_witness:
  "\<exists>st'. registerScreens_owner demo_env 7 ''peer'' [demo_monitor True, demo_monitor False] False demo_store = Some st' \<and>
     (\<exists>t. findScreen (st_topology st') (ScreenKey ''peer'' 1) = Some t)"
proof -
  have few: "few_screens demo_store (length [demo_monitor True, demo_monitor False])"
    by (rule demo_store_few) simp
  have valid: "\<forall>info \<in> set [demo_monitor True, demo_monitor False]. isValidRect info"
    by (simp add: demo_monitor_valid)
  have none: "\<forall>i. findScreen (st_topology demo_store) (ScreenKey ''peer'' i) = None"
    by (simp add: demo_store_empty)
  from registerScreens_remote_complete [OF demo_store_inv(2) few valid none, of demo_env 7]
  show ?thesis by fastforce
qed

text \<open>
  C17. A client that disconnects and registers the same screens again, from whatever endpoint, gets the
  screens and cells it had, if nobody has taken these cells in the meantime: whatever others have registered and
  whoever has left, the remembered layout wins over the automatic placement. The screens of the others stay.
\<close>

theorem reconnect_keeps_cells:
  assumes "store_sync st" and "layout_sync st" and "fresh_client ep owner st"
    and "few_screens st (length infos)" and "\<forall>info \<in> set infos. isValidRect info"
  shows "\<exists>st1. registerScreens_owner env ep owner infos False st = Some st1 \<and>
    (\<forall>st2. others owner (snd (removeScreen ep active st1)) st2 \<and>
       (\<forall>k t. key_ownerId k = owner \<longrightarrow> findScreen (st_topology st1) k = Some t \<longrightarrow> ts_cell t \<notin> occupied st2) \<longrightarrow>
       (\<exists>st3. registerScreens_owner env' ep' owner infos False st2 = Some st3 \<and>
          (\<forall>k. findScreen (st_topology st3) k =
             findScreen (st_topology (if key_ownerId k = owner then st1 else st2)) k)))"
  using assms by (rule reconnect_cells)

theorem reconnect_keeps_cells_witness:
  "\<exists>st1 st2. registerScreens_owner demo_env 7 ''peer'' [demo_monitor True] False demo_store = Some st1 \<and>
    registerScreens_owner demo_env 8 ''peer'' [demo_monitor True] False (snd (removeScreen 7 None st1)) = Some st2 \<and>
    (\<forall>k. key_ownerId k = ''peer'' \<longrightarrow> findScreen (st_topology st2) k = findScreen (st_topology st1) k)"
proof -
  have few: "few_screens demo_store (length [demo_monitor True])" by (rule demo_store_few) simp
  have valid: "\<forall>info \<in> set [demo_monitor True]. isValidRect info" by (simp add: demo_monitor_valid)
  obtain st1 where st1: "registerScreens_owner demo_env 7 ''peer'' [demo_monitor True] False demo_store = Some st1"
    and again: "\<And>st2. others ''peer'' (snd (removeScreen 7 None st1)) st2 \<Longrightarrow>
      (\<forall>k t. key_ownerId k = ''peer'' \<longrightarrow> findScreen (st_topology st1) k = Some t \<longrightarrow> ts_cell t \<notin> occupied st2) \<Longrightarrow>
      \<exists>st3. registerScreens_owner demo_env 8 ''peer'' [demo_monitor True] False st2 = Some st3 \<and>
        (\<forall>k. findScreen (st_topology st3) k = findScreen (st_topology (if key_ownerId k = ''peer'' then st1 else st2)) k)"
    using reconnect_keeps_cells [OF demo_store_inv(1,3) demo_store_fresh few valid, where env = demo_env and env' = demo_env
        and ep = 7 and ep' = 8 and owner = "''peer''" and active = None] by blast
  have "ts_cell t \<notin> occupied (snd (removeScreen 7 None st1))"
    if "key_ownerId k = ''peer''" "findScreen (st_topology st1) k = Some t" for k t
    using registerScreens_owner_inv [OF st1 demo_store_inv(2)] registerScreens_owner_exclusive [OF st1 demo_store_fresh] that
    by (rule own_cells_freed)
  with again [OF others.nothing] obtain st3 where
    "registerScreens_owner demo_env 8 ''peer'' [demo_monitor True] False (snd (removeScreen 7 None st1)) = Some st3"
    "\<forall>k. key_ownerId k = ''peer'' \<longrightarrow> findScreen (st_topology st3) k = findScreen (st_topology st1) k"
    by fastforce
  with st1 show ?thesis by blast
qed

text \<open>
  Removing an endpoint keeps the store consistent, removes exactly the nodes of this endpoint, leaves
  every other node at its address, and reports the active screen as gone exactly if its node is one of
  those removed.
\<close>

theorem removeScreen_exact:
  assumes "store_sync st"
  shows "store_sync (snd (removeScreen ep active st)) \<and>
    (\<forall>n. node_at (snd (removeScreen ep active st)) n =
       (case node_at st n of
          None \<Rightarrow> None | Some s \<Rightarrow> if vs_endpoint s = ep then None else Some s)) \<and>
    (fst (removeScreen ep active st) \<longleftrightarrow>
       (\<exists>n s. active = Some n \<and> node_at st n = Some s \<and> vs_endpoint s = ep))"
proof -
  note inv = store_syncD(1) [OF assms]
  have "node_at (snd (removeScreen ep active st)) n =
      (case node_at st n of None \<Rightarrow> None | Some s \<Rightarrow> if vs_endpoint s = ep then None else Some s)" for n
  proof -
    have iff: "node_at (snd (removeScreen ep active st)) n = Some s \<longleftrightarrow> node_at st n = Some s \<and> vs_endpoint s \<noteq> ep" for s
      by (simp add: node_at_iff [OF inv] node_at_iff [OF removeScreen_inv [OF inv]] removeScreen_nodes [OF inv])
    show ?thesis
    proof (cases "node_at (snd (removeScreen ep active st)) n")
      case None
      with iff show ?thesis by (cases "node_at st n") auto
    next
      case (Some s)
      with iff [of s] show ?thesis by simp
    qed
  qed
  with removeScreen_sync [OF assms] removeScreen_reports [OF inv] show ?thesis by blast
qed

theorem removeScreen_exact_witness:
  "store_sync (snd (removeScreen 7 (Some 0) demo_store)) \<and> \<not> fst (removeScreen 7 (Some 0) demo_store)"
  using removeScreen_exact [OF demo_store_inv(1), of 7 "Some 0"]
  by (simp add: node_at_def nodes_def demo_store_def new_store_def)

text \<open>
  Registering screens for an owner id that no other endpoint uses keeps the store consistent: the nodes
  and the topology describe the same screens, no two nodes have the same key, and the configuration
  remembers the cell of every registered screen. This holds for local and remote screens.
\<close>

theorem registerScreens_keeps_sync:
  assumes "registerScreens_owner env ep owner infos local st = Some st'"
    and "store_sync st" and "layout_sync st" and "owner_exclusive ep owner st"
  shows "store_sync st' \<and> layout_sync st'"
  using registerScreens_owner_sync [OF assms(1,2,4)]
    registerScreens_owner_layout [OF assms(1) store_syncD(1) [OF assms(2)] assms(3)] by blast

lemma demo_register_local:
  "registerScreens_owner demo_env 0 ''host'' [demo_monitor True] True demo_store =
     Some (snd (store_addScreen demo_env 0 (ScreenKey ''host'' 0) (GridPosition 0 0) (demo_monitor True) True demo_store))"
  by (simp add: registerScreens_owner_def placeScreen_def demo_monitor_def demo_info_def configuredCell_def
        demo_store_def new_store_def findScreenLayout_def default_config_def)

theorem registerScreens_keeps_sync_witness:
  "store_sync (snd (store_addScreen demo_env 0 (ScreenKey ''host'' 0) (GridPosition 0 0) (demo_monitor True) True demo_store))"
  using registerScreens_keeps_sync [OF demo_register_local demo_store_inv(1,3)
      fresh_client_exclusive(1) [OF demo_store_fresh]] by blast

text \<open>
  The anchor of the host: a local screen is found exactly if one is registered, it is local, and it is
  a primary screen whenever some local screen is marked primary.
\<close>

theorem firstLocalScreen_prefers_primary:
  "(case firstLocalScreen st of
      None \<Rightarrow> \<forall>(n, s) \<in> set (nodes st). \<not> vs_local s
    | Some (n, s) \<Rightarrow> (n, s) \<in> set (nodes st) \<and> vs_local s \<and>
        ((\<exists>(m, r) \<in> set (nodes st). vs_local r \<and> si_primary (vs_info r)) \<longrightarrow> si_primary (vs_info s)))"
proof (cases "firstLocalScreen st")
  case None
  then have "\<forall>x \<in> set (nodes st). \<not> vs_local (snd x)" by (simp add: firstLocalScreen_def first_local_None)
  with None show ?thesis by auto
next
  case (Some node)
  obtain n s where node: "node = (n, s)" by (cases node)
  have "si_primary (vs_info s)" if "\<exists>(m, r) \<in> set (nodes st). vs_local r \<and> si_primary (vs_info r)"
  proof -
    from that obtain m r where "(m, r) \<in> set (nodes st)" "vs_local r" "si_primary (vs_info r)" by auto
    then have "\<exists>x \<in> set (nodes st). vs_local (snd x) \<and> si_primary (vs_info (snd x))"
      by (intro bexI [of _ "(m, r)"]) simp_all
    from first_local_primary [OF this, of None] Some node show ?thesis by (simp add: firstLocalScreen_def)
  qed
  with firstLocalScreen_SomeD [of st n s] Some node show ?thesis by simp
qed

theorem firstLocalScreen_prefers_primary_witness:
  "firstLocalScreen demo_store = None"
  using firstLocalScreen_prefers_primary [of demo_store]
  by (auto simp: firstLocalScreen_def nodes_def demo_store_def new_store_def)

text \<open>
  The store keys a client by its owner id but removes it by endpoint. If a client reconnects before the
  server has seen the old connection close, its screens are rejected as duplicates, and closing the
  old connection then removes the only registration: the connected client has no screen left.
\<close>

theorem shared_owner_loses_screens:
  "\<exists>st1 st2. registerScreens_owner demo_env 7 ''peer'' [demo_monitor True] False demo_store = Some st1 \<and>
    registerScreens_owner demo_env 8 ''peer'' [demo_monitor True] False st1 = Some st2 \<and>
    nodes (snd (removeScreen 7 None st2)) = [] \<and>
    topologyScreens (snd (removeScreen 7 None st2)) = []"
proof -
  let ?cell = "GridPosition 1 0"
  have place1: "placeScreen False 0 0 False (ScreenKey ''peer'' 0) (demo_monitor True) demo_store = Some (?cell, False)"
    by (simp add: placeScreen_def configuredCell_def findScreenLayout_def demo_store_def new_store_def
          default_config_def nextFreeCell_def topologyScreens_def screens_def empty_topology_def nextFreeX_free)
  define st1 where "st1 = snd (store_addScreen demo_env 7 (ScreenKey ''peer'' 0) ?cell (demo_monitor True) False demo_store)"
  have r1: "registerScreens_owner demo_env 7 ''peer'' [demo_monitor True] False demo_store = Some st1"
    by (simp add: registerScreens_owner_def place1 st1_def)
  have st1: "st_screens st1 = [(7, 0, new_screen 7 (ScreenKey ''peer'' 0) ?cell (demo_monitor True) False)]"
    "topo_screens (st_topology st1) =
       [(ScreenKey ''peer'' 0, topo_screen_of (new_screen (7 :: nat) (ScreenKey ''peer'' 0) ?cell (demo_monitor True) False))]"
    "topo_cells (st_topology st1) = [(?cell, ScreenKey ''peer'' 0)]"
    using demo_monitor_valid [of True]
    by (simp_all add: st1_def store_addScreen_def addScreen_def demo_store_def new_store_def empty_topology_def
          Let_def rememberScreenLayout_def mm_emplace_rec topo_screen_of_def new_screen_def)
  have few: "few_screens st1 0" by (simp add: few_screens_def topologyScreens_def screens_def st1)
  obtain cell where place2: "placeScreen False 0 0 False (ScreenKey ''peer'' 0) (demo_monitor True) st1 = Some (cell, False)"
    by (rule placeScreen_remote [OF few])
  have "store_addScreen demo_env 8 (ScreenKey ''peer'' 0) cell (demo_monitor True) False st1 = (None, st1)"
    using demo_monitor_valid [of True] by (simp add: store_addScreen_def addScreen_def st1)
  then have r2: "registerScreens_owner demo_env 8 ''peer'' [demo_monitor True] False st1 = Some st1"
    by (simp add: registerScreens_owner_def place2)
  have "nodes (snd (removeScreen 7 None st1)) = []" "topologyScreens (snd (removeScreen 7 None st1)) = []"
    by (simp_all add: removeScreen_def nodes_def topologyScreens_def screens_def mm_erase_def mm_equal_range_def
          st1 removeOwner_def Let_def)
  with r1 r2 show ?thesis by blast
qed

text \<open>
  The anchor cell is not checked: if a remote client already sits at the origin when the host registers
  its primary screen without a remembered cell, the host screen is rejected and the host has no local
  screen at all.
\<close>

theorem occupied_anchor_drops_primary:
  assumes "store_inv st" and "GridPosition 0 0 \<in> occupied st"
    and "configuredCell st (ScreenKey owner 0) = None"
  shows "registerScreens_owner env ep owner [info] True st = Some st"
proof -
  have "placeScreen True 0 0 False (ScreenKey owner 0) info st = Some (GridPosition 0 0, True)"
    using assms(3) by (simp add: placeScreen_def)
  moreover have "snd (store_addScreen env ep (ScreenKey owner 0) (GridPosition 0 0) info True st) = st"
  proof (cases rule: store_addScreen_cases [of ep "ScreenKey owner 0" "GridPosition 0 0" info True st env])
    case (added t st')
    then show ?thesis using assms(2) by (simp add: addScreen_Inr_iff occupied_iff [OF assms(1)])
  qed simp
  ultimately show ?thesis by (simp add: registerScreens_owner_def)
qed

definition demo_remote_at_origin :: "nat screen_store" where
  "demo_remote_at_origin =
     snd (store_addScreen demo_env 7 (ScreenKey ''peer'' 0) (GridPosition 0 0) (demo_monitor True) False demo_store)"

theorem occupied_anchor_drops_primary_witness:
  "registerScreens_owner demo_env 0 ''host'' [demo_monitor True] True demo_remote_at_origin = Some demo_remote_at_origin"
proof (rule occupied_anchor_drops_primary)
  show inv: "store_inv demo_remote_at_origin"
    unfolding demo_remote_at_origin_def by (rule store_addScreen_inv [OF demo_store_inv(2)])
  have "GridPosition 0 0 \<notin> occupied demo_store"
    by (simp add: occupied_iff_find [OF demo_store_inv(2)] demo_store_empty)
  then have "findScreen (st_topology demo_remote_at_origin) =
      (findScreen (st_topology demo_store))(ScreenKey ''peer'' 0 \<mapsto>
         topo_screen_of (new_screen (7 :: nat) (ScreenKey ''peer'' 0) (GridPosition 0 0) (demo_monitor True) False))"
    unfolding demo_remote_at_origin_def
    by (rule store_addScreen_free [OF demo_store_inv(2) demo_monitor_valid demo_store_empty])
  then show "GridPosition 0 0 \<in> occupied demo_remote_at_origin"
    unfolding occupied_iff_find [OF inv]
    by (intro exI [of _ "ScreenKey ''peer'' 0"]) auto
  show "configuredCell demo_remote_at_origin (ScreenKey ''host'' 0) = None"
    by (simp add: demo_remote_at_origin_def store_addScreen_config)
       (simp add: configuredCell_def demo_store_def new_store_def findScreenLayout_def default_config_def)
qed

end
