(* ===== verification/Input_Router.thy ===== *)
theory Input_Router
  imports Screen_Store
begin

text \<open>
  The input router of the server, \<open>src/app/server_input.hpp\<close> and \<open>src/app/server_input.cpp\<close>: it
  turns captured local input into messages for the remote client that owns the active screen, and moves
  the active screen along the topology.

  \<^item> \<open>router\<close> is the class \<open>ServerInputRouter\<close> with the objects it refers to: the screen store, the
    map of client senders and the attached capture. The active screen is the id of a store node;
    reading it after the node was erased is undefined behaviour (\<open>None\<close>).
  \<^item> Senders and capture are foreign objects: their states are the type variables \<open>'snd\<close> and \<open>'cap\<close>,
    their operations the parameter \<open>router_io\<close>. An operation returns whether it succeeded.
  \<^item> \<open>router_ok\<close> is the invariant: no dangling active screen, the virtual cursor inside the active
    remote screen, coordinates far from the limits of \<open>int32_t\<close>.
\<close>

section \<open>Data\<close>

record ('cap, 'snd) router_io =
  io_setRemote :: "bool \<Rightarrow> 'cap \<Rightarrow> bool \<times> 'cap"
  io_moveCursor :: "nat \<Rightarrow> int \<Rightarrow> int \<Rightarrow> 'cap \<Rightarrow> bool \<times> 'cap"
  io_senderValid :: "'snd \<Rightarrow> bool"
  io_trySend :: "input_event \<Rightarrow> 'snd \<Rightarrow> bool \<times> 'snd"

record ('ep, 'cap, 'snd) router =
  rt_store :: "'ep screen_store"
  rt_senders :: "('ep, 'snd) std_map"
  rt_capture :: "'cap option"
  rt_active :: "nat option"
  rt_point :: "screen_point option"
  rt_lastLocal :: "mouse_move_event option"
  rt_pendingWarp :: "screen_point option"

definition new_router :: "'ep screen_store \<Rightarrow> ('ep, 'snd) std_map \<Rightarrow> ('ep, 'cap, 'snd) router" where
  "new_router store senders =
     \<lparr>rt_store = store, rt_senders = senders, rt_capture = None, rt_active = None, rt_point = None,
      rt_lastLocal = None, rt_pendingWarp = None\<rparr>"

section \<open>Active screen and capture\<close>

text \<open>Reading through the pointer to the active screen.\<close>

definition active_screen :: "('ep, 'cap, 'snd) router \<Rightarrow> 'ep virtual_screen option ub" where
  "active_screen r =
     (case rt_active r of
        None \<Rightarrow> Some None
      | Some node \<Rightarrow> do { screen \<leftarrow> node_at (rt_store r) node; Some (Some screen) })"

definition activeScreenKey :: "('ep, 'cap, 'snd) router \<Rightarrow> screen_key option ub" where
  "activeScreenKey r = do { active \<leftarrow> active_screen r; Some (map_option vs_key active) }"

definition active_is_remote :: "('ep, 'cap, 'snd) router \<Rightarrow> bool ub" where
  "active_is_remote r =
     do { active \<leftarrow> active_screen r; Some (case active of None \<Rightarrow> False | Some screen \<Rightarrow> \<not> vs_local screen) }"

definition updateCaptureRemoteControl ::
  "('cap, 'snd) router_io \<Rightarrow> ('ep, 'cap, 'snd) router \<Rightarrow> ('ep, 'cap, 'snd) router ub" where
  "updateCaptureRemoteControl io r =
     (case rt_capture r of
        None \<Rightarrow> Some r
      | Some capture \<Rightarrow> do {
          active \<leftarrow> active_is_remote r;
          Some (r\<lparr>rt_capture := Some (snd (io_setRemote io active capture))\<rparr>)
        })"

definition setCapture ::
  "('cap, 'snd) router_io \<Rightarrow> 'cap option \<Rightarrow> ('ep, 'cap, 'snd) router \<Rightarrow> ('ep, 'cap, 'snd) router ub" where
  "setCapture io capture r = updateCaptureRemoteControl io (r\<lparr>rt_capture := capture\<rparr>)"

definition reset_active :: "('ep, 'cap, 'snd) router \<Rightarrow> ('ep, 'cap, 'snd) router" where
  "reset_active r =
     r\<lparr>rt_active := None, rt_point := None, rt_lastLocal := None, rt_pendingWarp := None\<rparr>"

definition clearActiveState ::
  "('cap, 'snd) router_io \<Rightarrow> ('ep, 'cap, 'snd) router \<Rightarrow> ('ep, 'cap, 'snd) router ub" where
  "clearActiveState io r = updateCaptureRemoteControl io (reset_active r)"

definition activateFirstLocalScreen ::
  "('cap, 'snd) router_io \<Rightarrow> ('ep, 'cap, 'snd) router \<Rightarrow> ('ep, 'cap, 'snd) router ub" where
  "activateFirstLocalScreen io r =
     (case firstLocalScreen (rt_store r) of
        None \<Rightarrow> updateCaptureRemoteControl io (reset_active r)
      | Some (node, screen) \<Rightarrow>
          updateCaptureRemoteControl io
            (r\<lparr>rt_active := Some node, rt_point := Some \<lparr>sp_key = vs_key screen, sp_x = 0, sp_y = 0\<rparr>,
               rt_lastLocal := None, rt_pendingWarp := None\<rparr>))"

section \<open>Sending and switching\<close>

definition queueInputForScreen ::
  "('cap, 'snd) router_io \<Rightarrow> 'ep::linorder virtual_screen \<Rightarrow> input_event \<Rightarrow> ('ep, 'cap, 'snd) router \<Rightarrow>
     bool \<times> ('ep, 'cap, 'snd) router" where
  "queueInputForScreen io screen event r =
     (if vs_local screen then (False, r)
      else (case map_find (rt_senders r) (vs_endpoint screen) of
              None \<Rightarrow> (False, r)
            | Some sender \<Rightarrow>
                if \<not> io_senderValid io sender then (False, r)
                else (let (ok, sender') = io_trySend io event sender
                      in (ok, r\<lparr>rt_senders := map_assign (vs_endpoint screen) sender' (rt_senders r)\<rparr>))))"

definition moveLocalCursorToActivePoint ::
  "('cap, 'snd) router_io \<Rightarrow> ('ep, 'cap, 'snd) router \<Rightarrow> ('ep, 'cap, 'snd) router ub" where
  "moveLocalCursorToActivePoint io r =
     (case rt_capture r of
        None \<Rightarrow> Some r
      | Some capture \<Rightarrow> do {
          active \<leftarrow> active_screen r;
          case (active, rt_point r) of
            (Some screen, Some point) \<Rightarrow>
              if \<not> vs_local screen then Some r
              else (let (ok, capture') = io_moveCursor io (key_screenIndex (sp_key point)) (sp_x point) (sp_y point) capture
                    in Some (if ok then r\<lparr>rt_capture := Some capture', rt_pendingWarp := Some point\<rparr>
                             else r\<lparr>rt_capture := Some capture'\<rparr>))
          | _ \<Rightarrow> Some r
        })"

definition point_move :: "screen_point \<Rightarrow> input_event" where
  "point_move point = MouseMoveEvent (absolute_move (sp_x point) (sp_y point) (key_screenIndex (sp_key point)))"

text \<open>The log line reads the key of the old active screen before it is replaced.\<close>

definition switchActiveScreen ::
  "('cap, 'snd) router_io \<Rightarrow> screen_point \<Rightarrow> ('ep::linorder, 'cap, 'snd) router \<Rightarrow> ('ep, 'cap, 'snd) router ub" where
  "switchActiveScreen io point r =
     (case store_findScreen (sp_key point) (rt_store r) of
        None \<Rightarrow> Some r
      | Some (node, screen) \<Rightarrow> do {
          old \<leftarrow> active_screen r;
          r1 \<leftarrow> updateCaptureRemoteControl io (r\<lparr>rt_active := Some node, rt_point := Some point\<rparr>);
          if \<not> vs_local screen
          then Some (snd (queueInputForScreen io screen (point_move point) (r1\<lparr>rt_pendingWarp := None\<rparr>)))
          else moveLocalCursorToActivePoint io r1
        })"

definition ensureActiveLocalScreen ::
  "('cap, 'snd) router_io \<Rightarrow> bool \<Rightarrow> ('ep::linorder, 'cap, 'snd) router \<Rightarrow> ('ep, 'cap, 'snd) router ub" where
  "ensureActiveLocalScreen io preferLocalPrimary r =
     (if rt_active r = None then activateFirstLocalScreen io r
      else if preferLocalPrimary then
        (case firstLocalScreen (rt_store r) of
           Some (node, screen) \<Rightarrow> switchActiveScreen io \<lparr>sp_key = vs_key screen, sp_x = 0, sp_y = 0\<rparr> r
         | None \<Rightarrow> Some r)
      else Some r)"

section \<open>Event handlers\<close>

definition eventAtActivePoint :: "input_event \<Rightarrow> ('ep, 'cap, 'snd) router \<Rightarrow> input_event ub" where
  "eventAtActivePoint event r =
     do {
       active \<leftarrow> active_screen r;
       Some (case (active, rt_point r) of
               (Some screen, Some point) \<Rightarrow>
                 if sp_key point \<noteq> vs_key screen then event
                 else (case event of
                         MouseButtonEvent button \<Rightarrow>
                           MouseButtonEvent (button\<lparr>mb_x := sp_x point, mb_y := sp_y point,
                             mb_screenIndex := key_screenIndex (sp_key point)\<rparr>)
                       | MouseWheelEvent wheel \<Rightarrow>
                           MouseWheelEvent (wheel\<lparr>mw_x := sp_x point, mw_y := sp_y point\<rparr>)
                       | _ \<Rightarrow> event)
             | _ \<Rightarrow> event)
     }"

definition suppressPendingLocalWarp ::
  "screen_point \<Rightarrow> ('ep, 'cap, 'snd) router \<Rightarrow> bool \<times> ('ep, 'cap, 'snd) router" where
  "suppressPendingLocalWarp point r =
     (if rt_pendingWarp r = Some point then (True, r\<lparr>rt_pendingWarp := None\<rparr>) else (False, r))"

text \<open>\<open>hitEdge\<close> followed by \<open>mapEntryPoint\<close>: the entry point if the border leads somewhere.\<close>

definition crossing_target :: "topology \<Rightarrow> screen_point \<Rightarrow> screen_point option ub" where
  "crossing_target t point =
     do {
       edge \<leftarrow> hitEdge t point;
       case edge of
         None \<Rightarrow> Some None
       | Some e \<Rightarrow> do {
           target \<leftarrow> mapEntryPoint t point e;
           Some (case target of Inl error \<Rightarrow> None | Inr entry \<Rightarrow> Some entry)
         }
     }"

definition remote_delta :: "mouse_move_event \<Rightarrow> mouse_move_event option \<Rightarrow> (int \<times> int) ub" where
  "remote_delta event lastLocal =
     (if mv_deltaX event = 0 \<and> mv_deltaY event = 0
      then (case lastLocal of
              None \<Rightarrow> Some (0, 0)
            | Some previous \<Rightarrow> do {
                dx \<leftarrow> i32 (mv_x event - mv_x previous);
                dy \<leftarrow> i32 (mv_y event - mv_y previous);
                Some (dx, dy)
              })
      else Some (mv_deltaX event, mv_deltaY event))"

definition remote_start :: "'ep virtual_screen \<Rightarrow> screen_point option \<Rightarrow> screen_point" where
  "remote_start screen activePoint =
     (case activePoint of
        None \<Rightarrow> \<lparr>sp_key = vs_key screen, sp_x = 0, sp_y = 0\<rparr>
      | Some point \<Rightarrow>
          if sp_key point \<noteq> vs_key screen then \<lparr>sp_key = vs_key screen, sp_x = 0, sp_y = 0\<rparr> else point)"

definition handleRemoteMouseMove ::
  "('cap, 'snd) router_io \<Rightarrow> mouse_move_event \<Rightarrow> ('ep::linorder, 'cap, 'snd) router \<Rightarrow> ('ep, 'cap, 'snd) router ub" where
  "handleRemoteMouseMove io event r =
     do {
       active \<leftarrow> active_screen r;
       case active of
         None \<Rightarrow> Some r
       | Some screen \<Rightarrow>
           if vs_local screen then Some r
           else do {
             let point = remote_start screen (rt_point r);
             (deltaX, deltaY) \<leftarrow> remote_delta event (rt_lastLocal r);
             let r1 = r\<lparr>rt_point := Some point, rt_lastLocal := Some event\<rparr>;
             if deltaX = 0 \<and> deltaY = 0 then Some r1
             else do {
               x \<leftarrow> i32 (sp_x point + deltaX);
               y \<leftarrow> i32 (sp_y point + deltaY);
               target \<leftarrow> crossing_target (st_topology (rt_store r1)) (point\<lparr>sp_x := x, sp_y := y\<rparr>);
               case target of
                 Some entry \<Rightarrow> switchActiveScreen io entry r1
               | None \<Rightarrow> do {
                   right \<leftarrow> i32 (si_width (vs_info screen) - 1);
                   bottom \<leftarrow> i32 (si_height (vs_info screen) - 1);
                   let moved = point\<lparr>sp_x := std_clamp x 0 (max 0 right), sp_y := std_clamp y 0 (max 0 bottom)\<rparr>;
                   Some (snd (queueInputForScreen io screen (point_move moved) (r1\<lparr>rt_point := Some moved\<rparr>)))
                 }
             }
           }
     }"

definition handleMouseMove ::
  "('cap, 'snd) router_io \<Rightarrow> mouse_move_event \<Rightarrow> ('ep::linorder, 'cap, 'snd) router \<Rightarrow> ('ep, 'cap, 'snd) router ub" where
  "handleMouseMove io event r =
     do {
       active \<leftarrow> active_screen r;
       case active of
         None \<Rightarrow> Some r
       | Some screen \<Rightarrow>
           if \<not> vs_local screen then handleRemoteMouseMove io event r
           else (let point = \<lparr>sp_key = ScreenKey (key_ownerId (vs_key screen)) (mv_screenIndex event),
                              sp_x = mv_x event, sp_y = mv_y event\<rparr>;
                     (suppressed, r1) = suppressPendingLocalWarp point
                       (r\<lparr>rt_lastLocal := Some event, rt_point := Some point\<rparr>)
                 in if suppressed then Some r1
                    else do {
                      target \<leftarrow> crossing_target (st_topology (rt_store r1)) point;
                      case target of
                        None \<Rightarrow> Some r1
                      | Some entry \<Rightarrow> switchActiveScreen io entry r1
                    })
     }"

definition tryHandleLocalHotkey ::
  "('cap, 'snd) router_io \<Rightarrow> input_event \<Rightarrow> ('ep, 'cap, 'snd) router \<Rightarrow> (bool \<times> ('ep, 'cap, 'snd) router) ub" where
  "tryHandleLocalHotkey io event r =
     (case event of
        KeyEvent key \<Rightarrow>
          if ke_release key \<or> ke_key key \<noteq> Key_F12 then Some (False, r)
          else do {
            remote \<leftarrow> active_is_remote r;
            if remote then do { r1 \<leftarrow> activateFirstLocalScreen io r; Some (True, r1) }
            else Some (True, r)
          }
      | _ \<Rightarrow> Some (False, r))"

definition handleInputEvent ::
  "('cap, 'snd) router_io \<Rightarrow> input_event \<Rightarrow> ('ep::linorder, 'cap, 'snd) router \<Rightarrow> ('ep, 'cap, 'snd) router ub" where
  "handleInputEvent io event r =
     do {
       (handled, r1) \<leftarrow> tryHandleLocalHotkey io event r;
       if handled then Some r1
       else do {
         active \<leftarrow> active_screen r1;
         case active of
           Some screen \<Rightarrow>
             if \<not> vs_local screen then
               (case event of
                  MouseMoveEvent mouse \<Rightarrow> handleRemoteMouseMove io mouse r1
                | _ \<Rightarrow> do {
                    routed \<leftarrow> eventAtActivePoint event r1;
                    Some (snd (queueInputForScreen io screen routed r1))
                  })
             else (case event of MouseMoveEvent mouse \<Rightarrow> handleMouseMove io mouse r1 | _ \<Rightarrow> Some r1)
         | None \<Rightarrow> (case event of MouseMoveEvent mouse \<Rightarrow> handleMouseMove io mouse r1 | _ \<Rightarrow> Some r1)
       }
     }"

section \<open>The invariant\<close>

definition no_dangling :: "('ep, 'cap, 'snd) router \<Rightarrow> bool" where
  "no_dangling r \<longleftrightarrow> (\<forall>n. rt_active r = Some n \<longrightarrow> node_at (rt_store r) n \<noteq> None)"

definition active_view :: "('ep, 'cap, 'snd) router \<Rightarrow> 'ep virtual_screen option" where
  "active_view r = (case rt_active r of None \<Rightarrow> None | Some n \<Rightarrow> node_at (rt_store r) n)"

definition remote_view :: "('ep, 'cap, 'snd) router \<Rightarrow> bool" where
  "remote_view r \<longleftrightarrow> (case active_view r of None \<Rightarrow> False | Some s \<Rightarrow> \<not> vs_local s)"

text \<open>Coordinates far enough from the limits of \<open>int32_t\<close> that no sum or difference overflows.\<close>

definition small :: "int \<Rightarrow> bool" where
  "small c \<longleftrightarrow> - 536870912 \<le> c \<and> c \<le> 536870912"

definition move_small :: "mouse_move_event \<Rightarrow> bool" where
  "move_small m \<longleftrightarrow> small (mv_x m) \<and> small (mv_y m) \<and> small (mv_deltaX m) \<and> small (mv_deltaY m)"

fun event_small :: "input_event \<Rightarrow> bool" where
  "event_small (MouseMoveEvent m) = move_small m"
| "event_small _ = True"

definition layout_small :: "topology \<Rightarrow> bool" where
  "layout_small t \<longleftrightarrow> topo_typed t \<and>
     (\<forall>k s. findScreen t k = Some s \<longrightarrow>
        small (si_width (ts_info s)) \<and> small (si_height (ts_info s)) \<and> cell_inner (ts_cell s))"

definition state_ok ::
  "'ep::linorder screen_store \<Rightarrow> ('ep, 'snd) std_map \<Rightarrow> nat option \<Rightarrow> screen_point option \<Rightarrow>
     mouse_move_event option \<Rightarrow> bool" where
  "state_ok store senders active point lastLocal \<longleftrightarrow>
     store_sync store \<and> layout_small (st_topology store) \<and> map_wf senders \<and>
     (\<forall>p. point = Some p \<longrightarrow> small (sp_x p) \<and> small (sp_y p)) \<and>
     (\<forall>m. lastLocal = Some m \<longrightarrow> move_small m) \<and>
     (\<forall>n. active = Some n \<longrightarrow>
        (\<exists>s. node_at store n = Some s \<and>
           (\<not> vs_local s \<longrightarrow>
              (\<exists>p. point = Some p \<and> sp_key p = vs_key s \<and> inside (vs_info s) (sp_x p) (sp_y p)))))"

definition router_ok :: "('ep::linorder, 'cap, 'snd) router \<Rightarrow> bool" where
  "router_ok r \<longleftrightarrow> state_ok (rt_store r) (rt_senders r) (rt_active r) (rt_point r) (rt_lastLocal r)"

lemma router_okD:
  assumes "router_ok r"
  shows "store_sync (rt_store r)" "store_inv (rt_store r)" "layout_small (st_topology (rt_store r))"
    "map_wf (rt_senders r)" "no_dangling r"
    "rt_point r = Some p \<Longrightarrow> small (sp_x p)" "rt_point r = Some p \<Longrightarrow> small (sp_y p)"
    "rt_lastLocal r = Some m \<Longrightarrow> move_small m"
  using assms store_syncD(1) by (auto simp: router_ok_def state_ok_def no_dangling_def)

lemma router_ok_remote:
  assumes "router_ok r" "active_view r = Some s" "\<not> vs_local s"
  obtains p where "rt_point r = Some p" "sp_key p = vs_key s" "inside (vs_info s) (sp_x p) (sp_y p)"
  using assms by (auto simp: router_ok_def state_ok_def active_view_def split: option.splits)

lemma active_screen_eq [simp]: "no_dangling r \<Longrightarrow> active_screen r = Some (active_view r)"
  by (auto simp: active_screen_def active_view_def no_dangling_def split: option.splits)

lemma active_is_remote_eq [simp]: "no_dangling r \<Longrightarrow> active_is_remote r = Some (remote_view r)"
  by (simp add: active_is_remote_def remote_view_def)

definition set_mode :: "('cap, 'snd) router_io \<Rightarrow> bool \<Rightarrow> 'cap option \<Rightarrow> 'cap option" where
  "set_mode io active capture = map_option (\<lambda>c. snd (io_setRemote io active c)) capture"

lemma updateCapture_eq [simp]:
  "no_dangling r \<Longrightarrow>
     updateCaptureRemoteControl io r = Some (r\<lparr>rt_capture := set_mode io (remote_view r) (rt_capture r)\<rparr>)"
  by (cases "rt_capture r") (simp_all add: updateCaptureRemoteControl_def set_mode_def)

lemma views_reset [simp]:
  "no_dangling (reset_active r)" "active_view (reset_active r) = None" "remote_view (reset_active r) = False"
  "rt_capture (reset_active r) = rt_capture r" "rt_store (reset_active r) = rt_store r"
  "rt_senders (reset_active r) = rt_senders r"
  by (simp_all add: no_dangling_def active_view_def reset_active_def remote_view_def)

lemma clearActiveState_eq:
  "clearActiveState io r = Some ((reset_active r)\<lparr>rt_capture := set_mode io False (rt_capture r)\<rparr>)"
  by (simp add: clearActiveState_def)

lemma firstLocal_node_at:
  assumes "store_inv st" "firstLocalScreen st = Some (n, s)"
  shows "node_at st n = Some s" "vs_local s"
  using firstLocalScreen_SomeD [OF assms(2)] by (simp_all add: node_at_iff [OF assms(1)])

lemma activateFirstLocal_eq:
  assumes "store_inv (rt_store r)"
  shows "activateFirstLocalScreen io r =
    (case firstLocalScreen (rt_store r) of
       None \<Rightarrow> Some ((reset_active r)\<lparr>rt_capture := set_mode io False (rt_capture r)\<rparr>)
     | Some (n, s) \<Rightarrow>
         Some (r\<lparr>rt_active := Some n, rt_point := Some \<lparr>sp_key = vs_key s, sp_x = 0, sp_y = 0\<rparr>,
                 rt_lastLocal := None, rt_pendingWarp := None,
                 rt_capture := set_mode io False (rt_capture r)\<rparr>))"
proof (cases "firstLocalScreen (rt_store r)")
  case None
  then show ?thesis by (simp add: activateFirstLocalScreen_def)
next
  case (Some node)
  obtain n s where node: "node = (n, s)" by (cases node)
  let ?r = "r\<lparr>rt_active := Some n, rt_point := Some \<lparr>sp_key = vs_key s, sp_x = 0, sp_y = 0\<rparr>,
                 rt_lastLocal := None, rt_pendingWarp := None\<rparr>"
  have "node_at (rt_store r) n = Some s" "vs_local s"
    using firstLocal_node_at [OF assms, of n s] Some node by simp_all
  then have "no_dangling ?r" "\<not> remote_view ?r"
    by (simp_all add: no_dangling_def remote_view_def active_view_def)
  then show ?thesis using Some node by (simp add: activateFirstLocalScreen_def)
qed

lemma queue_frame [simp]:
  "rt_store (snd (queueInputForScreen io s e r)) = rt_store r"
  "rt_capture (snd (queueInputForScreen io s e r)) = rt_capture r"
  "rt_active (snd (queueInputForScreen io s e r)) = rt_active r"
  "rt_point (snd (queueInputForScreen io s e r)) = rt_point r"
  "rt_lastLocal (snd (queueInputForScreen io s e r)) = rt_lastLocal r"
  "rt_pendingWarp (snd (queueInputForScreen io s e r)) = rt_pendingWarp r"
  by (auto simp: queueInputForScreen_def split: option.splits prod.splits)

lemma queue_wf [simp]: "map_wf (rt_senders r) \<Longrightarrow> map_wf (rt_senders (snd (queueInputForScreen io s e r)))"
  by (auto simp: queueInputForScreen_def std_map.invar_assign split: option.splits prod.splits)

lemma queue_senders:
  assumes "map_wf (rt_senders r)"
  shows "map_find (rt_senders (snd (queueInputForScreen io s e r))) ep =
    (case map_find (rt_senders r) ep of
       None \<Rightarrow> None
     | Some sender \<Rightarrow>
         if ep = vs_endpoint s \<and> \<not> vs_local s \<and> io_senderValid io sender
         then Some (snd (io_trySend io e sender)) else Some sender)"
  using std_map.find_assign [OF assms]
  by (auto simp: queueInputForScreen_def split: option.splits prod.splits)

definition warp :: "('cap, 'snd) router_io \<Rightarrow> ('ep, 'cap, 'snd) router \<Rightarrow> ('ep, 'cap, 'snd) router" where
  "warp io r =
     (case (rt_capture r, active_view r, rt_point r) of
        (Some capture, Some screen, Some point) \<Rightarrow>
          if \<not> vs_local screen then r
          else (let (ok, capture') = io_moveCursor io (key_screenIndex (sp_key point)) (sp_x point) (sp_y point) capture
                in if ok then r\<lparr>rt_capture := Some capture', rt_pendingWarp := Some point\<rparr>
                   else r\<lparr>rt_capture := Some capture'\<rparr>)
      | _ \<Rightarrow> r)"

lemma moveLocalCursor_eq: "no_dangling r \<Longrightarrow> moveLocalCursorToActivePoint io r = Some (warp io r)"
  by (cases "rt_capture r"; cases "active_view r"; cases "rt_point r")
     (simp_all add: moveLocalCursorToActivePoint_def warp_def split: prod.split)

lemma warp_frame [simp]:
  "rt_store (warp io r) = rt_store r" "rt_senders (warp io r) = rt_senders r"
  "rt_active (warp io r) = rt_active r" "rt_point (warp io r) = rt_point r"
  "rt_lastLocal (warp io r) = rt_lastLocal r"
  by (cases "rt_capture r"; cases "active_view r"; cases "rt_point r"; simp add: warp_def split: prod.split)+

definition switched ::
  "('cap, 'snd) router_io \<Rightarrow> nat \<Rightarrow> 'ep::linorder virtual_screen \<Rightarrow> screen_point \<Rightarrow>
     ('ep, 'cap, 'snd) router \<Rightarrow> ('ep, 'cap, 'snd) router" where
  "switched io node screen point r =
     (let r1 = r\<lparr>rt_active := Some node, rt_point := Some point,
                 rt_capture := set_mode io (\<not> vs_local screen) (rt_capture r)\<rparr>
      in if \<not> vs_local screen
         then snd (queueInputForScreen io screen (point_move point) (r1\<lparr>rt_pendingWarp := None\<rparr>))
         else warp io r1)"

lemma switch_eq:
  assumes "no_dangling r" "store_inv (rt_store r)"
  shows "switchActiveScreen io point r =
    (case store_findScreen (sp_key point) (rt_store r) of
       None \<Rightarrow> Some r
     | Some (n, s) \<Rightarrow> Some (switched io n s point r))"
proof (cases "store_findScreen (sp_key point) (rt_store r)")
  case None
  then show ?thesis by (simp add: switchActiveScreen_def)
next
  case (Some node)
  obtain n s where node: "node = (n, s)" by (cases node)
  let ?r = "r\<lparr>rt_active := Some n, rt_point := Some point\<rparr>"
  have at: "node_at (rt_store r) n = Some s"
    using store_findScreen_SomeD [of "sp_key point" "rt_store r" n s] Some node
    by (simp add: node_at_iff [OF assms(2)])
  then have r: "no_dangling ?r" "remote_view ?r = (\<not> vs_local s)"
    by (simp_all add: no_dangling_def remote_view_def active_view_def)
  have "no_dangling (?r\<lparr>rt_capture := c\<rparr>)" for c
    using at by (simp add: no_dangling_def)
  then show ?thesis
    using assms(1) Some node r by (simp add: switchActiveScreen_def switched_def Let_def moveLocalCursor_eq)
qed

lemma switched_frame [simp]:
  "rt_store (switched io n s p r) = rt_store r" "rt_active (switched io n s p r) = Some n"
  "rt_point (switched io n s p r) = Some p" "rt_lastLocal (switched io n s p r) = rt_lastLocal r"
  by (simp_all add: switched_def Let_def)

lemma switched_wf [simp]: "map_wf (rt_senders r) \<Longrightarrow> map_wf (rt_senders (switched io n s p r))"
  by (simp add: switched_def Let_def)

lemma active_view_switched:
  assumes "store_inv (rt_store r)" "store_findScreen (sp_key p) (rt_store r) = Some (n, s)"
  shows "active_view (switched io n s p r) = Some s"
  using store_findScreen_SomeD [OF assms(2)] by (simp add: active_view_def node_at_iff [OF assms(1)])

lemma switched_ok:
  assumes ok: "router_ok r" and found: "store_findScreen (sp_key p) (rt_store r) = Some (n, s)"
    and p: "small (sp_x p)" "small (sp_y p)" "\<not> vs_local s \<Longrightarrow> inside (vs_info s) (sp_x p) (sp_y p)"
  shows "router_ok (switched io n s p r)"
proof -
  note D = router_okD [OF ok]
  have "node_at (rt_store r) n = Some s" "vs_key s = sp_key p"
    using store_findScreen_SomeD [OF found] by (simp_all add: node_at_iff [OF D(2)])
  then show ?thesis
    using D p by (simp add: router_ok_def state_ok_def)
qed

lemma layout_smallD:
  assumes "layout_small t"
  shows "topo_typed t" "findScreen t k = Some s \<Longrightarrow> small (si_width (ts_info s))"
    "findScreen t k = Some s \<Longrightarrow> small (si_height (ts_info s))"
    "findScreen t k = Some s \<Longrightarrow> cell_inner (ts_cell s)"
  using assms by (auto simp: layout_small_def)

lemma crossing_target_defined:
  assumes "topo_inv t" "layout_small t"
  obtains target where "crossing_target t p = Some target"
proof -
  obtain edge where edge: "hitEdge t p = Some edge"
    using hitEdge_defined [OF assms(1) layout_smallD(1) [OF assms(2)], of p] by blast
  have entry: "mapEntryPoint t p e \<noteq> None" for e
    by (rule mapEntryPoint_defined [OF assms(1) layout_smallD(1) [OF assms(2)]])
       (rule layout_smallD(4) [OF assms(2)])
  show ?thesis
  proof (cases edge)
    case None
    with edge that show ?thesis by (simp add: crossing_target_def)
  next
    case (Some e)
    from entry [of e] obtain target where "mapEntryPoint t p e = Some target" by blast
    with edge Some that show ?thesis by (simp add: crossing_target_def)
  qed
qed

lemma crossing_target_SomeD:
  assumes "crossing_target t p = Some (Some q)"
  obtains e where "hitEdge t p = Some (Some e)" "mapEntryPoint t p e = Some (Inr q)"
proof -
  from assms obtain edge where edge: "hitEdge t p = Some edge"
    by (auto simp: crossing_target_def ub_bind_eq_Some)
  with assms obtain e where e: "edge = Some e" by (cases edge) (auto simp: crossing_target_def)
  with assms edge obtain target where "mapEntryPoint t p e = Some target"
    by (auto simp: crossing_target_def ub_bind_eq_Some)
  with assms edge e that show ?thesis by (cases target) (simp_all add: crossing_target_def)
qed

lemma inside_small:
  assumes "inside info x y" "small (si_width info)" "small (si_height info)"
  shows "small x" "small y"
  using assms by (simp_all add: inside_def small_def)

lemma crossing_lands:
  assumes ok: "router_ok r" and target: "crossing_target (st_topology (rt_store r)) p = Some (Some q)"
  obtains n s where "store_findScreen (sp_key q) (rt_store r) = Some (n, s)"
    "inside (vs_info s) (sp_x q) (sp_y q)" "small (sp_x q)" "small (sp_y q)"
proof -
  note D = router_okD [OF ok]
  obtain e where e: "mapEntryPoint (st_topology (rt_store r)) p e = Some (Inr q)"
    using target by (rule crossing_target_SomeD)
  obtain t where t: "findScreen (st_topology (rt_store r)) (sp_key q) = Some t"
    "inside (ts_info t) (sp_x q) (sp_y q)"
    by (rule mapEntryPoint_lands [OF store_invD(1) [OF D(2)] layout_smallD(1) [OF D(3)] e])
  obtain n s where s: "store_findScreen (sp_key q) (rt_store r) = Some (n, s)"
    by (rule store_findScreen_of_topology [OF D(2) t(1)])
  have "findScreen (st_topology (rt_store r)) (sp_key q) = Some (topo_screen_of s)"
    using store_syncD(3) [OF D(1), of n s] store_findScreen_SomeD [OF s] by simp
  with t have "inside (vs_info s) (sp_x q) (sp_y q)" "vs_info s = ts_info t" by auto
  with inside_small [OF t(2) layout_smallD(2,3) [OF D(3) t(1)]] s that show ?thesis by simp
qed

lemma activateFirstLocal_ok:
  assumes "router_ok r"
  obtains r' where "activateFirstLocalScreen io r = Some r'" "router_ok r'" "rt_store r' = rt_store r"
    "\<not> remote_view r'"
proof (cases "firstLocalScreen (rt_store r)")
  case None
  have "router_ok ((reset_active r)\<lparr>rt_capture := set_mode io False (rt_capture r)\<rparr>)"
    using assms by (simp add: router_ok_def state_ok_def reset_active_def)
  with None that show ?thesis
    by (simp add: activateFirstLocal_eq [OF router_okD(2) [OF assms]] remote_view_def active_view_def reset_active_def)
next
  case (Some node)
  obtain n s where node: "node = (n, s)" by (cases node)
  have at: "node_at (rt_store r) n = Some s" "vs_local s"
    using firstLocal_node_at [OF router_okD(2) [OF assms], of n s] Some node by simp_all
  let ?r = "r\<lparr>rt_active := Some n, rt_point := Some \<lparr>sp_key = vs_key s, sp_x = 0, sp_y = 0\<rparr>,
                 rt_lastLocal := None, rt_pendingWarp := None,
                 rt_capture := set_mode io False (rt_capture r)\<rparr>"
  have "router_ok ?r" using assms at by (simp add: router_ok_def state_ok_def small_def)
  moreover have "\<not> remote_view ?r" using at by (simp add: remote_view_def active_view_def)
  ultimately show ?thesis
    using Some node that [of ?r] by (simp add: activateFirstLocal_eq [OF router_okD(2) [OF assms]])
qed

section \<open>Every event is handled without undefined behaviour\<close>

lemma switch_crossing_ok:
  assumes "router_ok r" "crossing_target (st_topology (rt_store r)) p = Some (Some q)"
  obtains n s where "switchActiveScreen io q r = Some (switched io n s q r)"
    "store_findScreen (sp_key q) (rt_store r) = Some (n, s)" "router_ok (switched io n s q r)"
    "inside (vs_info s) (sp_x q) (sp_y q)"
proof -
  obtain n s where s: "store_findScreen (sp_key q) (rt_store r) = Some (n, s)"
    "inside (vs_info s) (sp_x q) (sp_y q)" "small (sp_x q)" "small (sp_y q)"
    using assms by (rule crossing_lands)
  note D = router_okD [OF assms(1)]
  show ?thesis
    using that [of n s] s switch_eq [OF D(5,2)] switched_ok [OF assms(1) s(1,3,4) s(2)] by simp
qed

lemma small_i32: "small x \<Longrightarrow> in_i32 x" "small x \<Longrightarrow> small y \<Longrightarrow> in_i32 (x + y)" "small x \<Longrightarrow> small y \<Longrightarrow> in_i32 (x - y)"
  by (simp_all add: small_def in_i32_def)

definition medium :: "int \<Rightarrow> bool" where
  "medium c \<longleftrightarrow> - 1073741824 \<le> c \<and> c \<le> 1073741824"

lemma medium_i32: "small x \<Longrightarrow> medium d \<Longrightarrow> in_i32 (x + d)"
  by (simp add: small_def medium_def in_i32_def)

lemma remote_delta_defined:
  assumes "move_small m" "\<And>l. lastLocal = Some l \<Longrightarrow> move_small l"
  obtains dx dy where "remote_delta m lastLocal = Some (dx, dy)" "medium dx" "medium dy"
proof (cases "mv_deltaX m = 0 \<and> mv_deltaY m = 0")
  case True
  show ?thesis
  proof (cases lastLocal)
    case None
    with True that show ?thesis by (simp add: remote_delta_def medium_def)
  next
    case (Some l)
    then have "small (mv_x m)" "small (mv_y m)" "small (mv_x l)" "small (mv_y l)"
      using assms by (simp_all add: move_small_def)
    with True Some that show ?thesis
      by (simp add: remote_delta_def small_i32 medium_def) (simp add: small_def)
  qed
next
  case False
  have "medium (mv_deltaX m)" "medium (mv_deltaY m)"
    using assms(1) by (simp_all add: move_small_def small_def medium_def)
  moreover have "remote_delta m lastLocal = Some (mv_deltaX m, mv_deltaY m)"
    using False by (auto simp: remote_delta_def)
  ultimately show ?thesis using that by blast
qed

definition clamped :: "screen_info \<Rightarrow> screen_point \<Rightarrow> int \<Rightarrow> int \<Rightarrow> screen_point" where
  "clamped info point x y = point\<lparr>sp_x := std_clamp x 0 (si_width info - 1), sp_y := std_clamp y 0 (si_height info - 1)\<rparr>"

lemma clamped_inside:
  "isValidRect info \<Longrightarrow> inside info (sp_x (clamped info p x y)) (sp_y (clamped info p x y))"
  using std_clamp_bounds [of 0 "si_width info - 1" x] std_clamp_bounds [of 0 "si_height info - 1" y]
  by (simp add: clamped_def inside_def isValidRect_def)

text \<open>The outcomes of a mouse move while a remote screen is active.\<close>

lemma handleRemoteMouseMove_cases [consumes 4, case_names still cross slide]:
  assumes ok: "router_ok r" and view: "active_view r = Some s" and remote: "\<not> vs_local s"
    and small: "move_small m"
  obtains (still) p where "rt_point r = Some p" "remote_delta m (rt_lastLocal r) = Some (0, 0)"
      "handleRemoteMouseMove io m r = Some (r\<lparr>rt_lastLocal := Some m\<rparr>)"
  | (cross) p dx dy q n t where "rt_point r = Some p" "remote_delta m (rt_lastLocal r) = Some (dx, dy)"
      "crossing_target (st_topology (rt_store r)) (p\<lparr>sp_x := sp_x p + dx, sp_y := sp_y p + dy\<rparr>) = Some (Some q)"
      "store_findScreen (sp_key q) (rt_store r) = Some (n, t)" "inside (vs_info t) (sp_x q) (sp_y q)"
      "handleRemoteMouseMove io m r = Some (switched io n t q (r\<lparr>rt_lastLocal := Some m\<rparr>))"
      "router_ok (switched io n t q (r\<lparr>rt_lastLocal := Some m\<rparr>))"
  | (slide) p dx dy q where "rt_point r = Some p" "remote_delta m (rt_lastLocal r) = Some (dx, dy)"
      "crossing_target (st_topology (rt_store r)) (p\<lparr>sp_x := sp_x p + dx, sp_y := sp_y p + dy\<rparr>) = Some None"
      "q = clamped (vs_info s) p (sp_x p + dx) (sp_y p + dy)"
      "handleRemoteMouseMove io m r =
         Some (snd (queueInputForScreen io s (point_move q) (r\<lparr>rt_lastLocal := Some m, rt_point := Some q\<rparr>)))"
proof -
  note D = router_okD [OF ok]
  obtain p where p: "rt_point r = Some p" "sp_key p = vs_key s" "inside (vs_info s) (sp_x p) (sp_y p)"
    using ok view remote by (rule router_ok_remote)
  obtain dx dy where d: "remote_delta m (rt_lastLocal r) = Some (dx, dy)" "medium dx" "medium dy"
    using remote_delta_defined [OF small D(8)] by blast
  have start: "remote_start s (rt_point r) = p" using p by (simp add: remote_start_def)
  have sum: "in_i32 (sp_x p + dx)" "in_i32 (sp_y p + dy)"
    using D(6,7) [OF p(1)] d by (simp_all add: medium_i32)
  let ?r = "r\<lparr>rt_lastLocal := Some m\<rparr>"
  have r: "r\<lparr>rt_point := Some p\<rparr> = r" using p(1) by simp
  have same: "r\<lparr>rt_point := Some p, rt_lastLocal := Some m\<rparr> = ?r" unfolding r ..
  have okr: "router_ok ?r" using ok small by (simp add: router_ok_def state_ok_def)
  show ?thesis
  proof (cases "dx = 0 \<and> dy = 0")
    case True
    then show ?thesis
      using still [OF p(1)] view remote D(5) d start same by (simp add: handleRemoteMouseMove_def Let_def)
  next
    case False
    let ?q = "p\<lparr>sp_x := sp_x p + dx, sp_y := sp_y p + dy\<rparr>"
    obtain target where target: "crossing_target (st_topology (rt_store r)) ?q = Some target"
      using store_invD(1) [OF D(2)] D(3) by (rule crossing_target_defined)
    show ?thesis
    proof (cases target)
      case (Some q)
      then have c: "crossing_target (st_topology (rt_store ?r)) ?q = Some (Some q)" using target by simp
      obtain n t where "switchActiveScreen io q ?r = Some (switched io n t q ?r)"
        "store_findScreen (sp_key q) (rt_store ?r) = Some (n, t)" "router_ok (switched io n t q ?r)"
        "inside (vs_info t) (sp_x q) (sp_y q)"
        using okr c by (rule switch_crossing_ok)
      then show ?thesis
        using cross [OF p(1) d(1), of q n t] c view remote D(5) d start sum False same
        by (simp add: handleRemoteMouseMove_def Let_def)
    next
      case None
      have "findScreen (st_topology (rt_store r)) (vs_key s) = Some (topo_screen_of s)"
        using view store_syncD(3) [OF D(1)] node_at_iff [OF D(2)]
        by (auto simp: active_view_def split: option.splits)
      from topo_invD(2) [OF store_invD(1) [OF D(2)] this] layout_smallD(2,3) [OF D(3) this]
      have "0 < si_width (vs_info s)" "0 < si_height (vs_info s)"
        "in_i32 (si_width (vs_info s) - 1)" "in_i32 (si_height (vs_info s) - 1)"
        by (simp_all add: isValidRect_def small_def in_i32_def)
      then show ?thesis
        using slide [OF p(1) d(1)] target None view remote D(5) d start sum False same
        by (simp add: handleRemoteMouseMove_def Let_def clamped_def)
    qed
  qed
qed

lemma handleRemoteMouseMove_ok:
  assumes ok: "router_ok r" and view: "active_view r = Some s" and remote: "\<not> vs_local s"
    and small: "move_small m"
  obtains r' where "handleRemoteMouseMove io m r = Some r'" "router_ok r'" "rt_store r' = rt_store r"
  using ok view remote small
proof (cases rule: handleRemoteMouseMove_cases [where io = io])
  case (still p)
  moreover have "router_ok (r\<lparr>rt_lastLocal := Some m\<rparr>)"
    using ok small by (simp add: router_ok_def state_ok_def)
  ultimately show ?thesis using that by simp
next
  case (cross p dx dy q n t)
  then show ?thesis using that by simp
next
  case (slide p dx dy q)
  note D = router_okD [OF ok]
  obtain p' where p': "rt_point r = Some p'" "sp_key p' = vs_key s"
    using ok view remote by (rule router_ok_remote)
  have n: "rt_active r = Some n \<Longrightarrow> node_at (rt_store r) n = Some s" for n
    using view by (simp add: active_view_def)
  obtain k where k: "rt_active r = Some k" using view by (auto simp: active_view_def split: option.splits)
  have "findScreen (st_topology (rt_store r)) (vs_key s) = Some (topo_screen_of s)"
    using n [OF k] store_syncD(3) [OF D(1)] by (simp add: node_at_iff [OF D(2)])
  from topo_invD(2) [OF store_invD(1) [OF D(2)] this] layout_smallD(2,3) [OF D(3) this]
  have info: "isValidRect (vs_info s)" "small (si_width (vs_info s))" "small (si_height (vs_info s))"
    by simp_all
  have inside: "inside (vs_info s) (sp_x q) (sp_y q)"
    unfolding slide(4) by (rule clamped_inside [OF info(1)])
  have "sp_key q = vs_key s" using slide(1,4) p' by (simp add: clamped_def)
  then have "router_ok (snd (queueInputForScreen io s (point_move q) (r\<lparr>rt_lastLocal := Some m, rt_point := Some q\<rparr>)))"
    using ok n k remote small inside inside_small [OF inside info(2,3)]
    by (simp add: router_ok_def state_ok_def)
  with slide(5) that show ?thesis by simp
qed

lemma handleMouseMove_local_cases [consumes 5, case_names echo stay cross]:
  assumes ok: "router_ok r" and view: "active_view r = Some s" and loc: "vs_local s"
    and small: "move_small m"
    and p: "p = \<lparr>sp_key = ScreenKey (key_ownerId (vs_key s)) (mv_screenIndex m), sp_x = mv_x m, sp_y = mv_y m\<rparr>"
  obtains (echo) "rt_pendingWarp r = Some p"
      "handleMouseMove io m r = Some (r\<lparr>rt_lastLocal := Some m, rt_point := Some p, rt_pendingWarp := None\<rparr>)"
  | (stay) "rt_pendingWarp r \<noteq> Some p"
      "crossing_target (st_topology (rt_store r)) p = Some None"
      "handleMouseMove io m r = Some (r\<lparr>rt_lastLocal := Some m, rt_point := Some p\<rparr>)"
  | (cross) q n t where "rt_pendingWarp r \<noteq> Some p"
      "crossing_target (st_topology (rt_store r)) p = Some (Some q)"
      "store_findScreen (sp_key q) (rt_store r) = Some (n, t)" "inside (vs_info t) (sp_x q) (sp_y q)"
      "handleMouseMove io m r = Some (switched io n t q (r\<lparr>rt_lastLocal := Some m, rt_point := Some p\<rparr>))"
      "router_ok (switched io n t q (r\<lparr>rt_lastLocal := Some m, rt_point := Some p\<rparr>))"
proof -
  note D = router_okD [OF ok]
  let ?r = "r\<lparr>rt_lastLocal := Some m, rt_point := Some p\<rparr>"
  have at: "rt_active r = Some n \<Longrightarrow> node_at (rt_store r) n = Some s" for n
    using view by (simp add: active_view_def)
  have okr: "router_ok ?r"
    using ok small p at loc by (auto simp: router_ok_def state_ok_def move_small_def)
  show ?thesis
  proof (cases "rt_pendingWarp r = Some p")
    case True
    then show ?thesis
      using echo view loc D(5) p by (simp add: handleMouseMove_def suppressPendingLocalWarp_def)
  next
    case False
    obtain target where target: "crossing_target (st_topology (rt_store r)) p = Some target"
      using store_invD(1) [OF D(2)] D(3) by (rule crossing_target_defined)
    show ?thesis
    proof (cases target)
      case None
      then show ?thesis
        using stay target False view loc D(5) p by (simp add: handleMouseMove_def suppressPendingLocalWarp_def)
    next
      case (Some q)
      then have c: "crossing_target (st_topology (rt_store ?r)) p = Some (Some q)" using target by simp
      obtain n t where "switchActiveScreen io q ?r = Some (switched io n t q ?r)"
        "store_findScreen (sp_key q) (rt_store ?r) = Some (n, t)" "router_ok (switched io n t q ?r)"
        "inside (vs_info t) (sp_x q) (sp_y q)"
        using okr c by (rule switch_crossing_ok)
      then show ?thesis
        using cross [of q n t] c False view loc D(5) p
        by (simp add: handleMouseMove_def suppressPendingLocalWarp_def)
    qed
  qed
qed

lemma handleMouseMove_local_ok:
  assumes ok: "router_ok r" and view: "active_view r = Some s" and loc: "vs_local s"
    and small: "move_small m"
  obtains r' where "handleMouseMove io m r = Some r'" "router_ok r'" "rt_store r' = rt_store r"
proof -
  define p where "p = \<lparr>sp_key = ScreenKey (key_ownerId (vs_key s)) (mv_screenIndex m), sp_x = mv_x m, sp_y = mv_y m\<rparr>"
  have at: "rt_active r = Some n \<Longrightarrow> node_at (rt_store r) n = Some s" for n
    using view by (simp add: active_view_def)
  have okr: "router_ok (r\<lparr>rt_lastLocal := Some m, rt_point := Some p, rt_pendingWarp := w\<rparr>)" for w
    using ok small at loc by (auto simp: p_def router_ok_def state_ok_def move_small_def)
  show ?thesis
    using ok view loc small p_def
  proof (cases rule: handleMouseMove_local_cases [where io = io])
    case echo
    then show ?thesis using that okr [of None] by simp
  next
    case stay
    then show ?thesis using that okr [of "rt_pendingWarp r"] by simp
  next
    case (cross q n t)
    then show ?thesis using that by simp
  qed
qed

lemma eventAtActivePoint_defined: "no_dangling r \<Longrightarrow> \<exists>e'. eventAtActivePoint e r = Some e'"
  by (simp add: eventAtActivePoint_def)

lemma hotkey_not_handled:
  "\<not> (\<exists>k. e = KeyEvent k \<and> \<not> ke_release k \<and> ke_key k = Key_F12) \<Longrightarrow> tryHandleLocalHotkey io e r = Some (False, r)"
  by (cases e) (auto simp: tryHandleLocalHotkey_def)

lemma queue_ok: "router_ok r \<Longrightarrow> router_ok (snd (queueInputForScreen io s e r))"
  by (simp add: router_ok_def state_ok_def)

lemma handleInputEvent_ok:
  assumes ok: "router_ok r" and small: "event_small e"
  obtains r' where "handleInputEvent io e r = Some r'" "router_ok r'" "rt_store r' = rt_store r"
proof (cases "\<exists>k. e = KeyEvent k \<and> \<not> ke_release k \<and> ke_key k = Key_F12")
  case True
  then obtain k where k: "e = KeyEvent k" "\<not> ke_release k" "ke_key k = Key_F12" by blast
  obtain r' where r': "activateFirstLocalScreen io r = Some r'" "router_ok r'" "rt_store r' = rt_store r"
    using ok by (rule activateFirstLocal_ok)
  have "handleInputEvent io e r = Some (if remote_view r then r' else r)"
    using k r'(1) router_okD(5) [OF ok] by (simp add: handleInputEvent_def tryHandleLocalHotkey_def)
  with r'(2,3) ok that [of "if remote_view r then r' else r"] show ?thesis by simp
next
  case False
  note hot = hotkey_not_handled [OF False, of io r]
  note nd = router_okD(5) [OF ok]
  show ?thesis
  proof (cases "active_view r")
    case None
    have "handleInputEvent io e r = Some r"
      using hot nd None by (cases e) (simp_all add: handleInputEvent_def handleMouseMove_def)
    with ok that show ?thesis by blast
  next
    case (Some s)
    show ?thesis
    proof (cases "vs_local s")
      case True
      show ?thesis
      proof (cases "\<exists>m. e = MouseMoveEvent m")
        case True
        then obtain m where m: "e = MouseMoveEvent m" by blast
        obtain r' where "handleMouseMove io m r = Some r'" "router_ok r'" "rt_store r' = rt_store r"
          by (rule handleMouseMove_local_ok [OF ok Some \<open>vs_local s\<close>]) (use small m in simp)
        with that m hot nd Some True \<open>vs_local s\<close> show ?thesis by (simp add: handleInputEvent_def)
      next
        case False
        then have "handleInputEvent io e r = Some r"
          using hot nd Some True by (cases e) (simp_all add: handleInputEvent_def)
        with ok that show ?thesis by blast
      qed
    next
      case False
      show ?thesis
      proof (cases "\<exists>m. e = MouseMoveEvent m")
        case True
        then obtain m where m: "e = MouseMoveEvent m" by blast
        obtain r' where "handleRemoteMouseMove io m r = Some r'" "router_ok r'" "rt_store r' = rt_store r"
          by (rule handleRemoteMouseMove_ok [OF ok Some False]) (use small m in simp)
        with that m hot nd Some False show ?thesis by (simp add: handleInputEvent_def)
      next
        case other: False
        obtain e' where "eventAtActivePoint e r = Some e'" using eventAtActivePoint_defined [OF nd] by blast
        then have "handleInputEvent io e r = Some (snd (queueInputForScreen io s e' r))"
          using hot nd Some False other by (cases e) (simp_all add: handleInputEvent_def)
        with queue_ok [OF ok] that show ?thesis by simp
      qed
    qed
  qed
qed

section \<open>What one event can do\<close>

text \<open>Two states that differ at most in the sampled positions.\<close>

definition same_control :: "('ep, 'cap, 'snd) router \<Rightarrow> ('ep, 'cap, 'snd) router \<Rightarrow> bool" where
  "same_control r0 r \<longleftrightarrow> rt_store r0 = rt_store r \<and> rt_senders r0 = rt_senders r \<and>
     rt_capture r0 = rt_capture r \<and> rt_active r0 = rt_active r"

lemma same_control_refl [simp]: "same_control r r"
  by (simp add: same_control_def)

lemma same_control_views:
  "same_control r0 r \<Longrightarrow> active_view r0 = active_view r" "same_control r0 r \<Longrightarrow> remote_view r0 = remote_view r"
  by (simp_all add: same_control_def active_view_def remote_view_def split: option.split)

lemma handleRemoteMouseMove_control:
  assumes "router_ok r" "active_view r = Some s" "\<not> vs_local s" "move_small m"
  obtains (moved) r0 where "handleRemoteMouseMove io m r = Some r0" "same_control r0 r"
  | (sent) r0 p where "handleRemoteMouseMove io m r = Some (snd (queueInputForScreen io s (point_move p) r0))"
      "same_control r0 r"
  | (switch) r0 q n t where "handleRemoteMouseMove io m r = Some (switched io n t q r0)" "same_control r0 r"
      "store_findScreen (sp_key q) (rt_store r) = Some (n, t)"
  using assms
proof (cases rule: handleRemoteMouseMove_cases [where io = io])
  case (still p)
  then show ?thesis using moved [of "r\<lparr>rt_lastLocal := Some m\<rparr>"] by (simp add: same_control_def)
next
  case (cross p dx dy q n t)
  then show ?thesis using switch [of n t q "r\<lparr>rt_lastLocal := Some m\<rparr>"] by (simp add: same_control_def)
next
  case (slide p dx dy q)
  then show ?thesis
    using sent [of q "r\<lparr>rt_lastLocal := Some m, rt_point := Some q\<rparr>"] by (simp add: same_control_def)
qed

lemma handleMouseMove_control:
  assumes "router_ok r" "active_view r = Some s" "vs_local s" "move_small m"
  obtains (moved) r0 where "handleMouseMove io m r = Some r0" "same_control r0 r"
  | (switch) r0 q n t where "handleMouseMove io m r = Some (switched io n t q r0)" "same_control r0 r"
      "store_findScreen (sp_key q) (rt_store r) = Some (n, t)"
  using assms refl
proof (cases rule: handleMouseMove_local_cases [where io = io])
  case echo
  from echo(2) show ?thesis by (rule moved) (simp add: same_control_def)
next
  case stay
  from stay(3) show ?thesis by (rule moved) (simp add: same_control_def)
next
  case (cross q n t)
  from cross(5) show ?thesis by (rule switch) (simp_all add: same_control_def cross(3))
qed

lemma handleInputEvent_control [consumes 2, case_names moved sent switch home]:
  assumes ok: "router_ok r" and small: "event_small e"
  obtains (moved) r0 where "handleInputEvent io e r = Some r0" "same_control r0 r"
  | (sent) r0 s e' where "handleInputEvent io e r = Some (snd (queueInputForScreen io s e' r0))"
      "same_control r0 r" "active_view r = Some s" "\<not> vs_local s"
  | (switch) r0 q n t where "handleInputEvent io e r = Some (switched io n t q r0)" "same_control r0 r"
      "store_findScreen (sp_key q) (rt_store r) = Some (n, t)"
  | (home) r' where "handleInputEvent io e r = Some r'" "activateFirstLocalScreen io r = Some r'"
proof (cases "\<exists>k. e = KeyEvent k \<and> \<not> ke_release k \<and> ke_key k = Key_F12")
  case True
  then obtain k where k: "e = KeyEvent k" "\<not> ke_release k" "ke_key k = Key_F12" by blast
  obtain r' where r': "activateFirstLocalScreen io r = Some r'"
    using ok by (rule activateFirstLocal_ok)
  have "handleInputEvent io e r = Some (if remote_view r then r' else r)"
    using k r'(1) router_okD(5) [OF ok] by (simp add: handleInputEvent_def tryHandleLocalHotkey_def)
  with r' home [of r'] moved [of r] show ?thesis by (cases "remote_view r") simp_all
next
  case False
  note hot = hotkey_not_handled [OF False, of io r]
  note nd = router_okD(5) [OF ok]
  show ?thesis
  proof (cases "active_view r")
    case None
    have "handleInputEvent io e r = Some r"
      using hot nd None by (cases e) (simp_all add: handleInputEvent_def handleMouseMove_def)
    then show ?thesis by (rule moved) simp
  next
    case (Some s)
    consider (move) m where "e = MouseMoveEvent m" | (other) "\<forall>m. e \<noteq> MouseMoveEvent m" by blast
    then show ?thesis
    proof cases
      case move
      then have m: "move_small m" using small by simp
      show ?thesis
      proof (cases "vs_local s")
        case True
        have eq: "handleInputEvent io e r = handleMouseMove io m r"
          using hot nd Some True move by (simp add: handleInputEvent_def)
        show ?thesis
          by (rule handleMouseMove_control [OF ok Some True m, of io]) (use eq moved switch in simp_all)
      next
        case False
        have eq: "handleInputEvent io e r = handleRemoteMouseMove io m r"
          using hot nd Some False move by (simp add: handleInputEvent_def)
        show ?thesis
          by (rule handleRemoteMouseMove_control [OF ok Some False m, of io])
             (use eq moved switch sent Some False in simp_all)
      qed
    next
      case other
      obtain e' where e': "eventAtActivePoint e r = Some e'" using eventAtActivePoint_defined [OF nd] by blast
      show ?thesis
      proof (cases "vs_local s")
        case True
        then have "handleInputEvent io e r = Some r"
          using hot nd Some other by (cases e) (simp_all add: handleInputEvent_def)
        then show ?thesis by (rule moved) simp
      next
        case False
        then have "handleInputEvent io e r = Some (snd (queueInputForScreen io s e' r))"
          using hot nd Some other e' by (cases e) (simp_all add: handleInputEvent_def)
        then show ?thesis by (rule sent) (use Some False in simp_all)
      qed
    qed
  qed
qed

subsection \<open>The capture follows the active screen\<close>

definition obedient :: "('cap, 'snd) router_io \<Rightarrow> ('cap \<Rightarrow> bool) \<Rightarrow> bool" where
  "obedient io mode \<longleftrightarrow>
     (\<forall>a c. mode (snd (io_setRemote io a c)) = a) \<and>
     (\<forall>i x y c. mode (snd (io_moveCursor io i x y c)) = mode c)"

definition mode_matches :: "('cap \<Rightarrow> bool) \<Rightarrow> ('ep, 'cap, 'snd) router \<Rightarrow> bool" where
  "mode_matches mode r \<longleftrightarrow> (\<forall>c. rt_capture r = Some c \<longrightarrow> mode c = remote_view r)"

lemma set_mode_matches: "obedient io mode \<Longrightarrow> set_mode io a capture = Some c \<Longrightarrow> mode c = a"
  by (auto simp: obedient_def set_mode_def)

lemma warp_mode:
  assumes "obedient io mode" "rt_capture (warp io r) = Some c"
  obtains c0 where "rt_capture r = Some c0" "mode c = mode c0"
proof (cases "rt_capture r")
  case None
  with assms(2) show ?thesis by (simp add: warp_def)
next
  case (Some c0)
  have step: "mode (snd (io_moveCursor io i x y c0)) = mode c0" for i x y
    using assms(1) by (simp add: obedient_def)
  have "mode c = mode c0"
  proof (cases "active_view r")
    case None
    with Some assms(2) show ?thesis by (simp add: warp_def)
  next
    case view: (Some s)
    show ?thesis
    proof (cases "rt_point r")
      case None
      with Some view assms(2) show ?thesis by (simp add: warp_def)
    next
      case point: (Some p)
      obtain b c1 where m: "io_moveCursor io (key_screenIndex (sp_key p)) (sp_x p) (sp_y p) c0 = (b, c1)"
        by (cases "io_moveCursor io (key_screenIndex (sp_key p)) (sp_x p) (sp_y p) c0")
      from step [of "key_screenIndex (sp_key p)" "sp_x p" "sp_y p"] m have "mode c1 = mode c0" by simp
      with Some view point assms(2) m show ?thesis by (simp add: warp_def split: if_splits)
    qed
  qed
  with Some that show ?thesis by blast
qed

lemma switched_capture:
  assumes "obedient io mode" "rt_capture (switched io n s p r) = Some c"
  shows "mode c = (\<not> vs_local s)"
proof (cases "vs_local s")
  case True
  define r1 where "r1 = r\<lparr>rt_active := Some n, rt_point := Some p, rt_capture := set_mode io False (rt_capture r)\<rparr>"
  from assms(2) True have "rt_capture (warp io r1) = Some c" by (simp add: switched_def r1_def)
  with assms(1) obtain c0 where "rt_capture r1 = Some c0" "mode c = mode c0" by (rule warp_mode)
  then show ?thesis using True set_mode_matches [OF assms(1)] by (simp add: r1_def)
next
  case False
  with assms(2) have "set_mode io True (rt_capture r) = Some c" by (simp add: switched_def Let_def)
  from set_mode_matches [OF assms(1) this] False show ?thesis by simp
qed

lemma warp_captured [simp]: "rt_capture (warp io r) = None \<longleftrightarrow> rt_capture r = None"
  by (cases "rt_capture r"; cases "active_view r"; cases "rt_point r")
     (simp_all add: warp_def split: prod.split)

lemma switched_captured: "rt_capture (switched io n s p r) = None \<longleftrightarrow> rt_capture r = None"
  by (simp add: switched_def Let_def set_mode_def)

lemma queue_senders_cong:
  "rt_senders r1 = rt_senders r2 \<Longrightarrow>
     rt_senders (snd (queueInputForScreen io s e r1)) = rt_senders (snd (queueInputForScreen io s e r2))"
  by (simp add: queueInputForScreen_def split: option.split prod.split)

section \<open>An example: the host with one remote client to its right\<close>

definition demo_host :: "nat virtual_screen" where
  "demo_host = new_screen 0 (ScreenKey ''host'' 0) (GridPosition 0 0) (demo_monitor True) True"

definition demo_peer :: "nat virtual_screen" where
  "demo_peer = new_screen 7 (ScreenKey ''peer'' 0) (GridPosition 1 0) (demo_monitor False) False"

definition host_store :: "nat screen_store" where
  "host_store = snd (store_addScreen demo_env 0 (ScreenKey ''host'' 0) (GridPosition 0 0) (demo_monitor True) True demo_store)"

definition two_store :: "nat screen_store" where
  "two_store = snd (store_addScreen demo_env 7 (ScreenKey ''peer'' 0) (GridPosition 1 0) (demo_monitor False) False host_store)"

lemma host_store_fields:
  "st_screens host_store = [(0, 0, demo_host)]" "st_nextNode host_store = 1"
  "topo_screens (st_topology host_store) = [(ScreenKey ''host'' 0, topo_screen_of demo_host)]"
  "topo_cells (st_topology host_store) = [(GridPosition 0 0, ScreenKey ''host'' 0)]"
  using demo_monitor_valid [of True]
  by (simp_all add: host_store_def store_addScreen_def addScreen_def demo_store_def new_store_def
        empty_topology_def Let_def rememberScreenLayout_def mm_emplace_rec topo_screen_of_def
        new_screen_def demo_host_def)

lemma two_store_fields:
  "st_screens two_store = [(0, 0, demo_host), (7, 1, demo_peer)]"
  "topo_screens (st_topology two_store) =
     [(ScreenKey ''host'' 0, topo_screen_of demo_host), (ScreenKey ''peer'' 0, topo_screen_of demo_peer)]"
  "topo_cells (st_topology two_store) =
     [(GridPosition 0 0, ScreenKey ''host'' 0), (GridPosition 1 0, ScreenKey ''peer'' 0)]"
  using demo_monitor_valid [of False]
  by (simp_all add: two_store_def store_addScreen_def addScreen_def host_store_fields Let_def
        rememberScreenLayout_def mm_emplace_rec topo_screen_of_def new_screen_def demo_peer_def
        less_screen_key_def less_grid_position_def)

lemma host_store_sync: "store_sync host_store"
  unfolding host_store_def
  by (rule store_addScreen_sync [OF demo_store_inv(1)]) (simp add: fresh_client_exclusive(1) [OF demo_store_fresh])

lemma two_store_sync: "store_sync two_store"
  unfolding two_store_def
  by (rule store_addScreen_sync [OF host_store_sync])
     (simp add: owner_exclusive_def nodes_def host_store_fields demo_host_def)

lemmas demo_monitor_defs = demo_monitor_def demo_info_def

lemma two_store_small: "layout_small (st_topology two_store)"
  by (auto simp: layout_small_def topo_typed_def findScreen_def two_store_fields screen_info_typed_def
        cell_typed_def small_def cell_inner_def demo_host_def demo_peer_def demo_monitor_defs
        split: if_splits edge.split)
     (case_tac e; simp)+

definition demo_io :: "(bool, input_event list) router_io" where
  "demo_io = \<lparr>io_setRemote = \<lambda>a c. (True, a), io_moveCursor = \<lambda>i x y c. (True, c),
     io_senderValid = \<lambda>_. True, io_trySend = \<lambda>e sent. (True, sent @ [e])\<rparr>"

definition at_home :: "(nat, bool, input_event list) router" where
  "at_home = \<lparr>rt_store = two_store, rt_senders = [(7, [])], rt_capture = Some False, rt_active = Some 0,
     rt_point = Some \<lparr>sp_key = ScreenKey ''host'' 0, sp_x = 960, sp_y = 540\<rparr>, rt_lastLocal = None,
     rt_pendingWarp = None\<rparr>"

definition at_peer :: "(nat, bool, input_event list) router" where
  "at_peer = at_home\<lparr>rt_capture := Some True, rt_active := Some 1,
     rt_point := Some \<lparr>sp_key = ScreenKey ''peer'' 0, sp_x = 960, sp_y = 540\<rparr>\<rparr>"

lemma two_store_nodes: "node_at two_store 0 = Some demo_host" "node_at two_store 1 = Some demo_peer"
  by (simp_all add: node_at_def nodes_def two_store_fields)

lemma demo_screens_simps [simp]:
  "vs_local demo_host" "\<not> vs_local demo_peer" "vs_key demo_host = ScreenKey ''host'' 0"
  "vs_key demo_peer = ScreenKey ''peer'' 0" "vs_endpoint demo_peer = 7" "vs_endpoint demo_host = 0"
  "si_width (vs_info demo_peer) = 1920" "si_height (vs_info demo_peer) = 1080"
  "si_width (vs_info demo_host) = 1920" "si_height (vs_info demo_host) = 1080"
  by (simp_all add: demo_host_def demo_peer_def demo_monitor_defs)

lemma at_home_ok: "router_ok at_home" "active_view at_home = Some demo_host"
  by (simp_all add: router_ok_def state_ok_def at_home_def two_store_sync two_store_small two_store_nodes
        small_def active_view_def map_wf_def)

lemma at_peer_ok: "router_ok at_peer" "active_view at_peer = Some demo_peer"
  by (simp_all add: router_ok_def state_ok_def at_peer_def at_home_def two_store_sync two_store_small
        two_store_nodes [simplified] small_def inside_def active_view_def map_wf_def)

section \<open>Properties\<close>

fun handleInputEvents ::
  "('cap, 'snd) router_io \<Rightarrow> input_event list \<Rightarrow> ('ep::linorder, 'cap, 'snd) router \<Rightarrow> ('ep, 'cap, 'snd) router ub" where
  "handleInputEvents io [] r = Some r"
| "handleInputEvents io (e # es) r = do { r1 \<leftarrow> handleInputEvent io e r; handleInputEvents io es r1 }"

text \<open>
  C1. No sequence of captured events leads to undefined behaviour: no dangling active screen is read, no
  coordinate overflows, the virtual cursor stays inside the active remote screen, and the store is only
  read. Screens and events may use coordinates up to \<open>2 ^ 29\<close> pixels.
\<close>

theorem handleInputEvents_safe:
  assumes "router_ok r" and "\<forall>e \<in> set es. event_small e"
  shows "\<exists>r'. handleInputEvents io es r = Some r' \<and> router_ok r' \<and> rt_store r' = rt_store r"
  using assms
proof (induction es arbitrary: r)
  case (Cons e es)
  obtain r1 where "handleInputEvent io e r = Some r1" "router_ok r1" "rt_store r1 = rt_store r"
    by (rule handleInputEvent_ok [OF Cons.prems(1), of e]) (use Cons.prems(2) in simp)
  with Cons.IH [of r1] Cons.prems(2) show ?case by simp
qed simp

definition demo_move :: "int \<Rightarrow> int \<Rightarrow> int \<Rightarrow> int \<Rightarrow> mouse_move_event" where
  "demo_move x y dx dy = \<lparr>mv_x = x, mv_y = y, mv_screenIndex = 0, mv_deltaX = dx, mv_deltaY = dy\<rparr>"

theorem handleInputEvents_safe_witness:
  "\<exists>r'. handleInputEvents demo_io [MouseMoveEvent (demo_move 1919 540 3 0), MouseMoveEvent (demo_move 1919 540 5 7)] at_home =
     Some r' \<and> router_ok r'"
proof -
  have "\<forall>e \<in> set [MouseMoveEvent (demo_move 1919 540 3 0), MouseMoveEvent (demo_move 1919 540 5 7)]. event_small e"
    by (simp add: demo_move_def move_small_def small_def)
  from handleInputEvents_safe [OF at_home_ok(1) this, of demo_io] show ?thesis by blast
qed

text \<open>
  Watching the capture: the same operations, with the mode last asked of the capture beside its state. What
  the capture answers, and whether it obeys, is left open. \<open>unwatched\<close> forgets the record, and the router
  behaves the same with and without it.
\<close>

definition watch :: "('cap, 'snd) router_io \<Rightarrow> ('cap \<times> bool, 'snd) router_io" where
  "watch io =
     \<lparr>io_setRemote = \<lambda>a c. (let (ok, c') = io_setRemote io a (fst c) in (ok, (c', a))),
      io_moveCursor = \<lambda>i x y c. (let (ok, c') = io_moveCursor io i x y (fst c) in (ok, (c', snd c))),
      io_senderValid = io_senderValid io, io_trySend = io_trySend io\<rparr>"

definition unwatched :: "('ep, 'cap \<times> bool, 'snd) router \<Rightarrow> ('ep, 'cap, 'snd) router" where
  "unwatched r =
     \<lparr>rt_store = rt_store r, rt_senders = rt_senders r, rt_capture = map_option fst (rt_capture r),
      rt_active = rt_active r, rt_point = rt_point r, rt_lastLocal = rt_lastLocal r,
      rt_pendingWarp = rt_pendingWarp r\<rparr>"

lemma watch_obedient: "obedient (watch io) snd"
  by (simp add: obedient_def watch_def split: prod.split)

lemma unwatched_simps [simp]:
  "rt_store (unwatched r) = rt_store r" "rt_senders (unwatched r) = rt_senders r"
  "rt_capture (unwatched r) = map_option fst (rt_capture r)" "rt_active (unwatched r) = rt_active r"
  "rt_point (unwatched r) = rt_point r" "rt_lastLocal (unwatched r) = rt_lastLocal r"
  "rt_pendingWarp (unwatched r) = rt_pendingWarp r" "active_screen (unwatched r) = active_screen r"
  "active_is_remote (unwatched r) = active_is_remote r" "eventAtActivePoint e (unwatched r) = eventAtActivePoint e r"
  "remote_view (unwatched r) = remote_view r"
  by (simp_all add: unwatched_def active_screen_def active_is_remote_def eventAtActivePoint_def
        remote_view_def active_view_def cong: option.case_cong)

lemma unwatched_updates:
  "(unwatched r)\<lparr>rt_active := a\<rparr> = unwatched (r\<lparr>rt_active := a\<rparr>)"
  "(unwatched r)\<lparr>rt_point := q\<rparr> = unwatched (r\<lparr>rt_point := q\<rparr>)"
  "(unwatched r)\<lparr>rt_lastLocal := m\<rparr> = unwatched (r\<lparr>rt_lastLocal := m\<rparr>)"
  "(unwatched r)\<lparr>rt_pendingWarp := q\<rparr> = unwatched (r\<lparr>rt_pendingWarp := q\<rparr>)"
  "(unwatched r)\<lparr>rt_senders := x\<rparr> = unwatched (r\<lparr>rt_senders := x\<rparr>)"
  by (simp_all add: unwatched_def)

lemma unwatched_push:
  "unwatched (r\<lparr>rt_capture := y\<rparr>) = (unwatched r)\<lparr>rt_capture := map_option fst y\<rparr>"
  "unwatched (r\<lparr>rt_pendingWarp := q\<rparr>) = (unwatched r)\<lparr>rt_pendingWarp := q\<rparr>"
  by (simp_all add: unwatched_def)

lemma map_ub_bind: "map_option f (Option.bind x g) = Option.bind x (\<lambda>y. map_option f (g y))"
  by (cases x) simp_all

lemma watch_update:
  "updateCaptureRemoteControl io (unwatched r) = map_option unwatched (updateCaptureRemoteControl (watch io) r)"
  by (cases "rt_capture r"; cases "active_is_remote r")
     (auto simp: updateCaptureRemoteControl_def watch_def unwatched_push split: prod.split)

lemma watch_queue:
  "queueInputForScreen io s e (unwatched r) =
     (fst (queueInputForScreen (watch io) s e r), unwatched (snd (queueInputForScreen (watch io) s e r)))"
  by (auto simp: queueInputForScreen_def watch_def unwatched_updates split: option.split prod.split)

lemma watch_warp:
  "moveLocalCursorToActivePoint io (unwatched r) = map_option unwatched (moveLocalCursorToActivePoint (watch io) r)"
  by (cases "rt_capture r"; cases "active_screen r")
     (auto simp: moveLocalCursorToActivePoint_def watch_def unwatched_push split: prod.split option.split)

lemma watch_home:
  "activateFirstLocalScreen io (unwatched r) = map_option unwatched (activateFirstLocalScreen (watch io) r)"
  by (auto simp: activateFirstLocalScreen_def reset_active_def unwatched_updates watch_update split: option.split)

lemma watch_switch:
  "switchActiveScreen io p (unwatched r) = map_option unwatched (switchActiveScreen (watch io) p r)"
  by (auto simp: switchActiveScreen_def unwatched_updates watch_update watch_queue watch_warp map_ub_bind
        bind_map_option o_def split: option.split intro!: Option.bind_cong)

lemma watch_remote_move:
  "handleRemoteMouseMove io m (unwatched r) = map_option unwatched (handleRemoteMouseMove (watch io) m r)"
  by (auto simp: handleRemoteMouseMove_def unwatched_updates watch_queue watch_switch map_ub_bind Let_def
        split: option.split prod.split intro!: Option.bind_cong)

lemma watch_move: "handleMouseMove io m (unwatched r) = map_option unwatched (handleMouseMove (watch io) m r)"
  by (auto simp: handleMouseMove_def unwatched_updates watch_remote_move watch_switch map_ub_bind Let_def
        suppressPendingLocalWarp_def split: option.split prod.split intro!: Option.bind_cong)

lemma watch_hotkey:
  "tryHandleLocalHotkey io e (unwatched r) =
     map_option (\<lambda>(b, r'). (b, unwatched r')) (tryHandleLocalHotkey (watch io) e r)"
  by (auto simp: tryHandleLocalHotkey_def watch_home map_ub_bind bind_map_option o_def
        split: input_event.split intro!: Option.bind_cong)

lemma watch_event: "handleInputEvent io e (unwatched r) = map_option unwatched (handleInputEvent (watch io) e r)"
  by (auto simp: handleInputEvent_def watch_hotkey watch_move watch_remote_move watch_queue map_ub_bind
        bind_map_option o_def split: option.split prod.split input_event.split intro!: Option.bind_cong)

lemma watch_events:
  "handleInputEvents io es (unwatched r) = map_option unwatched (handleInputEvents (watch io) es r)"
  by (induction es arbitrary: r) (simp_all add: watch_event map_ub_bind bind_map_option o_def)


lemma view_capture [simp]:
  "remote_view (r\<lparr>rt_capture := c\<rparr>) = remote_view r" "no_dangling (r\<lparr>rt_capture := c\<rparr>) = no_dangling r"
  by (simp_all add: no_dangling_def remote_view_def active_view_def cong: option.case_cong)

lemma setCapture_eq:
  assumes "no_dangling r"
  shows "setCapture io c r = Some (r\<lparr>rt_capture := set_mode io (remote_view r) c\<rparr>)"
  using assms by (simp add: setCapture_def)

lemma handleInputEvent_mode:
  assumes "obedient io mode" and "router_ok r" and "event_small e" and "mode_matches mode r"
  shows "\<exists>r'. handleInputEvent io e r = Some r' \<and> router_ok r' \<and> mode_matches mode r' \<and>
    (rt_capture r' = None \<longleftrightarrow> rt_capture r = None)"
proof -
  obtain r' where r': "handleInputEvent io e r = Some r'" "router_ok r'"
    using assms(2,3) by (rule handleInputEvent_ok)
  have "mode_matches mode r' \<and> (rt_capture r' = None \<longleftrightarrow> rt_capture r = None)"
    using assms(2,3)
  proof (cases rule: handleInputEvent_control [where io = io])
    case (moved r0)
    then show ?thesis
      using r'(1) assms(4) same_control_views(2) [OF moved(2)] by (simp add: mode_matches_def same_control_def)
  next
    case (sent r0 s e')
    have "remote_view (snd (queueInputForScreen io s e' r0)) = remote_view r0"
      by (simp add: remote_view_def active_view_def cong: option.case_cong)
    then show ?thesis
      using sent r'(1) assms(4) same_control_views(2) [OF sent(2)]
      by (simp add: mode_matches_def same_control_def)
  next
    case (switch r0 q n t)
    have "store_findScreen (sp_key q) (rt_store r0) = Some (n, t)" "store_inv (rt_store r0)"
      using switch(2,3) router_okD(2) [OF assms(2)] by (simp_all add: same_control_def)
    then have "remote_view (switched io n t q r0) = (\<not> vs_local t)"
      by (simp add: remote_view_def active_view_switched)
    then show ?thesis
      using switch(1,2) r'(1) switched_capture [OF assms(1), of n t q r0]
      by (auto simp: mode_matches_def switched_captured same_control_def)
  next
    case (home r1)
    then have "\<not> remote_view r'" using r'(1) assms(2) by (auto elim: activateFirstLocal_ok [where io = io])
    moreover have "rt_capture r' = set_mode io False (rt_capture r)"
      using home r'(1) by (auto simp: activateFirstLocal_eq [OF router_okD(2) [OF assms(2)]] split: option.splits)
    ultimately show ?thesis
      using assms(1) by (cases "rt_capture r") (simp_all add: mode_matches_def set_mode_def obedient_def)
  qed
  with r' show ?thesis by (intro exI [of _ r'] conjI) simp_all
qed

lemma handleInputEvents_mode:
  assumes "obedient io mode" and "router_ok r" and "\<forall>e \<in> set es. event_small e" and "mode_matches mode r"
  shows "\<exists>r'. handleInputEvents io es r = Some r' \<and> mode_matches mode r' \<and>
    (rt_capture r' = None \<longleftrightarrow> rt_capture r = None)"
  using assms(2-)
proof (induction es arbitrary: r)
  case (Cons e es)
  obtain r1 where "handleInputEvent io e r = Some r1" "router_ok r1" "mode_matches mode r1"
    "rt_capture r1 = None \<longleftrightarrow> rt_capture r = None"
    using handleInputEvent_mode [OF assms(1) Cons.prems(1) _ Cons.prems(3), of e] Cons.prems(2) by auto
  with Cons.IH [of r1] Cons.prems(2) show ?case by simp
qed simp

text \<open>
  C2. From the moment a capture is attached, after any run of captured events the mode the router last
  asked of the capture is remote control exactly if a remote screen is active. This is about what is asked,
  whatever the capture answers: the router does not look at the answer (\<open>watch\<close> records the request and
  changes nothing else, \<open>watch_events\<close>), so a capture that refuses a request stays in the other mode. Screens
  and events may use coordinates up to \<open>2 ^ 29\<close>.
\<close>

theorem capture_mode_follows_active:
  assumes "router_ok r" and "\<forall>e \<in> set es. event_small e"
  shows "\<exists>r0 r' c asked.
    setCapture (watch io) (Some (capture, before)) r = Some r0 \<and>
    handleInputEvents (watch io) es r0 = Some r' \<and>
    handleInputEvents io es (unwatched r0) = Some (unwatched r') \<and>
    rt_capture r' = Some (c, asked) \<and> asked = remote_view (unwatched r')"
proof -
  let ?r0 = "r\<lparr>rt_capture := set_mode (watch io) (remote_view r) (Some (capture, before))\<rparr>"
  have start: "setCapture (watch io) (Some (capture, before)) r = Some ?r0"
    using router_okD(5) [OF assms(1)] setCapture_eq by blast
  have mode: "mode_matches snd ?r0"
    using set_mode_matches [OF watch_obedient] by (fastforce simp: mode_matches_def)
  have ok: "router_ok ?r0" using assms(1) by (simp add: router_ok_def)
  obtain r' where r': "handleInputEvents (watch io) es ?r0 = Some r'" "mode_matches snd r'"
    "rt_capture r' = None \<longleftrightarrow> rt_capture ?r0 = None"
    using handleInputEvents_mode [OF watch_obedient [of io] ok assms(2) mode] by (elim exE conjE)
  then obtain c asked where "rt_capture r' = Some (c, asked)" by (auto simp: set_mode_def)
  with start r'(1,2) show ?thesis by (simp add: mode_matches_def watch_events)
qed

definition watched_home :: "(nat, bool \<times> bool, input_event list) router" where
  "watched_home = \<lparr>rt_store = two_store, rt_senders = [(7, [])], rt_capture = None, rt_active = Some 0,
     rt_point = Some \<lparr>sp_key = ScreenKey ''host'' 0, sp_x = 960, sp_y = 540\<rparr>, rt_lastLocal = None,
     rt_pendingWarp = None\<rparr>"

theorem capture_mode_follows_active_witness:
  "\<exists>r0 r' c asked. setCapture (watch demo_io) (Some (False, True)) watched_home = Some r0 \<and>
     handleInputEvents (watch demo_io) [MouseMoveEvent (demo_move 1919 540 3 0)] r0 = Some r' \<and>
     rt_capture r' = Some (c, asked) \<and> asked = remote_view (unwatched r')"
proof -
  have "router_ok watched_home" using at_home_ok(1) by (simp add: router_ok_def at_home_def watched_home_def)
  moreover have "\<forall>e \<in> set [MouseMoveEvent (demo_move 1919 540 3 0)]. event_small e"
    by (simp add: demo_move_def move_small_def small_def)
  ultimately show ?thesis
    using capture_mode_follows_active [of watched_home _ demo_io False True] by blast
qed

text \<open>
  C3. Input that belongs to the host stays on the host. While a local screen is active, or none, a key,
  button or wheel event changes nothing at all. A mouse move updates the sampled position (and consumes the
  echo of a warp), and leaves capture, active screen and every sender as they are unless the pointer touches
  a border that leads to another screen; then that screen becomes active, and if it is remote its client,
  and nobody else, is sent the entry position.
\<close>

theorem local_input_stays_local:
  assumes "router_ok r" and "event_small e" and "\<not> remote_view r"
  shows "\<exists>r'. handleInputEvent io e r = Some r' \<and>
    (case e of
       MouseMoveEvent m \<Rightarrow>
         same_control r' r \<or>
         (\<exists>s q n t. active_view r = Some s \<and>
            crossing_target (st_topology (rt_store r))
              \<lparr>sp_key = ScreenKey (key_ownerId (vs_key s)) (mv_screenIndex m), sp_x = mv_x m, sp_y = mv_y m\<rparr> =
              Some (Some q) \<and>
            store_findScreen (sp_key q) (rt_store r) = Some (n, t) \<and> active_view r' = Some t \<and>
            rt_senders r' = (if vs_local t then rt_senders r
                             else rt_senders (snd (queueInputForScreen io t (point_move q) r))))
     | _ \<Rightarrow> r' = r)"
proof -
  note nd = router_okD(5) [OF assms(1)]
  have loc: "vs_local s" if "active_view r = Some s" for s using assms(3) that by (simp add: remote_view_def)
  show ?thesis
  proof (cases "\<exists>m. e = MouseMoveEvent m")
    case False
    then have "handleInputEvent io e r = Some r"
      using nd assms(3) loc
      by (cases e; cases "active_view r") (auto simp: handleInputEvent_def tryHandleLocalHotkey_def)
    then show ?thesis using False by (simp split: input_event.split)
  next
    case True
    then obtain m where m: "e = MouseMoveEvent m" by blast
    show ?thesis
    proof (cases "active_view r")
      case None
      then show ?thesis using nd m by (simp add: handleInputEvent_def tryHandleLocalHotkey_def handleMouseMove_def)
    next
      case (Some s)
      note s = Some loc [OF Some]
      have e: "handleInputEvent io e r = handleMouseMove io m r"
        using nd s m by (simp add: handleInputEvent_def tryHandleLocalHotkey_def)
      have small: "move_small m" using assms(2) m by simp
      let ?p = "\<lparr>sp_key = ScreenKey (key_ownerId (vs_key s)) (mv_screenIndex m), sp_x = mv_x m, sp_y = mv_y m\<rparr>"
      show ?thesis
        using assms(1) s small refl [of ?p]
      proof (cases rule: handleMouseMove_local_cases [where io = io])
        case echo
        then show ?thesis using e m by (simp add: same_control_def)
      next
        case stay
        then show ?thesis using e m by (simp add: same_control_def)
      next
        case (cross q n t)
        let ?r = "r\<lparr>rt_lastLocal := Some m, rt_point := Some ?p\<rparr>"
        have view: "active_view (switched io n t q ?r) = Some t"
          using cross(3) router_okD(2) [OF assms(1)] by (simp add: active_view_switched)
        have sent: "rt_senders (switched io n t q ?r) = (if vs_local t then rt_senders r
            else rt_senders (snd (queueInputForScreen io t (point_move q) r)))"
          by (simp add: switched_def Let_def) (intro impI queue_senders_cong, simp)
        show ?thesis unfolding e unfolding m cross(5) input_event.case
          by (rule exI, rule conjI, rule refl, rule disjI2, (rule exI)+, intro conjI)
             (rule s(1) cross(2) cross(3) view sent)+
      qed
    qed
  qed
qed

theorem local_input_stays_local_witness:
  "\<exists>r'. handleInputEvent demo_io (MouseButtonEvent \<lparr>mb_x = 1, mb_y = 1, mb_screenIndex = 0,
     mb_button = MouseButton_Left, mb_release = False\<rparr>) at_home = Some r' \<and> r' = at_home"
proof -
  have "\<not> remote_view at_home" using at_home_ok(2) by (simp add: remote_view_def)
  from local_input_stays_local [OF at_home_ok(1) _ this, of "MouseButtonEvent \<lparr>mb_x = 1, mb_y = 1,
      mb_screenIndex = 0, mb_button = MouseButton_Left, mb_release = False\<rparr>" demo_io]
  show ?thesis by auto
qed

text \<open>Where the router places a button or wheel event: at the virtual cursor.\<close>

fun at_point :: "screen_point \<Rightarrow> input_event \<Rightarrow> input_event" where
  "at_point p (MouseButtonEvent b) =
     MouseButtonEvent (b\<lparr>mb_x := sp_x p, mb_y := sp_y p, mb_screenIndex := key_screenIndex (sp_key p)\<rparr>)"
| "at_point p (MouseWheelEvent w) = MouseWheelEvent (w\<lparr>mw_x := sp_x p, mw_y := sp_y p\<rparr>)"
| "at_point p e = e"

definition is_hotkey :: "input_event \<Rightarrow> bool" where
  "is_hotkey e \<longleftrightarrow> (case e of KeyEvent k \<Rightarrow> \<not> ke_release k \<and> ke_key k = Key_F12 | _ \<Rightarrow> False)"

lemma not_hotkey: "\<not> is_hotkey e \<Longrightarrow> tryHandleLocalHotkey io e r = Some (False, r)"
  by (rule hotkey_not_handled) (auto simp: is_hotkey_def)

text \<open>
  C4. While a remote screen is active, every key, button and wheel event except a pressed F12 is handed to
  the sender of this screen's endpoint, exactly once, with buttons and wheel placed at the virtual
  cursor; no other sender, and neither the capture nor the cursor, is touched.
\<close>

theorem remote_input_delivered:
  assumes "router_ok r" and "active_view r = Some s" and "\<not> vs_local s"
    and "\<not> is_hotkey e" and "\<forall>m. e \<noteq> MouseMoveEvent m" and "rt_point r = Some p"
    and "map_find (rt_senders r) (vs_endpoint s) = Some sender" and "io_senderValid io sender"
  shows "\<exists>r'. handleInputEvent io e r = Some r' \<and>
    map_find (rt_senders r') = (map_find (rt_senders r))(vs_endpoint s \<mapsto> snd (io_trySend io (at_point p e) sender)) \<and>
    rt_active r' = rt_active r \<and> rt_point r' = rt_point r \<and> rt_capture r' = rt_capture r"
proof -
  note D = router_okD [OF assms(1)]
  have key: "sp_key p = vs_key s"
    using router_ok_remote [OF assms(1-3)] assms(6) by auto
  have "eventAtActivePoint e r = Some (at_point p e)"
    using D(5) assms(2,5,6) key by (cases e) (simp_all add: eventAtActivePoint_def)
  then have "handleInputEvent io e r = Some (snd (queueInputForScreen io s (at_point p e) r))"
    using not_hotkey [OF assms(4), of io r] D(5) assms(2,3,5)
    by (cases e) (simp_all add: handleInputEvent_def)
  moreover have "map_find (rt_senders (snd (queueInputForScreen io s (at_point p e) r))) =
      (map_find (rt_senders r))(vs_endpoint s \<mapsto> snd (io_trySend io (at_point p e) sender))"
    using assms(3,7,8) by (auto simp: fun_eq_iff queue_senders [OF D(4)] split: option.splits)
  ultimately show ?thesis by simp
qed

definition demo_wheel :: mouse_wheel_event where
  "demo_wheel = \<lparr>mw_x = 0, mw_y = 0, mw_deltaX = 0, mw_deltaY = 120\<rparr>"

theorem remote_input_delivered_witness:
  "\<exists>r'. handleInputEvent demo_io (MouseWheelEvent demo_wheel) at_peer = Some r' \<and>
     map_find (rt_senders r') 7 = Some [MouseWheelEvent (demo_wheel\<lparr>mw_x := 960, mw_y := 540\<rparr>)]"
proof -
  have h: "\<not> is_hotkey (MouseWheelEvent demo_wheel)" "\<forall>m. MouseWheelEvent demo_wheel \<noteq> MouseMoveEvent m"
    "rt_point at_peer = Some \<lparr>sp_key = ScreenKey ''peer'' 0, sp_x = 960, sp_y = 540\<rparr>"
    "map_find (rt_senders at_peer) (vs_endpoint demo_peer) = Some []" "io_senderValid demo_io []"
    by (simp_all add: is_hotkey_def at_peer_def at_home_def demo_io_def)
  obtain r' where "handleInputEvent demo_io (MouseWheelEvent demo_wheel) at_peer = Some r'"
    "map_find (rt_senders r') = (map_find (rt_senders at_peer))(vs_endpoint demo_peer \<mapsto>
       snd (io_trySend demo_io (at_point \<lparr>sp_key = ScreenKey ''peer'' 0, sp_x = 960, sp_y = 540\<rparr> (MouseWheelEvent demo_wheel)) []))"
    using remote_input_delivered [OF at_peer_ok demo_screens_simps(2) h] by blast
  then show ?thesis by (simp add: demo_io_def)
qed

text \<open>
  C5. The fail-safe: pressing F12 while a remote screen is active always returns control to the host. The
  new active screen is the host's anchor, or none if the host has no screen; the capture is told to
  leave remote-control mode; and nothing is sent to any client.
\<close>

theorem failsafe_returns_home:
  assumes "router_ok r" and "remote_view r" and "is_hotkey e"
  shows "\<exists>r'. handleInputEvent io e r = Some r' \<and>
    active_view r' = map_option snd (firstLocalScreen (rt_store r)) \<and> \<not> remote_view r' \<and>
    rt_senders r' = rt_senders r \<and> rt_capture r' = set_mode io False (rt_capture r)"
proof -
  note D = router_okD [OF assms(1)]
  obtain k where k: "e = KeyEvent k" "\<not> ke_release k" "ke_key k = Key_F12"
    using assms(3) by (auto simp: is_hotkey_def split: input_event.splits)
  obtain r' where r': "activateFirstLocalScreen io r = Some r'" "\<not> remote_view r'"
    using assms(1) by (rule activateFirstLocal_ok)
  have handle: "handleInputEvent io e r = Some r'"
    using k r'(1) D(5) assms(2) by (simp add: handleInputEvent_def tryHandleLocalHotkey_def)
  show ?thesis
  proof (cases "firstLocalScreen (rt_store r)")
    case None
    with r' handle show ?thesis
      by (auto simp: activateFirstLocal_eq [OF D(2)] active_view_def reset_active_def)
  next
    case (Some node)
    obtain n s where node: "node = (n, s)" by (cases node)
    with Some firstLocal_node_at [OF D(2), of n s] r' handle show ?thesis
      by (auto simp: activateFirstLocal_eq [OF D(2)] active_view_def)
  qed
qed

definition demo_f12 :: input_event where
  "demo_f12 = KeyEvent \<lparr>ke_key = Key_F12, ke_modifiers = 0, ke_nativeCode = 0, ke_repeat = False, ke_release = False\<rparr>"

theorem failsafe_returns_home_witness:
  "\<exists>r'. handleInputEvent demo_io demo_f12 at_peer = Some r' \<and> \<not> remote_view r' \<and> rt_capture r' = Some False"
proof -
  have "remote_view at_peer" using at_peer_ok(2) by (simp add: remote_view_def)
  moreover have "is_hotkey demo_f12" by (simp add: is_hotkey_def demo_f12_def)
  ultimately obtain r' where "handleInputEvent demo_io demo_f12 at_peer = Some r'" "\<not> remote_view r'"
    "rt_capture r' = set_mode demo_io False (rt_capture at_peer)"
    using failsafe_returns_home [OF at_peer_ok(1), of demo_f12 demo_io] by blast
  then show ?thesis by (simp add: set_mode_def demo_io_def at_peer_def)
qed

text \<open>
  C7. A mouse move on a remote screen that does not cross a border moves the virtual cursor by the relative
  motion, clamped to the screen, and sends the client exactly this position, which lies inside the
  screen; the active screen and the capture stay as they are.
\<close>

theorem remote_move_stays_inside:
  assumes "router_ok r" and "active_view r = Some s" and "\<not> vs_local s" and "move_small m"
    and "rt_point r = Some p" and "remote_delta m (rt_lastLocal r) = Some (dx, dy)" and "(dx, dy) \<noteq> (0, 0)"
    and "crossing_target (st_topology (rt_store r)) (p\<lparr>sp_x := sp_x p + dx, sp_y := sp_y p + dy\<rparr>) = Some None"
    and "map_find (rt_senders r) (vs_endpoint s) = Some sender" and "io_senderValid io sender"
  shows "\<exists>r' q. handleInputEvent io (MouseMoveEvent m) r = Some r' \<and>
    q = clamped (vs_info s) p (sp_x p + dx) (sp_y p + dy) \<and> inside (vs_info s) (sp_x q) (sp_y q) \<and>
    rt_point r' = Some q \<and> rt_active r' = rt_active r \<and> rt_capture r' = rt_capture r \<and>
    map_find (rt_senders r') (vs_endpoint s) = Some (snd (io_trySend io (point_move q) sender))"
proof -
  note D = router_okD [OF assms(1)]
  define q where "q = clamped (vs_info s) p (sp_x p + dx) (sp_y p + dy)"
  have eq: "handleInputEvent io (MouseMoveEvent m) r = handleRemoteMouseMove io m r"
    using D(5) assms(2,3) not_hotkey [of "MouseMoveEvent m" io r]
    by (simp add: handleInputEvent_def is_hotkey_def)
  have step: "handleRemoteMouseMove io m r =
      Some (snd (queueInputForScreen io s (point_move q) (r\<lparr>rt_lastLocal := Some m, rt_point := Some q\<rparr>)))"
    using assms(1-4)
  proof (cases rule: handleRemoteMouseMove_cases [where io = io])
    case (still p')
    then show ?thesis using assms(6,7) by simp
  next
    case (cross p' dx' dy' q' n t)
    then show ?thesis using assms(5,6,8) by simp
  next
    case (slide p' dx' dy' q')
    then show ?thesis using assms(5,6) by (simp add: q_def)
  qed
  have "\<exists>n. rt_active r = Some n \<and> node_at (rt_store r) n = Some s"
    using assms(2) by (auto simp: active_view_def split: option.splits)
  then have "findScreen (st_topology (rt_store r)) (vs_key s) = Some (topo_screen_of s)"
    using store_syncD(3) [OF D(1)] by (auto simp: node_at_iff [OF D(2)])
  from topo_invD(2) [OF store_invD(1) [OF D(2)] this] have "isValidRect (vs_info s)" by simp
  then have "inside (vs_info s) (sp_x q) (sp_y q)" unfolding q_def by (rule clamped_inside)
  moreover have "map_find (rt_senders (snd (queueInputForScreen io s (point_move q)
      (r\<lparr>rt_lastLocal := Some m, rt_point := Some q\<rparr>)))) (vs_endpoint s) =
      Some (snd (io_trySend io (point_move q) sender))"
    using D(4) assms(3,9,10) by (simp add: queue_senders)
  ultimately show ?thesis
    using eq step by (intro exI [of _ "snd (queueInputForScreen io s (point_move q)
      (r\<lparr>rt_lastLocal := Some m, rt_point := Some q\<rparr>))"] exI [of _ q]) (simp add: q_def)
qed

theorem remote_move_stays_inside_witness:
  "\<exists>r'. handleInputEvent demo_io (MouseMoveEvent (demo_move 0 0 500 (- 40))) at_peer = Some r' \<and>
     map_find (rt_senders r') 7 = Some [MouseMoveEvent (absolute_move 1460 500 0)]"
proof -
  let ?p = "\<lparr>sp_key = ScreenKey ''peer'' 0, sp_x = 960, sp_y = 540\<rparr>"
  let ?m = "demo_move 0 0 500 (- 40)"
  have small: "move_small ?m" by (simp add: demo_move_def move_small_def small_def)
  have at: "rt_point at_peer = Some ?p" "map_find (rt_senders at_peer) (vs_endpoint demo_peer) = Some []"
    "io_senderValid demo_io []"
    by (simp_all add: at_peer_def at_home_def demo_io_def)
  have d: "remote_delta ?m (rt_lastLocal at_peer) = Some (500, - 40)" "(500, - 40) \<noteq> (0, 0 :: int)"
    by (simp_all add: remote_delta_def demo_move_def)
  have c: "crossing_target (st_topology (rt_store at_peer)) (?p\<lparr>sp_x := sp_x ?p + 500, sp_y := sp_y ?p + - 40\<rparr>) = Some None"
    by (simp add: at_peer_def at_home_def crossing_target_def hitEdge_def findScreen_def two_store_fields)
  obtain r' q where r': "handleInputEvent demo_io (MouseMoveEvent ?m) at_peer = Some r'"
    "q = clamped (vs_info demo_peer) ?p (sp_x ?p + 500) (sp_y ?p + - 40)"
    "map_find (rt_senders r') (vs_endpoint demo_peer) = Some (snd (io_trySend demo_io (point_move q) []))"
    using remote_move_stays_inside [OF at_peer_ok demo_screens_simps(2) small at(1) d c at(2,3)] by blast
  have "q = \<lparr>sp_key = ScreenKey ''peer'' 0, sp_x = 1460, sp_y = 500\<rparr>"
    unfolding r'(2) by (simp add: clamped_def)
  with r'(1,3) show ?thesis by (simp add: demo_io_def point_move_def)
qed

lemma crossing_exists:
  assumes inv: "topo_inv t" and small: "layout_small t"
    and hit: "hitEdge t p = Some (Some e)" and next_: "findNeighbor t (sp_key p) e = Some (Some k)"
  obtains q where "crossing_target t p = Some (Some q)" "mapEntryPoint t p e = Some (Inr q)" "sp_key q = k"
proof -
  obtain s r where s: "findScreen t (sp_key p) = Some s" and r: "findScreen t k = Some r"
    using inv next_ by (rule findNeighbor_SomeD)
  obtain x y where "entryPixel e p (ts_info s) (ts_info r) = Some (x, y)"
    by (rule entryPixel_lands [OF topo_typedD(1) [OF layout_smallD(1) [OF small] s]
          topo_typedD(1) [OF layout_smallD(1) [OF small] r] topo_invD(2) [OF inv r]])
  then have "mapEntryPoint t p e = Some (Inr \<lparr>sp_key = k, sp_x = x, sp_y = y\<rparr>)"
    using s r next_ by (simp add: mapEntryPoint_def)
  with hit that show ?thesis by (simp add: crossing_target_def)
qed

lemma crossing_switches:
  assumes "router_ok r" and "active_view r = Some s" and "vs_local s" and "move_small m"
    and "p = \<lparr>sp_key = ScreenKey (key_ownerId (vs_key s)) (mv_screenIndex m), sp_x = mv_x m, sp_y = mv_y m\<rparr>"
    and "rt_pendingWarp r \<noteq> Some p"
    and "hitEdge (st_topology (rt_store r)) p = Some (Some e)"
    and "findNeighbor (st_topology (rt_store r)) (sp_key p) e = Some (Some k)"
    and "store_findScreen k (rt_store r) = Some (n, t)"
  obtains q where
    "handleInputEvent io (MouseMoveEvent m) r = Some (switched io n t q (r\<lparr>rt_lastLocal := Some m, rt_point := Some p\<rparr>))"
    "sp_key q = k" "inside (vs_info t) (sp_x q) (sp_y q)" "on_border (opposite e) (vs_info t) (sp_x q) (sp_y q)"
proof -
  note D = router_okD [OF assms(1)]
  note topo = store_invD(1) [OF D(2)]
  obtain q where q: "crossing_target (st_topology (rt_store r)) p = Some (Some q)"
    "mapEntryPoint (st_topology (rt_store r)) p e = Some (Inr q)" "sp_key q = k"
    using topo D(3) assms(7,8) by (rule crossing_exists)
  obtain u where u: "findScreen (st_topology (rt_store r)) k = Some u" "inside (ts_info u) (sp_x q) (sp_y q)"
    "on_border (opposite e) (ts_info u) (sp_x q) (sp_y q)"
    using mapEntryPoint_lands [OF topo layout_smallD(1) [OF D(3)] q(2)] q(3) by blast
  have "vs_info t = ts_info u"
    using store_syncD(3) [OF D(1), of n t] store_findScreen_SomeD [OF assms(9)] u(1) by auto
  note land = u(2,3) [folded this]
  let ?r = "r\<lparr>rt_lastLocal := Some m, rt_point := Some p\<rparr>"
  have "handleMouseMove io m r = Some (switched io n t q ?r)"
    using assms(1-5)
  proof (cases rule: handleMouseMove_local_cases [where io = io])
    case (cross q' n' t')
    then show ?thesis using q(1,3) assms(9) by simp
  qed (use assms(6) q(1) in simp_all)
  then have "handleInputEvent io (MouseMoveEvent m) r = Some (switched io n t q ?r)"
    using D(5) assms(2,3) not_hotkey [of "MouseMoveEvent m" io r]
    by (simp add: handleInputEvent_def is_hotkey_def)
  with q(3) land that show ?thesis by blast
qed

text \<open>
  C6. Leaving the host: when the cursor touches a border of a local screen and the grid names a remote
  screen beyond it, this screen becomes active, the virtual cursor is put on the opposite border inside
  it, the capture enters remote-control mode and the client is sent exactly this position.
\<close>

theorem crossing_enters_neighbor:
  assumes "router_ok r" and "active_view r = Some s" and "vs_local s" and "move_small m"
    and "p = \<lparr>sp_key = ScreenKey (key_ownerId (vs_key s)) (mv_screenIndex m), sp_x = mv_x m, sp_y = mv_y m\<rparr>"
    and "rt_pendingWarp r \<noteq> Some p"
    and "hitEdge (st_topology (rt_store r)) p = Some (Some e)"
    and "findNeighbor (st_topology (rt_store r)) (sp_key p) e = Some (Some k)"
    and "store_findScreen k (rt_store r) = Some (n, t)" and "\<not> vs_local t"
    and "map_find (rt_senders r) (vs_endpoint t) = Some sender" and "io_senderValid io sender"
  shows "\<exists>r' q. handleInputEvent io (MouseMoveEvent m) r = Some r' \<and>
    rt_active r' = Some n \<and> rt_point r' = Some q \<and> sp_key q = k \<and>
    inside (vs_info t) (sp_x q) (sp_y q) \<and> on_border (opposite e) (vs_info t) (sp_x q) (sp_y q) \<and>
    rt_capture r' = set_mode io True (rt_capture r) \<and>
    map_find (rt_senders r') (vs_endpoint t) = Some (snd (io_trySend io (point_move q) sender))"
proof -
  let ?r = "r\<lparr>rt_lastLocal := Some m, rt_point := Some p\<rparr>"
  obtain q where q: "handleInputEvent io (MouseMoveEvent m) r = Some (switched io n t q ?r)" "sp_key q = k"
    "inside (vs_info t) (sp_x q) (sp_y q)" "on_border (opposite e) (vs_info t) (sp_x q) (sp_y q)"
    using assms(1-9) by (rule crossing_switches)
  moreover have "rt_capture (switched io n t q ?r) = set_mode io True (rt_capture r)"
    using assms(10) by (simp add: switched_def Let_def)
  moreover have "map_find (rt_senders (switched io n t q ?r)) (vs_endpoint t) =
      Some (snd (io_trySend io (point_move q) sender))"
    using router_okD(4) [OF assms(1)] assms(10-12) by (simp add: switched_def Let_def queue_senders)
  ultimately show ?thesis
    by (intro exI [of _ "switched io n t q ?r"] exI [of _ q]) simp
qed

theorem crossing_enters_neighbor_witness:
  "\<exists>r'. handleInputEvent demo_io (MouseMoveEvent (demo_move 1919 540 0 0)) at_home = Some r' \<and>
     rt_active r' = Some 1 \<and> rt_capture r' = Some True"
proof -
  let ?m = "demo_move 1919 540 0 0"
  let ?p = "\<lparr>sp_key = ScreenKey (key_ownerId (vs_key demo_host)) (mv_screenIndex ?m), sp_x = mv_x ?m, sp_y = mv_y ?m\<rparr>"
  have small: "move_small ?m" by (simp add: demo_move_def move_small_def small_def)
  have h: "rt_pendingWarp at_home \<noteq> Some ?p"
    "hitEdge (st_topology (rt_store at_home)) ?p = Some (Some Edge_Right)"
    "findNeighbor (st_topology (rt_store at_home)) (sp_key ?p) Edge_Right = Some (Some (ScreenKey ''peer'' 0))"
    "store_findScreen (ScreenKey ''peer'' 0) (rt_store at_home) = Some (1, demo_peer)"
    "map_find (rt_senders at_home) (vs_endpoint demo_peer) = Some []" "io_senderValid demo_io []"
    by (simp_all add: at_home_def demo_move_def hitEdge_def findNeighbor_def findScreen_def two_store_fields
          store_findScreen_def nodes_def demo_io_def)
       (simp add: demo_host_def)
  obtain r' where "handleInputEvent demo_io (MouseMoveEvent ?m) at_home = Some r'" "rt_active r' = Some 1"
    "rt_capture r' = set_mode demo_io True (rt_capture at_home)"
    using crossing_enters_neighbor [OF at_home_ok demo_screens_simps(1) small refl h(1-4) demo_screens_simps(2) h(5,6)]
    by blast
  then show ?thesis by (simp add: set_mode_def demo_io_def at_home_def)
qed

text \<open>
  C8. The echo of a warp does not bounce the cursor back: the one local move that reports the position the
  router itself warped to is swallowed although it lies on a border. No screen is switched and nothing
  is sent; the suppression is used up, so the next move is handled normally.
\<close>

theorem warp_echo_swallowed:
  assumes "router_ok r" and "active_view r = Some s" and "vs_local s" and "move_small m"
    and "rt_pendingWarp r =
      Some \<lparr>sp_key = ScreenKey (key_ownerId (vs_key s)) (mv_screenIndex m), sp_x = mv_x m, sp_y = mv_y m\<rparr>"
  shows "\<exists>r'. handleInputEvent io (MouseMoveEvent m) r = Some r' \<and>
    rt_active r' = rt_active r \<and> rt_senders r' = rt_senders r \<and> rt_capture r' = rt_capture r \<and>
    rt_pendingWarp r' = None"
proof -
  note D = router_okD [OF assms(1)]
  have "handleInputEvent io (MouseMoveEvent m) r = handleMouseMove io m r"
    using D(5) assms(2,3) not_hotkey [of "MouseMoveEvent m" io r]
    by (simp add: handleInputEvent_def is_hotkey_def)
  then show ?thesis
    using D(5) assms(2,3,5) by (simp add: handleMouseMove_def suppressPendingLocalWarp_def)
qed

definition returned_home :: "(nat, bool, input_event list) router" where
  "returned_home = at_home\<lparr>rt_pendingWarp := Some \<lparr>sp_key = ScreenKey ''host'' 0, sp_x = 1919, sp_y = 540\<rparr>\<rparr>"

theorem warp_echo_swallowed_witness:
  "\<exists>r'. handleInputEvent demo_io (MouseMoveEvent (demo_move 1919 540 0 0)) returned_home = Some r' \<and>
     rt_active r' = Some 0 \<and> rt_senders r' = [(7, [])]"
proof -
  have "router_ok returned_home" "active_view returned_home = Some demo_host"
    using at_home_ok
    by (simp_all add: returned_home_def router_ok_def active_view_def cong: option.case_cong)
  moreover have "move_small (demo_move 1919 540 0 0)" by (simp add: demo_move_def move_small_def small_def)
  moreover have "rt_pendingWarp returned_home = Some \<lparr>sp_key = ScreenKey (key_ownerId (vs_key demo_host))
      (mv_screenIndex (demo_move 1919 540 0 0)), sp_x = mv_x (demo_move 1919 540 0 0), sp_y = mv_y (demo_move 1919 540 0 0)\<rparr>"
    by (simp add: returned_home_def demo_move_def)
  ultimately obtain r' where "handleInputEvent demo_io (MouseMoveEvent (demo_move 1919 540 0 0)) returned_home = Some r'"
    "rt_active r' = rt_active returned_home" "rt_senders r' = rt_senders returned_home"
    using warp_echo_swallowed [of returned_home demo_host "demo_move 1919 540 0 0" demo_io] by auto
  then show ?thesis by (simp add: returned_home_def at_home_def)
qed

text \<open>
  C9. Nobody else listens: one event changes at most the sender of the endpoint whose screen was active
  before it or is active after it.
\<close>

theorem input_reaches_active_only:
  assumes "router_ok r" and "event_small e"
    and "\<And>s. active_view r = Some s \<Longrightarrow> vs_local s \<or> vs_endpoint s \<noteq> ep"
  shows "\<exists>r'. handleInputEvent io e r = Some r' \<and>
    (map_find (rt_senders r') ep = map_find (rt_senders r) ep \<or>
     (\<exists>s. active_view r' = Some s \<and> \<not> vs_local s \<and> vs_endpoint s = ep))"
  using assms(1,2)
proof (cases rule: handleInputEvent_control [where io = io])
  case (moved r0)
  then show ?thesis by (simp add: same_control_def)
next
  case (sent r0 s e')
  have "map_wf (rt_senders r0)" "rt_senders r0 = rt_senders r"
    using sent(2) router_okD(4) [OF assms(1)] by (simp_all add: same_control_def)
  then have "map_find (rt_senders (snd (queueInputForScreen io s e' r0))) ep = map_find (rt_senders r) ep"
    using assms(3) [OF sent(3)] sent(4) by (auto simp: queue_senders split: option.split)
  then show ?thesis using sent(1) by simp
next
  case (switch r0 q n t)
  have c: "store_inv (rt_store r0)" "store_findScreen (sp_key q) (rt_store r0) = Some (n, t)"
    "map_wf (rt_senders r0)" "rt_senders r0 = rt_senders r"
    using switch(2,3) router_okD(2,4) [OF assms(1)] by (simp_all add: same_control_def)
  have view: "active_view (switched io n t q r0) = Some t" by (rule active_view_switched [OF c(1,2)])
  show ?thesis
  proof (cases "vs_local t \<or> vs_endpoint t \<noteq> ep")
    case True
    have "map_find (rt_senders (switched io n t q r0)) ep = map_find (rt_senders r) ep"
      using True c(3,4) by (auto simp: switched_def Let_def queue_senders split: option.split)
    then show ?thesis using switch(1) by simp
  next
    case False
    then show ?thesis using switch(1) view by auto
  qed
next
  case (home r')
  have "rt_senders r' = rt_senders r"
    using home(2) by (auto simp: activateFirstLocal_eq [OF router_okD(2) [OF assms(1)]] split: option.splits)
  then show ?thesis using home(1) by simp
qed

theorem input_reaches_active_only_witness:
  "\<exists>r'. handleInputEvent demo_io demo_f12 at_peer = Some r' \<and>
     (map_find (rt_senders r') 9 = None \<or> (\<exists>s. active_view r' = Some s \<and> vs_endpoint s = 9))"
proof -
  have "event_small demo_f12" by (simp add: demo_f12_def)
  moreover have "\<And>s. active_view at_peer = Some s \<Longrightarrow> vs_local s \<or> vs_endpoint s \<noteq> 9"
    by (simp add: at_peer_ok(2))
  ultimately obtain r' where "handleInputEvent demo_io demo_f12 at_peer = Some r'"
    "map_find (rt_senders r') 9 = map_find (rt_senders at_peer) 9 \<or>
     (\<exists>s. active_view r' = Some s \<and> \<not> vs_local s \<and> vs_endpoint s = 9)"
    using input_reaches_active_only [OF at_peer_ok(1), of demo_f12 9 demo_io] by blast
  then show ?thesis by (auto simp: at_peer_def at_home_def)
qed

end
