(* ===== verification/Rpc_Transport.thy ===== *)
theory Rpc_Transport
  imports Core_Events
begin

text \<open>
  The messages of \<open>src/rpc/message.hpp\<close> and their framing on a byte stream, \<open>src/rpc/transport.hpp\<close>
  and \<open>src/rpc/transport.cpp\<close>: a 16-bit size, a 16-bit message mid, both big-endian, then the payload.

  \<^item> The serializers are not part of the repository: \<open>rpc_codec\<close> holds one serializer and, as the code
    instantiates the parser per alternative, one deserializer for each alternative of \<open>RpcMessage\<close>.
  \<^item> The buffered stream belongs to the network library: its operations are the record \<open>stream_ops\<close>
    over a type of stream states \<open>'s\<close>. \<open>stream_laws\<close> states what the library documents, through two
    views: the bytes written so far and the bytes not yet read.
  \<^item> A coroutine that returns \<open>IoTask\<close> is a function from the stream state to a result and a state;
    \<open>co_try\<close> is \<open>ILIAS_CO_TRY\<close>.
\<close>

section \<open>Messages\<close>

type_synonym byte = "8 word"
type_synonym bytes = "byte list"
type_synonym message_id = "16 word"

abbreviation (input) Id_Hello :: message_id where "Id_Hello \<equiv> 0"
abbreviation (input) Id_Screens :: message_id where "Id_Screens \<equiv> 1"
abbreviation (input) Id_Input :: message_id where "Id_Input \<equiv> 2"
abbreviation (input) Id_Ping :: message_id where "Id_Ping \<equiv> 3"
abbreviation (input) Id_Pong :: message_id where "Id_Pong \<equiv> 4"
abbreviation (input) Id_Error :: message_id where "Id_Error \<equiv> 0xFFFF"

record hello_message =
  hello_version :: "16 word"
  hello_machineId :: string
  hello_name :: string

datatype rpc_message =
    HelloMessage hello_message
  | ScreensMessage "screen_info list"
  | InputMessage input_event
  | PingMessage "32 word"
  | PongMessage "32 word"
  | ErrorMessage string

fun message_id_of :: "rpc_message \<Rightarrow> message_id" where
  "message_id_of (HelloMessage _) = Id_Hello"
| "message_id_of (ScreensMessage _) = Id_Screens"
| "message_id_of (InputMessage _) = Id_Input"
| "message_id_of (PingMessage _) = Id_Ping"
| "message_id_of (PongMessage _) = Id_Pong"
| "message_id_of (ErrorMessage _) = Id_Error"

datatype rpc_error = RpcOk | MessageTooLarge | UnknownMessageType | ProtocolError

datatype rpc_failure = RpcFailure rpc_error | StreamFailure nat

section \<open>Foreign interfaces\<close>

record rpc_codec =
  codec_ser :: "rpc_message \<Rightarrow> bytes option"
  codec_hello :: "bytes \<Rightarrow> hello_message option"
  codec_screens :: "bytes \<Rightarrow> screen_info list option"
  codec_input :: "bytes \<Rightarrow> input_event option"
  codec_ping :: "bytes \<Rightarrow> 32 word option"
  codec_pong :: "bytes \<Rightarrow> 32 word option"
  codec_error :: "bytes \<Rightarrow> string option"

type_synonym ('s, 'a) io_task = "'s \<Rightarrow> (rpc_failure + 'a) \<times> 's"

record 's stream_ops =
  so_writeU16Be :: "16 word \<Rightarrow> ('s, unit) io_task"
  so_writeAll :: "bytes \<Rightarrow> ('s, unit) io_task"
  so_flush :: "('s, unit) io_task"
  so_readU16Be :: "('s, 16 word) io_task"
  so_readAll :: "nat \<Rightarrow> ('s, bytes) io_task"
  so_isOpen :: "'s \<Rightarrow> bool"
  so_shutdown :: "('s, unit) io_task"
  so_close :: "'s \<Rightarrow> 's"

definition co_return :: "'a \<Rightarrow> ('s, 'a) io_task" where
  "co_return v s = (Inr v, s)"

definition co_fail :: "rpc_failure \<Rightarrow> ('s, 'a) io_task" where
  "co_fail e s = (Inl e, s)"

definition co_try :: "('s, 'a) io_task \<Rightarrow> ('a \<Rightarrow> ('s, 'b) io_task) \<Rightarrow> ('s, 'b) io_task" where
  "co_try m f s = (case m s of (Inl e, s') \<Rightarrow> (Inl e, s') | (Inr v, s') \<Rightarrow> f v s')"

section \<open>Writing and reading\<close>

definition writeHeader :: "'s stream_ops \<Rightarrow> 16 word \<Rightarrow> message_id \<Rightarrow> ('s, unit) io_task" where
  "writeHeader ops msize mid =
     co_try (so_writeU16Be ops msize) (\<lambda>_. co_try (so_writeU16Be ops mid) (\<lambda>_. co_return ()))"

definition readHeader :: "'s stream_ops \<Rightarrow> ('s, 16 word \<times> message_id) io_task" where
  "readHeader ops =
     co_try (so_readU16Be ops) (\<lambda>msize. co_try (so_readU16Be ops) (\<lambda>mid. co_return (msize, mid)))"

definition writePayload :: "'s stream_ops \<Rightarrow> rpc_codec \<Rightarrow> rpc_message \<Rightarrow> ('s, unit) io_task" where
  "writePayload ops codec message =
     (case codec_ser codec message of
        None \<Rightarrow> co_fail (RpcFailure UnknownMessageType)
      | Some buffer \<Rightarrow>
          if length buffer > 65535 then co_fail (RpcFailure MessageTooLarge)
          else co_try (writeHeader ops (word_of_nat (length buffer)) (message_id_of message))
                 (\<lambda>_. co_try (so_writeAll ops buffer) (\<lambda>_. co_return ())))"

definition writeMessage :: "'s stream_ops \<Rightarrow> rpc_codec \<Rightarrow> rpc_message \<Rightarrow> ('s, unit) io_task" where
  "writeMessage ops codec message =
     co_try (writePayload ops codec message) (\<lambda>_. co_try (so_flush ops) (\<lambda>_. co_return ()))"

definition parse_as :: "('a \<Rightarrow> rpc_message) \<Rightarrow> (bytes \<Rightarrow> 'a option) \<Rightarrow> bytes \<Rightarrow> rpc_failure + rpc_message" where
  "parse_as wrap deser buffer =
     (case deser buffer of None \<Rightarrow> Inl (RpcFailure UnknownMessageType) | Some v \<Rightarrow> Inr (wrap v))"

text \<open>The alternatives are tried in the order of the variant; the first with the id decides.\<close>

definition findById :: "rpc_codec \<Rightarrow> message_id \<Rightarrow> bytes \<Rightarrow> rpc_failure + rpc_message" where
  "findById codec targetId buffer =
     (if targetId = Id_Hello then parse_as HelloMessage (codec_hello codec) buffer
      else if targetId = Id_Screens then parse_as ScreensMessage (codec_screens codec) buffer
      else if targetId = Id_Input then parse_as InputMessage (codec_input codec) buffer
      else if targetId = Id_Ping then parse_as PingMessage (codec_ping codec) buffer
      else if targetId = Id_Pong then parse_as PongMessage (codec_pong codec) buffer
      else if targetId = Id_Error then parse_as ErrorMessage (codec_error codec) buffer
      else Inl (RpcFailure UnknownMessageType))"

definition readMessage :: "'s stream_ops \<Rightarrow> rpc_codec \<Rightarrow> ('s, rpc_message) io_task" where
  "readMessage ops codec =
     co_try (readHeader ops) (\<lambda>(msize, mid).
       co_try (so_readAll ops (unat msize)) (\<lambda>buffer s. (findById codec mid buffer, s)))"

definition transport_shutdown :: "'s stream_ops \<Rightarrow> ('s, unit) io_task" where
  "transport_shutdown ops s = (if \<not> so_isOpen ops s then (Inr (), s) else so_shutdown ops s)"

definition transport_close :: "'s stream_ops \<Rightarrow> 's \<Rightarrow> 's" where
  "transport_close ops s = (if \<not> so_isOpen ops s then s else so_close ops s)"

section \<open>What the stream library promises\<close>

definition u16_be :: "16 word \<Rightarrow> bytes" where
  "u16_be v = [ucast (drop_bit 8 v), ucast v]"

definition stream_laws :: "'s stream_ops \<Rightarrow> ('s \<Rightarrow> bytes) \<Rightarrow> ('s \<Rightarrow> bytes) \<Rightarrow> bool" where
  "stream_laws ops sent pending \<longleftrightarrow>
     (\<forall>v s s'. so_writeU16Be ops v s = (Inr (), s') \<longrightarrow> sent s' = sent s @ u16_be v \<and> pending s' = pending s) \<and>
     (\<forall>bs s s'. so_writeAll ops bs s = (Inr (), s') \<longrightarrow> sent s' = sent s @ bs \<and> pending s' = pending s) \<and>
     (\<forall>s s'. so_flush ops s = (Inr (), s') \<longrightarrow> sent s' = sent s \<and> pending s' = pending s) \<and>
     (\<forall>s v rest. pending s = u16_be v @ rest \<longrightarrow>
        (\<exists>s'. so_readU16Be ops s = (Inr v, s') \<and> pending s' = rest \<and> sent s' = sent s)) \<and>
     (\<forall>s. length (pending s) < 2 \<longrightarrow> (\<exists>e s'. so_readU16Be ops s = (Inl e, s'))) \<and>
     (\<forall>s bs rest. pending s = bs @ rest \<longrightarrow>
        (\<exists>s'. so_readAll ops (length bs) s = (Inr bs, s') \<and> pending s' = rest \<and> sent s' = sent s)) \<and>
     (\<forall>s n. length (pending s) < n \<longrightarrow> (\<exists>e s'. so_readAll ops n s = (Inl e, s')))"

definition codec_round_trip :: "rpc_codec \<Rightarrow> rpc_message \<Rightarrow> bool" where
  "codec_round_trip codec m \<longleftrightarrow>
     (case codec_ser codec m of
        None \<Rightarrow> False
      | Some payload \<Rightarrow>
          length payload \<le> 65535 \<and> findById codec (message_id_of m) payload = Inr m)"

text \<open>The bytes of one message on the wire.\<close>

definition frame :: "message_id \<Rightarrow> bytes \<Rightarrow> bytes" where
  "frame mid payload = u16_be (word_of_nat (length payload)) @ u16_be mid @ payload"

section \<open>Lemmas\<close>

lemma stream_lawsD:
  assumes "stream_laws ops sent pending"
  shows "so_writeU16Be ops v s = (Inr (), s') \<Longrightarrow> sent s' = sent s @ u16_be v \<and> pending s' = pending s"
    "so_writeAll ops bs s = (Inr (), s') \<Longrightarrow> sent s' = sent s @ bs \<and> pending s' = pending s"
    "so_flush ops s = (Inr (), s') \<Longrightarrow> sent s' = sent s \<and> pending s' = pending s"
    "pending s = u16_be v @ rest \<Longrightarrow>
       \<exists>s'. so_readU16Be ops s = (Inr v, s') \<and> pending s' = rest \<and> sent s' = sent s"
    "length (pending s) < 2 \<Longrightarrow> \<exists>e s'. so_readU16Be ops s = (Inl e, s')"
    "pending s = bs @ rest \<Longrightarrow>
       \<exists>s'. so_readAll ops (length bs) s = (Inr bs, s') \<and> pending s' = rest \<and> sent s' = sent s"
    "length (pending s) < n \<Longrightarrow> \<exists>e s'. so_readAll ops n s = (Inl e, s')"
proof -
  note L = assms [unfolded stream_laws_def]
  note L1 = L [THEN conjunct1] and R1 = L [THEN conjunct2]
  note L2 = R1 [THEN conjunct1] and R2 = R1 [THEN conjunct2]
  note L3 = R2 [THEN conjunct1] and R3 = R2 [THEN conjunct2]
  note L4 = R3 [THEN conjunct1] and R4 = R3 [THEN conjunct2]
  note L5 = R4 [THEN conjunct1] and R5 = R4 [THEN conjunct2]
  note L6 = R5 [THEN conjunct1] and L7 = R5 [THEN conjunct2]
  show "so_writeU16Be ops v s = (Inr (), s') \<Longrightarrow> sent s' = sent s @ u16_be v \<and> pending s' = pending s"
    by (rule L1 [rule_format])
  show "so_writeAll ops bs s = (Inr (), s') \<Longrightarrow> sent s' = sent s @ bs \<and> pending s' = pending s"
    by (rule L2 [rule_format])
  show "so_flush ops s = (Inr (), s') \<Longrightarrow> sent s' = sent s \<and> pending s' = pending s"
    by (rule L3 [rule_format])
  show "pending s = u16_be v @ rest \<Longrightarrow>
       \<exists>s'. so_readU16Be ops s = (Inr v, s') \<and> pending s' = rest \<and> sent s' = sent s"
    by (rule L4 [rule_format])
  show "length (pending s) < 2 \<Longrightarrow> \<exists>e s'. so_readU16Be ops s = (Inl e, s')"
    by (rule L5 [rule_format])
  show "pending s = bs @ rest \<Longrightarrow>
       \<exists>s'. so_readAll ops (length bs) s = (Inr bs, s') \<and> pending s' = rest \<and> sent s' = sent s"
    by (rule L6 [rule_format])
  show "length (pending s) < n \<Longrightarrow> \<exists>e s'. so_readAll ops n s = (Inl e, s')"
    by (rule L7 [rule_format])
qed

lemma co_try_Inr:
  assumes "co_try m f s = (Inr v, s')"
  obtains u s1 where "m s = (Inr u, s1)" "f u s1 = (Inr v, s')"
  using assms by (auto simp: co_try_def split: prod.splits sum.splits)

lemma unat_size: "length payload \<le> 65535 \<Longrightarrow> unat (word_of_nat (length payload) :: 16 word) = length payload"
  by (simp add: unsigned_of_nat take_bit_nat_eq_self)

lemma readHeader_frame:
  assumes laws: "stream_laws ops sent pending" and p: "pending s = u16_be msize @ u16_be mid @ rest"
  obtains s' where "readHeader ops s = (Inr (msize, mid), s')" "pending s' = rest" "sent s' = sent s"
proof -
  obtain s1 where s1: "so_readU16Be ops s = (Inr msize, s1)" "pending s1 = u16_be mid @ rest" "sent s1 = sent s"
    using stream_lawsD(4) [OF laws p] by auto
  obtain s2 where s2: "so_readU16Be ops s1 = (Inr mid, s2)" "pending s2 = rest" "sent s2 = sent s1"
    using stream_lawsD(4) [OF laws s1(2)] by auto
  have "readHeader ops s = (Inr (msize, mid), s2)"
    by (simp add: readHeader_def co_try_def co_return_def s1(1) s2(1))
  with s1 s2 that show ?thesis by simp
qed

text \<open>A complete frame is consumed whole, whatever its id; the id and the payload decide the result.\<close>

lemma readMessage_frame:
  assumes laws: "stream_laws ops sent pending" and p: "pending s = frame mid payload @ rest"
    and size: "length payload \<le> 65535"
  obtains s' where "readMessage ops codec s = (findById codec mid payload, s')" "pending s' = rest" "sent s' = sent s"
proof -
  have "pending s = u16_be (word_of_nat (length payload)) @ u16_be mid @ payload @ rest"
    using p by (simp add: frame_def)
  then obtain s1 where s1: "readHeader ops s = (Inr (word_of_nat (length payload), mid), s1)"
    "pending s1 = payload @ rest" "sent s1 = sent s"
    by (rule readHeader_frame [OF laws])
  obtain s2 where s2: "so_readAll ops (length payload) s1 = (Inr payload, s2)" "pending s2 = rest" "sent s2 = sent s1"
    using stream_lawsD(6) [OF laws s1(2)] by auto
  have "readMessage ops codec s = (findById codec mid payload, s2)"
    by (simp add: readMessage_def co_try_def unat_size [OF size] s1(1) s2(1))
  with s1 s2 that show ?thesis by simp
qed

lemma writeMessage_success:
  assumes laws: "stream_laws ops sent pending" and w: "writeMessage ops codec m s = (Inr (), s')"
  obtains payload where "codec_ser codec m = Some payload" "length payload \<le> 65535"
    "sent s' = sent s @ frame (message_id_of m) payload" "pending s' = pending s"
proof -
  obtain u s1 where p: "writePayload ops codec m s = (Inr u, s1)"
    and "co_try (so_flush ops) (\<lambda>_. co_return ()) s1 = (Inr (), s')"
    using w unfolding writeMessage_def by (rule co_try_Inr)
  then obtain u2 s2 where f: "so_flush ops s1 = (Inr u2, s2)" "s' = s2"
    by (elim co_try_Inr) (simp add: co_return_def)
  obtain payload where payload: "codec_ser codec m = Some payload" "length payload \<le> 65535"
    using p by (auto simp: writePayload_def co_fail_def split: option.splits if_splits)
  with p have "co_try (writeHeader ops (word_of_nat (length payload)) (message_id_of m))
      (\<lambda>_. co_try (so_writeAll ops payload) (\<lambda>_. co_return ())) s = (Inr u, s1)"
    by (simp add: writePayload_def)
  then obtain h s3 where h: "writeHeader ops (word_of_nat (length payload)) (message_id_of m) s = (Inr h, s3)"
    and "co_try (so_writeAll ops payload) (\<lambda>_. co_return ()) s3 = (Inr u, s1)"
    by (rule co_try_Inr)
  then obtain b where b: "so_writeAll ops payload s3 = (Inr b, s1)"
    by (elim co_try_Inr) (simp add: co_return_def)
  obtain a s4 where a: "so_writeU16Be ops (word_of_nat (length payload)) s = (Inr a, s4)"
    and "co_try (so_writeU16Be ops (message_id_of m)) (\<lambda>_. co_return ()) s4 = (Inr h, s3)"
    using h unfolding writeHeader_def by (rule co_try_Inr)
  then obtain c where c: "so_writeU16Be ops (message_id_of m) s4 = (Inr c, s3)"
    by (elim co_try_Inr) (simp add: co_return_def)
  note D = stream_lawsD [OF laws]
  have "sent s4 = sent s @ u16_be (word_of_nat (length payload)) \<and> pending s4 = pending s"
    using D(1) [of _ s s4] a by simp
  moreover have "sent s3 = sent s4 @ u16_be (message_id_of m) \<and> pending s3 = pending s4"
    using D(1) [of _ s4 s3] c by simp
  moreover have "sent s1 = sent s3 @ payload \<and> pending s1 = pending s3" using D(2) [of _ s3 s1] b by simp
  moreover have "sent s2 = sent s1 \<and> pending s2 = pending s1" using D(3) [of s1 s2] f by simp
  ultimately show ?thesis using payload f(2) that by (simp add: frame_def)
qed

lemma readMessage_cut:
  assumes laws: "stream_laws ops sent pending" and p: "pending s = bs" "bs @ missing = frame mid payload"
    and missing: "missing \<noteq> []" and size: "length payload \<le> 65535"
  shows "\<exists>e s'. readMessage ops codec s = (Inl e, s')"
proof -
  note D = stream_lawsD [OF laws]
  have len: "length bs < 4 + length payload"
    using arg_cong [OF p(2), of length] missing by (cases missing) (simp_all add: frame_def u16_be_def)
  consider (none) "length bs < 2" | (one) "2 \<le> length bs" "length bs < 4" | (two) "4 \<le> length bs" by linarith
  then show ?thesis
  proof cases
    case none
    obtain e s' where "so_readU16Be ops s = (Inl e, s')" using D(5) [of s] none p(1) by auto
    then show ?thesis by (auto simp: readMessage_def readHeader_def co_try_def)
  next
    case one
    let ?n = "word_of_nat (length payload) :: 16 word"
    obtain rest where rest: "bs = u16_be ?n @ rest" "length rest < 2"
    proof -
      have "bs = take 2 bs @ drop 2 bs" by simp
      moreover have "take 2 bs = u16_be ?n"
      proof -
        have "take 2 bs = take 2 (frame mid payload)" using one by (simp flip: p(2))
        then show ?thesis by (simp add: frame_def u16_be_def)
      qed
      ultimately show ?thesis using that [of "drop 2 bs"] one by simp
    qed
    obtain s1 where s1: "so_readU16Be ops s = (Inr ?n, s1)" "pending s1 = rest"
      using D(4) [of s ?n rest] rest(1) p(1) by auto
    obtain e s2 where "so_readU16Be ops s1 = (Inl e, s2)" using D(5) [of s1] s1(2) rest(2) by auto
    with s1 show ?thesis by (auto simp: readMessage_def readHeader_def co_try_def)
  next
    case two
    let ?n = "word_of_nat (length payload) :: 16 word"
    obtain rest where rest: "bs = u16_be ?n @ u16_be mid @ rest" "length rest < length payload"
    proof -
      have "bs = take 4 bs @ drop 4 bs" by simp
      moreover have "take 4 bs = u16_be ?n @ u16_be mid"
      proof -
        have "take 4 bs = take 4 (frame mid payload)" using two by (simp flip: p(2))
        then show ?thesis by (simp add: frame_def u16_be_def)
      qed
      ultimately show ?thesis using that [of "drop 4 bs"] two len by simp
    qed
    obtain s1 where s1: "readHeader ops s = (Inr (?n, mid), s1)" "pending s1 = rest"
      using readHeader_frame [OF laws, of s ?n mid rest] rest(1) p(1) by auto
    obtain e s2 where "so_readAll ops (length payload) s1 = (Inl e, s2)"
      using D(7) [of s1 "length payload"] s1(2) rest(2) by auto
    with s1 show ?thesis by (auto simp: readMessage_def co_try_def unat_size [OF size])
  qed
qed

section \<open>Properties\<close>

text \<open>A connection held in memory, for the witnesses: bytes written and bytes not yet read.\<close>

definition mem_ops :: "(bytes \<times> bytes) stream_ops" where
  "mem_ops = \<lparr>so_writeU16Be = \<lambda>v (out, inp). (Inr (), (out @ u16_be v, inp)),
     so_writeAll = \<lambda>bs (out, inp). (Inr (), (out @ bs, inp)),
     so_flush = \<lambda>s. (Inr (), s),
     so_readU16Be = \<lambda>(out, inp). (case inp of
         a # b # rest \<Rightarrow> (Inr (256 * ucast a + ucast b), (out, rest))
       | _ \<Rightarrow> (Inl (StreamFailure 1), (out, []))),
     so_readAll = \<lambda>n (out, inp).
       if n \<le> length inp then (Inr (take n inp), (out, drop n inp)) else (Inl (StreamFailure 1), (out, [])),
     so_isOpen = \<lambda>_. True, so_shutdown = \<lambda>s. (Inr (), s), so_close = \<lambda>s. s\<rparr>"

lemma u16_be_back: "256 * ucast (ucast (drop_bit 8 v) :: byte) + ucast (ucast v :: byte) = v"
  for v :: "16 word"
proof -
  have v: "unat v < 65536" using unsigned_less [of v] by simp
  have "unat (ucast (drop_bit 8 v) :: byte) = unat v div 256" "unat (ucast v :: byte) = unat v mod 256"
    using v by (simp_all add: unsigned_ucast_eq take_bit_nat_def unsigned_drop_bit_eq drop_bit_nat_def less_mult_imp_div_less)
  then have "256 * unat (ucast (drop_bit 8 v) :: byte) + unat (ucast v :: byte) = unat v" by simp
  then have "word_of_nat (256 * unat (ucast (drop_bit 8 v) :: byte) + unat (ucast v :: byte)) = v" by simp
  then show ?thesis by simp
qed

lemma mem_laws: "stream_laws mem_ops fst snd"
  unfolding stream_laws_def
proof (intro conjI allI impI)
  fix s :: "bytes \<times> bytes" and v rest
  assume "snd s = u16_be v @ rest"
  then show "\<exists>s'. so_readU16Be mem_ops s = (Inr v, s') \<and> snd s' = rest \<and> fst s' = fst s"
    by (cases s) (simp add: mem_ops_def u16_be_def u16_be_back)
next
  fix s :: "bytes \<times> bytes"
  assume "length (snd s) < 2"
  then show "\<exists>e s'. so_readU16Be mem_ops s = (Inl e, s')"
    by (cases s) (auto simp: mem_ops_def split: list.splits)
qed (auto simp: mem_ops_def)

definition demo_codec :: rpc_codec where
  "demo_codec = \<lparr>codec_ser = \<lambda>m. (case m of PingMessage w \<Rightarrow> Some [ucast w] | PongMessage w \<Rightarrow> Some [] | _ \<Rightarrow> None),
     codec_hello = \<lambda>_. None, codec_screens = \<lambda>_. None, codec_input = \<lambda>_. None,
     codec_ping = \<lambda>bs. (case bs of [b] \<Rightarrow> Some (ucast b) | _ \<Rightarrow> None),
     codec_pong = \<lambda>bs. (if bs = [] then Some 0 else None), codec_error = \<lambda>_. None\<rparr>"

lemma demo_round_trips: "codec_round_trip demo_codec (PingMessage 7)" "codec_round_trip demo_codec (PongMessage 0)"
  by (simp_all add: codec_round_trip_def demo_codec_def findById_def parse_as_def)

text \<open>
  Writing a message either puts exactly its frame on the wire (the size of the payload and the id as
  big-endian 16-bit numbers, then the payload), or reports a message that cannot be serialized or does
  not fit into 16 bits before a single byte is written, or passes on a failure of the stream.
\<close>

theorem writeMessage_exact:
  assumes "stream_laws ops sent pending"
  shows "case writeMessage ops codec m s of
      (Inr _, s') \<Rightarrow> \<exists>payload. codec_ser codec m = Some payload \<and> length payload \<le> 65535 \<and>
        sent s' = sent s @ frame (message_id_of m) payload \<and> pending s' = pending s
    | (Inl e, s') \<Rightarrow>
        (codec_ser codec m = None \<longrightarrow> e = RpcFailure UnknownMessageType \<and> s' = s) \<and>
        (\<forall>payload. codec_ser codec m = Some payload \<and> 65535 < length payload \<longrightarrow>
           e = RpcFailure MessageTooLarge \<and> s' = s)"
proof (cases "writeMessage ops codec m s")
  case (Pair r s')
  show ?thesis
  proof (cases r)
    case (Inl e)
    have "e = RpcFailure UnknownMessageType \<and> s' = s" if "codec_ser codec m = None"
      using Pair Inl that by (simp add: writeMessage_def writePayload_def co_try_def co_fail_def)
    moreover have "e = RpcFailure MessageTooLarge \<and> s' = s"
      if "codec_ser codec m = Some payload" "65535 < length payload" for payload
      using Pair Inl that by (simp add: writeMessage_def writePayload_def co_try_def co_fail_def)
    ultimately show ?thesis using Pair Inl by auto
  next
    case (Inr u)
    then have "writeMessage ops codec m s = (Inr (), s')" using Pair by simp
    then obtain payload where "codec_ser codec m = Some payload" "length payload \<le> 65535"
      "sent s' = sent s @ frame (message_id_of m) payload" "pending s' = pending s"
      by (rule writeMessage_success [OF assms])
    then show ?thesis using Pair Inr by simp
  qed
qed

theorem writeMessage_exact_witness:
  "\<exists>s'. writeMessage mem_ops demo_codec (PingMessage 7) ([], []) = (Inr (), s') \<and> fst s' = [0, 1, 0, 3, 7]"
proof -
  have "writeMessage mem_ops demo_codec (PingMessage 7) ([], []) = (Inr (), [0, 1, 0, 3, 7], [])"
    by (simp add: writeMessage_def writePayload_def demo_codec_def mem_ops_def co_try_def co_return_def
          writeHeader_def u16_be_def)
  then show ?thesis
    using writeMessage_exact [OF mem_laws, of demo_codec "PingMessage 7" "([], [])"] by simp
qed

fun readMessages :: "'s stream_ops \<Rightarrow> rpc_codec \<Rightarrow> nat \<Rightarrow> ('s, rpc_message list) io_task" where
  "readMessages ops codec 0 = co_return []"
| "readMessages ops codec (Suc n) =
     co_try (readMessage ops codec) (\<lambda>m. co_try (readMessages ops codec n) (\<lambda>ms. co_return (m # ms)))"

definition frame_of :: "rpc_codec \<Rightarrow> rpc_message \<Rightarrow> bytes" where
  "frame_of codec m = (case codec_ser codec m of None \<Rightarrow> [] | Some payload \<Rightarrow> frame (message_id_of m) payload)"



text \<open>
  A connection that ends inside a frame never yields a message: whatever proper prefix of a frame has
  arrived, inside the header or the payload, reading fails.
\<close>

theorem truncated_frame_rejected:
  assumes "stream_laws ops sent pending" and "pending s @ missing = frame mid payload"
    and "missing \<noteq> []" and "length payload \<le> 65535"
  shows "\<exists>e s'. readMessage ops codec s = (Inl e, s')"
  by (rule readMessage_cut [OF assms(1) refl assms(2-4)])

theorem truncated_frame_rejected_witness:
  "\<exists>e s'. readMessage mem_ops demo_codec ([], [0, 1, 0, 3]) = (Inl e, s')"
proof -
  have "snd ([], [0, 1, 0, 3]) @ [7] = frame 3 [7]" by (simp add: frame_def u16_be_def)
  from truncated_frame_rejected [OF mem_laws this] show ?thesis by simp
qed

text \<open>
  A frame with an id that no message has is rejected but consumed whole, so the reader is at the start
  of the next frame.
\<close>

theorem unknown_message_consumed:
  assumes "stream_laws ops sent pending" and "pending s = frame mid payload @ rest"
    and "length payload \<le> 65535" and "mid \<notin> {Id_Hello, Id_Screens, Id_Input, Id_Ping, Id_Pong, Id_Error}"
  shows "\<exists>s'. readMessage ops codec s = (Inl (RpcFailure UnknownMessageType), s') \<and> pending s' = rest"
proof -
  have "findById codec mid payload = Inl (RpcFailure UnknownMessageType)"
    using assms(4) by (simp add: findById_def)
  with readMessage_frame [OF assms(1-3), of codec] show ?thesis by metis
qed

theorem unknown_message_consumed_witness:
  "\<exists>s'. readMessage mem_ops demo_codec ([], [0, 1, 0, 77, 5, 0, 0]) = (Inl (RpcFailure UnknownMessageType), s') \<and>
     snd s' = [0, 0]"
proof -
  have "snd ([], [0, 1, 0, 77, 5, 0, 0]) = frame 77 [5] @ ([0, 0] :: bytes)" by (simp add: frame_def u16_be_def)
  from unknown_message_consumed [OF mem_laws this] show ?thesis by simp
qed

end
