(* ===== verification/Server_App.thy ===== *)
theory Server_App
  imports Input_Router Rpc_Transport
begin

text \<open>
  The server process: \<open>src/app/server.hpp\<close>, \<open>src/app/server.cpp\<close>, \<open>src/app/server_session.hpp\<close> and
  \<open>src/app/server_session.cpp\<close>. It owns the screen store, the senders and the input router, and runs
  one session per accepted connection.

  \<^item> \<open>server_registerScreens\<close> and \<open>removeEndpointScreens\<close> coordinate store and router so that the
    active screen never dangles; \<open>onScreens\<close> and \<open>onClosed\<close> are the callbacks a session gets.
  \<^item> \<open>handshake\<close>, \<open>session_message\<close> and \<open>publish_sender\<close> are the parts of a session between two
    suspension points of its coroutines. All coroutines run on one thread, so a run of the server is an
    interleaving of such parts: \<open>server_exec\<close> executes one action, \<open>server_reach\<close> collects the states
    that a sequence of enabled actions reaches.
  \<^item> Sockets, tasks and channels are foreign: what a read yields is part of the action.
\<close>

section \<open>Coordination of store and router\<close>

definition server_registerScreens_owner ::
  "'ep::linorder store_env \<Rightarrow> ('cap, 'snd) router_io \<Rightarrow> 'ep \<Rightarrow> string \<Rightarrow> screen_info list \<Rightarrow> bool \<Rightarrow>
     ('ep, 'cap, 'snd) router \<Rightarrow> ('ep, 'cap, 'snd) router ub" where
  "server_registerScreens_owner env io ep ownerId infos local r =
     (let (removed, store) = removeScreen ep (rt_active r) (rt_store r);
          r1 = r\<lparr>rt_store := store\<rparr>
      in do {
        r2 \<leftarrow> (if removed then clearActiveState io r1 else Some r1);
        store2 \<leftarrow> registerScreens_owner env ep ownerId infos local (rt_store r2);
        ensureActiveLocalScreen io local (r2\<lparr>rt_store := store2\<rparr>)
      })"

definition server_registerScreens ::
  "'ep::linorder store_env \<Rightarrow> ('cap, 'snd) router_io \<Rightarrow> 'ep \<Rightarrow> screen_info list \<Rightarrow> bool \<Rightarrow>
     ('ep, 'cap, 'snd) router \<Rightarrow> ('ep, 'cap, 'snd) router ub" where
  "server_registerScreens env io ep infos local r =
     server_registerScreens_owner env io ep (defaultOwnerId env ep local (rt_store r)) infos local r"

definition removeEndpointScreens ::
  "('cap, 'snd) router_io \<Rightarrow> 'ep::linorder \<Rightarrow> ('ep, 'cap, 'snd) router \<Rightarrow> ('ep, 'cap, 'snd) router ub" where
  "removeEndpointScreens io ep r =
     (let (removed, store) = removeScreen ep (rt_active r) (rt_store r);
          r1 = r\<lparr>rt_store := store\<rparr>
      in if removed then do { r2 \<leftarrow> clearActiveState io r1; ensureActiveLocalScreen io False r2 }
         else Some r1)"

section \<open>Sessions\<close>

record session =
  ss_machineId :: string
  ss_ownerId :: string
  ss_name :: string

definition isClientTrusted :: "hello_message \<Rightarrow> 'ep screen_store \<Rightarrow> bool" where
  "isClientTrusted hello store = isTrustedClient (st_config store) (hello_machineId hello) (hello_name hello)"

definition handshake ::
  "'ep::linorder store_env \<Rightarrow> 'ep \<Rightarrow> rpc_failure + rpc_message \<Rightarrow> ('ep, 'cap, 'snd) router \<Rightarrow>
     (rpc_failure + session) \<times> ('ep, 'cap, 'snd) router" where
  "handshake env ep received r =
     (case received of
        Inl e \<Rightarrow> (Inl e, r)
      | Inr (HelloMessage hello) \<Rightarrow>
          (let owner = (if hello_machineId hello = [] then ownerIdFromEndpoint env ep else hello_machineId hello);
               r1 = r\<lparr>rt_store := rememberOwner ep owner (rt_store r)\<rparr>
           in if \<not> isClientTrusted hello (rt_store r1) then (Inl (RpcFailure ProtocolError), r1)
              else (Inr \<lparr>ss_machineId = hello_machineId hello, ss_ownerId = owner, ss_name = hello_name hello\<rparr>, r1))
      | Inr _ \<Rightarrow> (Inl (RpcFailure ProtocolError), r))"

definition onScreens ::
  "'ep::linorder store_env \<Rightarrow> ('cap, 'snd) router_io \<Rightarrow> 'ep \<Rightarrow> string \<Rightarrow> screen_info list \<Rightarrow>
     ('ep, 'cap, 'snd) router \<Rightarrow> ('ep, 'cap, 'snd) router ub" where
  "onScreens env io ep ownerId infos r = server_registerScreens_owner env io ep ownerId infos False r"

definition onClosed ::
  "('cap, 'snd) router_io \<Rightarrow> 'ep::linorder \<Rightarrow> ('ep, 'cap, 'snd) router \<Rightarrow> ('ep, 'cap, 'snd) router ub" where
  "onClosed io ep r =
     do {
       r1 \<leftarrow> removeEndpointScreens io ep r;
       Some (r1\<lparr>rt_senders := map_erase ep (rt_senders r1), rt_store := forgetOwner ep (rt_store r1)\<rparr>)
     }"

text \<open>One message in the read loop: only a screens message has an effect.\<close>

definition session_message ::
  "'ep::linorder store_env \<Rightarrow> ('cap, 'snd) router_io \<Rightarrow> 'ep \<Rightarrow> session \<Rightarrow> rpc_message \<Rightarrow>
     ('ep, 'cap, 'snd) router \<Rightarrow> ('ep, 'cap, 'snd) router ub" where
  "session_message env io ep session msg r =
     (case msg of
        ScreensMessage infos \<Rightarrow> onScreens env io ep (ss_ownerId session) infos r
      | _ \<Rightarrow> Some r)"

text \<open>The start of the write loop publishes the sender of a new channel.\<close>

definition publish_sender :: "'ep::linorder \<Rightarrow> 'snd \<Rightarrow> ('ep, 'cap, 'snd) router \<Rightarrow> ('ep, 'cap, 'snd) router" where
  "publish_sender ep sender r = r\<lparr>rt_senders := map_assign ep sender (rt_senders r)\<rparr>"

section \<open>The process\<close>

datatype server_failure = ServerSystem nat | OperationNotSupported

text \<open>
  The part of \<open>Server::run\<close> before the two loops: \<open>bound\<close> is the outcome of bind and
  \<open>localEndpoint\<close>, \<open>capture\<close> what the platform creates, \<open>initialized\<close> the outcome of its initialization.
\<close>

definition server_start ::
  "'ep::linorder store_env \<Rightarrow> ('cap, 'snd) router_io \<Rightarrow> nat + 'ep \<Rightarrow> 'cap option \<Rightarrow> ('cap \<Rightarrow> nat + 'cap) \<Rightarrow>
     screen_info list \<Rightarrow> ('ep, 'cap, 'snd) router \<Rightarrow> (server_failure + ('ep, 'cap, 'snd) router) ub" where
  "server_start env io bound capture initialize infos r =
     (case bound of
        Inl errno \<Rightarrow> Some (Inl (ServerSystem errno))
      | Inr ep \<Rightarrow>
          (case capture of
             None \<Rightarrow> Some (Inl OperationNotSupported)
           | Some c \<Rightarrow>
               (case initialize c of
                  Inl errno \<Rightarrow> Some (Inl (ServerSystem errno))
                | Inr c' \<Rightarrow> do {
                    r1 \<leftarrow> setCapture io (Some c') r;
                    r2 \<leftarrow> server_registerScreens env io ep infos True r1;
                    Some (Inr r2)
                  })))"

definition server_stop ::
  "('cap, 'snd) router_io \<Rightarrow> ('ep, 'cap, 'snd) router \<Rightarrow> ('ep, 'cap, 'snd) router ub" where
  "server_stop io r = setCapture io None r"

datatype connection = AwaitHello | Serving session

record ('ep, 'cap, 'snd) server =
  sv_router :: "('ep, 'cap, 'snd) router"
  sv_connections :: "('ep, connection) std_map"

datatype ('ep, 'snd) server_action =
    Accept 'ep
  | Receive 'ep "rpc_failure + rpc_message"
  | Publish 'ep 'snd
  | Disconnect 'ep
  | Captured input_event

definition close_connection ::
  "('cap, 'snd) router_io \<Rightarrow> 'ep::linorder \<Rightarrow> ('ep, 'cap, 'snd) server \<Rightarrow> ('ep, 'cap, 'snd) server ub" where
  "close_connection io ep sv =
     do {
       r \<leftarrow> onClosed io ep (sv_router sv);
       Some \<lparr>sv_router = r, sv_connections = map_erase ep (sv_connections sv)\<rparr>
     }"

definition handleIncoming_message ::
  "'ep::linorder store_env \<Rightarrow> ('cap, 'snd) router_io \<Rightarrow> 'ep \<Rightarrow> rpc_failure + rpc_message \<Rightarrow>
     ('ep, 'cap, 'snd) server \<Rightarrow> ('ep, 'cap, 'snd) server ub" where
  "handleIncoming_message env io ep received sv =
     (case map_find (sv_connections sv) ep of
        None \<Rightarrow> Some sv
      | Some AwaitHello \<Rightarrow>
          (case handshake env ep received (sv_router sv) of
             (Inl e, r) \<Rightarrow> close_connection io ep (sv\<lparr>sv_router := r\<rparr>)
           | (Inr session, r) \<Rightarrow>
               Some \<lparr>sv_router = r, sv_connections = map_assign ep (Serving session) (sv_connections sv)\<rparr>)
      | Some (Serving session) \<Rightarrow>
          (case received of
             Inl e \<Rightarrow> close_connection io ep sv
           | Inr msg \<Rightarrow> do {
               r \<leftarrow> session_message env io ep session msg (sv_router sv);
               Some (sv\<lparr>sv_router := r\<rparr>)
             }))"

fun server_exec ::
  "'ep::linorder store_env \<Rightarrow> ('cap, 'snd) router_io \<Rightarrow> ('ep, 'snd) server_action \<Rightarrow>
     ('ep, 'cap, 'snd) server \<Rightarrow> ('ep, 'cap, 'snd) server ub" where
  "server_exec env io (Accept ep) sv = Some (sv\<lparr>sv_connections := map_assign ep AwaitHello (sv_connections sv)\<rparr>)"
| "server_exec env io (Receive ep received) sv = handleIncoming_message env io ep received sv"
| "server_exec env io (Publish ep sender) sv = Some (sv\<lparr>sv_router := publish_sender ep sender (sv_router sv)\<rparr>)"
| "server_exec env io (Disconnect ep) sv = close_connection io ep sv"
| "server_exec env io (Captured event) sv =
     do { r \<leftarrow> handleInputEvent io event (sv_router sv); Some (sv\<lparr>sv_router := r\<rparr>) }"

section \<open>The store keeps what the router needs\<close>

definition info_ok :: "screen_info \<Rightarrow> bool" where
  "info_ok info \<longleftrightarrow> screen_info_typed info \<and> small (si_width info) \<and> small (si_height info)"

definition config_inner :: "app_config \<Rightarrow> bool" where
  "config_inner config \<longleftrightarrow> (\<forall>l \<in> set (cfg_screens config). cell_inner (sl_cell l))"

definition store_good :: "'ep::linorder screen_store \<Rightarrow> bool" where
  "store_good st \<longleftrightarrow> store_inv st \<and> layout_small (st_topology st) \<and>
     (\<forall>(n, s) \<in> set (nodes st). info_ok (vs_info s)) \<and> config_inner (st_config st)"

lemma store_goodD:
  assumes "store_good st"
  shows "store_inv st" "layout_small (st_topology st)" "config_inner (st_config st)"
    "(n, s) \<in> set (nodes st) \<Longrightarrow> info_ok (vs_info s)"
  using assms by (auto simp: store_good_def)

lemma cell_inner_iff:
  "cell_inner c \<longleftrightarrow> in_i32 (cell_x c - 1) \<and> in_i32 (cell_x c + 1) \<and> in_i32 (cell_y c - 1) \<and> in_i32 (cell_y c + 1)"
proof -
  have all: "(\<forall>e. P e) \<longleftrightarrow> P Edge_Left \<and> P Edge_Right \<and> P Edge_Top \<and> P Edge_Bottom" for P
    by (metis edge.exhaust)
  show ?thesis unfolding cell_inner_def all by (auto simp: i32_def split: if_splits)
qed

lemma cell_inner_typed: "cell_inner c \<Longrightarrow> cell_typed c"
  by (simp add: cell_inner_iff cell_typed_def in_i32_def)

lemma configuredCell_inner: "config_inner (st_config st) \<Longrightarrow> configuredCell st key = Some cell \<Longrightarrow> cell_inner cell"
  by (auto simp: config_inner_def configuredCell_def findScreenLayout_def dest: find_SomeD)

lemma set_upsert_layout: "set (upsert_layout layout ls) \<subseteq> insert layout (set ls)"
  by (induction layout ls rule: upsert_layout.induct) auto

lemma config_inner_upsert: "config_inner config \<Longrightarrow> cell_inner (sl_cell layout) \<Longrightarrow> config_inner (upsertScreenLayout layout config)"
  using set_upsert_layout [of layout "cfg_screens config"] by (auto simp: config_inner_def upsertScreenLayout_def)

lemma nextFreeCell_inner:
  assumes "few_screens st 1"
  obtains cell where "nextFreeCell st 1 = Some cell" "cell_inner cell"
proof -
  have small: "in_i32 1" "1 + int (length (map ts_cell (topologyScreens st))) \<le> 2147483647"
    using assms by (simp_all add: few_screens_def in_i32_def)
  obtain y where y: "nextFreeX (map ts_cell (topologyScreens st)) 1 = Some y"
    "y \<le> 1 + int (length (map ts_cell (topologyScreens st)))"
    by (rule nextFreeX_small [OF small])
  have "1 \<le> y" using nextFreeX_Some [OF y(1)] by simp
  then have "cell_inner (GridPosition y 0)"
    using y(2) assms by (simp add: cell_inner_iff few_screens_def in_i32_def)
  with y(1) that show ?thesis by (simp add: nextFreeCell_def)
qed

lemma placeScreen_inner:
  assumes "few_screens st 1" "config_inner (st_config st)"
  obtains cell reg where "placeScreen local primaryIndex index registered key info st = Some (cell, reg)" "cell_inner cell"
proof -
  obtain free where free: "nextFreeCell st 1 = Some free" "cell_inner free"
    using assms(1) by (rule nextFreeCell_inner)
  have zero: "cell_inner (GridPosition 0 0)" by (simp add: cell_inner_iff)
  show ?thesis
  proof (cases "configuredCell st key")
    case None
    then have "\<exists>cell reg. placeScreen local primaryIndex index registered key info st = Some (cell, reg) \<and> cell_inner cell"
      using free zero
      by (cases "local \<and> si_primary info \<and> \<not> registered"; cases "local \<and> index = primaryIndex \<and> \<not> registered")
         (auto simp: placeScreen_def)
    with that show ?thesis by blast
  next
    case (Some cell)
    note inner = configuredCell_inner [OF assms(2) Some]
    show ?thesis
    proof (cases "cell \<in> occupied st")
      case True
      with Some free that show ?thesis by (simp add: placeScreen_def list_ex_occupied)
    next
      case False
      with Some inner that show ?thesis by (simp add: placeScreen_def list_ex_occupied)
    qed
  qed
qed

lemma store_addScreen_good:
  assumes good: "store_good st" and info: "info_ok info" and cell: "cell_inner cell"
  shows "store_good (snd (store_addScreen env ep key cell info local st))"
proof (cases rule: store_addScreen_cases [of ep key cell info local st env])
  case (failed e)
  then show ?thesis using good by simp
next
  case (added t st')
  note G = store_goodD [OF good]
  note find = addScreen_find(1) [OF store_invD(1) [OF G(1)] added(1)]
  have "layout_small t"
    using G(2) info cell cell_inner_typed [OF cell]
    by (auto simp: layout_small_def topo_typed_def find info_ok_def split: if_splits)
  moreover have "store_inv st'" using store_addScreen_inv [OF G(1), of env ep key cell info local] added(2) by simp
  moreover have "config_inner (st_config st')" unfolding added(8) by (rule config_inner_upsert [OF G(3)]) (simp add: cell)
  ultimately show ?thesis
    using G(4) info by (auto simp: store_good_def added(2,3) set_nodes_emplace [OF added(7)])
qed

lemma few_screens_mono: "few_screens st m \<Longrightarrow> n \<le> m \<Longrightarrow> few_screens st n"
  by (simp add: few_screens_def)

lemma registerScreens_loop_good:
  assumes "store_good st" "few_screens st (Suc (length infos))" "\<forall>info \<in> set infos. info_ok info"
  obtains st' where
    "registerScreens_loop env ep owner local primaryIndex index registered infos st = Some st'" "store_good st'"
proof -
  have "\<exists>st'. registerScreens_loop env ep owner local primaryIndex index registered infos st = Some st' \<and> store_good st'"
    using assms
  proof (induction infos arbitrary: st index registered)
    case (Cons info infos)
    have few: "few_screens st 1" by (rule few_screens_mono [OF Cons.prems(2)]) simp
    obtain cell reg where place: "placeScreen local primaryIndex index registered (ScreenKey owner index) info st = Some (cell, reg)"
      "cell_inner cell"
      using few store_goodD(3) [OF Cons.prems(1)] by (rule placeScreen_inner)
    let ?st = "snd (store_addScreen env ep (ScreenKey owner index) cell info local st)"
    have "store_good ?st" using Cons.prems(1,3) place(2) by (intro store_addScreen_good) simp_all
    moreover have "few_screens ?st (Suc (length infos))" using Cons.prems(2) by (intro few_screens_add) simp
    ultimately have "\<exists>st'. registerScreens_loop env ep owner local primaryIndex (Suc index) reg infos ?st = Some st' \<and> store_good st'"
      using Cons.prems(3) by (intro Cons.IH) simp_all
    with place show ?case by simp
  qed simp
  with that show ?thesis by blast
qed

lemma removeScreen_good:
  assumes good: "store_good st"
  shows "store_good (snd (removeScreen ep active st))"
proof -
  note G = store_goodD [OF good]
  have "layout_small (st_topology (snd (removeScreen ep active st)))"
    using G(2) by (auto simp: layout_small_def topo_typed_def removeScreen_find [OF G(1)] split: if_splits)
  then show ?thesis
    using removeScreen_inv [OF G(1)] G(3,4)
    by (auto simp: store_good_def removeScreen_fields removeScreen_nodes [OF G(1)])
qed

lemma few_screens_remove: "few_screens st n \<Longrightarrow> few_screens (snd (removeScreen ep active st)) n"
proof -
  have one: "length (screens (removeOwner owner t)) \<le> length (screens t)" for owner t
    by (simp add: screens_def removeOwner_def removeOwner_loop_eq)
  have "length (screens (fold removeOwner owners t)) \<le> length (screens t)" for owners t
  proof (induction owners arbitrary: t)
    case (Cons owner owners)
    then show ?case using one [of owner t] le_trans by fastforce
  qed simp
  then show "few_screens st n \<Longrightarrow> few_screens (snd (removeScreen ep active st)) n"
    by (simp add: few_screens_def topologyScreens_def removeScreen_def Let_def) (meson add_le_mono1 le_less_trans)
qed

section \<open>No undefined behaviour in any run\<close>

text \<open>
  The invariant of every reachable state. It does not ask that clients use different machine ids: it is
  weaker than \<open>router_ok\<close> and still rules out dangling pointers and overflow.
\<close>

definition router_safe :: "('ep::linorder, 'cap, 'snd) router \<Rightarrow> bool" where
  "router_safe r \<longleftrightarrow> store_good (rt_store r) \<and> map_wf (rt_senders r) \<and> no_dangling r \<and>
     (\<forall>p. rt_point r = Some p \<longrightarrow> small (sp_x p) \<and> small (sp_y p)) \<and>
     (\<forall>m. rt_lastLocal r = Some m \<longrightarrow> move_small m)"

lemma router_safeD:
  assumes "router_safe r"
  shows "store_good (rt_store r)" "store_inv (rt_store r)" "layout_small (st_topology (rt_store r))"
    "map_wf (rt_senders r)" "no_dangling r"
    "rt_point r = Some p \<Longrightarrow> small (sp_x p)" "rt_point r = Some p \<Longrightarrow> small (sp_y p)"
    "rt_lastLocal r = Some m \<Longrightarrow> move_small m"
  using assms store_goodD by (auto simp: router_safe_def)

lemma no_dangling_cong:
  "rt_store r = rt_store r' \<Longrightarrow> rt_active r = rt_active r' \<Longrightarrow> no_dangling r = no_dangling r'"
  by (simp add: no_dangling_def)

lemma switched_safe:
  assumes "router_safe r" "store_findScreen (sp_key p) (rt_store r) = Some (n, s)" "small (sp_x p)" "small (sp_y p)"
  shows "router_safe (switched io n s p r)"
proof -
  note D = router_safeD [OF assms(1)]
  have "node_at (rt_store r) n = Some s"
    using store_findScreen_SomeD [OF assms(2)] by (simp add: node_at_iff [OF D(2)])
  then show ?thesis using D assms(3,4) by (simp add: router_safe_def no_dangling_def)
qed

lemma switch_safe:
  assumes "router_safe r" "small (sp_x p)" "small (sp_y p)"
  obtains r' where "switchActiveScreen io p r = Some r'" "router_safe r'" "rt_store r' = rt_store r"
proof (cases "store_findScreen (sp_key p) (rt_store r)")
  case None
  with assms(1) that show ?thesis by (simp add: switch_eq [OF router_safeD(5,2) [OF assms(1)]])
next
  case (Some node)
  obtain n s where node: "node = (n, s)" by (cases node)
  show ?thesis
    using that [of "switched io n s p r"] Some node switched_safe [OF assms(1) _ assms(2,3), of n s io]
    by (simp add: switch_eq [OF router_safeD(5,2) [OF assms(1)]])
qed

lemma crossing_small:
  assumes "router_safe r" "crossing_target (st_topology (rt_store r)) p = Some (Some q)"
  shows "small (sp_x q)" "small (sp_y q)"
proof -
  note D = router_safeD [OF assms(1)]
  note topo = store_invD(1) [OF D(2)]
  obtain e where e: "mapEntryPoint (st_topology (rt_store r)) p e = Some (Inr q)"
    using assms(2) by (rule crossing_target_SomeD)
  obtain t where t: "findScreen (st_topology (rt_store r)) (sp_key q) = Some t"
    "inside (ts_info t) (sp_x q) (sp_y q)"
    by (rule mapEntryPoint_lands [OF topo layout_smallD(1) [OF D(3)] e])
  from inside_small [OF t(2) layout_smallD(2,3) [OF D(3) t(1)]]
  show "small (sp_x q)" "small (sp_y q)" .
qed

lemma active_view_info:
  assumes "router_safe r" "active_view r = Some s"
  shows "info_ok (vs_info s)"
proof -
  obtain n where "node_at (rt_store r) n = Some s"
    using assms(2) by (auto simp: active_view_def split: option.splits)
  then show ?thesis
    using store_goodD(4) [OF router_safeD(1) [OF assms(1)]] by (simp add: node_at_iff [OF router_safeD(2) [OF assms(1)]])
qed

lemma clamp_small:
  assumes "small w"
  shows "small (std_clamp y 0 (max 0 (w - 1)))"
  using std_clamp_bounds [of 0 "max 0 (w - 1)" y] assms by (auto simp: small_def max_def split: if_splits)

lemma handleRemoteMouseMove_safe:
  assumes safe: "router_safe r" and small: "move_small m"
  obtains r' where "handleRemoteMouseMove io m r = Some r'" "router_safe r'" "rt_store r' = rt_store r"
proof -
  note D = router_safeD [OF safe]
  consider (idle) "\<not> remote_view r" | (remote) s where "active_view r = Some s" "\<not> vs_local s"
    unfolding remote_view_def by (cases "active_view r") auto
  then show ?thesis
  proof cases
    case idle
    then have "handleRemoteMouseMove io m r = Some r"
      using D(5) by (cases "active_view r") (simp_all add: handleRemoteMouseMove_def remote_view_def)
    with safe that show ?thesis by blast
  next
    case (remote s)
    define p where "p = remote_start s (rt_point r)"
    have p: "small (sp_x p)" "small (sp_y p)"
      using D(6,7) by (auto simp: p_def remote_start_def small_def split: option.splits)
    obtain dx dy where d: "remote_delta m (rt_lastLocal r) = Some (dx, dy)" "medium dx" "medium dy"
      using remote_delta_defined [OF small D(8)] by blast
    have sum: "in_i32 (sp_x p + dx)" "in_i32 (sp_y p + dy)" using p d by (simp_all add: medium_i32)
    define r1 where "r1 = r\<lparr>rt_point := Some p, rt_lastLocal := Some m\<rparr>"
    have safe1: "router_safe r1" "rt_store r1 = rt_store r"
      using safe small p by (simp_all add: router_safe_def r1_def no_dangling_def)
    show ?thesis
    proof (cases "dx = 0 \<and> dy = 0")
      case True
      have "handleRemoteMouseMove io m r = Some r1"
        using remote D(5) d(1) True by (simp add: handleRemoteMouseMove_def p_def [symmetric] r1_def)
      with safe1 that show ?thesis by blast
    next
      case False
      let ?q = "p\<lparr>sp_x := sp_x p + dx, sp_y := sp_y p + dy\<rparr>"
      obtain target where target: "crossing_target (st_topology (rt_store r)) ?q = Some target"
        using store_invD(1) [OF D(2)] D(3) by (rule crossing_target_defined)
      have info: "info_ok (vs_info s)" by (rule active_view_info [OF safe remote(1)])
      have ext: "in_i32 (si_width (vs_info s) - 1)" "in_i32 (si_height (vs_info s) - 1)"
        using info by (simp_all add: info_ok_def small_def in_i32_def)
      show ?thesis
      proof (cases target)
        case (Some q)
        have "small (sp_x q)" "small (sp_y q)" using crossing_small [OF safe] target Some by simp_all
        then obtain r' where "switchActiveScreen io q r1 = Some r'" "router_safe r'" "rt_store r' = rt_store r1"
          by (rule switch_safe [OF safe1(1)])
        moreover have "handleRemoteMouseMove io m r = switchActiveScreen io q r1"
          using remote D(5) d(1) False sum target Some
          by (auto simp: handleRemoteMouseMove_def p_def [symmetric] r1_def)
        ultimately show ?thesis using that safe1(2) by simp
      next
        case None
        let ?moved = "p\<lparr>sp_x := std_clamp (sp_x p + dx) 0 (max 0 (si_width (vs_info s) - 1)),
                        sp_y := std_clamp (sp_y p + dy) 0 (max 0 (si_height (vs_info s) - 1))\<rparr>"
        let ?r = "snd (queueInputForScreen io s (point_move ?moved) (r1\<lparr>rt_point := Some ?moved\<rparr>))"
        have "handleRemoteMouseMove io m r = Some ?r"
          using remote D(5) d(1) False sum target None ext
          by (auto simp: handleRemoteMouseMove_def p_def [symmetric] r1_def Let_def)
        moreover have "small (sp_x ?moved)" "small (sp_y ?moved)"
          using info clamp_small by (simp_all add: info_ok_def)
        then have "router_safe ?r" using safe1(1) by (simp add: router_safe_def no_dangling_def)
        ultimately show ?thesis using that safe1(2) by simp
      qed
    qed
  qed
qed

lemma handleMouseMove_safe:
  assumes safe: "router_safe r" and small: "move_small m"
  obtains r' where "handleMouseMove io m r = Some r'" "router_safe r'" "rt_store r' = rt_store r"
proof -
  note D = router_safeD [OF safe]
  consider (none) "active_view r = None" | (remote) s where "active_view r = Some s" "\<not> vs_local s"
    | (home) s where "active_view r = Some s" "vs_local s"
    by (cases "active_view r") auto
  then show ?thesis
  proof cases
    case none
    then have "handleMouseMove io m r = Some r" using D(5) by (simp add: handleMouseMove_def)
    with safe that show ?thesis by blast
  next
    case (remote s)
    have "handleMouseMove io m r = handleRemoteMouseMove io m r"
      using remote D(5) by (simp add: handleMouseMove_def)
    with handleRemoteMouseMove_safe [OF safe small, of io] that show ?thesis by metis
  next
    case (home s)
    let ?p = "\<lparr>sp_key = ScreenKey (key_ownerId (vs_key s)) (mv_screenIndex m), sp_x = mv_x m, sp_y = mv_y m\<rparr>"
    let ?r = "r\<lparr>rt_lastLocal := Some m, rt_point := Some ?p\<rparr>"
    have safe1: "router_safe ?r" "router_safe (?r\<lparr>rt_pendingWarp := None\<rparr>)"
      using safe small by (simp_all add: router_safe_def no_dangling_def move_small_def)
    show ?thesis
    proof (cases "rt_pendingWarp r = Some ?p")
      case True
      then have "handleMouseMove io m r = Some (?r\<lparr>rt_pendingWarp := None\<rparr>)"
        using home D(5) by (simp add: handleMouseMove_def suppressPendingLocalWarp_def)
      with safe1(2) that show ?thesis by simp
    next
      case False
      obtain target where target: "crossing_target (st_topology (rt_store r)) ?p = Some target"
        using store_invD(1) [OF D(2)] D(3) by (rule crossing_target_defined)
      have step: "handleMouseMove io m r = (case target of None \<Rightarrow> Some ?r | Some q \<Rightarrow> switchActiveScreen io q ?r)"
        using home D(5) False target by (simp add: handleMouseMove_def suppressPendingLocalWarp_def Let_def)
      show ?thesis
      proof (cases target)
        case None
        with step safe1(1) that show ?thesis by simp
      next
        case (Some q)
        have "small (sp_x q)" "small (sp_y q)" using crossing_small [OF safe] target Some by simp_all
        then obtain r' where "switchActiveScreen io q ?r = Some r'" "router_safe r'" "rt_store r' = rt_store ?r"
          by (rule switch_safe [OF safe1(1)])
        with step Some that show ?thesis by simp
      qed
    qed
  qed
qed

lemma activateFirstLocal_safe:
  assumes "router_safe r \<or> store_good (rt_store r) \<and> map_wf (rt_senders r)"
  obtains r' where "activateFirstLocalScreen io r = Some r'" "router_safe r'" "rt_store r' = rt_store r"
    "rt_senders r' = rt_senders r"
proof -
  have good: "store_good (rt_store r)" "map_wf (rt_senders r)"
    using assms by (auto simp: router_safe_def)
  note inv = store_goodD(1) [OF good(1)]
  show ?thesis
  proof (cases "firstLocalScreen (rt_store r)")
    case None
    let ?r = "(reset_active r)\<lparr>rt_capture := set_mode io False (rt_capture r)\<rparr>"
    have "router_safe ?r" using good by (simp add: router_safe_def reset_active_def no_dangling_def)
    with None that [of ?r] show ?thesis by (simp add: activateFirstLocal_eq [OF inv])
  next
    case (Some node)
    obtain n s where node: "node = (n, s)" by (cases node)
    let ?r = "r\<lparr>rt_active := Some n, rt_point := Some \<lparr>sp_key = vs_key s, sp_x = 0, sp_y = 0\<rparr>,
                 rt_lastLocal := None, rt_pendingWarp := None,
                 rt_capture := set_mode io False (rt_capture r)\<rparr>"
    have "router_safe ?r"
      using good firstLocal_node_at [OF inv, of n s] Some node
      by (simp add: router_safe_def no_dangling_def small_def)
    with Some node that [of ?r] show ?thesis by (simp add: activateFirstLocal_eq [OF inv])
  qed
qed

lemma handleInputEvent_safe:
  assumes safe: "router_safe r" and small: "event_small e"
  obtains r' where "handleInputEvent io e r = Some r'" "router_safe r'" "rt_store r' = rt_store r"
proof -
  note D = router_safeD [OF safe]
  have "\<exists>r'. handleInputEvent io e r = Some r' \<and> router_safe r' \<and> rt_store r' = rt_store r"
  proof (cases "is_hotkey e")
    case True
    then obtain k where k: "e = KeyEvent k" "\<not> ke_release k" "ke_key k = Key_F12"
      by (auto simp: is_hotkey_def split: input_event.splits)
    obtain r' where r': "activateFirstLocalScreen io r = Some r'" "router_safe r'" "rt_store r' = rt_store r"
      by (rule activateFirstLocal_safe [OF disjI1 [OF safe]])
    have "handleInputEvent io e r = Some (if remote_view r then r' else r)"
      using k r'(1) D(5) by (simp add: handleInputEvent_def tryHandleLocalHotkey_def)
    with r'(2,3) safe show ?thesis by simp
  next
    case False
    note hot = not_hotkey [OF False, of io r]
    show ?thesis
    proof (cases "\<exists>m. e = MouseMoveEvent m")
      case True
      then obtain m where m: "e = MouseMoveEvent m" "move_small m" using small by auto
      have "handleInputEvent io e r = (if remote_view r then handleRemoteMouseMove io m r else handleMouseMove io m r)"
        using hot D(5) m(1) by (cases "active_view r") (simp_all add: handleInputEvent_def remote_view_def)
      then show ?thesis
        using handleRemoteMouseMove_safe [OF safe m(2), of io] handleMouseMove_safe [OF safe m(2), of io]
        by (cases "remote_view r") metis+
    next
      case other: False
      obtain e' where e': "eventAtActivePoint e r = Some e'" using eventAtActivePoint_defined [OF D(5)] by blast
      show ?thesis
      proof (cases "active_view r")
        case None
        then have "handleInputEvent io e r = Some r"
          using hot D(5) other by (cases e) (simp_all add: handleInputEvent_def)
        with safe show ?thesis by blast
      next
        case (Some s)
        then have "handleInputEvent io e r = Some (if vs_local s then r else snd (queueInputForScreen io s e' r))"
          using hot D(5) other e' by (cases e) (simp_all add: handleInputEvent_def)
        moreover have "router_safe (snd (queueInputForScreen io s e' r))"
          using safe by (simp add: router_safe_def no_dangling_def)
        ultimately show ?thesis using safe by simp
      qed
    qed
  qed
  with that show ?thesis by blast
qed

subsection \<open>Registration and removal\<close>

lemma removeScreen_node_at:
  assumes "store_inv st"
  shows "node_at (snd (removeScreen ep active st)) n = Some s \<longleftrightarrow> node_at st n = Some s \<and> vs_endpoint s \<noteq> ep"
  by (simp add: node_at_iff [OF assms] node_at_iff [OF removeScreen_inv [OF assms]] removeScreen_nodes [OF assms])

lemma remove_and_clear_safe:
  assumes safe: "router_safe r" and rem: "removeScreen ep (rt_active r) (rt_store r) = (removed, st)"
  obtains r2 where
    "(if removed then clearActiveState io (r\<lparr>rt_store := st\<rparr>) else Some (r\<lparr>rt_store := st\<rparr>)) = Some r2"
    "router_safe r2" "rt_store r2 = st" "rt_senders r2 = rt_senders r" "removed \<longrightarrow> rt_active r2 = None"
proof -
  note D = router_safeD [OF safe]
  have st: "st = snd (removeScreen ep (rt_active r) (rt_store r))" "removed = fst (removeScreen ep (rt_active r) (rt_store r))"
    by (simp_all add: rem)
  have good: "store_good st" unfolding st by (rule removeScreen_good [OF D(1)])
  show ?thesis
  proof (cases removed)
    case True
    let ?r = "(reset_active (r\<lparr>rt_store := st\<rparr>))\<lparr>rt_capture := set_mode io False (rt_capture r)\<rparr>"
    have "router_safe ?r" using good D(4) by (simp add: router_safe_def reset_active_def no_dangling_def)
    with True that [of ?r] show ?thesis by (simp add: clearActiveState_eq) (simp add: reset_active_def)
  next
    case False
    have "node_at st n \<noteq> None" if n: "rt_active r = Some n" for n
    proof -
      obtain s where s: "node_at (rt_store r) n = Some s" using D(5) n by (auto simp: no_dangling_def)
      with False n have "vs_endpoint s \<noteq> ep"
        unfolding st(2) removeScreen_reports [OF D(2)] by auto
      with s have "node_at st n = Some s" unfolding st(1) by (simp add: removeScreen_node_at [OF D(2)])
      then show ?thesis by simp
    qed
    then have "router_safe (r\<lparr>rt_store := st\<rparr>)"
      using safe good by (simp add: router_safe_def no_dangling_def)
    with False that show ?thesis by simp
  qed
qed

lemma ensureActive_safe:
  assumes safe: "router_safe r"
  obtains r' where "ensureActiveLocalScreen io primary r = Some r'" "router_safe r'" "rt_store r' = rt_store r"
proof -
  note D = router_safeD [OF safe]
  have act: "\<exists>r'. activateFirstLocalScreen io r = Some r' \<and> router_safe r' \<and> rt_store r' = rt_store r"
    by (rule activateFirstLocal_safe [OF disjI1 [OF safe], of io]) blast
  have "\<exists>r'. switchActiveScreen io \<lparr>sp_key = key, sp_x = 0, sp_y = 0\<rparr> r = Some r' \<and> router_safe r' \<and> rt_store r' = rt_store r"
    for key
    by (rule switch_safe [OF safe, of "\<lparr>sp_key = key, sp_x = 0, sp_y = 0\<rparr>" io]) (auto simp: small_def)
  then have switch: "\<exists>r'. switchActiveScreen io \<lparr>sp_key = vs_key s, sp_x = 0, sp_y = 0\<rparr> r = Some r' \<and>
      router_safe r' \<and> rt_store r' = rt_store r" for s :: "'a virtual_screen"
    by blast
  have "\<exists>r'. ensureActiveLocalScreen io primary r = Some r' \<and> router_safe r' \<and> rt_store r' = rt_store r"
    using act switch safe
    by (auto simp: ensureActiveLocalScreen_def split: option.split)
  with that show ?thesis by blast
qed

lemma registerScreens_keeps_nodes:
  assumes "registerScreens_owner env ep owner infos local st = Some st'" "store_inv st" "node_at st n = Some s"
  shows "node_at st' n = Some s"
proof -
  have "store_inv st' \<and> (n, s) \<in> set (nodes st')"
  proof (rule registerScreens_loop_invariant [OF assms(1) [unfolded registerScreens_owner_def]])
    show "store_inv st \<and> (n, s) \<in> set (nodes st)" using assms(2,3) by (simp add: node_at_iff)
  next
    fix st i info cell
    assume P: "store_inv st \<and> (n, s) \<in> set (nodes st)"
    have "(n, s) \<in> set (nodes (snd (store_addScreen env ep (ScreenKey owner i) cell info local st)))"
      by (cases rule: store_addScreen_cases [of ep "ScreenKey owner i" cell info local st env])
         (use P in \<open>simp_all add: set_nodes_emplace\<close>)
    with P show "store_inv (snd (store_addScreen env ep (ScreenKey owner i) cell info local st)) \<and>
        (n, s) \<in> set (nodes (snd (store_addScreen env ep (ScreenKey owner i) cell info local st)))"
      by (simp add: store_addScreen_inv)
  qed
  then show ?thesis by (simp add: node_at_iff)
qed

lemma server_register_safe:
  assumes safe: "router_safe r" and few: "few_screens (rt_store r) (Suc (length infos))"
    and infos: "\<forall>info \<in> set infos. info_ok info"
  obtains st1 st2 r' where
    "server_registerScreens_owner env io ep owner infos local r = Some r'" "router_safe r'" "rt_store r' = st2"
    "st1 = snd (removeScreen ep (rt_active r) (rt_store r))"
    "registerScreens_owner env ep owner infos local st1 = Some st2"
proof -
  obtain removed st where rem: "removeScreen ep (rt_active r) (rt_store r) = (removed, st)"
    by (cases "removeScreen ep (rt_active r) (rt_store r)")
  obtain r2 where r2:
    "(if removed then clearActiveState io (r\<lparr>rt_store := st\<rparr>) else Some (r\<lparr>rt_store := st\<rparr>)) = Some r2"
    "router_safe r2" "rt_store r2 = st"
    using safe rem by (rule remove_and_clear_safe)
  have st: "st = snd (removeScreen ep (rt_active r) (rt_store r))" by (simp add: rem)
  note D2 = router_safeD [OF r2(2)]
  obtain st2 where reg: "registerScreens_owner env ep owner infos local st = Some st2" "store_good st2"
    unfolding registerScreens_owner_def
    by (rule registerScreens_loop_good [of st infos])
       (use D2(1) r2(3) few_screens_remove [OF few] infos in \<open>auto simp: st\<close>)
  have keep: "node_at st2 n \<noteq> None" if "rt_active r2 = Some n" for n
    using D2(5) that registerScreens_keeps_nodes [OF reg(1)] D2(2) r2(3) by (fastforce simp: no_dangling_def)
  have "router_safe (r2\<lparr>rt_store := st2\<rparr>)"
    using r2(2) reg(2) keep by (simp add: router_safe_def no_dangling_def)
  then obtain r' where r': "ensureActiveLocalScreen io local (r2\<lparr>rt_store := st2\<rparr>) = Some r'" "router_safe r'"
    "rt_store r' = rt_store (r2\<lparr>rt_store := st2\<rparr>)"
    by (rule ensureActive_safe)
  have "server_registerScreens_owner env io ep owner infos local r = Some r'"
    using r2(1,3) reg(1) r'(1) by (simp add: server_registerScreens_owner_def rem)
  with r' reg(1) st that show ?thesis by simp
qed

lemma removeEndpoint_safe:
  assumes safe: "router_safe r"
  obtains r' where "removeEndpointScreens io ep r = Some r'" "router_safe r'"
    "rt_store r' = snd (removeScreen ep (rt_active r) (rt_store r))"
proof -
  obtain removed st where rem: "removeScreen ep (rt_active r) (rt_store r) = (removed, st)"
    by (cases "removeScreen ep (rt_active r) (rt_store r)")
  obtain r2 where r2:
    "(if removed then clearActiveState io (r\<lparr>rt_store := st\<rparr>) else Some (r\<lparr>rt_store := st\<rparr>)) = Some r2"
    "router_safe r2" "rt_store r2 = st"
    using safe rem by (rule remove_and_clear_safe)
  show ?thesis
  proof (cases removed)
    case True
    obtain r' where r': "ensureActiveLocalScreen io False r2 = Some r'" "router_safe r'" "rt_store r' = rt_store r2"
      using r2(2) by (rule ensureActive_safe)
    with True r2 rem that show ?thesis by (simp add: removeEndpointScreens_def)
  next
    case False
    with r2 rem that [of r2] show ?thesis by (simp add: removeEndpointScreens_def)
  qed
qed

lemma forgetOwner_good: "store_good st \<Longrightarrow> store_good (forgetOwner ep st)"
  by (simp add: store_good_def store_inv_def forgetOwner_def nodes_def std_map.invar_erase)

lemma rememberOwner_good: "store_good st \<Longrightarrow> store_good (rememberOwner ep owner st)"
  by (simp add: store_good_def store_inv_def rememberOwner_def nodes_def std_map.invar_assign)

lemma owner_nodes [simp]:
  "nodes (forgetOwner ep st) = nodes st" "nodes (rememberOwner ep owner st) = nodes st"
  "node_at (forgetOwner ep st) = node_at st" "node_at (rememberOwner ep owner st) = node_at st"
  "st_config (forgetOwner ep st) = st_config st" "st_config (rememberOwner ep owner st) = st_config st"
  by (simp_all add: forgetOwner_def rememberOwner_def nodes_def node_at_def fun_eq_iff)

lemma onClosed_safe:
  assumes safe: "router_safe r"
  obtains r' where "onClosed io ep r = Some r'" "router_safe r'"
    "rt_store r' = forgetOwner ep (snd (removeScreen ep (rt_active r) (rt_store r)))"
    "map_find (rt_senders r') ep = None"
proof -
  obtain r1 where r1: "removeEndpointScreens io ep r = Some r1" "router_safe r1"
    "rt_store r1 = snd (removeScreen ep (rt_active r) (rt_store r))"
    using safe by (rule removeEndpoint_safe)
  let ?r = "r1\<lparr>rt_senders := map_erase ep (rt_senders r1), rt_store := forgetOwner ep (rt_store r1)\<rparr>"
  have "router_safe ?r"
    using r1(2) by (simp add: router_safe_def no_dangling_def forgetOwner_good std_map.invar_erase)
  moreover have "map_find (rt_senders ?r) ep = None" by (simp add: map_of_erase)
  ultimately show ?thesis using that [of ?r] r1 by (simp add: onClosed_def)
qed

subsection \<open>Who has a sender, and who is trusted\<close>

definition clients :: "('ep, 'cap, 'snd) router \<Rightarrow> 'ep set" where
  "clients r = fst ` set (rt_senders r)"

lemma clients_find: "ep \<in> clients r \<longleftrightarrow> map_find (rt_senders r) ep \<noteq> None"
  by (simp add: clients_def map_of_eq_None_iff)

lemma clients_update [simp]:
  "clients (r\<lparr>rt_store := st\<rparr>) = clients r" "clients (r\<lparr>rt_capture := c\<rparr>) = clients r"
  "clients (r\<lparr>rt_active := a\<rparr>) = clients r" "clients (r\<lparr>rt_point := p\<rparr>) = clients r"
  "clients (r\<lparr>rt_lastLocal := l\<rparr>) = clients r" "clients (r\<lparr>rt_pendingWarp := w\<rparr>) = clients r"
  "clients (reset_active r) = clients r"
  by (simp_all add: clients_def reset_active_def)

lemma clients_queue: "clients (snd (queueInputForScreen io s e r)) = clients r"
proof -
  have "map_find (rt_senders r) ep = Some x \<Longrightarrow> ep \<in> clients r" for ep x by (simp add: clients_find)
  then show ?thesis
    by (auto simp: queueInputForScreen_def clients_def set_map_assign insert_absorb split: option.split prod.split)
qed

text \<open>
  The senders change only by \<open>queueInputForScreen\<close>: whatever it keeps of them, every operation of the router
  and of the coordination with the store keeps.
\<close>

lemma updateCapture_senders: "updateCaptureRemoteControl io r = Some r' \<Longrightarrow> rt_senders r' = rt_senders r"
  by (auto simp: updateCaptureRemoteControl_def ub_bind_eq_Some split: option.splits)

lemma activateFirstLocal_senders: "activateFirstLocalScreen io r = Some r' \<Longrightarrow> rt_senders r' = rt_senders r"
  by (auto simp: activateFirstLocalScreen_def reset_active_def split: option.splits dest: updateCapture_senders)

locale sender_invariant =
  fixes io :: "('cap, 'snd) router_io" and kept :: "('ep::linorder, 'snd) std_map \<Rightarrow> bool"
  assumes queue_kept:
    "kept (rt_senders r) \<Longrightarrow> kept (rt_senders (snd (queueInputForScreen io screen event (r :: ('ep, 'cap, 'snd) router))))"
begin

definition holds :: "('ep, 'cap, 'snd) router \<Rightarrow> bool" where
  "holds r \<longleftrightarrow> kept (rt_senders r)"

lemma holds_update [simp]:
  "holds (r\<lparr>rt_store := st\<rparr>) = holds r" "holds (r\<lparr>rt_capture := c\<rparr>) = holds r"
  "holds (r\<lparr>rt_active := a\<rparr>) = holds r" "holds (r\<lparr>rt_point := p\<rparr>) = holds r"
  "holds (r\<lparr>rt_lastLocal := l\<rparr>) = holds r" "holds (r\<lparr>rt_pendingWarp := w\<rparr>) = holds r"
  "holds (reset_active r) = holds r"
  by (simp_all add: holds_def reset_active_def)

lemma queue_holds [simp, intro]: "holds r \<Longrightarrow> holds (snd (queueInputForScreen io screen event r))"
  unfolding holds_def by (rule queue_kept)

lemma updateCapture_holds: "updateCaptureRemoteControl io r = Some r' \<Longrightarrow> holds r' = holds r"
  by (simp add: holds_def updateCapture_senders)

lemma activateFirstLocal_holds: "activateFirstLocalScreen io r = Some r' \<Longrightarrow> holds r' = holds r"
  by (simp add: holds_def activateFirstLocal_senders)

lemma moveLocalCursor_holds: "moveLocalCursorToActivePoint io r = Some r' \<Longrightarrow> holds r \<Longrightarrow> holds r'"
proof (cases "rt_capture r"; cases "active_screen r"; cases "the (active_screen r)"; cases "rt_point r")
qed (auto simp: moveLocalCursorToActivePoint_def split: prod.splits if_splits)

lemma switch_holds: "switchActiveScreen io p r = Some r' \<Longrightarrow> holds r \<Longrightarrow> holds r'"
  by (auto simp: switchActiveScreen_def ub_bind_eq_Some split: option.splits if_splits
      dest!: updateCapture_holds moveLocalCursor_holds)

lemma ensureActive_holds: "ensureActiveLocalScreen io primary r = Some r' \<Longrightarrow> holds r \<Longrightarrow> holds r'"
  by (auto simp: ensureActiveLocalScreen_def split: option.splits if_splits
      dest: switch_holds activateFirstLocal_holds)

lemma handleRemoteMouseMove_holds: "handleRemoteMouseMove io m r = Some r' \<Longrightarrow> holds r \<Longrightarrow> holds r'"
proof (cases "active_screen r"; cases "the (active_screen r)"; cases "remote_delta m (rt_lastLocal r)";
    cases "the (remote_delta m (rt_lastLocal r))")
qed (auto simp: handleRemoteMouseMove_def ub_bind_eq_Some Let_def split: if_splits option.splits
      dest!: switch_holds)

lemma handleMouseMove_holds: "handleMouseMove io m r = Some r' \<Longrightarrow> holds r \<Longrightarrow> holds r'"
proof (cases "active_screen r"; cases "the (active_screen r)")
qed (auto simp: handleMouseMove_def suppressPendingLocalWarp_def ub_bind_eq_Some Let_def
      split: option.splits if_splits dest!: switch_holds handleRemoteMouseMove_holds)

lemma handleInputEvent_holds:
  assumes "handleInputEvent io e r = Some r'" "holds r"
  shows "holds r'"
proof -
  from assms(1) obtain handled r1 where h: "tryHandleLocalHotkey io e r = Some (handled, r1)"
    and rest: "if handled then r' = r1 else (\<exists>active. active_screen r1 = Some active \<and>
      (case active of
           Some screen \<Rightarrow>
             if \<not> vs_local screen then
               (case e of
                  MouseMoveEvent mouse \<Rightarrow> handleRemoteMouseMove io mouse r1
                | _ \<Rightarrow> do {
                    routed \<leftarrow> eventAtActivePoint e r1;
                    Some (snd (queueInputForScreen io screen routed r1))
                  })
             else (case e of MouseMoveEvent mouse \<Rightarrow> handleMouseMove io mouse r1 | _ \<Rightarrow> Some r1)
         | None \<Rightarrow> (case e of MouseMoveEvent mouse \<Rightarrow> handleMouseMove io mouse r1 | _ \<Rightarrow> Some r1)) = Some r')"
    by (auto simp: handleInputEvent_def ub_bind_eq_Some split: if_splits)
  have "holds r1"
    using h assms(2) by (auto simp: tryHandleLocalHotkey_def ub_bind_eq_Some dest: activateFirstLocal_holds
        split: input_event.splits if_splits)
  then show ?thesis
    using rest by (auto simp: ub_bind_eq_Some split: if_splits option.splits input_event.splits
        dest: handleMouseMove_holds handleRemoteMouseMove_holds)
qed

lemma remove_and_clear_holds:
  assumes "(if removed then clearActiveState io (r\<lparr>rt_store := st\<rparr>) else Some (r\<lparr>rt_store := st\<rparr>)) = Some r2"
  shows "holds r2 = holds r"
  using assms by (auto simp: clearActiveState_def split: if_splits dest!: updateCapture_holds)

lemma server_register_holds:
  assumes "server_registerScreens_owner env io ep owner infos local r = Some r'" "holds r"
  shows "holds r'"
proof -
  obtain removed st where rem: "removeScreen ep (rt_active r) (rt_store r) = (removed, st)"
    by (cases "removeScreen ep (rt_active r) (rt_store r)")
  with assms(1) obtain r2 st2 where r2:
    "(if removed then clearActiveState io (r\<lparr>rt_store := st\<rparr>) else Some (r\<lparr>rt_store := st\<rparr>)) = Some r2"
    "ensureActiveLocalScreen io local (r2\<lparr>rt_store := st2\<rparr>) = Some r'"
    by (auto simp: server_registerScreens_owner_def ub_bind_eq_Some Let_def split del: if_split)
  from remove_and_clear_holds [OF r2(1)] ensureActive_holds [OF r2(2)] assms(2) show ?thesis by simp
qed

lemma removeEndpoint_holds:
  assumes "removeEndpointScreens io ep r = Some r'" "holds r"
  shows "holds r'"
proof -
  obtain removed st where rem: "removeScreen ep (rt_active r) (rt_store r) = (removed, st)"
    by (cases "removeScreen ep (rt_active r) (rt_store r)")
  show ?thesis
  proof (cases removed)
    case True
    with assms(1) rem obtain r2 where r2: "clearActiveState io (r\<lparr>rt_store := st\<rparr>) = Some r2"
      "ensureActiveLocalScreen io False r2 = Some r'"
      by (auto simp: removeEndpointScreens_def ub_bind_eq_Some)
    have "holds r2 = holds r"
      by (rule remove_and_clear_holds [where removed = True and st = st]) (simp add: r2(1))
    with ensureActive_holds [OF r2(2)] assms(2) show ?thesis by simp
  next
    case False
    with assms rem show ?thesis by (auto simp: removeEndpointScreens_def)
  qed
qed

end

interpretation sender_keys: sender_invariant io "\<lambda>senders. fst ` set senders = keys"
  by unfold_locales (simp add: clients_queue [unfolded clients_def])

lemma handleInputEvent_clients: "handleInputEvent io e r = Some r' \<Longrightarrow> clients r' = clients r"
  using sender_keys.handleInputEvent_holds [where keys = "clients r" and r = r] by (simp add: sender_keys.holds_def clients_def)

lemma server_register_clients:
  "server_registerScreens_owner env io ep owner infos local r = Some r' \<Longrightarrow> clients r' = clients r"
  using sender_keys.server_register_holds [where keys = "clients r" and r = r] by (simp add: sender_keys.holds_def clients_def)

lemma removeEndpoint_clients: "removeEndpointScreens io ep r = Some r' \<Longrightarrow> clients r' = clients r"
  using sender_keys.removeEndpoint_holds [where keys = "clients r" and r = r] by (simp add: sender_keys.holds_def clients_def)

abbreviation trust_list :: "'ep screen_store \<Rightarrow> trusted_client_config list" where
  "trust_list st \<equiv> cfg_trustedClients (st_config st)"

lemma store_addScreen_trust: "trust_list (snd (store_addScreen env ep key cell info local st)) = trust_list st"
  by (cases rule: store_addScreen_cases [of ep key cell info local st env]) (simp_all add: upsertScreenLayout_def)

lemma registerScreens_trust:
  "registerScreens_owner env ep owner infos local st = Some st' \<Longrightarrow> trust_list st' = trust_list st"
  unfolding registerScreens_owner_def
  by (rule registerScreens_loop_invariant [where P = "\<lambda>s. trust_list s = trust_list st"])
     (simp_all add: store_addScreen_trust)

lemma isTrustedClient_cong:
  "cfg_trustedClients c = cfg_trustedClients c' \<Longrightarrow> isTrustedClient c = isTrustedClient c'"
  by (simp add: isTrustedClient_def fun_eq_iff)

lemma registerScreens_new_nodes:
  assumes "registerScreens_owner env ep owner infos local st = Some st'" "(n, s) \<in> set (nodes st')"
  shows "(n, s) \<in> set (nodes st) \<or> (vs_endpoint s = ep \<and> vs_local s = local)"
proof -
  have "\<forall>(n, s) \<in> set (nodes st'). (n, s) \<in> set (nodes st) \<or> (vs_endpoint s = ep \<and> vs_local s = local)"
  proof (rule registerScreens_loop_invariant [OF assms(1) [unfolded registerScreens_owner_def]])
    fix st0 i info cell
    assume P: "\<forall>(n, s) \<in> set (nodes st0). (n, s) \<in> set (nodes st) \<or> (vs_endpoint s = ep \<and> vs_local s = local)"
    show "\<forall>(n, s) \<in> set (nodes (snd (store_addScreen env ep (ScreenKey owner i) cell info local st0))).
        (n, s) \<in> set (nodes st) \<or> (vs_endpoint s = ep \<and> vs_local s = local)"
      by (cases rule: store_addScreen_cases [of ep "ScreenKey owner i" cell info local st0 env])
         (use P in \<open>auto simp: set_nodes_emplace new_screen_def\<close>)
  qed auto
  with assms(2) show ?thesis by auto
qed

section \<open>The reachable states of the process\<close>

definition serving :: "('ep::linorder, 'cap, 'snd) server \<Rightarrow> 'ep \<Rightarrow> session option" where
  "serving sv ep = (case map_find (sv_connections sv) ep of Some (Serving session) \<Rightarrow> Some session | _ \<Rightarrow> None)"

abbreviation sv_store :: "('ep, 'cap, 'snd) server \<Rightarrow> 'ep screen_store" where
  "sv_store sv \<equiv> rt_store (sv_router sv)"

text \<open>
  When an action can happen: a peer address is used by one connection at a time, only open connections
  receive, only a session that passed the handshake publishes a sender. Numbers stay in the ranges of
  \<open>info_ok\<close> and \<open>event_small\<close>, and fewer than 2147483646 screens are registered.
\<close>

fun action_enabled :: "('ep::linorder, 'snd) server_action \<Rightarrow> ('ep, 'cap, 'snd) server \<Rightarrow> bool" where
  "action_enabled (Accept ep) sv \<longleftrightarrow> map_find (sv_connections sv) ep = None"
| "action_enabled (Receive ep received) sv \<longleftrightarrow> map_find (sv_connections sv) ep \<noteq> None \<and>
     (case received of
        Inr (ScreensMessage infos) \<Rightarrow> (\<forall>info \<in> set infos. info_ok info) \<and> few_screens (sv_store sv) (Suc (length infos))
      | _ \<Rightarrow> True)"
| "action_enabled (Publish ep sender) sv \<longleftrightarrow> serving sv ep \<noteq> None"
| "action_enabled (Disconnect ep) sv \<longleftrightarrow> map_find (sv_connections sv) ep \<noteq> None"
| "action_enabled (Captured event) sv \<longleftrightarrow> event_small event"

inductive server_reach ::
  "'ep::linorder store_env \<Rightarrow> ('cap, 'snd) router_io \<Rightarrow> ('ep, 'cap, 'snd) server \<Rightarrow> ('ep, 'cap, 'snd) server \<Rightarrow> bool"
  for env io where
  start: "server_reach env io sv sv"
| step: "server_reach env io sv0 sv \<Longrightarrow> action_enabled a sv \<Longrightarrow> server_exec env io a sv = Some sv' \<Longrightarrow>
    server_reach env io sv0 sv'"

definition session_trusted :: "trusted_client_config list \<Rightarrow> session \<Rightarrow> bool" where
  "session_trusted trusted session \<longleftrightarrow> trusted = [] \<or>
     (\<exists>client \<in> set trusted. (ss_machineId session \<noteq> [] \<and> tc_machineId client = ss_machineId session) \<or>
        (ss_name session \<noteq> [] \<and> tc_name client = ss_name session))"

definition server_inv :: "trusted_client_config list \<Rightarrow> ('ep::linorder, 'cap, 'snd) server \<Rightarrow> bool" where
  "server_inv trusted sv \<longleftrightarrow> router_safe (sv_router sv) \<and> map_wf (sv_connections sv) \<and>
     trust_list (sv_store sv) = trusted \<and>
     (\<forall>ep \<in> clients (sv_router sv). serving sv ep \<noteq> None) \<and>
     (\<forall>(n, s) \<in> set (nodes (sv_store sv)). vs_local s \<or> serving sv (vs_endpoint s) \<noteq> None) \<and>
     (\<forall>ep session. serving sv ep = Some session \<longrightarrow> session_trusted trusted session)"

lemma server_invD:
  assumes "server_inv trusted sv"
  shows "router_safe (sv_router sv)" "map_wf (sv_connections sv)" "trust_list (sv_store sv) = trusted"
    "ep \<in> clients (sv_router sv) \<Longrightarrow> \<exists>session. serving sv ep = Some session"
    "(n, s) \<in> set (nodes (sv_store sv)) \<Longrightarrow> \<not> vs_local s \<Longrightarrow> \<exists>session. serving sv (vs_endpoint s) = Some session"
    "serving sv ep = Some session \<Longrightarrow> session_trusted trusted session"
  using assms by (fastforce simp: server_inv_def)+

lemma session_trusted_iff:
  "session_trusted (trust_list st) session \<longleftrightarrow> isTrustedClient (st_config st) (ss_machineId session) (ss_name session)"
  by (auto simp: session_trusted_def isTrustedClient_def list_ex_iff)

lemma serving_router [simp]: "serving (sv\<lparr>sv_router := r\<rparr>) = serving sv"
  by (simp add: serving_def fun_eq_iff)

lemma close_connection_cases:
  assumes inv: "server_inv trusted sv"
  obtains sv' where "close_connection io ep sv = Some sv'" "server_inv trusted sv'"
    "map_find (sv_connections sv') = (map_find (sv_connections sv))(ep := None)"
    "sv_store sv' = forgetOwner ep (snd (removeScreen ep (rt_active (sv_router sv)) (sv_store sv)))"
    "clients (sv_router sv') = clients (sv_router sv) - {ep}"
proof -
  note D = server_invD [OF inv]
  obtain r' where r': "onClosed io ep (sv_router sv) = Some r'" "router_safe r'"
    "rt_store r' = forgetOwner ep (snd (removeScreen ep (rt_active (sv_router sv)) (sv_store sv)))"
    using D(1) by (rule onClosed_safe)
  let ?sv = "\<lparr>sv_router = r', sv_connections = map_erase ep (sv_connections sv)\<rparr>"
  have conns: "map_find (sv_connections ?sv) = (map_find (sv_connections sv))(ep := None)" by (simp add: map_of_erase fun_eq_iff)
  then have serving: "serving ?sv = (serving sv)(ep := None)" by (auto simp: serving_def fun_eq_iff)
  have erased: "clients (r\<lparr>rt_senders := map_erase ep (rt_senders r)\<rparr>) = clients r - {ep}"
    for r :: "('a, 'b, 'c) router"
    by (force simp: clients_def map_erase_def)
  have "clients r' = clients (sv_router sv) - {ep}"
    using r'(1) by (auto simp: onClosed_def ub_bind_eq_Some erased dest: removeEndpoint_clients)
  moreover have "(n, s) \<in> set (nodes (rt_store r')) \<longleftrightarrow> (n, s) \<in> set (nodes (sv_store sv)) \<and> vs_endpoint s \<noteq> ep" for n s
    unfolding r'(3) owner_nodes by (rule removeScreen_nodes [OF router_safeD(2) [OF D(1)]])
  moreover have "trust_list (rt_store r') = trusted" by (simp add: r'(3) removeScreen_fields D(3))
  ultimately have "server_inv trusted ?sv"
    unfolding server_inv_def serving
    using r'(2) D(2,4,5,6) by (auto simp: std_map.invar_erase)
  moreover have "close_connection io ep sv = Some ?sv" by (simp add: close_connection_def r'(1))
  ultimately show ?thesis using that conns r'(3) \<open>clients r' = _\<close> by (metis server.select_convs(1))
qed

lemma handshake_cases:
  obtains (failed) e where "handshake env ep received r = (Inl e, r)"
      "\<not> (\<exists>hello. received = Inr (HelloMessage hello))"
  | (untrusted) hello where "received = Inr (HelloMessage hello)" "\<not> isClientTrusted hello (rt_store r)"
      "handshake env ep received r = (Inl (RpcFailure ProtocolError), r\<lparr>rt_store := rememberOwner ep
         (if hello_machineId hello = [] then ownerIdFromEndpoint env ep else hello_machineId hello) (rt_store r)\<rparr>)"
  | (accepted) hello where "received = Inr (HelloMessage hello)" "isClientTrusted hello (rt_store r)"
      "handshake env ep received r = (Inr \<lparr>ss_machineId = hello_machineId hello,
           ss_ownerId = (if hello_machineId hello = [] then ownerIdFromEndpoint env ep else hello_machineId hello),
           ss_name = hello_name hello\<rparr>,
         r\<lparr>rt_store := rememberOwner ep
           (if hello_machineId hello = [] then ownerIdFromEndpoint env ep else hello_machineId hello) (rt_store r)\<rparr>)"
proof -
  have [simp]: "isClientTrusted hello (rememberOwner ep owner st) = isClientTrusted hello st" for hello owner st
    by (simp add: isClientTrusted_def)
  show ?thesis
  proof (cases "\<exists>hello. received = Inr (HelloMessage hello)")
    case True
    then obtain hello where h: "received = Inr (HelloMessage hello)" ..
    show ?thesis
      by (cases "isClientTrusted hello (rt_store r)") (use h untrusted accepted in \<open>auto simp: handshake_def Let_def\<close>)
  next
    case False
    then have "\<exists>e. handshake env ep received r = (Inl e, r)"
      by (auto simp: handshake_def split: sum.split rpc_message.split)
    with False failed show ?thesis by blast
  qed
qed

lemma rememberOwner_safe: "router_safe r \<Longrightarrow> router_safe (r\<lparr>rt_store := rememberOwner ep owner (rt_store r)\<rparr>)"
  by (simp add: router_safe_def rememberOwner_good no_dangling_def)

lemma serving_assign:
  "map_wf m \<Longrightarrow> serving \<lparr>sv_router = r, sv_connections = map_assign ep c m\<rparr> =
     (serving \<lparr>sv_router = r, sv_connections = m\<rparr>)(ep := (case c of AwaitHello \<Rightarrow> None | Serving s \<Rightarrow> Some s))"
  by (simp add: serving_def std_map.find_assign fun_eq_iff split: connection.split)

lemma serve_inv:
  assumes inv: "server_inv trusted (sv\<lparr>sv_router := r\<rparr>)" and trusted: "session_trusted trusted session"
  shows "server_inv trusted \<lparr>sv_router = r, sv_connections = map_assign ep (Serving session) (sv_connections sv)\<rparr>"
proof -
  have wf: "map_wf (sv_connections sv)" using server_invD(2) [OF inv] by simp
  have "serving \<lparr>sv_router = r, sv_connections = map_assign ep (Serving session) (sv_connections sv)\<rparr> =
      (serving sv)(ep \<mapsto> session)"
    unfolding serving_assign [OF wf] by (simp add: serving_def fun_eq_iff)
  then show ?thesis
    using inv trusted by (auto simp: server_inv_def std_map.invar_assign)
qed

lemma handshake_step:
  assumes inv: "server_inv trusted sv" and await: "map_find (sv_connections sv) ep = Some AwaitHello"
  obtains sv' where "handleIncoming_message env io ep received sv = Some sv'" "server_inv trusted sv'"
proof -
  note D = server_invD [OF inv]
  have remembered: "server_inv trusted (sv\<lparr>sv_router := (sv_router sv)\<lparr>rt_store := rememberOwner ep owner (sv_store sv)\<rparr>\<rparr>)"
    for owner
    using inv rememberOwner_safe [OF D(1), of ep owner]
    by (auto simp: server_inv_def case_prod_beta)
  have close: "\<exists>sv'. close_connection io ep s = Some sv' \<and> server_inv trusted sv'" if "server_inv trusted s" for s
    using that by (rule close_connection_cases) blast
  have "\<exists>sv'. handleIncoming_message env io ep received sv = Some sv' \<and> server_inv trusted sv'"
  proof (cases rule: handshake_cases [of env ep received "sv_router sv"])
    case (failed e)
    then show ?thesis using close [OF inv] await by (simp add: handleIncoming_message_def)
  next
    case (untrusted hello)
    then show ?thesis using close [OF remembered] await by (simp add: handleIncoming_message_def)
  next
    case (accepted hello)
    let ?owner = "if hello_machineId hello = [] then ownerIdFromEndpoint env ep else hello_machineId hello"
    let ?session = "\<lparr>ss_machineId = hello_machineId hello, ss_ownerId = ?owner, ss_name = hello_name hello\<rparr>"
    let ?r = "(sv_router sv)\<lparr>rt_store := rememberOwner ep ?owner (sv_store sv)\<rparr>"
    let ?sv = "\<lparr>sv_router = ?r, sv_connections = map_assign ep (Serving ?session) (sv_connections sv)\<rparr>"
    have trusted: "session_trusted trusted ?session"
      using accepted(2) by (simp add: isClientTrusted_def session_trusted_iff D(3) [symmetric])
    have "server_inv trusted ?sv" by (rule serve_inv [OF remembered trusted])
    then show ?thesis using accepted await by (simp add: handleIncoming_message_def)
  qed
  with that show ?thesis by blast
qed

lemma onScreens_step:
  assumes inv: "server_inv trusted sv" and session: "serving sv ep = Some session"
    and few: "few_screens (sv_store sv) (Suc (length infos))" and infos: "\<forall>info \<in> set infos. info_ok info"
  obtains r where "onScreens env io ep (ss_ownerId session) infos (sv_router sv) = Some r"
    "server_inv trusted (sv\<lparr>sv_router := r\<rparr>)"
proof -
  note D = server_invD [OF inv]
  obtain st1 st2 r where r: "server_registerScreens_owner env io ep (ss_ownerId session) infos False (sv_router sv) = Some r"
    "router_safe r" "rt_store r = st2" "st1 = snd (removeScreen ep (rt_active (sv_router sv)) (sv_store sv))"
    "registerScreens_owner env ep (ss_ownerId session) infos False st1 = Some st2"
    using D(1) few infos by (rule server_register_safe)
  have "vs_local s \<or> serving sv (vs_endpoint s) \<noteq> None" if "(n, s) \<in> set (nodes st2)" for n s
    using registerScreens_new_nodes [OF r(5) that] session D(5)
    by (auto simp: r(4) removeScreen_nodes [OF router_safeD(2) [OF D(1)]])
  moreover have "trust_list st2 = trusted" by (simp add: registerScreens_trust [OF r(5)] r(4) removeScreen_fields D(3))
  moreover have "clients r = clients (sv_router sv)" by (rule server_register_clients [OF r(1)])
  ultimately have "server_inv trusted (sv\<lparr>sv_router := r\<rparr>)"
    using r(2,3) D(2,4,6) by (auto simp: server_inv_def)
  with r(1) that show ?thesis by (simp add: onScreens_def)
qed

lemma server_step_inv:
  assumes inv: "server_inv trusted sv" and enabled: "action_enabled a sv"
  obtains sv' where "server_exec env io a sv = Some sv'" "server_inv trusted sv'"
proof -
  note D = server_invD [OF inv]
  have "\<exists>sv'. server_exec env io a sv = Some sv' \<and> server_inv trusted sv'"
  proof (cases a)
    case (Accept ep)
    have "serving (sv\<lparr>sv_connections := map_assign ep AwaitHello (sv_connections sv)\<rparr>) = serving sv"
      using enabled D(2) Accept by (auto simp: serving_def std_map.find_assign fun_eq_iff)
    then show ?thesis using inv Accept by (simp add: server_inv_def std_map.invar_assign)
  next
    case (Receive ep received)
    consider (await) "map_find (sv_connections sv) ep = Some AwaitHello"
      | (serving) session where "map_find (sv_connections sv) ep = Some (Serving session)"
      using enabled Receive by (cases "the (map_find (sv_connections sv) ep)") auto
    then show ?thesis
    proof cases
      case await
      with inv obtain sv' where "handleIncoming_message env io ep received sv = Some sv'" "server_inv trusted sv'"
        by (rule handshake_step)
      then show ?thesis using Receive by simp
    next
      case (serving session)
      then have s: "serving sv ep = Some session" by (simp add: serving_def)
      obtain sv' where close: "close_connection io ep sv = Some sv'" "server_inv trusted sv'"
        using inv by (rule close_connection_cases)
      show ?thesis
      proof (cases "\<exists>infos. received = Inr (ScreensMessage infos)")
        case True
        then obtain infos where infos: "received = Inr (ScreensMessage infos)" ..
        obtain r where "onScreens env io ep (ss_ownerId session) infos (sv_router sv) = Some r"
          "server_inv trusted (sv\<lparr>sv_router := r\<rparr>)"
          using inv s by (rule onScreens_step) (use enabled Receive infos in auto)
        then show ?thesis using Receive serving infos by (simp add: handleIncoming_message_def session_message_def)
      next
        case False
        have same: "sv\<lparr>sv_router := sv_router sv\<rparr> = sv" by simp
        have "\<exists>sv'. handleIncoming_message env io ep received sv = Some sv' \<and> server_inv trusted sv'"
          using False serving close inv
          by (auto simp: handleIncoming_message_def session_message_def split: sum.split rpc_message.split)
        then show ?thesis using Receive by simp
      qed
    qed
  next
    case (Publish ep sender)
    have "clients (publish_sender ep sender (sv_router sv)) = insert ep (clients (sv_router sv))"
      by (simp add: publish_sender_def clients_def set_map_assign)
    moreover have "router_safe (publish_sender ep sender (sv_router sv))"
      using D(1) by (simp add: publish_sender_def router_safe_def no_dangling_def std_map.invar_assign)
    moreover have "rt_store (publish_sender ep sender (sv_router sv)) = sv_store sv" by (simp add: publish_sender_def)
    ultimately have "server_inv trusted (sv\<lparr>sv_router := publish_sender ep sender (sv_router sv)\<rparr>)"
      using enabled Publish inv by (simp add: server_inv_def)
    then show ?thesis using Publish by simp
  next
    case (Disconnect ep)
    with inv show ?thesis by (auto elim: close_connection_cases [of trusted sv io ep])
  next
    case (Captured event)
    obtain r where r: "handleInputEvent io event (sv_router sv) = Some r" "router_safe r" "rt_store r = sv_store sv"
      using D(1) by (rule handleInputEvent_safe [where e = event]) (use enabled Captured in simp)
    have "clients r = clients (sv_router sv)" by (rule handleInputEvent_clients [OF r(1)])
    then have "server_inv trusted (sv\<lparr>sv_router := r\<rparr>)" using inv r(2,3) by (simp add: server_inv_def)
    then show ?thesis using r(1) Captured by simp
  qed
  with that show ?thesis by blast
qed

lemma server_reach_inv: "server_reach env io sv0 sv \<Longrightarrow> server_inv trusted sv0 \<Longrightarrow> server_inv trusted sv"
proof (induction rule: server_reach.induct)
  case (step sv0 sv a sv')
  have "server_inv trusted sv" using step by blast
  then obtain sv2 where "server_exec env io a sv = Some sv2" "server_inv trusted sv2"
    using step(2) by (rule server_step_inv)
  with step(3) show ?case by simp
qed

section \<open>Properties\<close>

lemma activateFirstLocal_home:
  assumes "activateFirstLocalScreen io r = Some r'" "store_inv (rt_store r)"
  shows "active_view r' = map_option snd (firstLocalScreen (rt_store r))" "\<not> remote_view r'"
    "rt_capture r' = set_mode io False (rt_capture r)"
proof -
  have "active_view r' = map_option snd (firstLocalScreen (rt_store r)) \<and> \<not> remote_view r' \<and>
      rt_capture r' = set_mode io False (rt_capture r)"
  proof (cases "firstLocalScreen (rt_store r)")
    case None
    then show ?thesis
      using assms by (auto simp: activateFirstLocal_eq active_view_def remote_view_def reset_active_def)
  next
    case (Some node)
    obtain n s where node: "node = (n, s)" by (cases node)
    with Some firstLocal_node_at [OF assms(2)] have "node_at (rt_store r) n = Some s" "vs_local s" by auto
    then show ?thesis
      using assms Some node by (auto simp: activateFirstLocal_eq active_view_def remote_view_def)
  qed
  then show "active_view r' = map_option snd (firstLocalScreen (rt_store r))" "\<not> remote_view r'"
    "rt_capture r' = set_mode io False (rt_capture r)" by auto
qed

lemma onClosed_active:
  assumes safe: "router_safe r" and active: "active_view r = Some s" "vs_endpoint s = ep"
    and closed: "onClosed io ep r = Some r'"
  shows "active_view r' = map_option snd (firstLocalScreen (rt_store r'))" "\<not> remote_view r'"
proof -
  note D = router_safeD [OF safe]
  obtain n where n: "rt_active r = Some n" "node_at (rt_store r) n = Some s"
    using active(1) by (auto simp: active_view_def split: option.splits)
  obtain removed st where rem: "removeScreen ep (rt_active r) (rt_store r) = (removed, st)"
    by (cases "removeScreen ep (rt_active r) (rt_store r)")
  then have removed: "removed" using removeScreen_reports [OF D(2), of ep "rt_active r"] n active(2) by auto
  obtain r2 where r2: "clearActiveState io (r\<lparr>rt_store := st\<rparr>) = Some r2" "rt_store r2 = st" "router_safe r2"
    "rt_active r2 = None"
    using remove_and_clear_safe [OF safe rem, of io] removed by auto
  obtain r1 where r1: "activateFirstLocalScreen io r2 = Some r1" "rt_store r1 = rt_store r2"
    using r2(3) activateFirstLocal_safe by blast
  have r': "r' = r1\<lparr>rt_senders := map_erase ep (rt_senders r1), rt_store := forgetOwner ep (rt_store r1)\<rparr>"
    using closed rem removed r2(1,4) r1(1) by (simp add: onClosed_def removeEndpointScreens_def ensureActiveLocalScreen_def)
  have same: "firstLocalScreen (rt_store r') = firstLocalScreen (rt_store r2)" "active_view r' = active_view r1"
    by (simp_all add: r' r1(2) firstLocalScreen_def active_view_def cong: option.case_cong)
  show "active_view r' = map_option snd (firstLocalScreen (rt_store r'))"
    unfolding same by (rule activateFirstLocal_home(1) [OF r1(1) router_safeD(2) [OF r2(3)]])
  then show "\<not> remote_view r'"
    using activateFirstLocal_home(2) [OF r1(1) router_safeD(2) [OF r2(3)]] same(2) by (simp add: remote_view_def)
qed

definition demo_session :: session where
  "demo_session = \<lparr>ss_machineId = ''peer'', ss_ownerId = ''peer'', ss_name = ''laptop''\<rparr>"

definition demo_server :: "(nat, bool, input_event list) server" where
  "demo_server = \<lparr>sv_router = at_peer, sv_connections = [(7, Serving demo_session)]\<rparr>"

definition demo_trusted :: "trusted_client_config list" where
  "demo_trusted = [\<lparr>tc_machineId = ''peer'', tc_name = ''laptop''\<rparr>]"

definition demo_fresh :: "(nat, bool, input_event list) server" where
  "demo_fresh = \<lparr>sv_router = new_router (new_store (default_config\<lparr>cfg_trustedClients := demo_trusted\<rparr>) [] empty_disk) [],
     sv_connections = []\<rparr>"

definition demo_hello :: "string \<Rightarrow> rpc_failure + rpc_message" where
  "demo_hello mid = Inr (HelloMessage \<lparr>hello_version = 0, hello_machineId = mid, hello_name = ''x''\<rparr>)"

lemma demo_fresh_inv: "server_inv demo_trusted demo_fresh"
proof -
  let ?config = "default_config\<lparr>cfg_trustedClients := demo_trusted\<rparr>"
  have fields: "nodes (new_store config [] empty_disk) = []" "st_config (new_store config [] empty_disk) = config"
    "findScreen (st_topology (new_store config [] empty_disk)) k = None" for config k
    by (simp_all add: nodes_def new_store_def findScreen_def empty_topology_def)
  have "store_good (new_store ?config [] empty_disk)"
    by (simp add: store_good_def fields layout_small_def topo_typed_def config_inner_def default_config_def)
  then show ?thesis
    by (simp add: server_inv_def demo_fresh_def router_safe_def new_router_def no_dangling_def
        clients_def serving_def fields)
qed

lemma two_store_config: "config_inner (st_config two_store)" "cfg_trustedClients (st_config two_store) = []"
  using demo_monitor_valid
  by (simp_all add: two_store_def store_addScreen_def addScreen_def host_store_fields Let_def host_store_def
        demo_store_def new_store_def empty_topology_def default_config_def config_inner_def upsertScreenLayout_def
        rememberScreenLayout_def cell_inner_iff)

lemma demo_server_inv: "server_inv [] demo_server"
proof -
  have good: "router_safe at_peer"
    using at_peer_ok(1)
    by (auto simp: router_safe_def store_good_def router_ok_def state_ok_def no_dangling_def at_peer_def at_home_def
        store_syncD(1) nodes_def two_store_fields info_ok_def demo_host_def demo_peer_def demo_monitor_defs
        screen_info_typed_def small_def two_store_config)
  then show ?thesis
    by (auto simp: server_inv_def demo_server_def clients_def at_peer_def at_home_def serving_def nodes_def
        two_store_fields demo_host_def demo_peer_def session_trusted_def two_store_config map_wf_def)
qed



text \<open>
  C21. Only trusted clients take part: in every reachable state each remote screen that input can be
  routed to, and each sender, belongs to a connection whose handshake succeeded with an identity the
  trust list accepts.
\<close>

theorem only_trusted_routed:
  assumes "server_inv trusted sv0" and "server_reach env io sv0 sv"
  shows "(\<forall>(n, s) \<in> set (nodes (sv_store sv)). vs_local s \<or>
      (\<exists>session. serving sv (vs_endpoint s) = Some session \<and> session_trusted trusted session)) \<and>
    (\<forall>ep. map_find (rt_senders (sv_router sv)) ep = None \<or>
      (\<exists>session. serving sv ep = Some session \<and> session_trusted trusted session))"
proof -
  note D = server_invD [OF server_reach_inv [OF assms(2,1)]]
  show ?thesis using D(5,6) D(4) [unfolded clients_find] by blast
qed

theorem only_trusted_routed_witness:
  "\<exists>sv1 sv2. server_exec demo_env demo_io (Accept 7) demo_fresh = Some sv1 \<and>
     server_exec demo_env demo_io (Receive 7 (demo_hello ''peer'')) sv1 = Some sv2 \<and>
     serving sv2 7 = Some \<lparr>ss_machineId = ''peer'', ss_ownerId = ''peer'', ss_name = ''x''\<rparr> \<and>
     (\<forall>ep. map_find (rt_senders (sv_router sv2)) ep = None \<or>
        (\<exists>session. serving sv2 ep = Some session \<and> session_trusted demo_trusted session))"
proof -
  obtain sv1 where sv1: "server_exec demo_env demo_io (Accept 7) demo_fresh = Some sv1" by simp
  have fields: "sv_connections sv1 = [(7, AwaitHello)]" "sv_router sv1 = sv_router demo_fresh"
    using sv1 by (auto simp: demo_fresh_def)
  have trust: "isTrustedClient (st_config (sv_store demo_fresh)) ''peer'' ''x''"
    by (simp add: demo_fresh_def new_router_def new_store_def isTrustedClient_def demo_trusted_def)
  obtain sv2 where sv2: "server_exec demo_env demo_io (Receive 7 (demo_hello ''peer'')) sv1 = Some sv2"
    "serving sv2 7 = Some \<lparr>ss_machineId = ''peer'', ss_ownerId = ''peer'', ss_name = ''x''\<rparr>"
    using trust by (auto simp: fields handleIncoming_message_def handshake_def demo_hello_def isClientTrusted_def
        rememberOwner_def serving_def Let_def)
  have "action_enabled (Accept 7) demo_fresh" "action_enabled (Receive 7 (demo_hello ''peer'')) sv1"
    by (simp_all add: demo_fresh_def demo_hello_def fields)
  then have "server_reach demo_env demo_io demo_fresh sv2"
    using sv1 sv2(1) by (blast intro: server_reach.intros)
  from only_trusted_routed [OF demo_fresh_inv this] sv1 sv2 show ?thesis by blast
qed



lemma close_connection_leaves:
  assumes "server_inv trusted sv"
  shows "\<exists>sv'. close_connection io ep sv = Some sv' \<and> map_find (sv_connections sv') ep = None \<and>
    map_find (st_owners (sv_store sv')) ep = None \<and> ep \<notin> clients (sv_router sv') \<and>
    (\<forall>(n, s) \<in> set (nodes (sv_store sv')). vs_endpoint s \<noteq> ep)"
proof -
  obtain sv' where sv': "close_connection io ep sv = Some sv'"
    "map_find (sv_connections sv') = (map_find (sv_connections sv))(ep := None)"
    "sv_store sv' = forgetOwner ep (snd (removeScreen ep (rt_active (sv_router sv)) (sv_store sv)))"
    "clients (sv_router sv') = clients (sv_router sv) - {ep}"
    using assms by (rule close_connection_cases)
  have "store_inv (sv_store sv)" by (rule router_safeD(2) [OF server_invD(1) [OF assms]])
  then have "\<forall>(n, s) \<in> set (nodes (sv_store sv')). vs_endpoint s \<noteq> ep"
    unfolding sv'(3) owner_nodes by (auto simp: removeScreen_nodes)
  moreover have "map_find (st_owners (sv_store sv')) ep = None"
    by (simp add: sv'(3) forgetOwner_def map_of_erase)
  ultimately show ?thesis using sv'(1,2,4) by simp
qed

lemma rememberOwner_server_inv:
  "server_inv trusted sv \<Longrightarrow>
     server_inv trusted (sv\<lparr>sv_router := (sv_router sv)\<lparr>rt_store := rememberOwner ep owner (sv_store sv)\<rparr>\<rparr>)"
  using rememberOwner_safe [OF server_invD(1), of trusted sv ep owner] by (auto simp: server_inv_def case_prod_beta)

text \<open>An accepted hello: the connection is served, its owner remembered, and no screen changes.\<close>

lemma handshake_accepts:
  assumes inv: "server_inv trusted sv" and conn: "map_find (sv_connections sv) ep = Some AwaitHello"
    and owner: "owner = (if hello_machineId hello = [] then ownerIdFromEndpoint env ep else hello_machineId hello)"
    and session: "session = \<lparr>ss_machineId = hello_machineId hello, ss_ownerId = owner, ss_name = hello_name hello\<rparr>"
    and accepted: "handshake env ep received (sv_router sv) =
      (Inr session, (sv_router sv)\<lparr>rt_store := rememberOwner ep owner (sv_store sv)\<rparr>)"
  shows "\<exists>sv'. handleIncoming_message env io ep received sv = Some sv' \<and> map_find (sv_connections sv') ep \<noteq> None \<and>
    serving sv' ep = Some session \<and> map_find (st_owners (sv_store sv')) ep = Some owner \<and>
    nodes (sv_store sv') = nodes (sv_store sv)"
proof -
  note D = server_invD [OF inv]
  let ?sv = "\<lparr>sv_router = (sv_router sv)\<lparr>rt_store := rememberOwner ep owner (sv_store sv)\<rparr>,
    sv_connections = map_assign ep (Serving session) (sv_connections sv)\<rparr>"
  have "handleIncoming_message env io ep received sv = Some ?sv"
    using accepted conn by (simp add: handleIncoming_message_def)
  moreover have "serving ?sv ep = Some session" "map_find (sv_connections ?sv) ep \<noteq> None"
    using D(2) by (simp_all add: serving_def std_map.find_assign)
  moreover have "map_find (st_owners (sv_store ?sv)) ep = Some owner"
    using store_invD(3) [OF router_safeD(2) [OF D(1)]] by (simp add: rememberOwner_def std_map.find_assign)
  moreover have "nodes (sv_store ?sv) = nodes (sv_store sv)" by simp
  ultimately show ?thesis by (intro exI [of _ ?sv] conjI)
qed

text \<open>
  C23. What decides about a new connection is its first message: a hello with an identity the trust list
  accepts starts a session that carries this identity and an owner id, the machine id or the formatted
  endpoint, which the store remembers; anything else, another message, an untrusted hello or a failed read, ends
  the connection, and nothing of it is left.
\<close>

theorem handshake_decides:
  assumes "server_inv trusted sv" and "map_find (sv_connections sv) ep = Some AwaitHello"
  shows "\<exists>sv'. handleIncoming_message env io ep received sv = Some sv' \<and>
    (case received of
       Inr (HelloMessage hello) \<Rightarrow>
         if session_trusted trusted \<lparr>ss_machineId = hello_machineId hello, ss_ownerId = [], ss_name = hello_name hello\<rparr>
         then (\<exists>owner. owner = (if hello_machineId hello = [] then env_format env ep else hello_machineId hello) \<and>
                serving sv' ep = Some \<lparr>ss_machineId = hello_machineId hello, ss_ownerId = owner, ss_name = hello_name hello\<rparr> \<and>
                map_find (st_owners (sv_store sv')) ep = Some owner \<and> nodes (sv_store sv') = nodes (sv_store sv))
         else map_find (sv_connections sv') ep = None \<and> map_find (st_owners (sv_store sv')) ep = None
     | _ \<Rightarrow> map_find (sv_connections sv') ep = None \<and> map_find (st_owners (sv_store sv')) ep = None) \<and>
    (map_find (sv_connections sv') ep = None \<longrightarrow> ep \<notin> clients (sv_router sv') \<and>
       (\<forall>(n, s) \<in> set (nodes (sv_store sv')). vs_endpoint s \<noteq> ep))"
proof -
  have trust_iff: "session_trusted trusted \<lparr>ss_machineId = hello_machineId hello, ss_ownerId = [], ss_name = hello_name hello\<rparr> \<longleftrightarrow>
      isClientTrusted hello (sv_store sv)" for hello
    by (simp add: isClientTrusted_def session_trusted_iff server_invD(3) [OF assms(1), symmetric])
  show ?thesis
  proof (cases rule: handshake_cases [of env ep received "sv_router sv"])
    case (failed e)
    then show ?thesis
      using close_connection_leaves [OF assms(1), of io ep] assms(2)
      by (auto simp: handleIncoming_message_def split: sum.split rpc_message.split)
  next
    case (untrusted hello)
    note inv = rememberOwner_server_inv [OF assms(1), of ep
      "if hello_machineId hello = [] then ownerIdFromEndpoint env ep else hello_machineId hello"]
    show ?thesis
      using untrusted close_connection_leaves [OF inv, of io ep] assms(2)
      by (auto simp: handleIncoming_message_def trust_iff split del: if_split)
  next
    case (accepted hello)
    from handshake_accepts [OF assms refl refl accepted(3), of io] accepted(2) show ?thesis
      by (auto simp: accepted(1) trust_iff ownerIdFromEndpoint_def simp del: owner_nodes cong: if_cong split del: if_split)
  qed
qed

theorem handshake_decides_witness:
  "\<exists>sv1 sv'. server_exec demo_env demo_io (Accept 7) demo_fresh = Some sv1 \<and>
     handleIncoming_message demo_env demo_io 7 (demo_hello ''mallory'') sv1 = Some sv' \<and>
     map_find (sv_connections sv') 7 = None \<and> map_find (st_owners (sv_store sv')) 7 = None"
proof -
  obtain sv1 where sv1: "server_exec demo_env demo_io (Accept 7) demo_fresh = Some sv1" by simp
  have "action_enabled (Accept 7) demo_fresh" by (simp add: demo_fresh_def)
  with demo_fresh_inv obtain sv2 where "server_exec demo_env demo_io (Accept 7) demo_fresh = Some sv2"
    "server_inv demo_trusted sv2" by (rule server_step_inv)
  with sv1 have inv: "server_inv demo_trusted sv1" by simp
  have "map_find (sv_connections sv1) 7 = Some AwaitHello" using sv1 by (auto simp: demo_fresh_def)
  from handshake_decides [OF inv this, of demo_env demo_io "demo_hello ''mallory''"] sv1
  show ?thesis by (auto simp: demo_hello_def session_trusted_def demo_trusted_def)
qed

lemma ensureActive_fresh:
  assumes "ensureActiveLocalScreen io True r = Some r'" "rt_active r = None" "store_inv (rt_store r)"
  shows "active_view r' = map_option snd (firstLocalScreen (rt_store r))" "\<not> remote_view r'"
    "rt_capture r' = set_mode io False (rt_capture r)"
  using activateFirstLocal_home [of io r r'] assms by (simp_all add: ensureActiveLocalScreen_def)

text \<open>
  Starting: a failed bind, a missing capture backend and a failed initialization are reported and
  nothing is registered; otherwise the server starts in a state of the invariant, with no connection, with
  a local screen active (the primary one, if a local screen could be registered) and the capture told that
  input is local.
\<close>

theorem server_start_ready:
  fixes env :: "'ep::linorder store_env" and io :: "('cap, 'snd) router_io"
  assumes "config_inner config" and "\<forall>info \<in> set infos. info_ok info" and "length infos < 2147483645"
  shows "\<exists>outcome. server_start env io bound capture initialize infos (new_router (new_store config path disk) []) = Some outcome \<and>
    (case outcome of
       Inl failure \<Rightarrow>
         (\<exists>errno. bound = Inl errno \<and> failure = ServerSystem errno) \<or>
         (\<exists>ep. bound = Inr ep \<and> capture = None \<and> failure = OperationNotSupported) \<or>
         (\<exists>ep c errno. bound = Inr ep \<and> capture = Some c \<and> initialize c = Inl errno \<and> failure = ServerSystem errno)
     | Inr r \<Rightarrow>
         server_inv (cfg_trustedClients config) \<lparr>sv_router = r, sv_connections = []\<rparr> \<and>
         active_view r = map_option snd (firstLocalScreen (rt_store r)) \<and> \<not> remote_view r \<and>
         (\<exists>c c'. capture = Some c \<and> initialize c = Inr c' \<and>
            rt_capture r = set_mode io False (set_mode io False (Some c'))))"
proof (cases "\<exists>ep c c'. bound = Inr ep \<and> capture = Some c \<and> initialize c = Inr c'")
  case False
  then show ?thesis
    by (cases bound; cases capture; cases "initialize (the capture)") (auto simp: server_start_def)
next
  case True
  then obtain ep c c' where env: "bound = Inr ep" "capture = Some c" "initialize c = Inr c'" by blast
  let ?st = "new_store config path disk"
  define r0 :: "('ep, 'cap, 'snd) router" where
    "r0 = (new_router ?st [])\<lparr>rt_capture := set_mode io False (Some c')\<rparr>"
  have st: "nodes ?st = []" "st_config ?st = config" "store_inv ?st" "findScreen (st_topology ?st) k = None" for k
    by simp_all (simp_all add: nodes_def new_store_def findScreen_def empty_topology_def)
  have good: "store_good ?st" using assms(1) by (simp add: store_good_def st layout_small_def topo_typed_def)
  have safe: "router_safe r0" using good by (simp add: r0_def router_safe_def new_router_def no_dangling_def)
  have set: "setCapture io (Some c') (new_router ?st []) = Some r0"
    by (simp add: r0_def setCapture_def new_router_def no_dangling_def remote_view_def active_view_def)
  have few: "few_screens (rt_store r0) (Suc (length infos))"
    using assms(3) by (simp add: r0_def few_screens_def new_router_def topologyScreens_def new_store_def screens_def empty_topology_def)
  obtain owner where owner: "owner = defaultOwnerId env ep True (rt_store r0)" by simp
  obtain st1 st2 r where r: "server_registerScreens_owner env io ep owner infos True r0 = Some r" "router_safe r"
    "rt_store r = st2" "st1 = snd (removeScreen ep (rt_active r0) (rt_store r0))"
    "registerScreens_owner env ep owner infos True st1 = Some st2"
    using safe few assms(2) by (rule server_register_safe [where env = env and io = io and ep = ep and owner = owner and local = True])
  have start: "server_start env io bound capture initialize infos (new_router ?st []) = Some (Inr r)"
    using r(1) by (simp add: server_start_def env set server_registerScreens_def owner)
  have active: "rt_active r0 = None" "rt_store r0 = ?st" by (simp_all add: r0_def new_router_def)
  have removed: "fst (removeScreen ep None ?st) = False" by (simp add: removeScreen_reports [OF st(3)])
  have "ensureActiveLocalScreen io True (r0\<lparr>rt_store := st2\<rparr>) = Some r"
    using r(1,4,5) removed
    by (auto simp: server_registerScreens_owner_def active ub_bind_eq_Some Let_def split: prod.splits)
  note home = ensureActive_fresh [OF this]
  have inv2: "store_inv st2" using router_safeD(2) [OF r(2)] r(3) by simp
  have "vs_local s" if "(n, s) \<in> set (nodes st2)" for n s
    using registerScreens_new_nodes [OF r(5) that] by (auto simp: r(4) active removeScreen_nodes [OF st(3)] st(1))
  moreover have "trust_list st2 = cfg_trustedClients config"
    by (simp add: registerScreens_trust [OF r(5)] r(4) removeScreen_fields active st(2))
  moreover have "clients r = {}"
    using server_register_clients [OF r(1)] by (simp add: clients_def r0_def new_router_def)
  ultimately have "server_inv (cfg_trustedClients config) \<lparr>sv_router = r, sv_connections = []\<rparr>"
    using r(2,3) by (auto simp: server_inv_def serving_def)
  then show ?thesis
    using start home inv2 active env r(3) by (simp add: r0_def)
qed

theorem server_start_ready_witness:
  "\<exists>outcome. server_start demo_env demo_io (Inr 0) (Some True) Inr [demo_monitor True]
       (new_router (new_store default_config [] empty_disk) []) = Some outcome \<and>
     (case outcome of Inl failure \<Rightarrow> False | Inr r \<Rightarrow> server_inv [] \<lparr>sv_router = r, sv_connections = []\<rparr>)"
proof -
  have "config_inner default_config" by (simp add: config_inner_def default_config_def)
  moreover have "\<forall>info \<in> set [demo_monitor True]. info_ok info"
    by (simp add: info_ok_def screen_info_typed_def demo_monitor_defs small_def)
  ultimately have "\<exists>outcome. server_start demo_env demo_io (Inr 0) (Some True) Inr [demo_monitor True]
       (new_router (new_store default_config [] empty_disk) []) = Some outcome \<and>
     (case outcome of Inl failure \<Rightarrow> False
      | Inr r \<Rightarrow> server_inv (cfg_trustedClients default_config) \<lparr>sv_router = r, sv_connections = []\<rparr>)"
    using server_start_ready [of default_config "[demo_monitor True]" demo_env demo_io "Inr 0" "Some True" Inr "[]" empty_disk]
    by (simp del: split_paired_Ex, elim exE conjE, case_tac outcome) auto
  moreover have trust: "cfg_trustedClients default_config = []" by (simp add: default_config_def)
  ultimately show ?thesis unfolding trust by blast
qed

end
