(* ===== verification/Client_App.thy ===== *)
theory Client_App
  imports Rpc_Transport App_Config
begin

text \<open>
  The client process: \<open>src/app/client.hpp\<close> and \<open>src/app/client.cpp\<close>. It connects, says hello, starts the
  injector, reports its screens and injects every input message it receives.

  \<^item> \<open>client_connect\<close> is \<open>Client::run\<close> up to the two loops, \<open>handleWrite\<close> and \<open>handleRead\<close> are the loops,
    \<open>client_result\<close> is what \<open>run\<close> returns when one of them ends.
  \<^item> The stream is the parameter \<open>ops\<close> of the transport, the injector a record of operations on a state
    of its own. The operating system calls appear as their outcomes.
  \<^item> \<open>handleRead\<close> runs until something fails, so it takes the number of messages it may handle: what holds
    for every number holds for the loop. \<open>handleWrite\<close> sends one message and then only sleeps.
\<close>

section \<open>Data\<close>

datatype client_failure = ClientSystem nat | ClientRpc rpc_failure | InjectorUnsupported

record 'inj injector_ops =
  inj_initialize :: "'inj \<Rightarrow> (nat + unit) \<times> 'inj"
  inj_inject :: "input_event \<Rightarrow> 'inj \<Rightarrow> (nat + unit) \<times> 'inj"
  inj_shutdown :: "'inj \<Rightarrow> 'inj"

record client =
  cl_config :: app_config
  cl_lastScreen :: "nat option"

definition new_client :: "(nat \<Rightarrow> 32 word) \<Rightarrow> app_config \<Rightarrow> client" where
  "new_client rd config = \<lparr>cl_config = ensureMachineId rd config, cl_lastScreen = None\<rparr>"

text \<open>
  The name that \<open>gethostname\<close> left in the buffer of 256 zero bytes: the last byte is set to zero, then the
  string ends at the first zero byte.
\<close>

definition computerName :: "string \<Rightarrow> string" where
  "computerName buffer = takeWhile (\<lambda>c. c \<noteq> CHR 0x00) (take 255 buffer)"

section \<open>Connecting\<close>

text \<open>
  \<open>createInjector\<close>, \<open>connect\<close> and \<open>gethostname\<close> as outcomes. The result is the failure or the stream and
  injector the loops start with.
\<close>

definition client_hello :: "client \<Rightarrow> string \<Rightarrow> rpc_message" where
  "client_hello cl name =
     HelloMessage \<lparr>hello_version = 0, hello_machineId = cfg_machineId (cl_config cl), hello_name = name\<rparr>"

definition client_connect ::
  "'s stream_ops \<Rightarrow> rpc_codec \<Rightarrow> 'inj injector_ops \<Rightarrow> 'inj option \<Rightarrow> nat + 's \<Rightarrow> nat + string \<Rightarrow> client \<Rightarrow>
     client_failure + 's \<times> 'inj" where
  "client_connect ops codec iops createInjector connect gethostname cl =
     (case createInjector of
        None \<Rightarrow> Inl InjectorUnsupported
      | Some injector \<Rightarrow>
          (case connect of
             Inl errno \<Rightarrow> Inl (ClientSystem errno)
           | Inr stream \<Rightarrow>
               (case gethostname of
                  Inl errno \<Rightarrow> Inl (ClientSystem errno)
                | Inr buffer \<Rightarrow>
                    (case writeMessage ops codec (client_hello cl (computerName buffer)) stream of
                       (Inl e, _) \<Rightarrow> Inl (ClientRpc e)
                     | (Inr _, stream1) \<Rightarrow>
                         (case inj_initialize iops injector of
                            (Inl errno, _) \<Rightarrow> Inl (ClientSystem errno)
                          | (Inr _, injector1) \<Rightarrow> Inr (stream1, injector1))))))"

section \<open>The loops\<close>

definition handleWrite :: "'s stream_ops \<Rightarrow> rpc_codec \<Rightarrow> screen_info list \<Rightarrow> ('s, unit) io_task" where
  "handleWrite ops codec infos = writeMessage ops codec (ScreensMessage infos)"

definition handleMessage ::
  "'inj injector_ops \<Rightarrow> rpc_message \<Rightarrow> client \<times> 'inj \<Rightarrow> (client_failure + unit) \<times> client \<times> 'inj" where
  "handleMessage iops message st =
     (case (message, st) of
        (InputMessage event, (cl, injector)) \<Rightarrow>
          (case inj_inject iops event injector of
             (Inl errno, injector1) \<Rightarrow> (Inl (ClientSystem errno), cl, injector1)
           | (Inr _, injector1) \<Rightarrow>
               (Inr (), (case event of
                           MouseMoveEvent move \<Rightarrow> cl\<lparr>cl_lastScreen := Some (mv_screenIndex move)\<rparr>
                         | _ \<Rightarrow> cl), injector1))
      | _ \<Rightarrow> (Inr (), st))"

fun handleRead ::
  "'s stream_ops \<Rightarrow> rpc_codec \<Rightarrow> 'inj injector_ops \<Rightarrow> nat \<Rightarrow> 's \<times> client \<times> 'inj \<Rightarrow>
     (client_failure + unit) \<times> 's \<times> client \<times> 'inj" where
  "handleRead ops codec iops 0 st = (Inr (), st)"
| "handleRead ops codec iops (Suc n) (stream, st) =
     (case readMessage ops codec stream of
        (Inl e, stream1) \<Rightarrow> (Inl (ClientRpc e), stream1, st)
      | (Inr msg, stream1) \<Rightarrow>
          (case handleMessage iops msg st of
             (Inl e, st1) \<Rightarrow> (Inl e, stream1, st1)
           | (Inr _, st1) \<Rightarrow> handleRead ops codec iops n (stream1, st1)))"

text \<open>
  \<open>whenAny\<close> yields the result of the loop that ended and none for the other one; \<open>shutdownConnection\<close>
  runs in every case.
\<close>

definition shutdownConnection ::
  "'s stream_ops \<Rightarrow> 'inj injector_ops \<Rightarrow> 's \<times> 'inj \<Rightarrow> 's \<times> 'inj" where
  "shutdownConnection ops iops st =
     (case st of (stream, injector) \<Rightarrow>
        (transport_close ops (snd (transport_shutdown ops stream)), inj_shutdown iops injector))"

definition client_result :: "(client_failure + unit) option \<Rightarrow> (client_failure + unit) option \<Rightarrow> client_failure + unit" where
  "client_result readResult writeResult =
     (case readResult of
        Some (Inl e) \<Rightarrow> Inl e
      | _ \<Rightarrow> (case writeResult of Some (Inl e) \<Rightarrow> Inl e | _ \<Rightarrow> Inr ()))"

section \<open>Lemmas\<close>

lemma computerName_bound: "length (computerName buffer) \<le> 255"
  unfolding computerName_def by (rule le_trans [OF length_takeWhile_le]) simp

lemma computerName_no_nul: "CHR 0x00 \<notin> set (computerName buffer)"
  by (auto simp: computerName_def dest: set_takeWhileD)

lemma computerName_id: "length name \<le> 255 \<Longrightarrow> CHR 0x00 \<notin> set name \<Longrightarrow> computerName (name @ replicate n (CHR 0x00)) = name"
proof -
  assume name: "length name \<le> 255" "CHR 0x00 \<notin> set name"
  obtain m where m: "take (255 - length name) (replicate n (CHR 0x00)) = replicate m (CHR 0x00)" by simp
  have "takeWhile (\<lambda>c. c \<noteq> CHR 0x00) (name @ replicate m (CHR 0x00)) = name"
    using name(2) by (subst takeWhile_append2) (auto simp: takeWhile_replicate)
  then show ?thesis using name(1) m by (simp add: computerName_def)
qed

text \<open>What the injector has been asked to do, and what a sequence of messages asks for.\<close>

fun inputs_of :: "rpc_message list \<Rightarrow> input_event list" where
  "inputs_of [] = []"
| "inputs_of (InputMessage e # ms) = e # inputs_of ms"
| "inputs_of (_ # ms) = inputs_of ms"

fun inject_all :: "'inj injector_ops \<Rightarrow> input_event list \<Rightarrow> 'inj \<Rightarrow> (nat + unit) \<times> 'inj" where
  "inject_all iops [] j = (Inr (), j)"
| "inject_all iops (e # es) j =
     (case inj_inject iops e j of
        (Inl errno, j1) \<Rightarrow> (Inl errno, j1)
      | (Inr _, j1) \<Rightarrow> inject_all iops es j1)"

lemma readMessage_frame_of:
  assumes laws: "stream_laws ops sent pending" and codec: "codec_round_trip codec m"
    and p: "pending s = frame_of codec m @ rest"
  obtains s' where "readMessage ops codec s = (Inr m, s')" "pending s' = rest" "sent s' = sent s"
proof -
  obtain payload where payload: "codec_ser codec m = Some payload" "length payload \<le> 65535"
    "findById codec (message_id_of m) payload = Inr m"
    using codec by (auto simp: codec_round_trip_def split: option.splits)
  then have "pending s = frame (message_id_of m) payload @ rest" using p by (simp add: frame_of_def)
  with that payload(3) readMessage_frame [OF laws _ payload(2), of s "message_id_of m"] show ?thesis by metis
qed

lemma handleMessage_input: "inputs_of [m] = [e] \<Longrightarrow> m = InputMessage e"
  by (cases m) simp_all

lemma handleMessage_other: "inputs_of [m] = [] \<Longrightarrow> handleMessage iops m st = (Inr (), st)"
  by (cases m) (simp_all add: handleMessage_def)

lemma inputs_of_Cons: "inputs_of (m # ms) = inputs_of [m] @ inputs_of ms"
  by (cases m) simp_all

lemma handleRead_step:
  assumes laws: "stream_laws ops sent pending" and codec: "codec_round_trip codec m"
    and p: "pending s = frame_of codec m @ rest"
  obtains s1 where "pending s1 = rest"
    "handleRead ops codec iops (Suc n) (s, st) =
       (case handleMessage iops m st of
          (Inl e, st1) \<Rightarrow> (Inl e, s1, st1)
        | (Inr _, st1) \<Rightarrow> handleRead ops codec iops n (s1, st1))"
proof -
  obtain s1 where "readMessage ops codec s = (Inr m, s1)" "pending s1 = rest"
    using laws codec p by (rule readMessage_frame_of)
  with that show ?thesis by simp
qed

section \<open>Properties\<close>

text \<open>An injector that records what it injects and refuses the wheel.\<close>

definition log_injector :: "input_event list injector_ops" where
  "log_injector = \<lparr>inj_initialize = \<lambda>j. (Inr (), j),
     inj_inject = \<lambda>e j. (case e of MouseWheelEvent _ \<Rightarrow> (Inl 5, j) | _ \<Rightarrow> (Inr (), j @ [e])),
     inj_shutdown = \<lambda>j. j\<rparr>"

definition input_codec :: rpc_codec where
  "input_codec = demo_codec\<lparr>
     codec_ser := \<lambda>m. (case m of
        InputMessage (MouseMoveEvent e) \<Rightarrow> Some [0]
      | HelloMessage h \<Rightarrow> Some [1]
      | ScreensMessage [] \<Rightarrow> Some [2]
      | _ \<Rightarrow> codec_ser demo_codec m),
     codec_input := \<lambda>bs. Some (MouseMoveEvent (absolute_move 3 4 0))\<rparr>"

text \<open>
  The client injects exactly the input messages it receives, in the order in which the server sent them,
  and nothing else: reading the frames of any sequence of messages has the effect of injecting their inputs
  one after the other; the first injection that fails ends the loop with its error, the remaining inputs
  are not injected.
\<close>

theorem client_injects_in_order:
  assumes "stream_laws ops sent pending" and "\<forall>m \<in> set ms. codec_round_trip codec m"
    and "pending s = concat (map (frame_of codec) ms) @ rest"
  shows "case inject_all iops (inputs_of ms) j of
      (Inr _, j') \<Rightarrow> \<exists>s' cl'. handleRead ops codec iops (length ms) (s, cl, j) = (Inr (), s', cl', j') \<and> pending s' = rest
    | (Inl errno, j') \<Rightarrow> \<exists>s' cl'. handleRead ops codec iops (length ms) (s, cl, j) = (Inl (ClientSystem errno), s', cl', j')"
  using assms(2,3)
proof (induction ms arbitrary: s cl j)
  case (Cons m ms)
  have "codec_round_trip codec m" "pending s = frame_of codec m @ concat (map (frame_of codec) ms) @ rest"
    using Cons.prems by simp_all
  then obtain s1 where s1: "pending s1 = concat (map (frame_of codec) ms) @ rest"
    "handleRead ops codec iops (Suc (length ms)) (s, cl, j) =
       (case handleMessage iops m (cl, j) of
          (Inl e, st1) \<Rightarrow> (Inl e, s1, st1)
        | (Inr _, st1) \<Rightarrow> handleRead ops codec iops (length ms) (s1, st1))"
    by (rule handleRead_step [OF assms(1), where iops = iops and n = "length ms" and st = "(cl, j)"])
  then have step: "handleRead ops codec iops (length (m # ms)) (s, cl, j) =
       (case handleMessage iops m (cl, j) of
          (Inl e, st1) \<Rightarrow> (Inl e, s1, st1)
        | (Inr _, st1) \<Rightarrow> handleRead ops codec iops (length ms) (s1, st1))"
    by (simp del: handleRead.simps)
  note IH = Cons.IH [OF _ s1(1)]
  show ?case
  proof (cases "\<exists>e. m = InputMessage e")
    case False
    then have "inputs_of [m] = []" by (cases m) auto
    then have "inputs_of (m # ms) = inputs_of ms" "handleMessage iops m (cl, j) = (Inr (), cl, j)"
      using inputs_of_Cons [of m ms] handleMessage_other by auto
    moreover from this(2) have "handleRead ops codec iops (length (m # ms)) (s, cl, j) =
        handleRead ops codec iops (length ms) (s1, cl, j)"
      unfolding step by simp
    ultimately show ?thesis using IH [of cl j] Cons.prems(1) by (simp only:) simp
  next
    case True
    then obtain e where m: "m = InputMessage e" ..
    obtain r j1 where inj1: "inj_inject iops e j = (r, j1)" by (cases "inj_inject iops e j")
    show ?thesis
    proof (cases r)
      case (Inl errno)
      with m inj1 have "handleRead ops codec iops (length (m # ms)) (s, cl, j) = (Inl (ClientSystem errno), s1, cl, j1)"
        unfolding step by (simp add: handleMessage_def)
      with m inj1 Inl show ?thesis by simp
    next
      case (Inr u)
      define cl1 where "cl1 = (case e of MouseMoveEvent move \<Rightarrow> cl\<lparr>cl_lastScreen := Some (mv_screenIndex move)\<rparr> | _ \<Rightarrow> cl)"
      have "handleMessage iops m (cl, j) = (Inr (), cl1, j1)"
        using m inj1 Inr by (simp add: handleMessage_def cl1_def)
      then have "handleRead ops codec iops (length (m # ms)) (s, cl, j) = handleRead ops codec iops (length ms) (s1, cl1, j1)"
        unfolding step by simp
      moreover have "inject_all iops (inputs_of (m # ms)) j = inject_all iops (inputs_of ms) j1"
        using m inj1 Inr by simp
      ultimately show ?thesis using IH [of cl1 j1] Cons.prems(1) by (simp only:) simp
    qed
  qed
qed simp

theorem client_injects_in_order_witness:
  "\<exists>s' cl'. handleRead mem_ops input_codec log_injector 2 (([], [0, 1, 0, 3, 7, 0, 1, 0, 2, 0]), new_client (\<lambda>_. 0) default_config, []) =
     (Inr (), s', cl', [MouseMoveEvent (absolute_move 3 4 0)])"
proof -
  let ?ms = "[PingMessage 7, InputMessage (MouseMoveEvent (absolute_move 3 4 0))]"
  have codec: "\<forall>m \<in> set ?ms. codec_round_trip input_codec m"
    by (simp add: codec_round_trip_def input_codec_def demo_codec_def findById_def parse_as_def)
  have wire: "snd ([], [0, 1, 0, 3, 7, 0, 1, 0, 2, 0]) = concat (map (frame_of input_codec) ?ms) @ []"
    by (simp add: frame_of_def input_codec_def demo_codec_def frame_def u16_be_def)
  have inject: "inject_all log_injector (inputs_of ?ms) [] = (Inr (), [MouseMoveEvent (absolute_move 3 4 0)])"
    by (simp add: log_injector_def)
  have two: "length ?ms = 2" by simp
  show ?thesis
    using client_injects_in_order [OF mem_laws codec wire, where iops = log_injector and j = "[]" and cl = "new_client (\<lambda>_. 0) default_config"]
    unfolding inject two by auto
qed

text \<open>
  What a client puts on the wire: first a hello with protocol version 0, its machine id (the configured one, or
  a generated one, never empty) and the computer name (at most 255 characters, none of them zero), and only
  after the injector is ready the screens of its platform. If the injector is missing or anything fails
  before, no screens are sent.
\<close>

theorem client_announces:
  assumes "stream_laws ops sent pending"
    and "client_connect ops codec iops createInjector connect gethostname (new_client rd config) = Inr (s1, j1)"
    and "handleWrite ops codec infos s1 = (Inr (), s2)"
  shows "\<exists>s0 j0 mid name. connect = Inr s0 \<and> createInjector = Some j0 \<and> inj_initialize iops j0 = (Inr (), j1) \<and>
    sent s2 = sent s0 @ frame_of codec (HelloMessage \<lparr>hello_version = 0, hello_machineId = mid, hello_name = name\<rparr>) @
      frame_of codec (ScreensMessage infos) \<and>
    mid \<noteq> [] \<and> (cfg_machineId config \<noteq> [] \<longrightarrow> mid = cfg_machineId config) \<and>
    length name \<le> 255 \<and> CHR 0x00 \<notin> set name"
proof -
  let ?cl = "new_client rd config"
  obtain j0 s0 buffer where env: "createInjector = Some j0" "connect = Inr s0" "gethostname = Inr buffer"
    and hello: "writeMessage ops codec (client_hello ?cl (computerName buffer)) s0 = (Inr (), s1)"
    and init: "inj_initialize iops j0 = (Inr (), j1)"
    using assms(2) by (auto simp: client_connect_def split: option.splits sum.splits prod.splits)
  have sent1: "sent s1 = sent s0 @ frame_of codec (client_hello ?cl (computerName buffer))"
    using hello by (rule writeMessage_success [OF assms(1)]) (simp add: frame_of_def)
  have "sent s2 = sent s1 @ frame_of codec (ScreensMessage infos)"
    using assms(3) unfolding handleWrite_def by (rule writeMessage_success [OF assms(1)]) (simp add: frame_of_def)
  then have "sent s2 = sent s0 @ frame_of codec (HelloMessage \<lparr>hello_version = 0,
      hello_machineId = cfg_machineId (cl_config ?cl), hello_name = computerName buffer\<rparr>) @
      frame_of codec (ScreensMessage infos)"
    using sent1 by (simp add: client_hello_def)
  moreover have "cfg_machineId (cl_config ?cl) \<noteq> []"
    "cfg_machineId config \<noteq> [] \<longrightarrow> cfg_machineId (cl_config ?cl) = cfg_machineId config"
    using ensureMachineId_nonempty [of rd config] by (simp_all add: new_client_def ensureMachineId_def)
  ultimately show ?thesis
    using env init computerName_bound [of buffer] computerName_no_nul [of buffer] by blast
qed

theorem client_announces_witness:
  "\<exists>s1 j1 s2. client_connect mem_ops input_codec log_injector (Some []) (Inr ([], [])) (Inr ''pc'')
       (new_client (\<lambda>_. 0) (default_config\<lparr>cfg_machineId := ''m''\<rparr>)) = Inr (s1, j1) \<and>
     handleWrite mem_ops input_codec [] s1 = (Inr (), s2) \<and>
     fst s2 = [0, 1, 0, 0, 1] @ [0, 1, 0, 1, 2]"
proof -
  have c: "client_connect mem_ops input_codec log_injector (Some []) (Inr ([], [])) (Inr ''pc'')
       (new_client (\<lambda>_. 0) (default_config\<lparr>cfg_machineId := ''m''\<rparr>)) = Inr (([0, 1, 0, 0, 1], []), [])"
    by (simp add: client_connect_def writeMessage_def writePayload_def co_try_def co_return_def writeHeader_def
        mem_ops_def input_codec_def client_hello_def u16_be_def log_injector_def)
  have w: "handleWrite mem_ops input_codec [] ([0, 1, 0, 0, 1], []) = (Inr (), [0, 1, 0, 0, 1, 0, 1, 0, 1, 2], [])"
    by (simp add: handleWrite_def writeMessage_def writePayload_def co_try_def co_return_def writeHeader_def
        mem_ops_def input_codec_def u16_be_def)
  have frames: "frame_of input_codec (HelloMessage h) = [0, 1, 0, 0, 1]" "frame_of input_codec (ScreensMessage []) = [0, 1, 0, 1, 2]" for h
    by (simp_all add: frame_of_def input_codec_def frame_def u16_be_def)
  from client_announces [OF mem_laws c w] have "fst ([0, 1, 0, 0, 1, 0, 1, 0, 1, 2] :: bytes, [] :: bytes) = [0, 1, 0, 0, 1] @ [0, 1, 0, 1, 2]"
    by (auto simp: frames)
  with c w show ?thesis by auto
qed

end
