(* ===== verification/Backend_Registry.thy ===== *)
theory Backend_Registry
  imports Key_Codes "HOL-Library.Product_Lexorder" "HOL-Library.Multiset"
begin

text \<open>
  Registration, check and selection of the platform backends: \<open>src/platform/backend.hpp\<close> and
  \<open>src/platform/backend.cpp\<close>.

  \<^item> A descriptor holds two function pointers that may be null. The functions belong to the backends; during
    one selection each is called at most once, so a descriptor holds the outcome of the call: an exception
    with its text, or a value. \<open>'p\<close> is the type of platforms.
  \<^item> The registry is filled by static initializers of several translation units, whose order C++ leaves
    open. \<open>register\<close> is one registration.
  \<^item> Requirements are flags in eight bits.
\<close>

section \<open>Requirements and checks\<close>

type_synonym backend_requirement = "8 word"

abbreviation (input) Requirement_None :: backend_requirement where "Requirement_None \<equiv> 0"
abbreviation (input) Requirement_Screens :: backend_requirement where "Requirement_Screens \<equiv> 1"
abbreviation (input) Requirement_Capture :: backend_requirement where "Requirement_Capture \<equiv> 2"
abbreviation (input) Requirement_Injection :: backend_requirement where "Requirement_Injection \<equiv> 4"

definition requirement_or :: "backend_requirement \<Rightarrow> backend_requirement \<Rightarrow> backend_requirement" where
  "requirement_or left right = left OR right"

definition requirement_and :: "backend_requirement \<Rightarrow> backend_requirement \<Rightarrow> backend_requirement" where
  "requirement_and left right = left AND right"

definition hasRequirement :: "backend_requirement \<Rightarrow> backend_requirement \<Rightarrow> bool" where
  "hasRequirement value required \<longleftrightarrow> requirement_and value required \<noteq> Requirement_None"

record feature_check =
  fc_supported :: bool
  fc_detail :: string

record backend_check =
  bc_available :: bool
  bc_detail :: string
  bc_screens :: feature_check
  bc_capture :: feature_check
  bc_injection :: feature_check

definition supports :: "backend_check \<Rightarrow> backend_requirement \<Rightarrow> bool" where
  "supports check requirements =
     (if \<not> bc_available check then False
      else if hasRequirement requirements Requirement_Screens \<and> \<not> fc_supported (bc_screens check) then False
      else if hasRequirement requirements Requirement_Capture \<and> \<not> fc_supported (bc_capture check) then False
      else if hasRequirement requirements Requirement_Injection \<and> \<not> fc_supported (bc_injection check) then False
      else True)"

definition unavailableCheck :: "string \<Rightarrow> backend_check" where
  "unavailableCheck detail =
     (let feature = \<lparr>fc_supported = False, fc_detail = ''Backend unavailable''\<rparr>
      in \<lparr>bc_available = False, bc_detail = detail, bc_screens = feature, bc_capture = feature, bc_injection = feature\<rparr>)"

section \<open>The registry\<close>

record 'p descriptor =
  bd_name :: string
  bd_displayName :: string
  bd_order :: nat
  bd_check :: "(string + backend_check) option"
  bd_create :: "(string + 'p option) option"

type_synonym 'p registry = "'p descriptor list"

definition find_named :: "string \<Rightarrow> 'p registry \<Rightarrow> 'p descriptor option" where
  "find_named name = find (\<lambda>d. bd_name d = name)"

definition incomplete :: "'p descriptor \<Rightarrow> bool" where
  "incomplete d \<longleftrightarrow> bd_name d = [] \<or> bd_displayName d = [] \<or> bd_check d = None \<or> bd_create d = None"

definition register :: "'p descriptor \<Rightarrow> 'p registry \<Rightarrow> 'p registry" where
  "register d reg =
     (if incomplete d then reg
      else if find_named (bd_name d) reg \<noteq> None then reg
      else reg @ [d])"

definition registeredBackends :: "'p registry \<Rightarrow> 'p descriptor list" where
  "registeredBackends reg = sort_key (\<lambda>d. (bd_order d, bd_name d)) reg"

definition findBackend :: "string \<Rightarrow> 'p registry \<Rightarrow> 'p descriptor option" where
  "findBackend name reg = find_named name (registeredBackends reg)"

section \<open>Checking and selecting\<close>

definition checkBackend :: "'p registry \<Rightarrow> string \<Rightarrow> backend_check" where
  "checkBackend reg name =
     (case findBackend name reg of
        None \<Rightarrow> unavailableCheck (''Unknown backend '' @ [CHR 0x27] @ name @ [CHR 0x27])
      | Some d \<Rightarrow>
          (case the (bd_check d) of
             Inl what \<Rightarrow> unavailableCheck what
           | Inr check \<Rightarrow> check))"

definition checkBackends :: "'p registry \<Rightarrow> ('p descriptor \<times> backend_check) list" where
  "checkBackends reg = map (\<lambda>d. (d, checkBackend reg (bd_name d))) (registeredBackends reg)"

datatype 'p selection =
    NoSuchDevice
  | NotSupported
  | CreateThrew string
  | Selected 'p "'p descriptor" backend_check

fun select_from :: "'p registry \<Rightarrow> backend_requirement \<Rightarrow> 'p descriptor list \<Rightarrow> 'p selection" where
  "select_from reg requirements [] = NotSupported"
| "select_from reg requirements (d # candidates) =
     (let check = checkBackend reg (bd_name d)
      in if \<not> supports check requirements then select_from reg requirements candidates
         else (case the (bd_create d) of
                 Inl what \<Rightarrow> CreateThrew what
               | Inr None \<Rightarrow> select_from reg requirements candidates
               | Inr (Some platform) \<Rightarrow> Selected platform d check))"

definition selectBackend :: "'p registry \<Rightarrow> string \<Rightarrow> backend_requirement \<Rightarrow> 'p selection" where
  "selectBackend reg name requirements =
     (if name = [] \<or> name = ''auto'' then select_from reg requirements (registeredBackends reg)
      else (case findBackend name reg of
              Some d \<Rightarrow> select_from reg requirements [d]
            | None \<Rightarrow> NoSuchDevice))"

section \<open>Probing\<close>

text \<open>
  What the backend under probe does: each call throws, or returns. \<open>if_create\<close> tells whether the interface
  is provided, \<open>if_shutdown\<close> is the exception of the shutdown, if any.
\<close>

record interface_probe =
  if_create :: "string + bool"
  if_initialize :: "string + string option"
  if_shutdown :: "string option"

definition probe_interface :: "string \<Rightarrow> interface_probe \<Rightarrow> feature_check" where
  "probe_interface label p =
     (case if_create p of
        Inl what \<Rightarrow> \<lparr>fc_supported = False, fc_detail = what\<rparr>
      | Inr False \<Rightarrow> \<lparr>fc_supported = False, fc_detail = label @ '' interface is not provided''\<rparr>
      | Inr True \<Rightarrow>
          (case if_initialize p of
             Inl what \<Rightarrow> \<lparr>fc_supported = False, fc_detail = what\<rparr>
           | Inr failure \<Rightarrow>
               (let result = \<lparr>fc_supported = (failure = None),
                              fc_detail = (case failure of None \<Rightarrow> label @ '' initialization succeeded'' | Some msg \<Rightarrow> msg)\<rparr>
                in (case if_shutdown p of None \<Rightarrow> result | Some what \<Rightarrow> result\<lparr>fc_detail := what\<rparr>))))"

definition probe_screens :: "(nat \<Rightarrow> string) \<Rightarrow> string + nat \<Rightarrow> feature_check" where
  "probe_screens fmt outcome =
     (case outcome of
        Inl what \<Rightarrow> \<lparr>fc_supported = False, fc_detail = what\<rparr>
      | Inr n \<Rightarrow> \<lparr>fc_supported = (n \<noteq> 0),
                  fc_detail = (if n = 0 then ''No outputs were reported'' else fmt n @ '' output(s)'')\<rparr>)"

definition probeBackend ::
  "(nat \<Rightarrow> string) \<Rightarrow> string \<Rightarrow> string + 'p option \<Rightarrow> string + nat \<Rightarrow> interface_probe \<Rightarrow> interface_probe \<Rightarrow> backend_check" where
  "probeBackend fmt displayName create screens capture injector =
     (case create of
        Inl what \<Rightarrow> unavailableCheck what
      | Inr None \<Rightarrow> unavailableCheck (displayName @ '' could not be created'')
      | Inr (Some platform) \<Rightarrow>
          \<lparr>bc_available = True, bc_detail = displayName @ '' is available'',
           bc_screens = probe_screens fmt screens,
           bc_capture = probe_interface ''Capture'' capture,
           bc_injection = probe_interface ''Injection'' injector\<rparr>)"

section \<open>Lemmas\<close>

definition registry_inv :: "'p registry \<Rightarrow> bool" where
  "registry_inv reg \<longleftrightarrow> distinct (map bd_name reg) \<and> (\<forall>d \<in> set reg. \<not> incomplete d)"

lemma registry_inv_Nil [simp]: "registry_inv []"
  by (simp add: registry_inv_def)

lemma find_named_None: "find_named name reg = None \<longleftrightarrow> name \<notin> bd_name ` set reg"
  by (auto simp: find_named_def find_None_iff)

lemma find_named_Some:
  "distinct (map bd_name reg) \<Longrightarrow> find_named name reg = Some d \<longleftrightarrow> d \<in> set reg \<and> bd_name d = name"
  by (induction reg) (auto simp: find_named_def)

lemma register_inv: "registry_inv reg \<Longrightarrow> registry_inv (register d reg)"
  by (auto simp: registry_inv_def register_def find_named_None)

lemma register_all_inv: "registry_inv reg \<Longrightarrow> registry_inv (fold register ds reg)"
  by (induction ds arbitrary: reg) (simp_all add: register_inv)

lemma registered_set [simp]: "set (registeredBackends reg) = set reg"
  by (simp add: registeredBackends_def)

lemma registered_distinct: "distinct (map bd_name reg) \<Longrightarrow> distinct (map bd_name (registeredBackends reg))"
  by (metis (no_types, lifting) registeredBackends_def mset_sort mset_map mset_eq_imp_distinct_iff)

lemma findBackend_iff: "registry_inv reg \<Longrightarrow> findBackend name reg = Some d \<longleftrightarrow> d \<in> set reg \<and> bd_name d = name"
  by (simp add: findBackend_def find_named_Some registered_distinct registry_inv_def)

lemma register_all_complete:
  "registry_inv reg \<Longrightarrow> \<forall>d \<in> set ds. \<not> incomplete d \<Longrightarrow> distinct (map bd_name (reg @ ds)) \<Longrightarrow>
     fold register ds reg = reg @ ds"
proof (induction ds arbitrary: reg)
  case (Cons d ds)
  have "find_named (bd_name d) reg = None" using Cons.prems(3) by (auto simp: find_named_None)
  then have "register d reg = reg @ [d]" using Cons.prems(2) by (simp add: register_def)
  moreover have "registry_inv (register d reg)" using Cons.prems(1) by (rule register_inv)
  ultimately show ?case using Cons.IH [of "register d reg"] Cons.prems(2,3) by simp
qed simp

text \<open>Sorting by a key that no two elements share does not depend on the order of the list.\<close>

lemma sort_key_unique:
  assumes "mset xs = mset ys" "inj_on f (set xs)"
  shows "sort_key f xs = sort_key f ys"
proof (rule properties_for_sort_key)
  show "mset (sort_key f ys) = mset xs" using assms(1) by simp
  have set: "set ys = set xs" using assms(1) by (metis set_mset_mset)
  show "filter (\<lambda>x. f k = f x) (sort_key f ys) = filter (\<lambda>x. f k = f x) xs"
    if "k \<in> set (sort_key f ys)" for k
  proof -
    have "k \<in> set xs" using that set by simp
    have "f k = f x \<longleftrightarrow> x = k" if "x \<in> set xs" for x using assms(2) \<open>k \<in> set xs\<close> that by (auto dest: inj_onD)
    then have "filter (\<lambda>x. f k = f x) zs = filter (\<lambda>x. x = k) zs" if "set zs = set xs" for zs
      using that by (intro filter_cong) auto
    moreover have "filter (\<lambda>x. x = k) zs = replicate (count (mset zs) k) k" for zs
      by (induction zs) auto
    ultimately show ?thesis using assms(1) set by simp
  qed
qed simp

lemma select_from_cases:
  "case select_from reg requirements ds of
     Selected p d check \<Rightarrow> (\<exists>before after. ds = before @ d # after \<and> check = checkBackend reg (bd_name d) \<and>
        supports check requirements \<and> the (bd_create d) = Inr (Some p) \<and>
        (\<forall>b \<in> set before. \<not> supports (checkBackend reg (bd_name b)) requirements \<or> the (bd_create b) = Inr None))
   | NotSupported \<Rightarrow> (\<forall>d \<in> set ds. \<not> supports (checkBackend reg (bd_name d)) requirements \<or> the (bd_create d) = Inr None)
   | CreateThrew what \<Rightarrow> (\<exists>d \<in> set ds. supports (checkBackend reg (bd_name d)) requirements \<and> the (bd_create d) = Inl what)
   | NoSuchDevice \<Rightarrow> False"
proof (induction ds)
  case (Cons d ds)
  have skip: ?case if "select_from reg requirements (d # ds) = select_from reg requirements ds"
    "\<not> supports (checkBackend reg (bd_name d)) requirements \<or> the (bd_create d) = Inr None"
  proof -
    show ?thesis
    proof (cases "select_from reg requirements ds")
      case (Selected p s check)
      then obtain before after where b: "ds = before @ s # after" "check = checkBackend reg (bd_name s)"
        "supports check requirements" "the (bd_create s) = Inr (Some p)"
        "\<forall>b \<in> set before. \<not> supports (checkBackend reg (bd_name b)) requirements \<or> the (bd_create b) = Inr None"
        using Cons.IH by auto
      have "d # ds = (d # before) @ s # after" using b(1) by simp
      moreover have "\<forall>b \<in> set (d # before). \<not> supports (checkBackend reg (bd_name b)) requirements \<or> the (bd_create b) = Inr None"
        using b(5) that(2) by simp
      ultimately show ?thesis unfolding that(1) Selected selection.case using b(2-4) by blast
    qed (use Cons.IH that in auto)
  qed
  show ?case
  proof (cases "supports (checkBackend reg (bd_name d)) requirements \<and> the (bd_create d) \<noteq> Inr None")
    case False
    then show ?thesis by (intro skip) (auto simp: Let_def)
  next
    case True
    then show ?thesis by (cases "the (bd_create d)") (force simp: Let_def)+
  qed
qed simp

lemma sorted_before:
  assumes "sorted (map f (before @ d # after))" "x \<in> set (before @ d # after)" "f x < f d"
  shows "x \<in> set before"
proof -
  have "f d \<le> f y" if "y \<in> set after" for y using assms(1) that by (simp add: sorted_append)
  then show ?thesis using assms(2,3) by (fastforce simp: not_less [symmetric])
qed

lemma registered_sorted: "sorted (map (\<lambda>d. (bd_order d, bd_name d)) (registeredBackends reg))"
  by (simp add: registeredBackends_def)

definition unsuitable :: "'p registry \<Rightarrow> backend_requirement \<Rightarrow> 'p descriptor \<Rightarrow> bool" where
  "unsuitable reg requirements d \<longleftrightarrow>
     \<not> supports (checkBackend reg (bd_name d)) requirements \<or> bd_create d = Some (Inr None)"

lemma selection_supports:
  assumes "registry_inv reg" "selectBackend reg name req = Selected platform d check"
  shows "d \<in> set reg" "check = checkBackend reg (bd_name d)" "supports check req" "the (bd_create d) = Inr (Some platform)"
proof -
  have "\<exists>ds. set ds \<subseteq> set reg \<and> select_from reg req ds = Selected platform d check"
  proof (cases "name = [] \<or> name = ''auto''")
    case True
    with assms(2) show ?thesis by (intro exI [of _ "registeredBackends reg"]) (simp add: selectBackend_def)
  next
    case False
    with assms(2) obtain d' where d': "findBackend name reg = Some d'" by (auto simp: selectBackend_def split: option.splits)
    with findBackend_iff [OF assms(1)] have "d' \<in> set reg" by simp
    with False assms(2) d' show ?thesis
      by (intro exI [of _ "[d']"]) (simp add: selectBackend_def del: select_from.simps)
  qed
  then obtain ds where ds: "set ds \<subseteq> set reg" "select_from reg req ds = Selected platform d check" by blast
  with select_from_cases [where reg = reg and requirements = req and ds = ds]
  show "d \<in> set reg" "check = checkBackend reg (bd_name d)" "supports check req" "the (bd_create d) = Inr (Some platform)"
    by auto
qed

lemma check_registered:
  assumes "registry_inv reg" "d \<in> set reg" "bd_check d = Some (Inr check)"
  shows "checkBackend reg (bd_name d) = check"
proof -
  have "findBackend (bd_name d) reg = Some d" using findBackend_iff [OF assms(1)] assms(2) by simp
  with assms(3) show ?thesis by (simp add: checkBackend_def)
qed

section \<open>Properties\<close>

definition demo_check :: "bool \<Rightarrow> backend_check" where
  "demo_check ok = (let f = (\<lambda>b. \<lparr>fc_supported = b, fc_detail = []\<rparr>)
     in \<lparr>bc_available = True, bc_detail = [], bc_screens = f True, bc_capture = f ok, bc_injection = f True\<rparr>)"

definition demo_backend :: "string \<Rightarrow> nat \<Rightarrow> bool \<Rightarrow> nat \<Rightarrow> nat descriptor" where
  "demo_backend name order capture platform =
     \<lparr>bd_name = name, bd_displayName = name, bd_order = order, bd_check = Some (Inr (demo_check capture)),
      bd_create = Some (Inr (Some platform))\<rparr>"

definition demo_registry :: "nat registry" where
  "demo_registry = [demo_backend ''xcb'' 20 True 1, demo_backend ''wayland'' 10 False 2]"

lemma demo_registry_inv: "registry_inv demo_registry"
  by (simp add: registry_inv_def demo_registry_def demo_backend_def incomplete_def)

text \<open>
  Which platform the program runs on: a selected backend is registered, its check supports everything
  that is required and it created the platform. Without a name, or with ''auto'', it is the first such
  backend by order and name; with a name it is the one of that name. An unknown name is reported as such,
  and the selection fails as unsupported only if every candidate is unsuitable.
\<close>

theorem selectBackend_first_suitable:
  assumes "registry_inv reg"
  shows "case selectBackend reg name requirements of
     Selected platform d check \<Rightarrow>
       d \<in> set reg \<and> check = checkBackend reg (bd_name d) \<and> supports check requirements \<and>
       bd_create d = Some (Inr (Some platform)) \<and>
       (if name = [] \<or> name = ''auto''
        then \<forall>b \<in> set reg. (bd_order b, bd_name b) < (bd_order d, bd_name d) \<longrightarrow> unsuitable reg requirements b
        else bd_name d = name)
   | NotSupported \<Rightarrow>
       \<forall>d \<in> set reg. name = [] \<or> name = ''auto'' \<or> name = bd_name d \<longrightarrow> unsuitable reg requirements d
   | CreateThrew what \<Rightarrow> \<exists>d \<in> set reg. supports (checkBackend reg (bd_name d)) requirements \<and> bd_create d = Some (Inl what)
   | NoSuchDevice \<Rightarrow> name \<noteq> [] \<and> name \<noteq> ''auto'' \<and> name \<notin> bd_name ` set reg"
proof -
  have create: "d \<in> set reg \<Longrightarrow> the (bd_create d) = outcome \<longleftrightarrow> bd_create d = Some outcome" for d outcome
    using assms by (auto simp: registry_inv_def incomplete_def)
  show ?thesis
  proof (cases "name = [] \<or> name = ''auto''")
    case True
    then have sel: "selectBackend reg name requirements = select_from reg requirements (registeredBackends reg)"
      by (simp add: selectBackend_def)
    note cases = select_from_cases [where reg = reg and requirements = requirements and ds = "registeredBackends reg"]
    show ?thesis
    proof (cases "selectBackend reg name requirements")
      case (Selected platform d check)
      then obtain before after where b: "registeredBackends reg = before @ d # after"
        "check = checkBackend reg (bd_name d)" "supports check requirements" "the (bd_create d) = Inr (Some platform)"
        "\<forall>b \<in> set before. \<not> supports (checkBackend reg (bd_name b)) requirements \<or> the (bd_create b) = Inr None"
        using cases sel by auto
      have set: "set reg = set (before @ d # after)" by (simp flip: b(1))
      have "unsuitable reg requirements x"
        if "x \<in> set reg" "(bd_order x, bd_name x) < (bd_order d, bd_name d)" for x
        using sorted_before [OF registered_sorted [of reg, unfolded b(1)], of x] that b(5) create
        by (auto simp: set unsuitable_def)
      with Selected b(2-4) True create [of d] set show ?thesis by simp
    qed (use cases sel True create in \<open>auto simp: unsuitable_def\<close>)
  next
    case False
    show ?thesis
    proof (cases "findBackend name reg")
      case None
      then have "name \<notin> bd_name ` set reg" by (simp add: findBackend_def find_named_None)
      with None False show ?thesis by (simp add: selectBackend_def)
    next
      case (Some d)
      have d: "d \<in> set reg" "bd_name d = name" using Some findBackend_iff [OF assms] by auto
      have unique: "x = d" if "x \<in> set reg" "name = bd_name x" for x
        using findBackend_iff [OF assms, of name x] Some that by simp
      have all: "\<forall>x \<in> set reg. name = [] \<or> name = ''auto'' \<or> name = bd_name x \<longrightarrow> unsuitable reg requirements x"
        if "unsuitable reg requirements d"
        using that False unique by auto
      have sel: "selectBackend reg name requirements =
          (if \<not> supports (checkBackend reg (bd_name d)) requirements then NotSupported
           else (case the (bd_create d) of
                   Inl what \<Rightarrow> CreateThrew what
                 | Inr None \<Rightarrow> NotSupported
                 | Inr (Some platform) \<Rightarrow> Selected platform d (checkBackend reg (bd_name d))))"
        using False Some by (simp add: selectBackend_def Let_def split: sum.split option.split)
      show ?thesis
      proof (cases "unsuitable reg requirements d")
        case True
        then have "selectBackend reg name requirements = NotSupported"
          unfolding sel using create [OF d(1)] by (auto simp: unsuitable_def)
        with all [OF True] show ?thesis by simp
      next
        case suitable: False
        then have ok: "supports (checkBackend reg (bd_name d)) requirements" by (simp add: unsuitable_def)
        obtain r where r: "bd_create d = Some r" "r \<noteq> Inr None"
          using suitable create [OF d(1), of "the (bd_create d)"] by (metis unsuitable_def)
        show ?thesis
        proof (cases r)
          case (Inl what)
          then have "selectBackend reg name requirements = CreateThrew what" unfolding sel using ok r by simp
          with ok r Inl d(1) show ?thesis by auto
        next
          case (Inr p)
          with r obtain platform where p: "p = Some platform" by (cases p) auto
          have "selectBackend reg name requirements = Selected platform d (checkBackend reg (bd_name d))"
            unfolding sel using ok r Inr p by simp
          with ok r Inr p d False show ?thesis by simp
        qed
      qed
    qed
  qed
qed

theorem selectBackend_first_suitable_witness:
  "selectBackend demo_registry ''auto'' 3 = Selected 1 (demo_backend ''xcb'' 20 True 1) (demo_check True) \<and>
   unsuitable demo_registry 3 (demo_backend ''wayland'' 10 False 2)"
proof -
  have sel: "selectBackend demo_registry ''auto'' 3 = Selected 1 (demo_backend ''xcb'' 20 True 1) (demo_check True)"
    by (simp add: selectBackend_def registeredBackends_def demo_registry_def demo_backend_def checkBackend_def
        findBackend_def find_named_def demo_check_def supports_def hasRequirement_def requirement_and_def Let_def)
  have "demo_backend ''wayland'' 10 False 2 \<in> set demo_registry" by (simp add: demo_registry_def)
  moreover have "(bd_order (demo_backend ''wayland'' 10 False 2), bd_name (demo_backend ''wayland'' 10 False 2)) <
      (bd_order (demo_backend ''xcb'' 20 True 1), bd_name (demo_backend ''xcb'' 20 True 1))"
    by (simp add: demo_backend_def)
  ultimately show ?thesis
    using selectBackend_first_suitable [OF demo_registry_inv, of "''auto''" 3] sel by auto
qed

text \<open>
  C++ does not fix the order in which the backends register themselves; the program does not depend on it:
  whatever the order, the list of backends is the same, it is sorted by order and name and holds exactly
  the registered backends.
\<close>

theorem registration_order_irrelevant:
  assumes "\<forall>d \<in> set ds. \<not> incomplete d" and "distinct (map bd_name ds)" and "mset ds' = mset ds"
  shows "registeredBackends (fold register ds' []) = registeredBackends (fold register ds []) \<and>
    mset (registeredBackends (fold register ds [])) = mset ds \<and>
    sorted (map (\<lambda>d. (bd_order d, bd_name d)) (registeredBackends (fold register ds [])))"
proof -
  have same: "set ds' = set ds" "distinct (map bd_name ds')"
    using assms(2,3) by (metis set_mset_mset, metis mset_map mset_eq_imp_distinct_iff)
  have "fold register ds [] = ds" "fold register ds' [] = ds'"
    using register_all_complete [of "[]" ds] register_all_complete [of "[]" ds'] assms(1,2) same by simp_all
  moreover have "inj_on (\<lambda>d. (bd_order d, bd_name d)) (set ds')"
    using same(2) by (auto simp: inj_on_def distinct_map)
  ultimately show ?thesis
    using sort_key_unique [OF assms(3), of "\<lambda>d. (bd_order d, bd_name d)"] registered_sorted
    by (simp add: registeredBackends_def)
qed

theorem registration_order_irrelevant_witness:
  "registeredBackends (fold register (rev demo_registry) []) = registeredBackends (fold register demo_registry [])"
proof -
  have "\<forall>d \<in> set demo_registry. \<not> incomplete d" "distinct (map bd_name demo_registry)"
    using demo_registry_inv by (simp_all add: registry_inv_def)
  from registration_order_irrelevant [OF this, of "rev demo_registry"] show ?thesis by simp
qed

text \<open>
  Requirements combine: a check supports a combination exactly if it supports each part, and an
  available backend supports the empty requirement.
\<close>

theorem supports_combines:
  "supports check (requirement_or a b) \<longleftrightarrow> supports check a \<and> supports check b"
proof -
  have "hasRequirement (requirement_or a b) m \<longleftrightarrow> hasRequirement a m \<or> hasRequirement b m" for m
    by (simp add: hasRequirement_def requirement_and_def requirement_or_def bit.conj_disj_distrib2)
       (simp add: or_eq_0_iff)
  then show ?thesis by (auto simp: supports_def)
qed

text \<open>
  A probe reports a feature exactly if using it worked: screens if at least one output was listed, capture
  and injection if the interface exists and its initialization succeeded, whatever exceptions the other
  interfaces or the final shutdown raise; a backend that cannot be created supports nothing.
\<close>

theorem probeBackend_exact:
  "let check = probeBackend fmt name create screens capture injector;
       created = (\<exists>platform. create = Inr (Some platform))
   in (bc_available check \<longleftrightarrow> created) \<and>
      (supports check Requirement_Screens \<longleftrightarrow> created \<and> (\<exists>n > 0. screens = Inr n)) \<and>
      (supports check Requirement_Capture \<longleftrightarrow> created \<and> if_create capture = Inr True \<and> if_initialize capture = Inr None) \<and>
      (supports check Requirement_Injection \<longleftrightarrow> created \<and> if_create injector = Inr True \<and> if_initialize injector = Inr None)"
proof -
  have iface: "fc_supported (probe_interface label p) \<longleftrightarrow> if_create p = Inr True \<and> if_initialize p = Inr None" for label p
    by (auto simp: probe_interface_def Let_def split: sum.split bool.split option.split)
  have scr: "fc_supported (probe_screens fmt screens) \<longleftrightarrow> (\<exists>n > 0. screens = Inr n)"
    by (auto simp: probe_screens_def split: sum.split)
  show ?thesis
    by (auto simp: probeBackend_def supports_def hasRequirement_def requirement_and_def unavailableCheck_def Let_def
        iface scr split: sum.split option.split)
qed

end
