(* ===== verification/Key_Evdev.thy ===== *)
theory Key_Evdev
  imports Key_Codes
begin

text \<open>
  The key tables of the Wayland backend: \<open>src/platform/wayland_keymap.hpp\<close>. \<open>evdevKeyCode\<close> translates a
  key to a Linux input code for injection, \<open>keyFromEvdev\<close> searches it backwards for capture.

  \<^item> The input codes are macros of the system header \<open>linux/input-event-codes.h\<close>, which is not part of the
    repository: they are the parameter \<open>code\<close>, a function from the name of the macro, without its prefix
    \<open>KEY_\<close>, to its value. \<open>codes_distinct\<close> is the documented fact that different macros have different
    values. \<open>linux_code\<close> instantiates the parameter with the values of the Linux header.
  \<^item> The labels of the \<open>switch\<close> are the keys of a table, in the order and groups of the source.
  \<^item> The search visits the numbers from 0 to the last enumerator; a number without an enumerator has no
    label and is skipped.
\<close>

section \<open>From keys to input codes\<close>

definition evdev_letters :: "(key \<times> string) list" where
  "evdev_letters =
    [(Key_A, ''A''), (Key_B, ''B''), (Key_C, ''C''), (Key_D, ''D''),
     (Key_E, ''E''), (Key_F, ''F''), (Key_G, ''G''), (Key_H, ''H''),
     (Key_I, ''I''), (Key_J, ''J''), (Key_K, ''K''), (Key_L, ''L''),
     (Key_M, ''M''), (Key_N, ''N''), (Key_O, ''O''), (Key_P, ''P''),
     (Key_Q, ''Q''), (Key_R, ''R''), (Key_S, ''S''), (Key_T, ''T''),
     (Key_U, ''U''), (Key_V, ''V''), (Key_W, ''W''), (Key_X, ''X''),
     (Key_Y, ''Y''), (Key_Z, ''Z'')]"

definition evdev_digits :: "(key \<times> string) list" where
  "evdev_digits =
    [(Key_Digit1, ''1''), (Key_Digit2, ''2''), (Key_Digit3, ''3''), (Key_Digit4, ''4''),
     (Key_Digit5, ''5''), (Key_Digit6, ''6''), (Key_Digit7, ''7''), (Key_Digit8, ''8''),
     (Key_Digit9, ''9''), (Key_Digit0, ''0'')]"

definition evdev_punctuation :: "(key \<times> string) list" where
  "evdev_punctuation =
    [(Key_Enter, ''ENTER''), (Key_Esc, ''ESC''), (Key_Backspace, ''BACKSPACE''), (Key_Tab, ''TAB''),
     (Key_Space, ''SPACE''), (Key_Minus, ''MINUS''), (Key_Equal, ''EQUAL''), (Key_LeftBrace, ''LEFTBRACE''),
     (Key_RightBrace, ''RIGHTBRACE''), (Key_Backslash, ''BACKSLASH''), (Key_HashTilde, ''102ND''), (Key_Semicolon, ''SEMICOLON''),
     (Key_Apostrophe, ''APOSTROPHE''), (Key_Grave, ''GRAVE''), (Key_Comma, ''COMMA''), (Key_Dot, ''DOT''),
     (Key_Slash, ''SLASH''), (Key_CapsLock, ''CAPSLOCK'')]"

definition evdev_functions :: "(key \<times> string) list" where
  "evdev_functions =
    [(Key_F1, ''F1''), (Key_F2, ''F2''), (Key_F3, ''F3''), (Key_F4, ''F4''),
     (Key_F5, ''F5''), (Key_F6, ''F6''), (Key_F7, ''F7''), (Key_F8, ''F8''),
     (Key_F9, ''F9''), (Key_F10, ''F10''), (Key_F11, ''F11''), (Key_F12, ''F12''),
     (Key_F13, ''F13''), (Key_F14, ''F14''), (Key_F15, ''F15''), (Key_F16, ''F16''),
     (Key_F17, ''F17''), (Key_F18, ''F18''), (Key_F19, ''F19''), (Key_F20, ''F20''),
     (Key_F21, ''F21''), (Key_F22, ''F22''), (Key_F23, ''F23''), (Key_F24, ''F24'')]"

definition evdev_navigation :: "(key \<times> string) list" where
  "evdev_navigation =
    [(Key_SysRq, ''SYSRQ''), (Key_ScrollLock, ''SCROLLLOCK''), (Key_Pause, ''PAUSE''), (Key_Insert, ''INSERT''),
     (Key_Home, ''HOME''), (Key_PageUp, ''PAGEUP''), (Key_Delete, ''DELETE''), (Key_End, ''END''),
     (Key_PageDown, ''PAGEDOWN''), (Key_Right, ''RIGHT''), (Key_Left, ''LEFT''), (Key_Down, ''DOWN''),
     (Key_Up, ''UP'')]"

definition evdev_keypad :: "(key \<times> string) list" where
  "evdev_keypad =
    [(Key_NumLock, ''NUMLOCK''), (Key_KeypadSlash, ''KPSLASH''), (Key_KeypadAsterisk, ''KPASTERISK''), (Key_KeypadMinus, ''KPMINUS''),
     (Key_KeypadPlus, ''KPPLUS''), (Key_KeypadEnter, ''KPENTER''), (Key_Keypad1, ''KP1''), (Key_Keypad2, ''KP2''),
     (Key_Keypad3, ''KP3''), (Key_Keypad4, ''KP4''), (Key_Keypad5, ''KP5''), (Key_Keypad6, ''KP6''),
     (Key_Keypad7, ''KP7''), (Key_Keypad8, ''KP8''), (Key_Keypad9, ''KP9''), (Key_Keypad0, ''KP0''),
     (Key_KeypadDot, ''KPDOT''), (Key_Key102nd, ''102ND''), (Key_Compose, ''COMPOSE''), (Key_Power, ''POWER''),
     (Key_KeypadEqual, ''KPEQUAL''), (Key_KeypadComma, ''KPCOMMA'')]"

definition evdev_editing :: "(key \<times> string) list" where
  "evdev_editing =
    [(Key_Open, ''OPEN''), (Key_Help, ''HELP''), (Key_Props, ''PROPS''), (Key_Front, ''FRONT''),
     (Key_Stop, ''STOP''), (Key_Again, ''AGAIN''), (Key_Undo, ''UNDO''), (Key_Cut, ''CUT''),
     (Key_Copy, ''COPY''), (Key_Paste, ''PASTE''), (Key_Find, ''FIND'')]"

definition evdev_international :: "(key \<times> string) list" where
  "evdev_international =
    [(Key_Ro, ''RO''), (Key_KatakanaHiragana, ''KATAKANAHIRAGANA''), (Key_Yen, ''YEN''), (Key_Henkan, ''HENKAN''),
     (Key_Muhenkan, ''MUHENKAN''), (Key_KeypadJpComma, ''KPJPCOMMA''), (Key_Hangeul, ''HANGEUL''), (Key_Hanja, ''HANJA''),
     (Key_Katakana, ''KATAKANA''), (Key_Hiragana, ''HIRAGANA''), (Key_ZenkakuHankaku, ''ZENKAKUHANKAKU'')]"

definition evdev_modifiers :: "(key \<times> string) list" where
  "evdev_modifiers =
    [(Key_LeftCtrl, ''LEFTCTRL''), (Key_RightCtrl, ''RIGHTCTRL''), (Key_LeftShift, ''LEFTSHIFT''), (Key_RightShift, ''RIGHTSHIFT''),
     (Key_LeftAlt, ''LEFTALT''), (Key_RightAlt, ''RIGHTALT''), (Key_LeftMeta, ''LEFTMETA''), (Key_RightMeta, ''RIGHTMETA'')]"

definition evdev_media :: "(key \<times> string) list" where
  "evdev_media =
    [(Key_Mute, ''MUTE''), (Key_MediaMute, ''MUTE''), (Key_VolumeUp, ''VOLUMEUP''), (Key_MediaVolumeUp, ''VOLUMEUP''),
     (Key_VolumeDown, ''VOLUMEDOWN''), (Key_MediaVolumeDown, ''VOLUMEDOWN''), (Key_MediaPlayPause, ''PLAYPAUSE''), (Key_MediaStopCd, ''STOPCD''),
     (Key_MediaPreviousSong, ''PREVIOUSSONG''), (Key_MediaNextSong, ''NEXTSONG''), (Key_MediaEjectCd, ''EJECTCD''), (Key_MediaWww, ''WWW''),
     (Key_MediaBack, ''BACK''), (Key_MediaForward, ''FORWARD''), (Key_MediaStop, ''STOP''), (Key_MediaFind, ''FIND''),
     (Key_MediaScrollUp, ''SCROLLUP''), (Key_MediaScrollDown, ''SCROLLDOWN''), (Key_MediaEdit, ''EDIT''), (Key_MediaSleep, ''SLEEP''),
     (Key_MediaCoffee, ''COFFEE''), (Key_MediaRefresh, ''REFRESH''), (Key_MediaCalc, ''CALC'')]"

lemmas evdev_defs = evdev_letters_def evdev_digits_def evdev_punctuation_def evdev_functions_def
  evdev_navigation_def evdev_keypad_def evdev_editing_def evdev_international_def evdev_modifiers_def
  evdev_media_def

definition evdev_table :: "(key \<times> string) list" where
  "evdev_table =
     evdev_letters @ evdev_digits @ evdev_punctuation @ evdev_functions @ evdev_navigation @
     evdev_keypad @ evdev_editing @ evdev_international @ evdev_modifiers @ evdev_media"

definition evdevKeyCode :: "(string \<Rightarrow> 32 word) \<Rightarrow> key \<Rightarrow> 32 word option" where
  "evdevKeyCode code key = map_option code (map_of evdev_table key)"

section \<open>From input codes to keys\<close>

lemma usage_Suc: "usage \<le> (251 :: 32 word) \<Longrightarrow> unat (usage + 1) = Suc (unat usage)"
  by (simp add: word_le_nat_alt unat_word_ariths)

function keyFromEvdev_from :: "(string \<Rightarrow> 32 word) \<Rightarrow> 32 word \<Rightarrow> 32 word \<Rightarrow> key" where
  "keyFromEvdev_from code keyCode usage =
     (if usage \<le> Key_MediaCalc
      then (if evdevKeyCode code usage = Some keyCode then usage else keyFromEvdev_from code keyCode (usage + 1))
      else Key_None)"
  by auto

termination
  by (relation "measure (\<lambda>(code, keyCode, usage). 252 - unat usage)") (auto simp: usage_Suc word_le_nat_alt)

declare keyFromEvdev_from.simps [simp del]

definition keyFromEvdev :: "(string \<Rightarrow> 32 word) \<Rightarrow> 32 word \<Rightarrow> key" where
  "keyFromEvdev code keyCode = keyFromEvdev_from code keyCode 0"

section \<open>Lemmas\<close>

lemma evdev_keys: "\<forall>(k, s) \<in> set evdev_table. 0 < k \<and> k \<le> 251"
  by (simp add: evdev_table_def evdev_defs)

lemma evdev_keys_distinct: "distinct (map fst evdev_table)"
  by (rule distinct_by_sorting [where f = unat]) (simp add: evdev_table_def evdev_defs)

definition canonical_key :: "key \<Rightarrow> key" where
  "canonical_key k =
     (if k = Key_Key102nd then Key_HashTilde
      else if k = Key_MediaMute then Key_Mute
      else if k = Key_MediaVolumeUp then Key_VolumeUp
      else if k = Key_MediaVolumeDown then Key_VolumeDown
      else if k = Key_MediaStop then Key_Stop
      else if k = Key_MediaFind then Key_Find
      else k)"

definition canonical_table :: "(key \<times> string) list" where
  "canonical_table = filter (\<lambda>(k, s). canonical_key k = k) evdev_table"

lemma canonical_le: "canonical_key k \<le> k"
  by (auto simp: canonical_key_def)

lemma canonical_idem: "canonical_key (canonical_key k) = canonical_key k"
  by (auto simp: canonical_key_def)

lemma alias_symbols:
  "map_of evdev_table Key_Key102nd = map_of evdev_table Key_HashTilde"
  "map_of evdev_table Key_MediaMute = map_of evdev_table Key_Mute"
  "map_of evdev_table Key_MediaVolumeUp = map_of evdev_table Key_VolumeUp"
  "map_of evdev_table Key_MediaVolumeDown = map_of evdev_table Key_VolumeDown"
  "map_of evdev_table Key_MediaStop = map_of evdev_table Key_Stop"
  "map_of evdev_table Key_MediaFind = map_of evdev_table Key_Find"
proof -
  have at: "(k, s) \<in> set evdev_punctuation \<union> set evdev_keypad \<union> set evdev_editing \<union> set evdev_media \<Longrightarrow>
      map_of evdev_table k = Some s" for k s
    by (rule map_of_is_SomeI [OF evdev_keys_distinct]) (auto simp: evdev_table_def)
  have low: "map_of evdev_table Key_HashTilde = Some ''102ND''" "map_of evdev_table Key_Mute = Some ''MUTE''"
    "map_of evdev_table Key_VolumeUp = Some ''VOLUMEUP''" "map_of evdev_table Key_VolumeDown = Some ''VOLUMEDOWN''"
    "map_of evdev_table Key_Stop = Some ''STOP''" "map_of evdev_table Key_Find = Some ''FIND''"
    by (rule at, simp add: evdev_defs)+
  have high: "map_of evdev_table Key_Key102nd = Some ''102ND''" "map_of evdev_table Key_MediaMute = Some ''MUTE''"
    "map_of evdev_table Key_MediaVolumeUp = Some ''VOLUMEUP''" "map_of evdev_table Key_MediaVolumeDown = Some ''VOLUMEDOWN''"
    "map_of evdev_table Key_MediaStop = Some ''STOP''" "map_of evdev_table Key_MediaFind = Some ''FIND''"
    by (rule at, simp add: evdev_defs)+
  show "map_of evdev_table Key_Key102nd = map_of evdev_table Key_HashTilde"
    "map_of evdev_table Key_MediaMute = map_of evdev_table Key_Mute"
    "map_of evdev_table Key_MediaVolumeUp = map_of evdev_table Key_VolumeUp"
    "map_of evdev_table Key_MediaVolumeDown = map_of evdev_table Key_VolumeDown"
    "map_of evdev_table Key_MediaStop = map_of evdev_table Key_Stop"
    "map_of evdev_table Key_MediaFind = map_of evdev_table Key_Find"
    unfolding low high by (rule refl)+
qed

lemma canonical_symbol: "map_of evdev_table (canonical_key k) = map_of evdev_table k"
  by (auto simp: canonical_key_def alias_symbols)

text \<open>The search finds the smallest key with the input code, if there is one.\<close>

lemma keyFromEvdev_from_finds:
  assumes "usage \<le> k" "k \<le> 251" "evdevKeyCode code k = Some c"
    and "\<forall>u. usage \<le> u \<and> u < k \<longrightarrow> evdevKeyCode code u \<noteq> Some c"
  shows "keyFromEvdev_from code c usage = k"
  using assms
proof (induction code c usage rule: keyFromEvdev_from.induct)
  case (1 code c usage)
  have le: "usage \<le> Key_MediaCalc" using "1.prems"(1,2) by simp
  show ?case
  proof (cases "usage = k")
    case True
    with le "1.prems"(3) show ?thesis by (subst keyFromEvdev_from.simps) simp
  next
    case False
    with "1.prems"(1) have less: "usage < k" by simp
    then have not_here: "evdevKeyCode code usage \<noteq> Some c" using "1.prems"(4) by blast
    have "unat (usage + 1) = Suc (unat usage)" using le by (rule usage_Suc)
    with less have "usage + 1 \<le> k" "\<And>u. usage + 1 \<le> u \<Longrightarrow> usage \<le> u"
      by (simp_all add: word_le_nat_alt word_less_nat_alt)
    then have "keyFromEvdev_from code c (usage + 1) = k"
      using "1.IH" [OF le not_here] "1.prems"(2-4) by blast
    with le not_here show ?thesis by (subst keyFromEvdev_from.simps) simp
  qed
qed

lemma keyFromEvdev_from_result:
  "keyFromEvdev_from code c usage = Key_None \<or> evdevKeyCode code (keyFromEvdev_from code c usage) = Some c"
proof (induction code c usage rule: keyFromEvdev_from.induct)
  case (1 code c usage)
  then show ?case by (subst (1 2) keyFromEvdev_from.simps) auto
qed

definition codes_distinct :: "(string \<Rightarrow> 32 word) \<Rightarrow> bool" where
  "codes_distinct code \<longleftrightarrow> distinct (map (\<lambda>(k, s). code s) canonical_table)"

lemma evdevKeyCode_canonical: "evdevKeyCode code (canonical_key k) = evdevKeyCode code k"
  by (simp add: evdevKeyCode_def canonical_symbol)

lemma evdevKeyCode_table: "evdevKeyCode code k = Some c \<longleftrightarrow> (\<exists>s. (k, s) \<in> set evdev_table \<and> code s = c)"
  using evdev_keys_distinct by (auto simp: evdevKeyCode_def)

lemma canonical_unique:
  assumes "codes_distinct code" "evdevKeyCode code k = Some c" "evdevKeyCode code k' = Some c"
  shows "canonical_key k = canonical_key k'"
proof -
  obtain s s' where s: "(canonical_key k, s) \<in> set canonical_table" "code s = c"
    "(canonical_key k', s') \<in> set canonical_table" "code s' = c"
    using assms(2,3) unfolding evdevKeyCode_canonical [of code k, symmetric] evdevKeyCode_canonical [of code k', symmetric]
      evdevKeyCode_table
    by (auto simp: canonical_table_def canonical_idem)
  have "inj_on (\<lambda>(k, s). code s) (set canonical_table)"
    using assms(1) by (simp add: codes_distinct_def distinct_map)
  from inj_onD [OF this, of "(canonical_key k, s)" "(canonical_key k', s')"] s show ?thesis by simp
qed

lemma keyFromEvdev_canonical:
  assumes "codes_distinct code" and "evdevKeyCode code k = Some c"
  shows "keyFromEvdev code c = canonical_key k"
  unfolding keyFromEvdev_def
proof (rule keyFromEvdev_from_finds)
  show "evdevKeyCode code (canonical_key k) = Some c" using assms(2) by (simp add: evdevKeyCode_canonical)
  then show "canonical_key k \<le> 251" using evdev_keys by (auto simp: evdevKeyCode_table)
  show "\<forall>u. 0 \<le> u \<and> u < canonical_key k \<longrightarrow> evdevKeyCode code u \<noteq> Some c"
    using canonical_unique [OF assms(1) assms(2)] canonical_le by (metis leD)
qed simp

lemma canonical_present:
  assumes "evdevKeyCode code k = Some c"
  shows "canonical_key k \<noteq> Key_None"
proof -
  have "evdevKeyCode code (canonical_key k) = Some c" using assms by (simp add: evdevKeyCode_canonical)
  then show ?thesis using evdev_keys by (auto simp: evdevKeyCode_table)
qed

section \<open>Properties\<close>

text \<open>The values of the Linux header.\<close>

definition linux_codes :: "(string \<times> 32 word) list" where
  "linux_codes =
    [(''A'', 30), (''B'', 48), (''C'', 46), (''D'', 32), (''E'', 18), (''F'', 33), (''G'', 34),
     (''H'', 35), (''I'', 23), (''J'', 36), (''K'', 37), (''L'', 38), (''M'', 50), (''N'', 49),
     (''O'', 24), (''P'', 25), (''Q'', 16), (''R'', 19), (''S'', 31), (''T'', 20), (''U'', 22),
     (''V'', 47), (''W'', 17), (''X'', 45), (''Y'', 21), (''Z'', 44), (''1'', 2), (''2'', 3),
     (''3'', 4), (''4'', 5), (''5'', 6), (''6'', 7), (''7'', 8), (''8'', 9), (''9'', 10),
     (''0'', 11), (''ENTER'', 28), (''ESC'', 1), (''BACKSPACE'', 14), (''TAB'', 15), (''SPACE'', 57), (''MINUS'', 12),
     (''EQUAL'', 13), (''LEFTBRACE'', 26), (''RIGHTBRACE'', 27), (''BACKSLASH'', 43), (''102ND'', 86), (''SEMICOLON'', 39), (''APOSTROPHE'', 40),
     (''GRAVE'', 41), (''COMMA'', 51), (''DOT'', 52), (''SLASH'', 53), (''CAPSLOCK'', 58), (''F1'', 59), (''F2'', 60),
     (''F3'', 61), (''F4'', 62), (''F5'', 63), (''F6'', 64), (''F7'', 65), (''F8'', 66), (''F9'', 67),
     (''F10'', 68), (''F11'', 87), (''F12'', 88), (''F13'', 183), (''F14'', 184), (''F15'', 185), (''F16'', 186),
     (''F17'', 187), (''F18'', 188), (''F19'', 189), (''F20'', 190), (''F21'', 191), (''F22'', 192), (''F23'', 193),
     (''F24'', 194), (''SYSRQ'', 99), (''SCROLLLOCK'', 70), (''PAUSE'', 119), (''INSERT'', 110), (''HOME'', 102), (''PAGEUP'', 104),
     (''DELETE'', 111), (''END'', 107), (''PAGEDOWN'', 109), (''RIGHT'', 106), (''LEFT'', 105), (''DOWN'', 108), (''UP'', 103),
     (''NUMLOCK'', 69), (''KPSLASH'', 98), (''KPASTERISK'', 55), (''KPMINUS'', 74), (''KPPLUS'', 78), (''KPENTER'', 96), (''KP1'', 79),
     (''KP2'', 80), (''KP3'', 81), (''KP4'', 75), (''KP5'', 76), (''KP6'', 77), (''KP7'', 71), (''KP8'', 72),
     (''KP9'', 73), (''KP0'', 82), (''KPDOT'', 83), (''COMPOSE'', 127), (''POWER'', 116), (''KPEQUAL'', 117), (''KPCOMMA'', 121),
     (''OPEN'', 134), (''HELP'', 138), (''PROPS'', 130), (''FRONT'', 132), (''STOP'', 128), (''AGAIN'', 129), (''UNDO'', 131),
     (''CUT'', 137), (''COPY'', 133), (''PASTE'', 135), (''FIND'', 136), (''RO'', 89), (''KATAKANAHIRAGANA'', 93), (''YEN'', 124),
     (''HENKAN'', 92), (''MUHENKAN'', 94), (''KPJPCOMMA'', 95), (''HANGEUL'', 122), (''HANJA'', 123), (''KATAKANA'', 90), (''HIRAGANA'', 91),
     (''ZENKAKUHANKAKU'', 85), (''LEFTCTRL'', 29), (''RIGHTCTRL'', 97), (''LEFTSHIFT'', 42), (''RIGHTSHIFT'', 54), (''LEFTALT'', 56), (''RIGHTALT'', 100),
     (''LEFTMETA'', 125), (''RIGHTMETA'', 126), (''MUTE'', 113), (''VOLUMEUP'', 115), (''VOLUMEDOWN'', 114), (''PLAYPAUSE'', 164), (''STOPCD'', 166),
     (''PREVIOUSSONG'', 165), (''NEXTSONG'', 163), (''EJECTCD'', 161), (''WWW'', 150), (''BACK'', 158), (''FORWARD'', 159), (''SCROLLUP'', 177),
     (''SCROLLDOWN'', 178), (''EDIT'', 176), (''SLEEP'', 142), (''COFFEE'', 152), (''REFRESH'', 173), (''CALC'', 140)]"

definition linux_code :: "string \<Rightarrow> 32 word" where
  "linux_code s = (case map_of linux_codes s of Some c \<Rightarrow> c | None \<Rightarrow> 0)"

lemma linux_codes_names: "map fst linux_codes = map snd canonical_table"
  by (simp add: linux_codes_def canonical_table_def evdev_table_def evdev_defs canonical_key_def)

lemma linux_names_distinct: "distinct (map fst linux_codes)"
  by code_simp

lemma linux_codes_values: "distinct (map snd linux_codes)"
  by (rule distinct_by_sorting [where f = unat]) (simp add: linux_codes_def)

lemma linux_codes_distinct: "codes_distinct linux_code"
proof -
  have "map linux_code (map fst linux_codes) = map snd linux_codes"
    unfolding linux_code_def
    by (rule distinct_keys_map_of [OF linux_names_distinct])
  then have "map (\<lambda>(k, s). code s) canonical_table = map snd linux_codes" if "code = linux_code" for code
    by (simp add: linux_codes_names that comp_def case_prod_unfold)
  then show ?thesis using linux_codes_values by (simp add: codes_distinct_def)
qed



text \<open>
  A captured key injects the very input code that was captured, whatever the numbers of the header are;
  a code that no key has is captured as no key, never as a wrong one, and the search ends.
\<close>

theorem evdev_injection_replays_capture:
  "if keyFromEvdev code c = Key_None
   then \<forall>k. evdevKeyCode code k \<noteq> Some c
   else evdevKeyCode code (keyFromEvdev code c) = Some c"
proof (cases "\<exists>k. evdevKeyCode code k = Some c")
  case True
  then obtain k where k: "evdevKeyCode code k = Some c" ..
  define S where "S = {k. evdevKeyCode code k = Some c}"
  define m where "m = Min S"
  have "finite S" "S \<noteq> {}" using k by (auto simp: S_def)
  then have m: "m \<in> S" "\<And>u. u \<in> S \<Longrightarrow> m \<le> u" by (simp_all add: m_def)
  have "0 < m \<and> m \<le> 251" using m(1) evdev_keys by (auto simp: S_def evdevKeyCode_table)
  moreover have "keyFromEvdev code c = m"
    unfolding keyFromEvdev_def
    by (rule keyFromEvdev_from_finds) (use m calculation in \<open>auto simp: S_def not_less [symmetric]\<close>)
  ultimately show ?thesis using m(1) by (auto simp: S_def)
next
  case False
  then show ?thesis using keyFromEvdev_from_result [of code c 0] by (auto simp: keyFromEvdev_def)
qed

end
