(* ===== verification/Key_Win32.thy ===== *)
theory Key_Win32
  imports Key_Codes
begin

text \<open>
  The key translation of the Windows backend: \<open>src/platform/win32_key.hpp\<close>. Capture turns virtual key
  codes into keys and the state of the modifier keys into flags, injection turns keys into virtual key
  codes.

  \<^item> The \<open>VK_\<close> macros belong to the system header: they are the parameter \<open>vk\<close>, a function from the name
    of the macro, without its prefix, to its value; \<open>vk_documented\<close> states the values that the Windows
    documentation gives. Letters and digits are character literals of the program.
  \<^item> \<open>MapVirtualKeyW\<close> and \<open>GetAsyncKeyState\<close> are parameters as well.
  \<^item> \<open>DWORD\<close> is a word of 32 bits, \<open>WORD\<close> one of 16 bits; the casts truncate.
\<close>

section \<open>Capture\<close>

record win32_key =
  wk_virtualKey :: "16 word"
  wk_extended :: bool

definition normalizeVirtualKey ::
  "(string \<Rightarrow> 32 word) \<Rightarrow> (32 word \<Rightarrow> 32 word) \<Rightarrow> 32 word \<Rightarrow> 32 word \<Rightarrow> 32 word" where
  "normalizeVirtualKey vk mapScanCode vkCode scanCode =
     (if vkCode = vk ''SHIFT'' \<or> vkCode = vk ''CONTROL'' \<or> vkCode = vk ''MENU'' then mapScanCode scanCode else vkCode)"

definition keyModifierFor :: "key \<Rightarrow> key_modifier" where
  "keyModifierFor k =
     (case map_of
        [(Key_LeftCtrl, Mod_LeftCtrl), (Key_RightCtrl, Mod_RightCtrl), (Key_LeftShift, Mod_LeftShift),
         (Key_RightShift, Mod_RightShift), (Key_LeftAlt, Mod_LeftAlt), (Key_RightAlt, Mod_RightAlt),
         (Key_LeftMeta, Mod_LeftMeta), (Key_RightMeta, Mod_RightMeta)] k of
        Some m \<Rightarrow> m | None \<Rightarrow> Mod_None)"

definition key_down :: "(string \<Rightarrow> 32 word) \<Rightarrow> (32 word \<Rightarrow> 16 word) \<Rightarrow> string \<Rightarrow> bool" where
  "key_down vk asyncState name \<longleftrightarrow> asyncState (vk name) AND 0x8000 \<noteq> 0"

definition currentModifiers :: "(string \<Rightarrow> 32 word) \<Rightarrow> (32 word \<Rightarrow> 16 word) \<Rightarrow> key_modifier" where
  "currentModifiers vk asyncState =
     fold (\<lambda>(name, flag) modifiers. if key_down vk asyncState name then modifier_or modifiers flag else modifiers)
       [(''LCONTROL'', Mod_LeftCtrl), (''RCONTROL'', Mod_RightCtrl), (''LSHIFT'', Mod_LeftShift),
        (''RSHIFT'', Mod_RightShift), (''LMENU'', Mod_LeftAlt), (''RMENU'', Mod_RightAlt),
        (''LWIN'', Mod_LeftMeta), (''RWIN'', Mod_RightMeta)]
       Mod_None"

definition win32_capture :: "(string \<times> key) list" where
  "win32_capture =
    [(''RETURN'', Key_Enter), (''ESCAPE'', Key_Esc), (''BACK'', Key_Backspace),
     (''TAB'', Key_Tab), (''SPACE'', Key_Space), (''OEM_MINUS'', Key_Minus),
     (''OEM_PLUS'', Key_Equal), (''OEM_4'', Key_LeftBrace), (''OEM_6'', Key_RightBrace),
     (''OEM_5'', Key_Backslash), (''OEM_1'', Key_Semicolon), (''OEM_7'', Key_Apostrophe),
     (''OEM_3'', Key_Grave), (''OEM_COMMA'', Key_Comma), (''OEM_PERIOD'', Key_Dot),
     (''OEM_2'', Key_Slash), (''CAPITAL'', Key_CapsLock), (''F1'', Key_F1),
     (''F2'', Key_F2), (''F3'', Key_F3), (''F4'', Key_F4),
     (''F5'', Key_F5), (''F6'', Key_F6), (''F7'', Key_F7),
     (''F8'', Key_F8), (''F9'', Key_F9), (''F10'', Key_F10),
     (''F11'', Key_F11), (''F12'', Key_F12), (''SNAPSHOT'', Key_SysRq),
     (''SCROLL'', Key_ScrollLock), (''PAUSE'', Key_Pause), (''INSERT'', Key_Insert),
     (''HOME'', Key_Home), (''PRIOR'', Key_PageUp), (''DELETE'', Key_Delete),
     (''END'', Key_End), (''NEXT'', Key_PageDown), (''RIGHT'', Key_Right),
     (''LEFT'', Key_Left), (''DOWN'', Key_Down), (''UP'', Key_Up),
     (''NUMLOCK'', Key_NumLock), (''DIVIDE'', Key_KeypadSlash), (''MULTIPLY'', Key_KeypadAsterisk),
     (''SUBTRACT'', Key_KeypadMinus), (''ADD'', Key_KeypadPlus), (''NUMPAD0'', Key_Keypad0),
     (''NUMPAD1'', Key_Keypad1), (''NUMPAD2'', Key_Keypad2), (''NUMPAD3'', Key_Keypad3),
     (''NUMPAD4'', Key_Keypad4), (''NUMPAD5'', Key_Keypad5), (''NUMPAD6'', Key_Keypad6),
     (''NUMPAD7'', Key_Keypad7), (''NUMPAD8'', Key_Keypad8), (''NUMPAD9'', Key_Keypad9),
     (''DECIMAL'', Key_KeypadDot), (''LCONTROL'', Key_LeftCtrl), (''RCONTROL'', Key_RightCtrl),
     (''LSHIFT'', Key_LeftShift), (''RSHIFT'', Key_RightShift), (''LMENU'', Key_LeftAlt),
     (''RMENU'', Key_RightAlt), (''LWIN'', Key_LeftMeta), (''RWIN'', Key_RightMeta)]"

definition virtualKeyToKey :: "(string \<Rightarrow> 32 word) \<Rightarrow> 32 word \<Rightarrow> key" where
  "virtualKeyToKey vk vkCode =
     (if of_char CHR ''A'' \<le> vkCode \<and> vkCode \<le> of_char CHR ''Z'' then Key_A + (vkCode - of_char CHR ''A'')
      else if of_char CHR ''0'' \<le> vkCode \<and> vkCode \<le> of_char CHR ''9'' then Key_Digit0 + (vkCode - of_char CHR ''0'')
      else (case map_of (map (\<lambda>(name, k). (vk name, k)) win32_capture) vkCode of
              Some k \<Rightarrow> k | None \<Rightarrow> Key_None))"

section \<open>Injection\<close>

definition isExtendedKey :: "key \<Rightarrow> bool" where
  "isExtendedKey k \<longleftrightarrow> k \<in> set
    [Key_RightCtrl, Key_RightAlt, Key_Insert, Key_Delete, Key_Home, Key_End, Key_PageUp, Key_PageDown,
     Key_Right, Key_Left, Key_Down, Key_Up, Key_KeypadSlash, Key_KeypadEnter]"

definition win32_injection :: "(key \<times> string) list" where
  "win32_injection =
    [(Key_Enter, ''RETURN''), (Key_Esc, ''ESCAPE''), (Key_Backspace, ''BACK''),
     (Key_Tab, ''TAB''), (Key_Space, ''SPACE''), (Key_Minus, ''OEM_MINUS''),
     (Key_Equal, ''OEM_PLUS''), (Key_LeftBrace, ''OEM_4''), (Key_RightBrace, ''OEM_6''),
     (Key_Backslash, ''OEM_5''), (Key_Semicolon, ''OEM_1''), (Key_Apostrophe, ''OEM_7''),
     (Key_Grave, ''OEM_3''), (Key_Comma, ''OEM_COMMA''), (Key_Dot, ''OEM_PERIOD''),
     (Key_Slash, ''OEM_2''), (Key_CapsLock, ''CAPITAL''), (Key_SysRq, ''SNAPSHOT''),
     (Key_ScrollLock, ''SCROLL''), (Key_Pause, ''PAUSE''), (Key_Insert, ''INSERT''),
     (Key_Home, ''HOME''), (Key_PageUp, ''PRIOR''), (Key_Delete, ''DELETE''),
     (Key_End, ''END''), (Key_PageDown, ''NEXT''), (Key_Right, ''RIGHT''),
     (Key_Left, ''LEFT''), (Key_Down, ''DOWN''), (Key_Up, ''UP''),
     (Key_NumLock, ''NUMLOCK''), (Key_KeypadSlash, ''DIVIDE''), (Key_KeypadAsterisk, ''MULTIPLY''),
     (Key_KeypadMinus, ''SUBTRACT''), (Key_KeypadPlus, ''ADD''), (Key_KeypadEnter, ''RETURN''),
     (Key_Keypad0, ''NUMPAD0''), (Key_KeypadDot, ''DECIMAL''), (Key_LeftCtrl, ''LCONTROL''),
     (Key_LeftShift, ''LSHIFT''), (Key_LeftAlt, ''LMENU''), (Key_LeftMeta, ''LWIN''),
     (Key_RightCtrl, ''RCONTROL''), (Key_RightShift, ''RSHIFT''), (Key_RightAlt, ''RMENU''),
     (Key_RightMeta, ''RWIN''), (Key_VolumeUp, ''VOLUME_UP''), (Key_MediaVolumeUp, ''VOLUME_UP''),
     (Key_VolumeDown, ''VOLUME_DOWN''), (Key_MediaVolumeDown, ''VOLUME_DOWN''), (Key_Mute, ''VOLUME_MUTE''),
     (Key_MediaMute, ''VOLUME_MUTE''), (Key_MediaPlayPause, ''MEDIA_PLAY_PAUSE''), (Key_MediaStopCd, ''MEDIA_STOP''),
     (Key_MediaPreviousSong, ''MEDIA_PREV_TRACK''), (Key_MediaNextSong, ''MEDIA_NEXT_TRACK'')]"

definition keyToWin32 :: "(string \<Rightarrow> 32 word) \<Rightarrow> key \<Rightarrow> 32 word \<Rightarrow> win32_key option" where
  "keyToWin32 vk k nativeCode =
     (if Key_A \<le> k \<and> k \<le> Key_Z
      then Some \<lparr>wk_virtualKey = ucast (of_char CHR ''A'' + (k - Key_A)), wk_extended = False\<rparr>
      else if Key_Digit1 \<le> k \<and> k \<le> Key_Digit9
      then Some \<lparr>wk_virtualKey = ucast (of_char CHR ''1'' + (k - Key_Digit1)), wk_extended = False\<rparr>
      else if Key_F1 \<le> k \<and> k \<le> Key_F12
      then Some \<lparr>wk_virtualKey = ucast (vk ''F1'' + (k - Key_F1)), wk_extended = False\<rparr>
      else if Key_F13 \<le> k \<and> k \<le> Key_F24
      then Some \<lparr>wk_virtualKey = ucast (vk ''F13'' + (k - Key_F13)), wk_extended = False\<rparr>
      else if Key_Keypad1 \<le> k \<and> k \<le> Key_Keypad9
      then Some \<lparr>wk_virtualKey = ucast (vk ''NUMPAD1'' + (k - Key_Keypad1)), wk_extended = False\<rparr>
      else if k = Key_Digit0
      then Some \<lparr>wk_virtualKey = of_char CHR ''0'', wk_extended = isExtendedKey k\<rparr>
      else (case map_of win32_injection k of
              Some name \<Rightarrow> Some \<lparr>wk_virtualKey = ucast (vk name), wk_extended = isExtendedKey k\<rparr>
            | None \<Rightarrow>
                if nativeCode = 0 \<or> nativeCode > 0xFFFF then None
                else Some \<lparr>wk_virtualKey = ucast nativeCode, wk_extended = isExtendedKey k\<rparr>))"

section \<open>The documented values\<close>

definition windows_codes :: "(string \<times> 32 word) list" where
  "windows_codes =
    [(''SHIFT'', 0x10), (''CONTROL'', 0x11), (''MENU'', 0x12), (''RETURN'', 0x0D), (''ESCAPE'', 0x1B),
     (''BACK'', 0x08), (''TAB'', 0x09), (''SPACE'', 0x20), (''OEM_MINUS'', 0xBD), (''OEM_PLUS'', 0xBB),
     (''OEM_4'', 0xDB), (''OEM_6'', 0xDD), (''OEM_5'', 0xDC), (''OEM_1'', 0xBA), (''OEM_7'', 0xDE),
     (''OEM_3'', 0xC0), (''OEM_COMMA'', 0xBC), (''OEM_PERIOD'', 0xBE), (''OEM_2'', 0xBF), (''CAPITAL'', 0x14),
     (''F1'', 0x70), (''F2'', 0x71), (''F3'', 0x72), (''F4'', 0x73), (''F5'', 0x74),
     (''F6'', 0x75), (''F7'', 0x76), (''F8'', 0x77), (''F9'', 0x78), (''F10'', 0x79),
     (''F11'', 0x7A), (''F12'', 0x7B), (''SNAPSHOT'', 0x2C), (''SCROLL'', 0x91), (''PAUSE'', 0x13),
     (''INSERT'', 0x2D), (''HOME'', 0x24), (''PRIOR'', 0x21), (''DELETE'', 0x2E), (''END'', 0x23),
     (''NEXT'', 0x22), (''RIGHT'', 0x27), (''LEFT'', 0x25), (''DOWN'', 0x28), (''UP'', 0x26),
     (''NUMLOCK'', 0x90), (''DIVIDE'', 0x6F), (''MULTIPLY'', 0x6A), (''SUBTRACT'', 0x6D), (''ADD'', 0x6B),
     (''NUMPAD0'', 0x60), (''NUMPAD1'', 0x61), (''NUMPAD2'', 0x62), (''NUMPAD3'', 0x63), (''NUMPAD4'', 0x64),
     (''NUMPAD5'', 0x65), (''NUMPAD6'', 0x66), (''NUMPAD7'', 0x67), (''NUMPAD8'', 0x68), (''NUMPAD9'', 0x69),
     (''DECIMAL'', 0x6E), (''LCONTROL'', 0xA2), (''RCONTROL'', 0xA3), (''LSHIFT'', 0xA0), (''RSHIFT'', 0xA1),
     (''LMENU'', 0xA4), (''RMENU'', 0xA5), (''LWIN'', 0x5B), (''RWIN'', 0x5C), (''F13'', 0x7C),
     (''VOLUME_UP'', 0xAF), (''VOLUME_DOWN'', 0xAE), (''VOLUME_MUTE'', 0xAD), (''MEDIA_PLAY_PAUSE'', 0xB3), (''MEDIA_STOP'', 0xB2),
     (''MEDIA_PREV_TRACK'', 0xB1), (''MEDIA_NEXT_TRACK'', 0xB0)]"

definition vk_documented :: "(string \<Rightarrow> 32 word) \<Rightarrow> bool" where
  "vk_documented vk \<longleftrightarrow> map (vk \<circ> fst) windows_codes = map snd windows_codes"

lemma vk_values:
  assumes "vk_documented vk"
  shows
    "vk ''SHIFT'' = 0x10"
    "vk ''CONTROL'' = 0x11"
    "vk ''MENU'' = 0x12"
    "vk ''RETURN'' = 0x0D"
    "vk ''ESCAPE'' = 0x1B"
    "vk ''BACK'' = 0x08"
    "vk ''TAB'' = 0x09"
    "vk ''SPACE'' = 0x20"
    "vk ''OEM_MINUS'' = 0xBD"
    "vk ''OEM_PLUS'' = 0xBB"
    "vk ''OEM_4'' = 0xDB"
    "vk ''OEM_6'' = 0xDD"
    "vk ''OEM_5'' = 0xDC"
    "vk ''OEM_1'' = 0xBA"
    "vk ''OEM_7'' = 0xDE"
    "vk ''OEM_3'' = 0xC0"
    "vk ''OEM_COMMA'' = 0xBC"
    "vk ''OEM_PERIOD'' = 0xBE"
    "vk ''OEM_2'' = 0xBF"
    "vk ''CAPITAL'' = 0x14"
    "vk ''F1'' = 0x70"
    "vk ''F2'' = 0x71"
    "vk ''F3'' = 0x72"
    "vk ''F4'' = 0x73"
    "vk ''F5'' = 0x74"
    "vk ''F6'' = 0x75"
    "vk ''F7'' = 0x76"
    "vk ''F8'' = 0x77"
    "vk ''F9'' = 0x78"
    "vk ''F10'' = 0x79"
    "vk ''F11'' = 0x7A"
    "vk ''F12'' = 0x7B"
    "vk ''SNAPSHOT'' = 0x2C"
    "vk ''SCROLL'' = 0x91"
    "vk ''PAUSE'' = 0x13"
    "vk ''INSERT'' = 0x2D"
    "vk ''HOME'' = 0x24"
    "vk ''PRIOR'' = 0x21"
    "vk ''DELETE'' = 0x2E"
    "vk ''END'' = 0x23"
    "vk ''NEXT'' = 0x22"
    "vk ''RIGHT'' = 0x27"
    "vk ''LEFT'' = 0x25"
    "vk ''DOWN'' = 0x28"
    "vk ''UP'' = 0x26"
    "vk ''NUMLOCK'' = 0x90"
    "vk ''DIVIDE'' = 0x6F"
    "vk ''MULTIPLY'' = 0x6A"
    "vk ''SUBTRACT'' = 0x6D"
    "vk ''ADD'' = 0x6B"
    "vk ''NUMPAD0'' = 0x60"
    "vk ''NUMPAD1'' = 0x61"
    "vk ''NUMPAD2'' = 0x62"
    "vk ''NUMPAD3'' = 0x63"
    "vk ''NUMPAD4'' = 0x64"
    "vk ''NUMPAD5'' = 0x65"
    "vk ''NUMPAD6'' = 0x66"
    "vk ''NUMPAD7'' = 0x67"
    "vk ''NUMPAD8'' = 0x68"
    "vk ''NUMPAD9'' = 0x69"
    "vk ''DECIMAL'' = 0x6E"
    "vk ''LCONTROL'' = 0xA2"
    "vk ''RCONTROL'' = 0xA3"
    "vk ''LSHIFT'' = 0xA0"
    "vk ''RSHIFT'' = 0xA1"
    "vk ''LMENU'' = 0xA4"
    "vk ''RMENU'' = 0xA5"
    "vk ''LWIN'' = 0x5B"
    "vk ''RWIN'' = 0x5C"
    "vk ''F13'' = 0x7C"
    "vk ''VOLUME_UP'' = 0xAF"
    "vk ''VOLUME_DOWN'' = 0xAE"
    "vk ''VOLUME_MUTE'' = 0xAD"
    "vk ''MEDIA_PLAY_PAUSE'' = 0xB3"
    "vk ''MEDIA_STOP'' = 0xB2"
    "vk ''MEDIA_PREV_TRACK'' = 0xB1"
    "vk ''MEDIA_NEXT_TRACK'' = 0xB0"
  using assms by (simp_all add: vk_documented_def windows_codes_def)

lemma capture_codes:
  "map_of (map (\<lambda>(name, k). (vk name, k)) win32_capture) c = Some k \<Longrightarrow>
    \<exists>name. (name, k) \<in> set win32_capture \<and> vk name = c"
  by (drule map_of_SomeD) auto

lemma of_chars [simp]:
  "(of_char CHR ''A'' :: 32 word) = 65" "(of_char CHR ''Z'' :: 32 word) = 90"
  "(of_char CHR ''0'' :: 32 word) = 48" "(of_char CHR ''9'' :: 32 word) = 57"
  "(of_char CHR ''1'' :: 32 word) = 49" "(of_char CHR ''0'' :: 16 word) = 48"
  by simp_all

lemma capture_table_inverted:
  assumes "vk_documented vk"
  shows "\<forall>(name, k) \<in> set win32_capture. \<exists>w. keyToWin32 vk k native = Some w \<and> ucast (wk_virtualKey w) = vk name"
  by (simp add: win32_capture_def keyToWin32_def win32_injection_def vk_values [OF assms])

section \<open>Properties\<close>

definition windows_code :: "string \<Rightarrow> 32 word" where
  "windows_code name = (case map_of windows_codes name of Some c \<Rightarrow> c | None \<Rightarrow> 0)"

lemma windows_code_documented: "vk_documented windows_code"
  by code_simp

text \<open>
  What is captured on one Windows host is replayed on another: every virtual key code that capture
  turns into a key, other than a digit, is the code that injecting this key sends.
\<close>

theorem win32_injection_replays_capture:
  assumes "vk_documented vk" and "virtualKeyToKey vk c \<noteq> Key_None" and "\<not> (48 \<le> c \<and> c \<le> 57)"
  shows "\<exists>w. keyToWin32 vk (virtualKeyToKey vk c) native = Some w \<and> ucast (wk_virtualKey w) = c"
proof (cases "65 \<le> c \<and> c \<le> 90")
  case True
  then have k: "virtualKeyToKey vk c = 4 + (c - 65)" by (simp add: virtualKeyToKey_def)
  have n: "65 \<le> unat c" "unat c \<le> 90" using True by (simp_all add: word_le_nat_alt)
  then have u: "unat (4 + (c - 65)) = unat c - 61" by (simp add: unat_word_ariths unat_sub word_le_nat_alt)
  then have "4 \<le> 4 + (c - 65) \<and> 4 + (c - 65) \<le> (29 :: 32 word)" using n by (simp add: word_le_nat_alt) arith
  then have w: "keyToWin32 vk (virtualKeyToKey vk c) native = Some \<lparr>wk_virtualKey = ucast c, wk_extended = False\<rparr>"
    by (simp add: keyToWin32_def k)
  have "unat (ucast (ucast c :: 16 word) :: 32 word) = unat c"
    using n by (simp add: unsigned_ucast_eq unsigned_take_bit_eq take_bit_nat_def)
  with w show ?thesis by (simp add: word_unat_eq_iff)
next
  case False
  then obtain k where k: "virtualKeyToKey vk c = k" "map_of (map (\<lambda>(name, k). (vk name, k)) win32_capture) c = Some k"
    using assms(2,3) by (auto simp: virtualKeyToKey_def split: option.splits if_splits)
  obtain name where name: "(name, k) \<in> set win32_capture" "vk name = c"
    using capture_codes [OF k(2)] by (elim exE conjE)
  from bspec [OF capture_table_inverted [OF assms(1), of native] name(1)] show ?thesis
    by (simp only: prod.case k(1) name(2))
qed

theorem win32_injection_replays_capture_witness:
  "\<exists>w. keyToWin32 windows_code (virtualKeyToKey windows_code 0x0D) 0 = Some w \<and> ucast (wk_virtualKey w) = (0x0D :: 32 word)"
proof -
  have "virtualKeyToKey windows_code 0x0D = Key_Enter"
    by (simp add: virtualKeyToKey_def win32_capture_def vk_values [OF windows_code_documented])
  then show ?thesis
    using win32_injection_replays_capture [OF windows_code_documented, where c = "0x0D" and native = 0] by simp
qed

text \<open>
  The digits are the exception. The enumeration has \<open>Digit0\<close> after \<open>Digit9\<close>, but capture adds the digit to
  \<open>Digit0\<close>: only \<open>0\<close> is captured as itself, the keys 1 to 9 are captured as the nine keys that follow
  \<open>Digit0\<close> in the enumeration, \<open>1\<close> as \<open>Enter\<close>, \<open>2\<close> as \<open>Esc\<close>, \<open>3\<close> as \<open>Backspace\<close>, and so on.
\<close>

theorem win32_digits_misread:
  "virtualKeyToKey vk 0x30 = Key_Digit0 \<and>
   map (\<lambda>d. virtualKeyToKey vk (0x30 + d)) [1, 2, 3, 4, 5, 6, 7, 8, 9] =
     [Key_Enter, Key_Esc, Key_Backspace, Key_Tab, Key_Space, Key_Minus, Key_Equal, Key_LeftBrace, Key_RightBrace]"
  by (simp add: virtualKeyToKey_def)

definition modifier_keys :: "(string \<times> key_modifier) list" where
  "modifier_keys =
     [(''LCONTROL'', Mod_LeftCtrl), (''RCONTROL'', Mod_RightCtrl), (''LSHIFT'', Mod_LeftShift),
      (''RSHIFT'', Mod_RightShift), (''LMENU'', Mod_LeftAlt), (''RMENU'', Mod_RightAlt),
      (''LWIN'', Mod_LeftMeta), (''RWIN'', Mod_RightMeta)]"

text \<open>
  The modifier flags of a captured key are exactly the modifier keys that are down, the left and the right
  ones apart.
\<close>

theorem currentModifiers_exact:
  "map (\<lambda>(name, flag). modifier_and (currentModifiers vk asyncState) flag \<noteq> Mod_None) modifier_keys =
   map (\<lambda>(name, flag). key_down vk asyncState name) modifier_keys"
proof -
  have "modifier_and (currentModifiers vk asyncState) flag \<noteq> Mod_None \<longleftrightarrow> key_down vk asyncState name"
    if "(name, flag) \<in> set modifier_keys" for name flag
    unfolding currentModifiers_def modifier_and_def modifier_keys_def [symmetric]
    by (rule flag_of_fold [OF _ _ that]) (use that in \<open>auto simp: modifier_keys_def\<close>)
  then show ?thesis by auto
qed

end
