(* ===== verification/Settings_Presenter.thy ===== *)
theory Settings_Presenter
  imports App_Config
begin

text \<open>
  The configuration page of the graphical interface: \<open>ui/model/settings_model.cpp\<close> (the model, a
  configuration and the file it belongs to) and \<open>ui/presentation/settings_presenter.cpp\<close> (the actions
  a user can take).

  \<^item> A status text is a constructor of \<open>settings_status\<close>, one per text of the source, with the texts that
    are formatted into it; what is shown is a matter of translation.
  \<^item> Qt is foreign: \<open>trimmed\<close> is the parameter \<open>trim\<close>, the conversion of a text to a path \<open>to_path\<close>, and a
    URL appears as what \<open>localPath\<close> returns for it. A \<open>QString\<close> and the \<open>std::string\<close> it converts to
    are the same list of characters.
  \<^item> An action during which the read of a file throws is left by this exception: \<open>None\<close>.
  \<^item> The signals that an action emits are recorded in their order.
\<close>

section \<open>The model\<close>

record settings_model =
  sm_config :: app_config
  sm_path :: path

definition model_createNew :: "(nat \<Rightarrow> 32 word) \<Rightarrow> settings_model" where
  "model_createNew rd = \<lparr>sm_config = ensureMachineId rd default_config, sm_path = []\<rparr>"

definition model_loadOrCreate ::
  "json_codec \<Rightarrow> io_faults \<Rightarrow> (nat \<Rightarrow> 32 word) \<Rightarrow> path \<Rightarrow> settings_model \<Rightarrow> file_system \<Rightarrow>
     ((config_failure + settings_model) \<times> file_system) option" where
  "model_loadOrCreate json io rd p model fs =
     (case loadOrCreateConfig json io rd p fs of
        None \<Rightarrow> None
      | Some (Inl e, fs') \<Rightarrow> Some (Inl e, fs')
      | Some (Inr config, fs') \<Rightarrow> Some (Inr (model\<lparr>sm_config := config, sm_path := p\<rparr>), fs'))"

definition model_importFrom ::
  "json_codec \<Rightarrow> io_faults \<Rightarrow> (nat \<Rightarrow> 32 word) \<Rightarrow> path \<Rightarrow> settings_model \<Rightarrow> file_system \<Rightarrow>
     (config_failure + settings_model) option" where
  "model_importFrom json io rd p model fs =
     (case loadConfig json io p fs of
        None \<Rightarrow> None
      | Some (Inl e) \<Rightarrow> Some (Inl e)
      | Some (Inr config) \<Rightarrow> Some (Inr (model\<lparr>sm_config := ensureMachineId rd config, sm_path := p\<rparr>)))"

definition model_save ::
  "json_codec \<Rightarrow> io_faults \<Rightarrow> settings_model \<Rightarrow> file_system \<Rightarrow> (config_failure + unit) \<times> file_system" where
  "model_save json io model fs =
     (if sm_path model = [] then (Inl (ConfigFailure InvalidConfig), fs)
      else saveConfig json io (sm_path model) (sm_config model) fs)"

definition model_saveAs ::
  "json_codec \<Rightarrow> io_faults \<Rightarrow> path \<Rightarrow> settings_model \<Rightarrow> file_system \<Rightarrow>
     (config_failure + settings_model) \<times> file_system" where
  "model_saveAs json io p model fs =
     (case saveConfig json io p (sm_config model) fs of
        (Inl e, fs') \<Rightarrow> (Inl e, fs')
      | (Inr _, fs') \<Rightarrow> (Inr (model\<lparr>sm_path := p\<rparr>), fs'))"

section \<open>The presenter\<close>

datatype settings_signal =
  ConfigPathChanged | MachineIdChanged | ScreensChanged | TrustedClientsChanged | StatusMessageChanged

datatype settings_status =
    NewConfigReady | NewConfigCreated | Loaded path | Imported path | Saved path | LayoutUpdated
  | ScreenMoved | ScreenRemoved | TrustedAdded | TrustedRemoved
  | LoadFailed config_failure | ImportFailed config_failure | SaveFailed config_failure | SaveAsFailed config_failure
  | PathEmpty | NotLocalImport | NotLocalSave | NoFileYet | OwnerEmpty | IndexNegative | CellTaken
  | NoSuchScreen | NoSuchScreenToRemove | ClientEmpty | NoSuchClient

record settings_presenter =
  sp_model :: settings_model
  sp_status :: settings_status
  sp_hasError :: bool
  sp_signals :: "settings_signal list"

record settings_env =
  se_json :: json_codec
  se_io :: io_faults
  se_trim :: "string \<Rightarrow> string"
  se_path :: "string \<Rightarrow> path"

definition emit :: "settings_signal list \<Rightarrow> settings_presenter \<Rightarrow> settings_presenter" where
  "emit signals sp = sp\<lparr>sp_signals := sp_signals sp @ signals\<rparr>"

definition showSuccess :: "settings_status \<Rightarrow> settings_presenter \<Rightarrow> settings_presenter" where
  "showSuccess status sp = emit [StatusMessageChanged] (sp\<lparr>sp_status := status, sp_hasError := False\<rparr>)"

definition showError :: "settings_status \<Rightarrow> settings_presenter \<Rightarrow> settings_presenter" where
  "showError status sp = emit [StatusMessageChanged] (sp\<lparr>sp_status := status, sp_hasError := True\<rparr>)"

definition showValidationError :: "settings_status \<Rightarrow> settings_presenter \<Rightarrow> settings_presenter" where
  "showValidationError status sp = emit [StatusMessageChanged] (sp\<lparr>sp_status := status, sp_hasError := True\<rparr>)"

definition publishConfig :: "settings_presenter \<Rightarrow> settings_presenter" where
  "publishConfig = emit [ConfigPathChanged, MachineIdChanged, ScreensChanged, TrustedClientsChanged]"

definition set_model :: "settings_model \<Rightarrow> settings_presenter \<Rightarrow> settings_presenter" where
  "set_model model sp = sp\<lparr>sp_model := model\<rparr>"

definition set_config :: "app_config \<Rightarrow> settings_presenter \<Rightarrow> settings_presenter" where
  "set_config config sp = sp\<lparr>sp_model := (sp_model sp)\<lparr>sm_config := config\<rparr>\<rparr>"

definition new_presenter :: "(nat \<Rightarrow> 32 word) \<Rightarrow> settings_presenter" where
  "new_presenter rd =
     showSuccess NewConfigReady
       \<lparr>sp_model = model_createNew rd, sp_status = NewConfigReady, sp_hasError = False, sp_signals = []\<rparr>"

text \<open>The screens property shows each entry with a flag for the screens of this machine.\<close>

definition presented_screens :: "settings_presenter \<Rightarrow> (string \<times> nat \<times> int \<times> int \<times> bool) list" where
  "presented_screens sp =
     (let config = sm_config (sp_model sp)
      in map (\<lambda>s. (sl_ownerId s, sl_screenIndex s, cell_x (sl_cell s), cell_y (sl_cell s),
                  sl_ownerId s = cfg_machineId config)) (cfg_screens config))"

section \<open>Loading and saving\<close>

definition loadConfigPath ::
  "settings_env \<Rightarrow> (nat \<Rightarrow> 32 word) \<Rightarrow> string \<Rightarrow> settings_presenter \<times> file_system \<Rightarrow>
     (settings_presenter \<times> file_system) option" where
  "loadConfigPath env rd pathText st =
     (case st of (sp, fs) \<Rightarrow>
        (let trimmed = se_trim env pathText
         in if trimmed = [] then Some (showValidationError PathEmpty sp, fs)
            else (let p = se_path env trimmed
                  in case model_loadOrCreate (se_json env) (se_io env) rd p (sp_model sp) fs of
                       None \<Rightarrow> None
                     | Some (Inl e, fs') \<Rightarrow> Some (showError (LoadFailed e) sp, fs')
                     | Some (Inr model, fs') \<Rightarrow>
                         Some (showSuccess (Loaded (sm_path model)) (publishConfig (set_model model sp)), fs'))))"

definition loadDefault ::
  "settings_env \<Rightarrow> (nat \<Rightarrow> 32 word) \<Rightarrow> settings_presenter \<times> file_system \<Rightarrow> (settings_presenter \<times> file_system) option" where
  "loadDefault env rd = loadConfigPath env rd ''mksync.json''"

definition presenter_createNew :: "(nat \<Rightarrow> 32 word) \<Rightarrow> settings_presenter \<Rightarrow> settings_presenter" where
  "presenter_createNew rd sp = showSuccess NewConfigCreated (publishConfig (set_model (model_createNew rd) sp))"

definition importConfig ::
  "settings_env \<Rightarrow> (nat \<Rightarrow> 32 word) \<Rightarrow> path option \<Rightarrow> settings_presenter \<times> file_system \<Rightarrow>
     (settings_presenter \<times> file_system) option" where
  "importConfig env rd url st =
     (case st of (sp, fs) \<Rightarrow>
        (case url of
           None \<Rightarrow> Some (showValidationError NotLocalImport sp, fs)
         | Some p \<Rightarrow>
             (case model_importFrom (se_json env) (se_io env) rd p (sp_model sp) fs of
                None \<Rightarrow> None
              | Some (Inl e) \<Rightarrow> Some (showError (ImportFailed e) sp, fs)
              | Some (Inr model) \<Rightarrow>
                  Some (showSuccess (Imported (sm_path model)) (publishConfig (set_model model sp)), fs))))"

definition presenter_save ::
  "settings_env \<Rightarrow> settings_presenter \<times> file_system \<Rightarrow> settings_presenter \<times> file_system" where
  "presenter_save env st =
     (case st of (sp, fs) \<Rightarrow>
        (case model_save (se_json env) (se_io env) (sp_model sp) fs of
           (Inl e, fs') \<Rightarrow>
             (if sm_path (sp_model sp) = [] then (showValidationError NoFileYet sp, fs')
              else (showError (SaveFailed e) sp, fs'))
         | (Inr _, fs') \<Rightarrow> (showSuccess (Saved (sm_path (sp_model sp))) (publishConfig sp), fs')))"

definition presenter_saveAs ::
  "settings_env \<Rightarrow> path option \<Rightarrow> settings_presenter \<times> file_system \<Rightarrow> settings_presenter \<times> file_system" where
  "presenter_saveAs env url st =
     (case st of (sp, fs) \<Rightarrow>
        (case url of
           None \<Rightarrow> (showValidationError NotLocalSave sp, fs)
         | Some p \<Rightarrow>
             (case model_saveAs (se_json env) (se_io env) p (sp_model sp) fs of
                (Inl e, fs') \<Rightarrow> (showError (SaveAsFailed e) sp, fs')
              | (Inr model, fs') \<Rightarrow> (showSuccess (Saved (sm_path model)) (publishConfig (set_model model sp)), fs'))))"

section \<open>Editing\<close>

definition cellIsOccupied :: "grid_position \<Rightarrow> nat option \<Rightarrow> screen_layout_config list \<Rightarrow> bool" where
  "cellIsOccupied cell ignoredRow layouts =
     list_ex (\<lambda>row. ignoredRow \<noteq> Some row \<and> sl_cell (layouts ! row) = cell) [0..<length layouts]"

definition existing_row :: "string \<Rightarrow> nat \<Rightarrow> screen_layout_config list \<Rightarrow> nat option" where
  "existing_row ownerId index layouts =
     find (\<lambda>row. layout_matches ownerId index (layouts ! row)) [0..<length layouts]"

definition presenter_addScreen ::
  "settings_env \<Rightarrow> string \<Rightarrow> int \<Rightarrow> int \<Rightarrow> int \<Rightarrow> settings_presenter \<Rightarrow> settings_presenter" where
  "presenter_addScreen env ownerId screenIndex x y sp =
     (let trimmed = se_trim env ownerId; config = sm_config (sp_model sp)
      in if trimmed = [] then showValidationError OwnerEmpty sp
         else if screenIndex < 0 then showValidationError IndexNegative sp
         else if cellIsOccupied (GridPosition x y) (existing_row trimmed (nat screenIndex) (cfg_screens config)) (cfg_screens config)
         then showValidationError CellTaken sp
         else showSuccess LayoutUpdated (publishConfig (set_config
                (upsertScreenLayout \<lparr>sl_ownerId = trimmed, sl_screenIndex = nat screenIndex, sl_cell = GridPosition x y\<rparr> config) sp)))"

definition row_missing :: "int \<Rightarrow> 'a list \<Rightarrow> bool" where
  "row_missing row xs \<longleftrightarrow> row < 0 \<or> nat row \<ge> length xs"

definition erase_row :: "int \<Rightarrow> 'a list \<Rightarrow> 'a list" where
  "erase_row row xs = take (nat row) xs @ drop (Suc (nat row)) xs"

definition moveScreen :: "int \<Rightarrow> int \<Rightarrow> int \<Rightarrow> settings_presenter \<Rightarrow> settings_presenter" where
  "moveScreen row x y sp =
     (let config = sm_config (sp_model sp); layouts = cfg_screens config
      in if row_missing row layouts then showValidationError NoSuchScreen sp
         else if cellIsOccupied (GridPosition x y) (Some (nat row)) layouts then showValidationError CellTaken sp
         else showSuccess ScreenMoved (publishConfig (set_config
                (config\<lparr>cfg_screens := layouts[nat row := (layouts ! nat row)\<lparr>sl_cell := GridPosition x y\<rparr>]\<rparr>) sp)))"

definition presenter_removeScreen :: "int \<Rightarrow> settings_presenter \<Rightarrow> settings_presenter" where
  "presenter_removeScreen row sp =
     (let config = sm_config (sp_model sp)
      in if row_missing row (cfg_screens config) then showValidationError NoSuchScreenToRemove sp
         else showSuccess ScreenRemoved (publishConfig (set_config
                (config\<lparr>cfg_screens := erase_row row (cfg_screens config)\<rparr>) sp)))"

definition addTrustedClient :: "settings_env \<Rightarrow> string \<Rightarrow> string \<Rightarrow> settings_presenter \<Rightarrow> settings_presenter" where
  "addTrustedClient env machineId name sp =
     (let trimmedId = se_trim env machineId; trimmedName = se_trim env name; config = sm_config (sp_model sp)
      in if trimmedId = [] \<and> trimmedName = [] then showValidationError ClientEmpty sp
         else showSuccess TrustedAdded (publishConfig (set_config
                (config\<lparr>cfg_trustedClients := cfg_trustedClients config @ [\<lparr>tc_machineId = trimmedId, tc_name = trimmedName\<rparr>]\<rparr>) sp)))"

definition removeTrustedClient :: "int \<Rightarrow> settings_presenter \<Rightarrow> settings_presenter" where
  "removeTrustedClient row sp =
     (let config = sm_config (sp_model sp)
      in if row_missing row (cfg_trustedClients config) then showValidationError NoSuchClient sp
         else showSuccess TrustedRemoved (publishConfig (set_config
                (config\<lparr>cfg_trustedClients := erase_row row (cfg_trustedClients config)\<rparr>) sp)))"

section \<open>Sessions of the user\<close>

datatype settings_action =
    LoadConfigPath "nat \<Rightarrow> 32 word" string
  | CreateNew "nat \<Rightarrow> 32 word"
  | ImportConfig "nat \<Rightarrow> 32 word" "path option"
  | Save
  | SaveAs "path option"
  | AddScreen string int int int
  | MoveScreen int int int
  | RemoveScreen int
  | AddTrustedClient string string
  | RemoveTrustedClient int

fun settings_exec ::
  "settings_env \<Rightarrow> settings_action \<Rightarrow> settings_presenter \<times> file_system \<Rightarrow>
     (settings_presenter \<times> file_system) option" where
  "settings_exec env (LoadConfigPath rd text) st = loadConfigPath env rd text st"
| "settings_exec env (CreateNew rd) (sp, fs) = Some (presenter_createNew rd sp, fs)"
| "settings_exec env (ImportConfig rd url) st = importConfig env rd url st"
| "settings_exec env Save st = Some (presenter_save env st)"
| "settings_exec env (SaveAs url) st = Some (presenter_saveAs env url st)"
| "settings_exec env (AddScreen owner index x y) (sp, fs) = Some (presenter_addScreen env owner index x y sp, fs)"
| "settings_exec env (MoveScreen row x y) (sp, fs) = Some (moveScreen row x y sp, fs)"
| "settings_exec env (RemoveScreen row) (sp, fs) = Some (presenter_removeScreen row sp, fs)"
| "settings_exec env (AddTrustedClient machineId name) (sp, fs) = Some (addTrustedClient env machineId name sp, fs)"
| "settings_exec env (RemoveTrustedClient row) (sp, fs) = Some (removeTrustedClient row sp, fs)"

fun settings_run ::
  "settings_env \<Rightarrow> settings_action list \<Rightarrow> settings_presenter \<times> file_system \<Rightarrow>
     (settings_presenter \<times> file_system) option" where
  "settings_run env [] st = Some st"
| "settings_run env (a # as) st = do { st1 \<leftarrow> settings_exec env a st; settings_run env as st1 }"

section \<open>Lemmas\<close>

lemmas presenter_defs = emit_def showSuccess_def showError_def showValidationError_def publishConfig_def
  set_model_def set_config_def

lemmas settings_ops = loadConfigPath_def presenter_createNew_def importConfig_def presenter_save_def
  presenter_saveAs_def presenter_addScreen_def moveScreen_def presenter_removeScreen_def addTrustedClient_def
  removeTrustedClient_def

definition layout_good :: "app_config \<Rightarrow> bool" where
  "layout_good config \<longleftrightarrow> layouts_unique config \<and> distinct (map sl_cell (cfg_screens config)) \<and>
     (\<forall>l \<in> set (cfg_screens config). sl_ownerId l \<noteq> [])"

lemma layout_good_screens: "cfg_screens config = cfg_screens config' \<Longrightarrow> layout_good config = layout_good config'"
  by (simp add: layout_good_def layouts_unique_def)

lemma cellIsOccupied_iff:
  "cellIsOccupied cell ignored ls \<longleftrightarrow> (\<exists>row < length ls. ignored \<noteq> Some row \<and> sl_cell (ls ! row) = cell)"
  by (auto simp: cellIsOccupied_def list_ex_iff)

lemma existing_row_simps:
  "existing_row owner index [] = None"
  "existing_row owner index (l # ls) =
     (if layout_matches owner index l then Some 0 else map_option Suc (existing_row owner index ls))"
proof -
  have shift: "find P (map Suc xs) = map_option Suc (find (\<lambda>i. P (Suc i)) xs)" for P xs
    by (induction xs) auto
  have "[0..<length (l # ls)] = 0 # map Suc [0..<length ls]"
    using upt_conv_Cons [of 0 "Suc (length ls)"] by (simp add: map_Suc_upt del: upt.simps)
  then show "existing_row owner index (l # ls) =
     (if layout_matches owner index l then Some 0 else map_option Suc (existing_row owner index ls))"
    by (simp add: existing_row_def shift del: upt.simps)
qed (simp add: existing_row_def)

lemma upsert_layout_row:
  "upsert_layout layout ls =
     (case existing_row (sl_ownerId layout) (sl_screenIndex layout) ls of
        Some row \<Rightarrow> ls[row := layout] | None \<Rightarrow> ls @ [layout])"
  by (induction layout ls rule: upsert_layout.induct) (auto simp: existing_row_simps split: option.split)

lemma existing_row_less: "existing_row owner index ls = Some row \<Longrightarrow> row < length ls"
  by (auto simp: existing_row_def dest: find_SomeD)

text \<open>Putting a screen on a free cell keeps the cells apart.\<close>

lemma distinct_cells_update:
  assumes "distinct (map sl_cell ls)" "\<not> cellIsOccupied (sl_cell layout) (Some row) ls"
  shows "distinct (map sl_cell (ls[row := layout]))"
proof -
  have "sl_cell layout \<notin> set (map sl_cell ls) - {map sl_cell ls ! row}" if "row < length ls"
    using assms(2) that by (auto simp: cellIsOccupied_iff in_set_conv_nth)
  then show ?thesis
    using assms(1) distinct_list_update [of "map sl_cell ls" "sl_cell layout" row]
    by (cases "row < length ls") (simp_all add: map_update list_update_beyond)
qed

lemma distinct_cells_upsert:
  assumes "distinct (map sl_cell ls)"
    and free: "\<not> cellIsOccupied (sl_cell layout) (existing_row (sl_ownerId layout) (sl_screenIndex layout) ls) ls"
  shows "distinct (map sl_cell (upsert_layout layout ls))"
proof (cases "existing_row (sl_ownerId layout) (sl_screenIndex layout) ls")
  case None
  with free have "sl_cell layout \<notin> sl_cell ` set ls" by (auto simp: cellIsOccupied_iff in_set_conv_nth)
  with None assms(1) show ?thesis by (auto simp: upsert_layout_row)
next
  case (Some row)
  with free assms(1) show ?thesis by (simp add: upsert_layout_row distinct_cells_update)
qed

lemma layout_good_upsert:
  assumes "layout_good config" "sl_ownerId layout \<noteq> []"
    "\<not> cellIsOccupied (sl_cell layout) (existing_row (sl_ownerId layout) (sl_screenIndex layout) (cfg_screens config)) (cfg_screens config)"
  shows "layout_good (upsertScreenLayout layout config)"
proof -
  have "set (upsert_layout layout ls) \<subseteq> insert layout (set ls)" for ls
    by (induction layout ls rule: upsert_layout.induct) auto
  then have "\<forall>l \<in> set (cfg_screens (upsertScreenLayout layout config)). sl_ownerId l \<noteq> []"
    using assms(1,2) by (fastforce simp: upsertScreenLayout_def layout_good_def)
  then show ?thesis
    using assms distinct_cells_upsert [of "cfg_screens config" layout]
    by (auto simp: layout_good_def) (simp add: upsertScreenLayout_def)
qed

lemma layout_good_move:
  assumes "layout_good config" "\<not> row_missing row (cfg_screens config)"
    "\<not> cellIsOccupied cell (Some (nat row)) (cfg_screens config)"
  shows "layout_good (config\<lparr>cfg_screens :=
    (cfg_screens config)[nat row := (cfg_screens config ! nat row)\<lparr>sl_cell := cell\<rparr>]\<rparr>)"
proof -
  let ?ls = "cfg_screens config" and ?n = "nat row"
  have n: "?n < length ?ls" using assms(2) by (simp add: row_missing_def not_le)
  let ?l = "(?ls ! ?n)\<lparr>sl_cell := cell\<rparr>"
  have "map layout_id (?ls[?n := ?l]) = map layout_id ?ls"
    using n by (simp add: map_update layout_id_def list_update_same_conv)
  moreover have "distinct (map sl_cell (?ls[?n := ?l]))"
    using assms(1,3) distinct_cells_update [of ?ls ?l ?n] by (simp add: layout_good_def)
  moreover have "\<forall>l \<in> set (?ls[?n := ?l]). sl_ownerId l \<noteq> []"
    using assms(1) n by (auto simp: layout_good_def dest!: subsetD [OF set_update_subset_insert])
  ultimately show ?thesis using assms(1) by (simp add: layout_good_def layouts_unique_def)
qed

lemma distinct_erase_row: "distinct (map f xs) \<Longrightarrow> distinct (map f (erase_row row xs))"
  unfolding erase_row_def map_append take_map [symmetric] drop_map [symmetric]
  by (auto simp: distinct_take distinct_drop) (metis append_take_drop_id distinct_append disjoint_iff set_drop_subset_set_drop Suc_leI le_SucI order_refl subsetD)

lemma set_erase_row: "set (erase_row row xs) \<subseteq> set xs"
  by (auto simp: erase_row_def dest: in_set_takeD in_set_dropD)

lemma layout_good_erase:
  "layout_good config \<Longrightarrow> layout_good (config\<lparr>cfg_screens := erase_row row (cfg_screens config)\<rparr>)"
  using set_erase_row [of row "cfg_screens config"]
  by (auto simp: layout_good_def layouts_unique_def distinct_erase_row)

fun is_edit :: "settings_action \<Rightarrow> bool" where
  "is_edit (LoadConfigPath _ _) = False"
| "is_edit (ImportConfig _ _) = False"
| "is_edit _ = True"

abbreviation presented_config :: "settings_presenter \<times> file_system \<Rightarrow> app_config" where
  "presented_config st \<equiv> sm_config (sp_model (fst st))"

lemma edit_keeps_layout:
  assumes "layout_good (presented_config st)" "is_edit a"
  shows "\<exists>st'. settings_exec env a st = Some st' \<and> layout_good (presented_config st')"
proof -
  obtain sp fs where st: "st = (sp, fs)" by (cases st)
  show ?thesis
  proof (cases a)
    case (CreateNew rd)
    have "layout_good (ensureMachineId rd default_config)"
      by (simp add: layout_good_def layouts_unique_def default_config_def)
    with CreateNew st show ?thesis by (simp add: presenter_createNew_def presenter_defs model_createNew_def)
  next
    case Save
    with assms(1) st show ?thesis
      by (auto simp: presenter_save_def presenter_defs split: prod.split sum.split)
  next
    case (SaveAs url)
    with assms(1) st show ?thesis
      by (auto simp: presenter_saveAs_def presenter_defs model_saveAs_def split: prod.splits sum.splits option.split)
  next
    case (AddScreen owner index x y)
    with assms(1) st show ?thesis
      by (auto simp: presenter_addScreen_def presenter_defs Let_def intro!: layout_good_upsert)
  next
    case (MoveScreen row x y)
    with assms(1) st show ?thesis
      by (auto simp: moveScreen_def presenter_defs Let_def intro!: layout_good_move)
  next
    case (RemoveScreen row)
    with assms(1) st show ?thesis
      by (auto simp: presenter_removeScreen_def presenter_defs Let_def intro!: layout_good_erase)
  next
    case (AddTrustedClient machineId name)
    with assms(1) st show ?thesis
      by (auto simp: addTrustedClient_def presenter_defs Let_def layout_good_def layouts_unique_def)
  next
    case (RemoveTrustedClient row)
    with assms(1) st show ?thesis
      by (auto simp: removeTrustedClient_def presenter_defs Let_def layout_good_def layouts_unique_def)
  qed (use assms(2) in simp_all)
qed

lemma edits_keep_layout:
  "layout_good (presented_config st) \<Longrightarrow> list_all is_edit actions \<Longrightarrow>
     \<exists>st'. settings_run env actions st = Some st' \<and> layout_good (presented_config st')"
proof (induction actions arbitrary: st)
  case (Cons a actions)
  then obtain st1 where "settings_exec env a st = Some st1" "layout_good (presented_config st1)"
    using edit_keeps_layout [OF Cons.prems(1), of a env] by auto
  with Cons.IH [of st1] Cons.prems(2) show ?case by simp
qed simp

lemma exec_machineId:
  assumes "cfg_machineId (presented_config st) \<noteq> []" and "settings_exec env a st = Some st'"
  shows "cfg_machineId (presented_config st') \<noteq> []"
proof -
  obtain sp fs where st: "st = (sp, fs)" by (cases st)
  show ?thesis
  proof (cases a)
    case (LoadConfigPath rd t)
    with assms st show ?thesis
      by (auto simp: loadConfigPath_def presenter_defs Let_def model_loadOrCreate_def
          dest: loadOrCreate_machineId split: if_splits option.splits sum.splits prod.splits)
  next
    case (ImportConfig rd url)
    with assms st show ?thesis
      by (auto simp: importConfig_def presenter_defs model_importFrom_def split: sum.splits option.splits prod.splits)
  next
    case (SaveAs url)
  have "cfg_machineId (presented_config (presenter_saveAs env url (sp, fs))) = cfg_machineId (sm_config (sp_model sp))"
    by (auto simp: presenter_saveAs_def presenter_defs model_saveAs_def split: prod.split sum.split option.split)
  with SaveAs assms st show ?thesis by auto
next
    case Save
  have "cfg_machineId (presented_config (presenter_save env (sp, fs))) = cfg_machineId (sm_config (sp_model sp))"
    by (auto simp: presenter_save_def presenter_defs split: prod.split sum.split)
  with Save assms st show ?thesis by auto
qed (use assms st in \<open>auto simp: settings_ops presenter_defs Let_def model_createNew_def split: if_splits\<close>)
qed

section \<open>Properties\<close>

definition demo_settings :: settings_env where
  "demo_settings = \<lparr>se_json = demo_json, se_io = no_faults, se_trim = (\<lambda>s. s), se_path = (\<lambda>s. [s])\<rparr>"

text \<open>
  Editing cannot produce a broken layout: after any sequence of user actions other than loading and
  importing a file, every screen is listed once, no two screens share a cell, and every screen has an owner.
\<close>

theorem editing_keeps_layout:
  assumes "layout_good (presented_config st)" and "list_all is_edit actions"
  shows "\<exists>st'. settings_run env actions st = Some st' \<and> layout_good (presented_config st')"
  using assms by (rule edits_keep_layout)

theorem editing_keeps_layout_witness:
  "\<exists>st'. settings_run demo_settings
     [AddScreen ''a'' 0 1 0, AddScreen ''b'' 0 1 0, AddScreen ''b'' 0 2 0, MoveScreen 0 2 0, RemoveScreen 0]
     (new_presenter (\<lambda>_. 0), empty_disk) = Some st' \<and> layout_good (presented_config st')"
proof (rule editing_keeps_layout)
  show "layout_good (presented_config (new_presenter (\<lambda>_. 0), empty_disk))"
    by (simp add: new_presenter_def presenter_defs model_createNew_def layout_good_def layouts_unique_def default_config_def)
qed simp


text \<open>
  The machine always has an identity: whatever the user does, from the first moment on and whatever the
  files contain, the machine id of the presented configuration is not empty.
\<close>

theorem settings_identity:
  assumes "settings_run env actions (new_presenter rd, fs) = Some st"
  shows "cfg_machineId (presented_config st) \<noteq> []"
proof -
  have "settings_run env actions st0 = Some st \<Longrightarrow> cfg_machineId (presented_config st0) \<noteq> [] \<Longrightarrow>
      cfg_machineId (presented_config st) \<noteq> []" for st0
  proof (induction actions arbitrary: st0)
    case (Cons a actions)
    then obtain st1 where "settings_exec env a st0 = Some st1" "settings_run env actions st1 = Some st"
      by (auto simp: ub_bind_eq_Some)
    with Cons.IH [of st1] Cons.prems(2) exec_machineId show ?case by blast
  qed simp
  with assms show ?thesis by (simp add: new_presenter_def presenter_defs model_createNew_def)
qed

theorem settings_identity_witness:
  "\<exists>st. settings_run demo_settings [AddTrustedClient ''m'' ''n''] (new_presenter (\<lambda>_. 0), empty_disk) = Some st \<and>
     cfg_machineId (presented_config st) \<noteq> []"
  using settings_identity [of demo_settings "[AddTrustedClient ''m'' ''n'']" "\<lambda>_. 0" empty_disk] by auto

end
