(* ===== verification/Cli_Config.thy ===== *)
theory Cli_Config
  imports App_Config Backend_Registry
begin

text \<open>
  The commands of the program (\<open>src/config/arg_config.hpp\<close>, \<open>arg_config.cpp\<close>) and the log level names
  of \<open>src/main.cpp\<close>. The argument parser is a foreign library: what it makes of an argument vector is
  the parameter \<open>parse\<close>, what its exporter does is the parameter \<open>export\<close>. An error code is its number.
\<close>

section \<open>Commands\<close>

record common_config =
  cc_configPath :: string
  cc_logLevel :: string
  cc_backend :: string

definition default_common :: common_config where
  "default_common = \<lparr>cc_configPath = ''mksync.json'', cc_logLevel = ''info'', cc_backend = []\<rparr>"

datatype cli_command =
    ServerCommand string common_config
  | ClientCommand string common_config
  | CheckPlatformCommand string
  | BackendCommand bool bool

definition parseCliArguments :: "(string list \<Rightarrow> nat + cli_command) \<Rightarrow> string list \<Rightarrow> nat + cli_command" where
  "parseCliArguments parse argv = parse argv"

definition importCliCommand ::
  "(string list \<Rightarrow> nat + cli_command) \<Rightarrow> string \<Rightarrow> nat + cli_command" where
  "importCliCommand parse pathText = parseCliArguments parse [''mksync'', ''--import-toml'', pathText]"

definition exportCliCommand ::
  "(string \<Rightarrow> string \<Rightarrow> cli_command \<Rightarrow> nat option) \<Rightarrow> string \<Rightarrow> cli_command \<Rightarrow> nat + unit" where
  "exportCliCommand export pathText command =
     (case export ''toml'' pathText command of Some e \<Rightarrow> Inl e | None \<Rightarrow> Inr ())"

section \<open>Log levels\<close>

datatype log_level = LevelTrace | LevelDebug | LevelInfo | LevelWarn | LevelErr | LevelCritical | LevelOff

text \<open>\<open>std::tolower\<close> in the C locale, which changes the ASCII capitals.\<close>

definition std_tolower :: "char \<Rightarrow> char" where
  "std_tolower c = (let n = of_char c :: nat in if 65 \<le> n \<and> n \<le> 90 then char_of (n + 32) else c)"

definition parseLogLevel :: "string \<Rightarrow> log_level" where
  "parseLogLevel text =
     (let normalized = map std_tolower text
      in if normalized = ''trace'' then LevelTrace
         else if normalized = ''debug'' then LevelDebug
         else if normalized = ''warn'' \<or> normalized = ''warning'' then LevelWarn
         else if normalized = ''err'' \<or> normalized = ''error'' then LevelErr
         else if normalized = ''critical'' then LevelCritical
         else if normalized = ''off'' then LevelOff
         else LevelInfo)"

end
