(* ===== verification/Cli_Main.thy ===== *)
theory Cli_Main
  imports Cli_Config
begin

text \<open>
  The command line program, \<open>src/main.cpp\<close>: what \<open>ilias_main\<close> does with its arguments up to the point
  where it runs a server, runs a client or ends. The formatting of help and version texts is foreign; the
  lines printed for backends are kept.

  \<^item> \<open>main_end\<close> is how the function ends: what it starts to run, or why it returns.
  \<^item> The configuration is loaded by the model of \<open>App_Config\<close>, the backend is selected by that of
    \<open>Backend_Registry\<close>. Installing the crash handlers and the log sinks is left out; the path of the log
    file and the level names are modelled.
\<close>

section \<open>Log file\<close>

text \<open>An environment variable is absent or a text; the operator / of paths appends components.\<close>

definition logFilePath :: "(string \<Rightarrow> string option) \<Rightarrow> (string \<Rightarrow> path) \<Rightarrow> path" where
  "logFilePath getenv to_path =
     (case getenv ''XDG_STATE_HOME'' of
        Some (c # stateHome) \<Rightarrow> to_path (c # stateHome) @ [''mksync'', ''mksync.log'']
      | _ \<Rightarrow>
          (case getenv ''HOME'' of
             Some (c # home) \<Rightarrow> to_path (c # home) @ [''.local'', ''state'', ''mksync'', ''mksync.log'']
           | _ \<Rightarrow> [''mksync.log'']))"

section \<open>Listing and checking backends\<close>

datatype backend_line =
    BackendName string string
  | Available bool string
  | ScreensLine bool string
  | CaptureLine bool string
  | InjectionLine bool string

definition printBackendCheck :: "'p descriptor \<Rightarrow> backend_check \<Rightarrow> backend_line list" where
  "printBackendCheck d check =
     [BackendName (bd_name d) (bd_displayName d),
      Available (bc_available check) (bc_detail check),
      ScreensLine (fc_supported (bc_screens check)) (fc_detail (bc_screens check)),
      CaptureLine (fc_supported (bc_capture check)) (fc_detail (bc_capture check)),
      InjectionLine (fc_supported (bc_injection check)) (fc_detail (bc_injection check))]"

definition listBackends :: "'p registry \<Rightarrow> bool \<Rightarrow> backend_line list" where
  "listBackends reg checked =
     (if \<not> checked then map (\<lambda>d. BackendName (bd_name d) (bd_displayName d)) (registeredBackends reg)
      else concat (map (\<lambda>(d, check). printBackendCheck d check) (checkBackends reg)))"

datatype check_failure = CheckNoSuchDevice | CheckNotSupported

definition all_requirements :: backend_requirement where
  "all_requirements = requirement_or (requirement_or Requirement_Screens Requirement_Capture) Requirement_Injection"

fun check_named :: "'p registry \<Rightarrow> string \<Rightarrow> 'p descriptor list \<Rightarrow> backend_line list \<times> (check_failure + unit)" where
  "check_named reg name [] = ([], Inl CheckNoSuchDevice)"
| "check_named reg name (d # descriptors) =
     (if bd_name d \<noteq> name then check_named reg name descriptors
      else (let check = checkBackend reg (bd_name d)
            in (printBackendCheck d check,
                if supports check all_requirements then Inr () else Inl CheckNotSupported)))"

fun check_auto :: "('p descriptor \<times> backend_check) list \<Rightarrow> backend_line list \<times> (check_failure + unit)" where
  "check_auto [] = ([], Inl CheckNotSupported)"
| "check_auto ((d, check) # rest) =
     (if supports check all_requirements then (printBackendCheck d check, Inr ())
      else (case check_auto rest of (printed, result) \<Rightarrow> (printBackendCheck d check @ printed, result)))"

definition runPlatformCheck :: "'p registry \<Rightarrow> string \<Rightarrow> backend_line list \<times> (check_failure + unit)" where
  "runPlatformCheck reg requested =
     (if requested \<noteq> [] \<and> requested \<noteq> ''auto'' then check_named reg requested (registeredBackends reg)
      else check_auto (checkBackends reg))"

definition selectRuntimeBackend :: "'p registry \<Rightarrow> string \<Rightarrow> backend_requirement \<Rightarrow> 'p selection" where
  "selectRuntimeBackend reg name requirement =
     selectBackend reg name (requirement_or Requirement_Screens requirement)"

section \<open>The main function\<close>

datatype parse_end = HelpShown | VersionShown | ErrorAndHelpShown nat

text \<open>\<open>help\<close> and \<open>version\<close> are the error codes by which the parser asks for these texts.\<close>

definition parseCliCommand ::
  "nat \<Rightarrow> nat \<Rightarrow> (string list \<Rightarrow> nat + cli_command) \<Rightarrow> string list \<Rightarrow> parse_end + cli_command" where
  "parseCliCommand help version parse argv =
     (case parseCliArguments parse argv of
        Inl e \<Rightarrow> if e = help then Inl HelpShown
                 else if e = version then Inl VersionShown
                 else Inl (ErrorAndHelpShown e)
      | Inr command \<Rightarrow> Inr command)"

record main_env =
  me_help :: nat
  me_version :: nat
  me_parse :: "string list \<Rightarrow> nat + cli_command"
  me_endpoint :: "string \<Rightarrow> nat option"
  me_path :: "string \<Rightarrow> path"
  me_json :: json_codec
  me_io :: io_faults

text \<open>The exception of a failing read of the configuration is not caught: \<open>None\<close>, also of the program as a whole.\<close>

definition loadAppConfig ::
  "main_env \<Rightarrow> (nat \<Rightarrow> 32 word) \<Rightarrow> string \<Rightarrow> file_system \<Rightarrow>
     ((config_failure + path \<times> app_config) \<times> file_system) option" where
  "loadAppConfig env rd text fs =
     (let p = me_path env text
      in case loadOrCreateConfig (me_json env) (me_io env) rd p fs of
           None \<Rightarrow> None
         | Some (Inl e, fs') \<Rightarrow> Some (Inl e, fs')
         | Some (Inr config, fs') \<Rightarrow> Some (Inr (p, config), fs'))"

datatype 'p main_end =
    ParseEnd parse_end
  | BackendsListed "backend_line list"
  | CheckPassed "backend_line list"
  | CheckFailed "backend_line list" check_failure
  | InvalidEndpoint string
  | ConfigNotLoaded config_failure
  | BackendNotSelected "'p selection"
  | RunServer log_level nat 'p app_config path
  | RunClient log_level nat 'p app_config

definition prepare_service ::
  "main_env \<Rightarrow> (nat \<Rightarrow> 32 word) \<Rightarrow> 'p registry \<Rightarrow> string \<Rightarrow> common_config \<Rightarrow> backend_requirement \<Rightarrow> file_system \<Rightarrow>
     (('p main_end + nat \<times> 'p \<times> app_config \<times> path) \<times> file_system) option" where
  "prepare_service env rd reg endpointText common requirement fs =
     (case me_endpoint env endpointText of
        None \<Rightarrow> Some (Inl (InvalidEndpoint endpointText), fs)
      | Some endpoint \<Rightarrow>
          (case loadAppConfig env rd (cc_configPath common) fs of
             None \<Rightarrow> None
           | Some (Inl e, fs') \<Rightarrow> Some (Inl (ConfigNotLoaded e), fs')
           | Some (Inr (p, config), fs') \<Rightarrow>
               (case selectRuntimeBackend reg (cc_backend common) requirement of
                  Selected platform d check \<Rightarrow> Some (Inr (endpoint, platform, config, p), fs')
                | failed \<Rightarrow> Some (Inl (BackendNotSelected failed), fs'))))"

definition ilias_main ::
  "main_env \<Rightarrow> (nat \<Rightarrow> 32 word) \<Rightarrow> 'p registry \<Rightarrow> string list \<Rightarrow> file_system \<Rightarrow>
     ('p main_end \<times> file_system) option" where
  "ilias_main env rd reg argv fs =
     (case parseCliCommand (me_help env) (me_version env) (me_parse env) argv of
        Inl shown \<Rightarrow> Some (ParseEnd shown, fs)
      | Inr (BackendCommand listed checked) \<Rightarrow> Some (BackendsListed (listBackends reg checked), fs)
      | Inr (CheckPlatformCommand backend) \<Rightarrow>
          (case runPlatformCheck reg backend of
             (printed, Inl e) \<Rightarrow> Some (CheckFailed printed e, fs)
           | (printed, Inr _) \<Rightarrow> Some (CheckPassed printed, fs))
      | Inr (ServerCommand endpointText common) \<Rightarrow>
          (case prepare_service env rd reg endpointText common Requirement_Capture fs of
             None \<Rightarrow> None
           | Some (Inl failed, fs') \<Rightarrow> Some (failed, fs')
           | Some (Inr (endpoint, platform, config, p), fs') \<Rightarrow>
               Some (RunServer (parseLogLevel (cc_logLevel common)) endpoint platform config p, fs'))
      | Inr (ClientCommand endpointText common) \<Rightarrow>
          (case prepare_service env rd reg endpointText common Requirement_Injection fs of
             None \<Rightarrow> None
           | Some (Inl failed, fs') \<Rightarrow> Some (failed, fs')
           | Some (Inr (endpoint, platform, config, p), fs') \<Rightarrow>
               Some (RunClient (parseLogLevel (cc_logLevel common)) endpoint platform config, fs')))"

text \<open>The exit status: only a failed platform check calls \<open>std::exit\<close>, everything else returns.\<close>

definition exit_status :: "'p main_end \<Rightarrow> nat" where
  "exit_status e = (case e of CheckFailed _ _ \<Rightarrow> 1 | _ \<Rightarrow> 0)"

section \<open>Lemmas\<close>

lemma check_named_result:
  "snd (check_named reg name ds) =
     (case find_named name ds of
        None \<Rightarrow> Inl CheckNoSuchDevice
      | Some d \<Rightarrow> if supports (checkBackend reg (bd_name d)) all_requirements then Inr () else Inl CheckNotSupported)"
  by (induction ds) (auto simp: find_named_def Let_def)

lemma check_auto_result:
  "snd (check_auto (map (\<lambda>d. (d, checkBackend reg (bd_name d))) ds)) =
     (if \<exists>d \<in> set ds. supports (checkBackend reg (bd_name d)) all_requirements then Inr () else Inl CheckNotSupported)"
  by (induction ds) (auto split: prod.split)

fun selection_outcome :: "'p selection \<Rightarrow> check_failure + unit" where
  "selection_outcome NoSuchDevice = Inl CheckNoSuchDevice"
| "selection_outcome (Selected _ _ _) = Inr ()"
| "selection_outcome _ = Inl CheckNotSupported"

definition creatable :: "'p descriptor \<Rightarrow> bool" where
  "creatable d \<longleftrightarrow> (case bd_create d of Some (Inr (Some p)) \<Rightarrow> True | _ \<Rightarrow> False)"

lemma select_from_outcome:
  "list_all creatable ds \<Longrightarrow>
     selection_outcome (select_from reg requirements ds) =
       (if \<exists>d \<in> set ds. supports (checkBackend reg (bd_name d)) requirements then Inr () else Inl CheckNotSupported)"
  by (induction ds) (auto simp: creatable_def Let_def split: option.splits sum.splits)

lemma prepare_service_cases:
  assumes "prepare_service env rd reg text common requirement fs = Some (Inr (endpoint, platform, config, p), fs')"
  obtains d check where
    "me_endpoint env text = Some endpoint" "p = me_path env (cc_configPath common)"
    "loadOrCreateConfig (me_json env) (me_io env) rd p fs = Some (Inr config, fs')"
    "selectBackend reg (cc_backend common) (requirement_or Requirement_Screens requirement) = Selected platform d check"
  using assms
  by (auto simp: prepare_service_def loadAppConfig_def selectRuntimeBackend_def Let_def
      split: option.splits sum.splits prod.splits selection.splits)

lemma prepare_service_failed:
  "prepare_service env rd reg text common requirement fs = Some (Inl failed, fs') \<Longrightarrow>
     failed = InvalidEndpoint text \<or> (\<exists>e. failed = ConfigNotLoaded e) \<or> (\<exists>s. failed = BackendNotSelected s)"
  by (auto simp: prepare_service_def loadAppConfig_def Let_def split: option.splits sum.splits prod.splits selection.splits)

lemma requirement_or_screens:
  "supports check (requirement_or Requirement_Screens Requirement_Capture) \<longleftrightarrow>
     bc_available check \<and> fc_supported (bc_screens check) \<and> fc_supported (bc_capture check)"
  "supports check (requirement_or Requirement_Screens Requirement_Injection) \<longleftrightarrow>
     bc_available check \<and> fc_supported (bc_screens check) \<and> fc_supported (bc_injection check)"
  by (auto simp: supports_def hasRequirement_def requirement_and_def requirement_or_def)

lemma selected_supports:
  assumes "selectBackend reg name requirements = Selected platform d check"
  shows "d \<in> set reg \<and> supports check requirements \<and> check = checkBackend reg (bd_name d)"
proof -
  obtain ds where ds: "select_from reg requirements ds = Selected platform d check" "set ds \<subseteq> set reg"
  proof (cases "name = [] \<or> name = ''auto''")
    case True
    with assms that [of "registeredBackends reg"] show ?thesis by (simp add: selectBackend_def)
  next
    case False
    with assms obtain x where x: "findBackend name reg = Some x" "select_from reg requirements [x] = Selected platform d check"
      by (auto simp: selectBackend_def simp del: select_from.simps split: option.splits)
    from x(1) have "x \<in> set reg"
      by (auto simp: findBackend_def find_named_def dest: find_SomeD)
    with x(2) that [of "[x]"] show ?thesis by simp
  qed
  from select_from_cases [where reg = reg and requirements = requirements and ds = ds] ds show ?thesis by auto
qed

section \<open>Properties\<close>

text \<open>
  The platform check tells what a run would do: if every registered backend can create its platform, the
  check of a name succeeds exactly if the selection by this name, with everything required, selects a
  backend, and otherwise both report the same reason.
\<close>

theorem platform_check_agrees_with_selection:
  assumes "list_all creatable (registeredBackends reg)"
  shows "snd (runPlatformCheck reg name) = selection_outcome (selectBackend reg name all_requirements)"
proof (cases "name = [] \<or> name = ''auto''")
  case True
  with select_from_outcome [OF assms, of reg all_requirements] show ?thesis
    by (auto simp: runPlatformCheck_def checkBackends_def check_auto_result selectBackend_def)
next
  case False
  show ?thesis
  proof (cases "findBackend name reg")
    case None
    with False show ?thesis
      by (simp add: runPlatformCheck_def check_named_result selectBackend_def findBackend_def)
  next
    case (Some d)
    then have "d \<in> set (registeredBackends reg)" by (auto simp: findBackend_def find_named_def simp del: registered_set dest: find_SomeD)
    then have "list_all creatable [d]" using assms by (simp add: list_all_iff)
    from select_from_outcome [OF this, of reg all_requirements] False Some show ?thesis
      by (simp add: runPlatformCheck_def check_named_result selectBackend_def findBackend_def)
  qed
qed

theorem platform_check_agrees_with_selection_witness:
  "snd (runPlatformCheck demo_registry ''none'') = Inl CheckNoSuchDevice"
proof -
  have "list_all creatable (registeredBackends demo_registry)"
    by (simp add: list_all_iff demo_registry_def demo_backend_def creatable_def)
  from platform_check_agrees_with_selection [OF this, of "''none''"] show ?thesis
    by (simp add: selectBackend_def findBackend_def find_named_None [THEN iffD2] demo_registry_def demo_backend_def)
qed

text \<open>
  The program runs a server only as asked and only when everything is in place: the arguments ask for it,
  the endpoint is valid, the configuration is the one of the named file and has a machine id, and the
  platform comes from a registered backend whose check found screens and capture.
\<close>

theorem main_runs_server_when_ready:
  assumes "ilias_main env rd reg argv fs = Some (RunServer level endpoint platform config p, fs')"
  shows "\<exists>text common d check.
    me_parse env argv = Inr (ServerCommand text common) \<and> me_endpoint env text = Some endpoint \<and>
    level = parseLogLevel (cc_logLevel common) \<and> p = me_path env (cc_configPath common) \<and>
    loadOrCreateConfig (me_json env) (me_io env) rd p fs = Some (Inr config, fs') \<and> cfg_machineId config \<noteq> [] \<and>
    d \<in> set reg \<and> check = checkBackend reg (bd_name d) \<and> bc_available check \<and>
    fc_supported (bc_screens check) \<and> fc_supported (bc_capture check) \<and>
    selectBackend reg (cc_backend common) 3 = Selected platform d check"
proof -
  obtain t common where parsed: "me_parse env argv = Inr (ServerCommand t common)"
    and ready: "prepare_service env rd reg t common Requirement_Capture fs = Some (Inr (endpoint, platform, config, p), fs')"
    and level: "level = parseLogLevel (cc_logLevel common)"
    using assms
    by (auto simp: ilias_main_def parseCliCommand_def parseCliArguments_def dest!: prepare_service_failed
        split: option.splits sum.splits cli_command.splits prod.splits if_splits)
  from ready obtain d check where d: "me_endpoint env t = Some endpoint" "p = me_path env (cc_configPath common)"
    "loadOrCreateConfig (me_json env) (me_io env) rd p fs = Some (Inr config, fs')"
    "selectBackend reg (cc_backend common) (requirement_or Requirement_Screens Requirement_Capture) = Selected platform d check"
    by (rule prepare_service_cases)
  have three: "requirement_or Requirement_Screens Requirement_Capture = 3" by (simp add: requirement_or_def)
  from selected_supports [OF d(4)] d parsed level loadOrCreate_machineId [OF d(3)] show ?thesis
    by (auto simp: requirement_or_screens simp flip: three)
qed

definition demo_main :: main_env where
  "demo_main =
     \<lparr>me_help = 1, me_version = 2, me_parse = (\<lambda>_. Inr (ServerCommand ''0.0.0.0:1234'' default_common)),
      me_endpoint = (\<lambda>_. Some 9), me_path = (\<lambda>s. [s]), me_json = demo_json, me_io = no_faults\<rparr>"

lemma demo_main_runs:
  obtains config fs' where
    "ilias_main demo_main demo_rd demo_registry [''mksync''] empty_disk = Some (RunServer LevelInfo 9 1 config [''mksync.json''], fs')"
proof -
  have "json_ser demo_json fresh_config = Some (if fresh_config = demo_config then ''demo'' else ''fresh'')"
    by (simp add: demo_json_def)
  moreover have "\<not> is_directory [''mksync.json''] empty_disk" by (simp add: is_directory_def empty_disk_def)
  ultimately obtain fs' where "saveConfig demo_json no_faults [''mksync.json''] fresh_config empty_disk = (Inr (), fs')"
    by (rule saveConfig_no_faults)
  then have loaded: "loadOrCreateConfig demo_json no_faults demo_rd [''mksync.json''] empty_disk = Some (Inr fresh_config, fs')"
    by (simp add: loadOrCreateConfig_def no_faults_def empty_disk_def Let_def fresh_config_def)
  have selected: "selectRuntimeBackend demo_registry [] Requirement_Capture =
      Selected 1 (demo_backend ''xcb'' 20 True 1) (demo_check True)"
    by (simp add: selectRuntimeBackend_def selectBackend_def registeredBackends_def demo_registry_def demo_backend_def
        checkBackend_def findBackend_def find_named_def demo_check_def supports_def hasRequirement_def requirement_and_def
        requirement_or_def Let_def)
  have info: "parseLogLevel ''info'' = LevelInfo" by code_simp
  from loaded selected info that show ?thesis
    by (simp add: ilias_main_def demo_main_def parseCliCommand_def parseCliArguments_def prepare_service_def
        loadAppConfig_def default_common_def Let_def)
qed

theorem main_runs_server_when_ready_witness:
  "\<exists>config fs' d check. ilias_main demo_main demo_rd demo_registry [''mksync''] empty_disk =
     Some (RunServer LevelInfo 9 1 config [''mksync.json''], fs') \<and>
     selectBackend demo_registry [] 3 = Selected 1 d check \<and> fc_supported (bc_capture check)"
proof -
  obtain config fs' where run: "ilias_main demo_main demo_rd demo_registry [''mksync''] empty_disk =
      Some (RunServer LevelInfo 9 1 config [''mksync.json''], fs')"
    by (rule demo_main_runs)
  from main_runs_server_when_ready [OF run] run show ?thesis
    by (auto simp: demo_main_def default_common_def)
qed

end
