(* ===== verification/Runtime_Presenter.thy ===== *)
theory Runtime_Presenter
  imports Cli_Config Screen_Topology
begin

text \<open>
  The run page of the graphical interface, \<open>ui/presentation/runtime_presenter.cpp\<close>: the startup
  parameters, and the state machine that starts the service, watches it and stops it.

  \<^item> A text shown or logged is a constructor of \<open>runtime_text\<close>; its translation into UTF-16 units is the
    parameter \<open>re_tr\<close>, used where its length matters (the bounded log). A \<open>QString\<close> and the \<open>std::string\<close>
    it converts to are the same list of characters.
  \<^item> The coroutine \<open>runService\<close> is cut at its suspension points: \<open>gp_phase\<close> is where it waits (for the
    backend selection, or for \<open>whenAny\<close> of the stop token and the service) with the arguments it holds.
    \<open>serviceSelected\<close> and \<open>serviceEnded\<close> are the pieces in between, up to and including \<open>finishRun\<close>.
  \<^item> \<open>std::get\<close> on the wrong alternative of the command throws, and so does a failing read of the
    configuration; an operation out of which such an exception escapes is \<open>None\<close>. The foreign parser and
    exporter of the startup file report errors by value, and the exceptions of the service are caught by the page.
  \<^item> \<open>QCoreApplication::quit\<close> is the flag \<open>gp_quit\<close>; the signals of an operation are recorded in order.
\<close>

section \<open>State\<close>

datatype runtime_text =
    NotRunning | ChooseMode | StartupReady | ChecksPending | ChecksRunning
  | CannotStart | EndpointInvalid | ConfigUnsaved | ConfigUnreadable | ConfigProblem config_failure
  | StartingUp | PreparingListen string | ConnectingTo string
  | ServerStartLine string string | ClientStartLine string string
  | StoppingNow | ClosingSafely | StopRequestedLine
  | NoUsableBackend string | ServerRunning | ClientRunning | ListeningOn string | ConnectedTo string | BackendReadyLine
  | StoppedLine | StoppedTitle | StoppedSafely | FailedLine runtime_text | FailedTitle
  | ExitedLine | ExitedTitle | RunFinished | ServiceEnded | Verbatim string
  | NewStartup | StopBeforeImport | ImportNotLocal | ImportFailedWith nat | GuiCommandsOnly | ImportedFrom path
  | NoStartupFile | ExportFailedWith nat | ExportedTo path | SaveNotLocal
  | CheckHead string string bool | CheckFeatures bool bool bool | CheckDetail string
  | CaptureProblem string | InjectionProblem string

text \<open>\<open>isEmpty\<close> of a text: only a message of another component can be empty.\<close>

fun text_empty :: "runtime_text \<Rightarrow> bool" where
  "text_empty (Verbatim s) = (s = [])"
| "text_empty _ = False"

datatype run_state = Idle | Starting | Running | Stopping

datatype run_phase = NoRun | Selecting nat app_config path | Serving nat app_config path

datatype runtime_signal =
    SelectedModeChanged | EndpointChanged | LogLevelChanged | SelectedBackendChanged | AppConfigPathChanged
  | StartupConfigPathChanged | StartupStatusMessageChanged | StateChanged | LogTextChanged
  | ActiveScreenChanged | BackendStatusChanged

record runtime_presenter =
  gp_command :: cli_command
  gp_startupPath :: path
  gp_state :: run_state
  gp_startupStatus :: runtime_text
  gp_hasStartupError :: bool
  gp_title :: runtime_text
  gp_detail :: runtime_text
  gp_log :: "16 word list"
  gp_runError :: runtime_text
  gp_backendName :: string
  gp_checkText :: "runtime_text list"
  gp_checking :: bool
  gp_timer :: bool
  gp_server :: bool
  gp_ownerId :: string
  gp_screenIndex :: int
  gp_stopping :: bool
  gp_completed :: bool
  gp_quitWhenStopped :: bool
  gp_stopRequested :: bool
  gp_quit :: bool
  gp_level :: log_level
  gp_phase :: run_phase
  gp_signals :: "runtime_signal list"

record 'p runtime_env =
  re_registry :: "'p registry"
  re_trim :: "string \<Rightarrow> string"
  re_lower :: "string \<Rightarrow> string"
  re_tr :: "runtime_text \<Rightarrow> 16 word list"
  re_endpoint :: "string \<Rightarrow> nat option"
  re_absolute :: "string \<Rightarrow> path"
  re_pathText :: "path \<Rightarrow> string"
  re_parse :: "string list \<Rightarrow> nat + cli_command"
  re_export :: "string \<Rightarrow> string \<Rightarrow> cli_command \<Rightarrow> nat option"
  re_json :: json_codec
  re_io :: io_faults

section \<open>Accessors\<close>

definition signal :: "runtime_signal list \<Rightarrow> runtime_presenter \<Rightarrow> runtime_presenter" where
  "signal ss gp = gp\<lparr>gp_signals := gp_signals gp @ ss\<rparr>"

fun is_client :: "cli_command \<Rightarrow> bool" where
  "is_client (ClientCommand _ _) = True"
| "is_client _ = False"

fun commonConfig :: "cli_command \<Rightarrow> common_config option" where
  "commonConfig (ServerCommand _ common) = Some common"
| "commonConfig (ClientCommand _ common) = Some common"
| "commonConfig _ = None"

fun endpointValue :: "cli_command \<Rightarrow> string option" where
  "endpointValue (ServerCommand endpoint _) = Some endpoint"
| "endpointValue (ClientCommand endpoint _) = Some endpoint"
| "endpointValue _ = None"

fun set_commonConfig :: "common_config \<Rightarrow> cli_command \<Rightarrow> cli_command option" where
  "set_commonConfig common (ServerCommand endpoint _) = Some (ServerCommand endpoint common)"
| "set_commonConfig common (ClientCommand endpoint _) = Some (ClientCommand endpoint common)"
| "set_commonConfig _ _ = None"

fun set_endpointValue :: "string \<Rightarrow> cli_command \<Rightarrow> cli_command option" where
  "set_endpointValue endpoint (ServerCommand _ common) = Some (ServerCommand endpoint common)"
| "set_endpointValue endpoint (ClientCommand _ common) = Some (ClientCommand endpoint common)"
| "set_endpointValue _ _ = None"

definition active :: "runtime_presenter \<Rightarrow> bool" where
  "active gp \<longleftrightarrow> gp_state gp \<noteq> Idle"

definition running :: "runtime_presenter \<Rightarrow> bool" where
  "running gp \<longleftrightarrow> gp_state gp = Running"

definition backendOptions :: "'p runtime_env \<Rightarrow> string list" where
  "backendOptions env = ''auto'' # map bd_name (registeredBackends (re_registry env))"

definition backendName :: "'p runtime_env \<Rightarrow> runtime_presenter \<Rightarrow> string option option" where
  "backendName env gp =
     (if gp_backendName gp \<noteq> [] then Some (Some (gp_backendName gp))
      else do {
        common \<leftarrow> commonConfig (gp_command gp);
        if cc_backend common = [] then Some None
        else (case find (\<lambda>d. bd_name d = cc_backend common) (registeredBackends (re_registry env)) of
                Some d \<Rightarrow> Some (Some (bd_displayName d))
              | None \<Rightarrow> Some (Some (cc_backend common)))
      })"

definition hasActiveScreen :: "runtime_presenter \<Rightarrow> bool" where
  "hasActiveScreen gp \<longleftrightarrow> gp_ownerId gp \<noteq> [] \<and> gp_screenIndex gp \<ge> 0"

section \<open>Helpers\<close>

definition appendLog :: "'p runtime_env \<Rightarrow> runtime_text \<Rightarrow> runtime_presenter \<Rightarrow> runtime_presenter" where
  "appendLog env text gp =
     (let log = gp_log gp @ re_tr env text
      in signal [LogTextChanged]
           (gp\<lparr>gp_log := (if length log > 64 * 1024 then drop (length log - 64 * 1024) log else log)\<rparr>))"

definition setStatus :: "runtime_text \<Rightarrow> runtime_text \<Rightarrow> runtime_presenter \<Rightarrow> runtime_presenter" where
  "setStatus title detail gp = signal [StateChanged] (gp\<lparr>gp_title := title, gp_detail := detail\<rparr>)"

definition publishCommand :: "runtime_presenter \<Rightarrow> runtime_presenter" where
  "publishCommand =
     signal [SelectedModeChanged, EndpointChanged, LogLevelChanged, SelectedBackendChanged, AppConfigPathChanged]"

definition showStartupSuccess :: "runtime_text \<Rightarrow> runtime_presenter \<Rightarrow> runtime_presenter" where
  "showStartupSuccess text gp =
     signal [StartupStatusMessageChanged] (gp\<lparr>gp_startupStatus := text, gp_hasStartupError := False\<rparr>)"

definition showStartupError :: "runtime_text \<Rightarrow> runtime_presenter \<Rightarrow> runtime_presenter" where
  "showStartupError text gp =
     signal [StartupStatusMessageChanged] (gp\<lparr>gp_startupStatus := text, gp_hasStartupError := True\<rparr>)"

definition showStartupValidationError :: "runtime_text \<Rightarrow> runtime_presenter \<Rightarrow> runtime_presenter" where
  "showStartupValidationError text gp =
     signal [StartupStatusMessageChanged] (gp\<lparr>gp_startupStatus := text, gp_hasStartupError := True\<rparr>)"

text \<open>\<open>key\<close> is what the running server answers; a server that is not there is not asked.\<close>

definition refreshActiveScreen :: "screen_key option \<Rightarrow> runtime_presenter \<Rightarrow> runtime_presenter" where
  "refreshActiveScreen key gp =
     (let (ownerId, screenIndex) =
            (if gp_server gp then
               (case key of Some k \<Rightarrow> (key_ownerId k, int32_cast (int (key_screenIndex k))) | None \<Rightarrow> ([], -1))
             else ([], -1))
      in if gp_ownerId gp = ownerId \<and> gp_screenIndex gp = screenIndex then gp
         else signal [ActiveScreenChanged] (gp\<lparr>gp_ownerId := ownerId, gp_screenIndex := screenIndex\<rparr>))"

definition clearRunningServer :: "runtime_presenter \<Rightarrow> runtime_presenter" where
  "clearRunningServer gp = refreshActiveScreen None (gp\<lparr>gp_timer := False, gp_server := False\<rparr>)"

definition refreshBackendChecks :: "runtime_presenter \<Rightarrow> runtime_presenter" where
  "refreshBackendChecks gp =
     (if gp_checking gp then gp
      else signal [BackendStatusChanged] (gp\<lparr>gp_checking := True, gp_checkText := [ChecksRunning]\<rparr>))"

definition check_lines :: "'p descriptor \<times> backend_check \<Rightarrow> runtime_text list" where
  "check_lines backend =
     (case backend of (d, check) \<Rightarrow>
        [CheckHead (bd_name d) (bd_displayName d) (bc_available check),
         CheckFeatures (fc_supported (bc_screens check)) (fc_supported (bc_capture check)) (fc_supported (bc_injection check)),
         CheckDetail (bc_detail check)]
        @ (if \<not> fc_supported (bc_capture check) \<and> fc_detail (bc_capture check) \<noteq> []
           then [CaptureProblem (fc_detail (bc_capture check))] else [])
        @ (if \<not> fc_supported (bc_injection check) \<and> fc_detail (bc_injection check) \<noteq> []
           then [InjectionProblem (fc_detail (bc_injection check))] else []))"

definition runBackendChecks :: "'p runtime_env \<Rightarrow> runtime_presenter \<Rightarrow> runtime_presenter" where
  "runBackendChecks env gp =
     signal [BackendStatusChanged]
       (gp\<lparr>gp_checkText := concat (map check_lines (checkBackends (re_registry env))), gp_checking := False\<rparr>)"

definition new_runtime_presenter :: runtime_presenter where
  "new_runtime_presenter =
     refreshBackendChecks
       \<lparr>gp_command = ServerCommand ''0.0.0.0:1234'' default_common, gp_startupPath = [], gp_state = Idle,
        gp_startupStatus = StartupReady, gp_hasStartupError = False, gp_title = NotRunning, gp_detail = ChooseMode,
        gp_log = [], gp_runError = Verbatim [], gp_backendName = [], gp_checkText = [ChecksPending],
        gp_checking = False, gp_timer = False, gp_server = False, gp_ownerId = [], gp_screenIndex = -1,
        gp_stopping = False, gp_completed = False, gp_quitWhenStopped = False, gp_stopRequested = False,
        gp_quit = False, gp_level = LevelInfo, gp_phase = NoRun, gp_signals = []\<rparr>"

section \<open>Startup parameters\<close>

definition setSelectedMode :: "int \<Rightarrow> runtime_presenter \<Rightarrow> runtime_presenter option" where
  "setSelectedMode mode gp =
     (if is_client (gp_command gp) = (mode = 1) \<or> active gp then Some gp
      else do {
        endpoint \<leftarrow> endpointValue (gp_command gp);
        common \<leftarrow> commonConfig (gp_command gp);
        Some (publishCommand (gp\<lparr>gp_command :=
          (if mode = 1 then ClientCommand endpoint common else ServerCommand endpoint common)\<rparr>))
      })"

definition setEndpoint :: "'p runtime_env \<Rightarrow> string \<Rightarrow> runtime_presenter \<Rightarrow> runtime_presenter option" where
  "setEndpoint env text gp =
     (let trimmed = re_trim env text
      in if trimmed = [] then Some gp
         else do {
           endpoint \<leftarrow> endpointValue (gp_command gp);
           if endpoint = trimmed \<or> active gp then Some gp
           else do {
             command \<leftarrow> set_endpointValue trimmed (gp_command gp);
             Some (signal [EndpointChanged] (gp\<lparr>gp_command := command\<rparr>))
           }
         })"

definition log_levels :: "string list" where
  "log_levels = [''trace'', ''info'', ''warn'', ''error'', ''critical'', ''off'']"

definition setLogLevel :: "'p runtime_env \<Rightarrow> string \<Rightarrow> runtime_presenter \<Rightarrow> runtime_presenter option" where
  "setLogLevel env level gp =
     (let normalized = re_lower env (re_trim env level)
      in if \<not> List.member log_levels normalized then Some gp
         else do {
           common \<leftarrow> commonConfig (gp_command gp);
           if cc_logLevel common = normalized \<or> active gp then Some gp
           else do {
             command \<leftarrow> set_commonConfig (common\<lparr>cc_logLevel := normalized\<rparr>) (gp_command gp);
             Some (signal [LogLevelChanged] (gp\<lparr>gp_command := command\<rparr>))
           }
         })"

definition setSelectedBackend :: "'p runtime_env \<Rightarrow> string \<Rightarrow> runtime_presenter \<Rightarrow> runtime_presenter option" where
  "setSelectedBackend env backend gp =
     (if active gp then Some gp
      else
        (let normalized = re_lower env (re_trim env backend);
             chosen = (if normalized = ''auto'' then [] else normalized)
         in if chosen \<noteq> [] \<and> \<not> List.member (backendOptions env) chosen then Some gp
            else do {
              common \<leftarrow> commonConfig (gp_command gp);
              if cc_backend common = chosen then Some gp
              else do {
                command \<leftarrow> set_commonConfig (common\<lparr>cc_backend := chosen\<rparr>) (gp_command gp);
                Some (signal [SelectedBackendChanged, BackendStatusChanged] (gp\<lparr>gp_command := command\<rparr>))
              }
            }))"

definition setAppConfigPath :: "'p runtime_env \<Rightarrow> string \<Rightarrow> runtime_presenter \<Rightarrow> runtime_presenter option" where
  "setAppConfigPath env text gp =
     (let normalized = re_trim env text
      in do {
        common \<leftarrow> commonConfig (gp_command gp);
        if cc_configPath common = normalized then Some gp
        else do {
          command \<leftarrow> set_commonConfig (common\<lparr>cc_configPath := normalized\<rparr>) (gp_command gp);
          Some (signal [AppConfigPathChanged] (gp\<lparr>gp_command := command\<rparr>))
        }
      })"

definition createStartupConfig :: "runtime_presenter \<Rightarrow> runtime_presenter" where
  "createStartupConfig gp =
     (if active gp then gp
      else showStartupSuccess NewStartup (signal [StartupConfigPathChanged] (publishCommand
             (gp\<lparr>gp_command := ServerCommand ''0.0.0.0:1234'' default_common, gp_startupPath := []\<rparr>))))"

definition importStartupConfig :: "'p runtime_env \<Rightarrow> path option \<Rightarrow> runtime_presenter \<Rightarrow> runtime_presenter" where
  "importStartupConfig env url gp =
     (if active gp then showStartupValidationError StopBeforeImport gp
      else (case url of
              None \<Rightarrow> showStartupValidationError ImportNotLocal gp
            | Some p \<Rightarrow>
                (case importCliCommand (re_parse env) (re_pathText env p) of
                   Inl e \<Rightarrow> showStartupError (ImportFailedWith e) gp
                 | Inr imported \<Rightarrow>
                     if commonConfig imported = None then showStartupValidationError GuiCommandsOnly gp
                     else showStartupSuccess (ImportedFrom p) (signal [StartupConfigPathChanged]
                            (publishCommand (gp\<lparr>gp_command := imported, gp_startupPath := p\<rparr>))))))"

definition saveStartupConfig :: "'p runtime_env \<Rightarrow> runtime_presenter \<Rightarrow> runtime_presenter" where
  "saveStartupConfig env gp =
     (if gp_startupPath gp = [] then showStartupValidationError NoStartupFile gp
      else (case exportCliCommand (re_export env) (re_pathText env (gp_startupPath gp)) (gp_command gp) of
              Inl e \<Rightarrow> showStartupError (ExportFailedWith e) gp
            | Inr _ \<Rightarrow> showStartupSuccess (ExportedTo (gp_startupPath gp)) gp))"

definition saveStartupConfigAs :: "'p runtime_env \<Rightarrow> path option \<Rightarrow> runtime_presenter \<Rightarrow> runtime_presenter" where
  "saveStartupConfigAs env url gp =
     (case url of
        None \<Rightarrow> showStartupValidationError SaveNotLocal gp
      | Some p \<Rightarrow>
          (case exportCliCommand (re_export env) (re_pathText env p) (gp_command gp) of
             Inl e \<Rightarrow> showStartupError (ExportFailedWith e) gp
           | Inr _ \<Rightarrow> showStartupSuccess (ExportedTo p) (signal [StartupConfigPathChanged] (gp\<lparr>gp_startupPath := p\<rparr>))))"

section \<open>Running\<close>

definition start :: "'p runtime_env \<Rightarrow> file_system \<Rightarrow> runtime_presenter \<Rightarrow> runtime_presenter option" where
  "start env fs gp =
     (if active gp then Some gp
      else do {
        endpointText \<leftarrow> endpointValue (gp_command gp);
        common \<leftarrow> commonConfig (gp_command gp);
        (case re_endpoint env endpointText of
           None \<Rightarrow> Some (setStatus CannotStart EndpointInvalid gp)
         | Some endpoint \<Rightarrow>
             if re_trim env (cc_configPath common) = [] then Some (setStatus CannotStart ConfigUnsaved gp)
             else (let p = re_absolute env (cc_configPath common)
                   in case loadConfig (re_json env) (re_io env) p fs of
                        None \<Rightarrow> None
                      | Some (Inl e) \<Rightarrow> Some (setStatus ConfigUnreadable (ConfigProblem e) gp)
                      | Some (Inr config) \<Rightarrow>
                          (let server = \<not> is_client (gp_command gp);
                               gp1 = signal [LogTextChanged]
                                       (gp\<lparr>gp_stopping := False, gp_completed := False, gp_stopRequested := False,
                                          gp_runError := Verbatim [], gp_log := []\<rparr>);
                               gp2 = setStatus StartingUp (if server then PreparingListen endpointText else ConnectingTo endpointText)
                                       (gp1\<lparr>gp_state := Starting\<rparr>);
                               gp3 = appendLog env (if server then ServerStartLine endpointText (cc_logLevel common)
                                                    else ClientStartLine endpointText (cc_logLevel common)) gp2
                           in Some (gp3\<lparr>gp_phase := Selecting endpoint config p\<rparr>))))
      })"

definition stop :: "'p runtime_env \<Rightarrow> runtime_presenter \<Rightarrow> runtime_presenter" where
  "stop env gp =
     (if \<not> active gp \<or> gp_stopping gp then gp
      else (appendLog env StopRequestedLine
              (setStatus StoppingNow ClosingSafely (gp\<lparr>gp_stopping := True, gp_state := Stopping\<rparr>)))
             \<lparr>gp_stopRequested := True\<rparr>)"

definition clearLog :: "runtime_presenter \<Rightarrow> runtime_presenter" where
  "clearLog gp = (if gp_log gp = [] then gp else signal [LogTextChanged] (gp\<lparr>gp_log := []\<rparr>))"

definition quitApplication :: "'p runtime_env \<Rightarrow> runtime_presenter \<Rightarrow> runtime_presenter" where
  "quitApplication env gp =
     (if \<not> active gp then gp\<lparr>gp_quit := True\<rparr> else stop env (gp\<lparr>gp_quitWhenStopped := True\<rparr>))"

definition finishRun :: "'p runtime_env \<Rightarrow> runtime_presenter \<Rightarrow> runtime_presenter" where
  "finishRun env gp =
     (let gp1 =
            (if gp_stopping gp then setStatus StoppedTitle StoppedSafely (appendLog env StoppedLine gp)
             else if \<not> text_empty (gp_runError gp)
             then setStatus FailedTitle (gp_runError gp) (appendLog env (FailedLine (gp_runError gp)) gp)
             else if gp_completed gp then setStatus ExitedTitle RunFinished (appendLog env ExitedLine gp)
             else setStatus StoppedTitle ServiceEnded gp);
          gp2 = signal [StateChanged, BackendStatusChanged]
                  (gp1\<lparr>gp_stopping := False, gp_state := Idle, gp_backendName := [], gp_phase := NoRun\<rparr>)
      in if gp_quitWhenStopped gp2 then gp2\<lparr>gp_quit := True\<rparr> else gp2)"

text \<open>The level names of this file, without the aliases of the command line.\<close>

definition gui_parseLogLevel :: "'p runtime_env \<Rightarrow> string \<Rightarrow> log_level" where
  "gui_parseLogLevel env text =
     (let normalized = re_lower env (re_trim env text)
      in if normalized = ''trace'' then LevelTrace
         else if normalized = ''warn'' then LevelWarn
         else if normalized = ''error'' then LevelErr
         else if normalized = ''critical'' then LevelCritical
         else if normalized = ''off'' then LevelOff
         else LevelInfo)"

definition run_requirement :: "cli_command \<Rightarrow> backend_requirement" where
  "run_requirement command =
     requirement_or Requirement_Screens (if is_client command then Requirement_Injection else Requirement_Capture)"

text \<open>
  The first piece of \<open>runServiceBody\<close>: it ends where the coroutine waits for the stop token or the service,
  or the run is over. The server has just been constructed and has no active screen yet.
\<close>

definition serviceSelected :: "'p runtime_env \<Rightarrow> runtime_presenter \<Rightarrow> runtime_presenter option" where
  "serviceSelected env gp =
     (case gp_phase gp of
        Selecting endpoint config p \<Rightarrow> do {
          common \<leftarrow> commonConfig (gp_command gp);
          endpointText \<leftarrow> endpointValue (gp_command gp);
          let server = \<not> is_client (gp_command gp);
              gp0 = gp\<lparr>gp_level := gui_parseLogLevel env (cc_logLevel common)\<rparr>;
              failed = (\<lambda>msg. Some (finishRun env (gp0\<lparr>gp_runError := NoUsableBackend msg\<rparr>)))
          in (case selectBackend (re_registry env) (cc_backend common) (run_requirement (gp_command gp)) of
                NoSuchDevice \<Rightarrow> failed ''No such device''
              | NotSupported \<Rightarrow> failed ''Operation not supported''
              | CreateThrew what \<Rightarrow> Some (finishRun env (clearRunningServer (gp0\<lparr>gp_runError := Verbatim what\<rparr>)))
              | Selected platform d check \<Rightarrow>
                  (let gp1 = signal [BackendStatusChanged] (gp0\<lparr>gp_backendName := bd_displayName d\<rparr>);
                       gp2 = setStatus (if server then ServerRunning else ClientRunning)
                               (if server then ListeningOn endpointText else ConnectedTo endpointText)
                               (gp1\<lparr>gp_state := Running\<rparr>);
                       gp3 = (appendLog env BackendReadyLine gp2)\<lparr>gp_phase := Serving endpoint config p\<rparr>
                   in Some (if server then refreshActiveScreen None (gp3\<lparr>gp_server := True, gp_timer := True\<rparr>) else gp3)))
        }
      | _ \<Rightarrow> Some gp)"

text \<open>
  The second piece: \<open>whenAny\<close> reports the stop, the result of the service, or both; a service that throws
  is caught. \<open>service_end\<close> holds these outcomes.
\<close>

datatype service_end = Ended bool "(string + unit) option" | Threw string

definition serviceEnded :: "'p runtime_env \<Rightarrow> service_end \<Rightarrow> runtime_presenter \<Rightarrow> runtime_presenter" where
  "serviceEnded env outcome gp =
     (case gp_phase gp of
        Serving endpoint config p \<Rightarrow>
          finishRun env (clearRunningServer
            (case outcome of
               Threw what \<Rightarrow> gp\<lparr>gp_runError := Verbatim what\<rparr>
             | Ended canceled (Some result) \<Rightarrow>
                 (case result of
                    Inl msg \<Rightarrow> gp\<lparr>gp_completed := True, gp_runError := Verbatim msg\<rparr>
                  | Inr _ \<Rightarrow> gp\<lparr>gp_completed := True\<rparr>)
             | Ended canceled None \<Rightarrow> if canceled then gp\<lparr>gp_stopping := True\<rparr> else gp))
      | _ \<Rightarrow> gp)"

section \<open>Everything that can happen\<close>

datatype runtime_action =
    SetSelectedMode int | SetEndpoint string | SetLogLevel string | SetSelectedBackend string | SetAppConfigPath string
  | CreateStartupConfig | ImportStartupConfig "path option" | SaveStartupConfig | SaveStartupConfigAs "path option"
  | Start file_system | Stop | ClearLog | RefreshBackendChecks | QuitApplication
  | BackendChecksDone | LogLine runtime_text | ActiveScreenTimer "screen_key option"
  | ServiceSelected | ServiceEnd service_end

fun runtime_exec :: "'p runtime_env \<Rightarrow> runtime_action \<Rightarrow> runtime_presenter \<Rightarrow> runtime_presenter option" where
  "runtime_exec env (SetSelectedMode mode) gp = setSelectedMode mode gp"
| "runtime_exec env (SetEndpoint text) gp = setEndpoint env text gp"
| "runtime_exec env (SetLogLevel level) gp = setLogLevel env level gp"
| "runtime_exec env (SetSelectedBackend backend) gp = setSelectedBackend env backend gp"
| "runtime_exec env (SetAppConfigPath text) gp = setAppConfigPath env text gp"
| "runtime_exec env CreateStartupConfig gp = Some (createStartupConfig gp)"
| "runtime_exec env (ImportStartupConfig url) gp = Some (importStartupConfig env url gp)"
| "runtime_exec env SaveStartupConfig gp = Some (saveStartupConfig env gp)"
| "runtime_exec env (SaveStartupConfigAs url) gp = Some (saveStartupConfigAs env url gp)"
| "runtime_exec env (Start fs) gp = start env fs gp"
| "runtime_exec env Stop gp = Some (stop env gp)"
| "runtime_exec env ClearLog gp = Some (clearLog gp)"
| "runtime_exec env RefreshBackendChecks gp = Some (refreshBackendChecks gp)"
| "runtime_exec env QuitApplication gp = Some (quitApplication env gp)"
| "runtime_exec env BackendChecksDone gp = Some (if gp_checking gp then runBackendChecks env gp else gp)"
| "runtime_exec env (LogLine text) gp = Some (appendLog env text gp)"
| "runtime_exec env (ActiveScreenTimer key) gp = Some (if gp_timer gp then refreshActiveScreen key gp else gp)"
| "runtime_exec env ServiceSelected gp = serviceSelected env gp"
| "runtime_exec env (ServiceEnd outcome) gp = Some (serviceEnded env outcome gp)"

fun runtime_run :: "'p runtime_env \<Rightarrow> runtime_action list \<Rightarrow> runtime_presenter \<Rightarrow> runtime_presenter option" where
  "runtime_run env [] gp = Some gp"
| "runtime_run env (a # actions) gp = Option.bind (runtime_exec env a gp) (runtime_run env actions)"

section \<open>Invariant\<close>

definition log_limit :: nat where
  "log_limit = 64 * 1024"

definition phase_matches :: "run_state \<Rightarrow> run_phase \<Rightarrow> bool" where
  "phase_matches state phase \<longleftrightarrow>
     (case phase of
        NoRun \<Rightarrow> state = Idle
      | Selecting _ _ _ \<Rightarrow> state = Starting \<or> state = Stopping
      | Serving _ _ _ \<Rightarrow> state = Running \<or> state = Stopping)"

definition serving_phase :: "run_phase \<Rightarrow> bool" where
  "serving_phase phase \<longleftrightarrow> (case phase of Serving _ _ _ \<Rightarrow> True | _ \<Rightarrow> False)"

definition runtime_inv :: "runtime_presenter \<Rightarrow> bool" where
  "runtime_inv gp \<longleftrightarrow>
     commonConfig (gp_command gp) \<noteq> None \<and>
     phase_matches (gp_state gp) (gp_phase gp) \<and>
     (gp_server gp \<longleftrightarrow> serving_phase (gp_phase gp) \<and> \<not> is_client (gp_command gp)) \<and>
     gp_timer gp = gp_server gp \<and>
     (gp_server gp \<or> gp_ownerId gp = [] \<and> gp_screenIndex gp = -1) \<and>
     length (gp_log gp) \<le> log_limit \<and>
     (gp_stopping gp \<longrightarrow> active gp) \<and>
     (gp_state gp = Stopping \<longrightarrow> gp_stopping gp) \<and>
     (active gp \<longrightarrow> gp_stopRequested gp = gp_stopping gp) \<and>
     (gp_state gp = Idle \<longrightarrow> gp_backendName gp = []) \<and>
     (gp_quitWhenStopped gp \<longrightarrow> gp_quit gp \<or> gp_stopping gp)"

lemmas runtime_defs = signal_def setStatus_def publishCommand_def showStartupSuccess_def showStartupError_def
  showStartupValidationError_def appendLog_def log_limit_def

lemma command_cases:
  assumes "commonConfig command \<noteq> None"
  obtains endpoint common where "command = ServerCommand endpoint common"
        | endpoint common where "command = ClientCommand endpoint common"
  using assms by (cases command) auto

lemma finishRun_inv:
  assumes "runtime_inv (gp\<lparr>gp_phase := NoRun, gp_state := Idle, gp_stopping := False, gp_backendName := [],
                           gp_quitWhenStopped := False\<rparr>)"
  shows "runtime_inv (finishRun env gp)"
  using assms by (auto simp: runtime_inv_def finishRun_def runtime_defs Let_def active_def phase_matches_def serving_phase_def)

text \<open>The action is a start of the idle page, and the read of the configuration it names throws.\<close>

definition escapes :: "'p runtime_env \<Rightarrow> runtime_action \<Rightarrow> runtime_presenter \<Rightarrow> bool" where
  "escapes env a gp \<longleftrightarrow>
     (\<exists>fs common. a = Start fs \<and> \<not> active gp \<and> commonConfig (gp_command gp) = Some common \<and>
        read_throws (re_io env) (re_absolute env (cc_configPath common)) fs)"

lemma start_result:
  assumes "runtime_inv gp"
  shows "case start env fs gp of None \<Rightarrow> escapes env (Start fs) gp | Some gp' \<Rightarrow> runtime_inv gp'"
proof -
  obtain common where common: "commonConfig (gp_command gp) = Some common"
    using assms by (auto simp: runtime_inv_def)
  obtain endpointText where ep: "endpointValue (gp_command gp) = Some endpointText"
    using common by (cases "gp_command gp") auto
  show ?thesis
  proof (cases "\<not> active gp \<and> read_throws (re_io env) (re_absolute env (cc_configPath common)) fs")
    case True
    then show ?thesis
      using assms common ep
      by (auto simp: start_def escapes_def loadConfig_None [THEN iffD2] runtime_inv_def runtime_defs active_def Let_def
          split: option.split)
  next
    case False
    show ?thesis
    proof (cases "active gp")
      case True
      with assms show ?thesis by (simp add: start_def)
    next
      case idle: False
      with False obtain loaded where
        "loadConfig (re_json env) (re_io env) (re_absolute env (cc_configPath common)) fs = Some loaded"
        by (cases "loadConfig (re_json env) (re_io env) (re_absolute env (cc_configPath common)) fs")
           (simp_all add: loadConfig_None)
      with assms idle common ep show ?thesis
        by (cases loaded; cases "gp_command gp")
           (auto simp: runtime_inv_def start_def runtime_defs Let_def active_def phase_matches_def serving_phase_def
             split: option.split run_phase.splits)
    qed
  qed
qed

lemma stop_inv: "runtime_inv gp \<Longrightarrow> runtime_inv (stop env gp)"
  by (auto simp: runtime_inv_def stop_def runtime_defs Let_def active_def phase_matches_def split: run_phase.splits)

lemma quit_inv: "runtime_inv gp \<Longrightarrow> runtime_inv (quitApplication env gp)"
  by (auto simp: runtime_inv_def quitApplication_def stop_def runtime_defs Let_def active_def phase_matches_def
           split: run_phase.splits)

lemma refresh_inv: "runtime_inv gp \<Longrightarrow> runtime_inv (refreshActiveScreen key gp)"
  by (auto simp: runtime_inv_def refreshActiveScreen_def runtime_defs Let_def active_def split: option.split)

lemma setters_inv:
  assumes "runtime_inv gp"
  shows "\<exists>gp'. setSelectedMode mode gp = Some gp' \<and> runtime_inv gp'"
    "\<exists>gp'. setEndpoint env t gp = Some gp' \<and> runtime_inv gp'"
    "\<exists>gp'. setLogLevel env t gp = Some gp' \<and> runtime_inv gp'"
    "\<exists>gp'. setSelectedBackend env t gp = Some gp' \<and> runtime_inv gp'"
    "\<exists>gp'. setAppConfigPath env t gp = Some gp' \<and> runtime_inv gp'"
proof -
  have gui: "commonConfig (gp_command gp) \<noteq> None" using assms by (simp add: runtime_inv_def)
  show "\<exists>gp'. setSelectedMode mode gp = Some gp' \<and> runtime_inv gp'"
    using gui assms
    by (cases rule: command_cases)
       (auto simp: runtime_inv_def setSelectedMode_def runtime_defs active_def phase_matches_def serving_phase_def
             split: run_phase.splits)
  show "\<exists>gp'. setEndpoint env t gp = Some gp' \<and> runtime_inv gp'"
    using gui assms
    by (cases rule: command_cases) (auto simp: runtime_inv_def setEndpoint_def runtime_defs active_def Let_def)
  show "\<exists>gp'. setLogLevel env t gp = Some gp' \<and> runtime_inv gp'"
    using gui assms
    by (cases rule: command_cases) (auto simp: runtime_inv_def setLogLevel_def runtime_defs active_def Let_def)
  show "\<exists>gp'. setSelectedBackend env t gp = Some gp' \<and> runtime_inv gp'"
    using gui assms
    by (cases rule: command_cases) (auto simp: runtime_inv_def setSelectedBackend_def runtime_defs active_def Let_def)
  show "\<exists>gp'. setAppConfigPath env t gp = Some gp' \<and> runtime_inv gp'"
    using gui assms
    by (cases rule: command_cases) (auto simp: runtime_inv_def setAppConfigPath_def runtime_defs active_def Let_def)
qed

lemma startup_inv:
  assumes "runtime_inv gp"
  shows "runtime_inv (createStartupConfig gp)" "runtime_inv (importStartupConfig env url gp)"
    "runtime_inv (saveStartupConfig env gp)" "runtime_inv (saveStartupConfigAs env url gp)"
  using assms
  by (auto simp: runtime_inv_def createStartupConfig_def importStartupConfig_def saveStartupConfig_def
        saveStartupConfigAs_def runtime_defs active_def phase_matches_def serving_phase_def
      split: option.splits sum.splits run_phase.splits)

lemma text_inv:
  assumes "runtime_inv gp"
  shows "runtime_inv (clearLog gp)" "runtime_inv (refreshBackendChecks gp)" "runtime_inv (runBackendChecks env gp)"
    "runtime_inv (appendLog env t gp)"
  using assms
  by (auto simp: runtime_inv_def clearLog_def refreshBackendChecks_def runBackendChecks_def runtime_defs Let_def active_def)

lemma serviceSelected_inv:
  assumes "runtime_inv gp"
  shows "\<exists>gp'. serviceSelected env gp = Some gp' \<and> runtime_inv gp'"
proof (cases "gp_phase gp")
  case (Selecting endpoint config p)
  have state: "gp_state gp \<noteq> Idle" "\<not> gp_server gp" "\<not> gp_timer gp" "gp_ownerId gp = []" "gp_screenIndex gp = -1"
    using assms Selecting by (auto simp: runtime_inv_def phase_matches_def serving_phase_def)
  have failed: "runtime_inv (finishRun env (gp\<lparr>gp_level := level, gp_runError := t\<rparr>))" for level t
    by (rule finishRun_inv) (use assms state in \<open>simp add: runtime_inv_def phase_matches_def serving_phase_def active_def\<close>)
  have cleared: "clearRunningServer (gp\<lparr>gp_level := level, gp_runError := t\<rparr>) = gp\<lparr>gp_level := level, gp_runError := t\<rparr>" for level t
    using state by (simp add: clearRunningServer_def refreshActiveScreen_def)
  from assms have "commonConfig (gp_command gp) \<noteq> None" by (simp add: runtime_inv_def)
  then show ?thesis
  proof (cases rule: command_cases)
    case (1 endpointText common)
    then show ?thesis
      using assms state failed cleared Selecting
      by (cases "selectBackend (re_registry env) (cc_backend common) (run_requirement (gp_command gp))")
         (auto simp: serviceSelected_def, auto simp: refreshActiveScreen_def
          runtime_inv_def runtime_defs Let_def active_def phase_matches_def serving_phase_def)
  next
    case (2 endpointText common)
    then show ?thesis
      using assms state failed cleared Selecting
      by (cases "selectBackend (re_registry env) (cc_backend common) (run_requirement (gp_command gp))")
         (auto simp: serviceSelected_def, auto simp: 
          runtime_inv_def runtime_defs Let_def active_def phase_matches_def serving_phase_def)
  qed
qed (use assms in \<open>simp_all add: serviceSelected_def\<close>)

lemma clearRunningServer_idle:
  assumes "runtime_inv gp" "gp_state gp \<noteq> Idle"
    "gp' = gp\<lparr>gp_runError := t, gp_completed := c, gp_stopping := s\<rparr>"
  shows "runtime_inv (finishRun env (clearRunningServer gp'))"
  by (rule finishRun_inv)
     (use assms in \<open>simp add: clearRunningServer_def refreshActiveScreen_def runtime_defs runtime_inv_def
        phase_matches_def serving_phase_def active_def\<close>)

lemma serviceEnded_inv:
  assumes "runtime_inv gp"
  shows "runtime_inv (serviceEnded env outcome gp)"
proof (cases "gp_phase gp")
  case (Serving endpoint config p)
  then have state: "gp_state gp \<noteq> Idle" using assms by (auto simp: runtime_inv_def phase_matches_def)
  let ?gp = "case outcome of
               Threw what \<Rightarrow> gp\<lparr>gp_runError := Verbatim what\<rparr>
             | Ended canceled (Some result) \<Rightarrow>
                 (case result of
                    Inl msg \<Rightarrow> gp\<lparr>gp_completed := True, gp_runError := Verbatim msg\<rparr>
                  | Inr _ \<Rightarrow> gp\<lparr>gp_completed := True\<rparr>)
             | Ended canceled None \<Rightarrow> if canceled then gp\<lparr>gp_stopping := True\<rparr> else gp"
  have "?gp = gp\<lparr>gp_runError := gp_runError ?gp, gp_completed := gp_completed ?gp, gp_stopping := gp_stopping ?gp\<rparr>"
    by (auto split: service_end.split option.split sum.split)
  from clearRunningServer_idle [OF assms state this] show ?thesis
    using Serving by (simp add: serviceEnded_def)
qed (use assms in \<open>simp_all add: serviceEnded_def\<close>)

lemma some_inv: "\<exists>gp'. r = Some gp' \<and> runtime_inv gp' \<Longrightarrow> (case r of None \<Rightarrow> X | Some gp' \<Rightarrow> runtime_inv gp')"
  by auto

lemma runtime_exec_inv:
  assumes "runtime_inv gp"
  shows "case runtime_exec env a gp of None \<Rightarrow> escapes env a gp | Some gp' \<Rightarrow> runtime_inv gp'"
proof (cases a)
  case (Start fs)
  show ?thesis unfolding Start runtime_exec.simps by (rule start_result [OF assms])
qed (use assms in \<open>simp_all add: setters_inv startup_inv text_inv stop_inv quit_inv refresh_inv serviceEnded_inv some_inv
  serviceSelected_inv\<close>)

lemma exec_keeps: "runtime_exec env a gp = Some gp' \<Longrightarrow> runtime_inv gp \<Longrightarrow> runtime_inv gp'"
  using runtime_exec_inv [of gp env a] by simp

lemma new_runtime_inv: "runtime_inv new_runtime_presenter"
  by (simp add: runtime_inv_def new_runtime_presenter_def refreshBackendChecks_def runtime_defs phase_matches_def
      serving_phase_def active_def)

section \<open>Progress\<close>

fun service_step :: "runtime_action \<Rightarrow> run_phase \<Rightarrow> bool" where
  "service_step ServiceSelected (Selecting _ _ _) = True"
| "service_step (ServiceEnd _) (Serving _ _ _) = True"
| "service_step _ _ = False"

text \<open>How many of the actions are steps of the service that was waiting for them.\<close>

fun service_steps :: "'p runtime_env \<Rightarrow> runtime_action list \<Rightarrow> runtime_presenter \<Rightarrow> nat" where
  "service_steps env [] gp = 0"
| "service_steps env (a # actions) gp =
     (if service_step a (gp_phase gp) then 1 else 0) +
     (case runtime_exec env a gp of None \<Rightarrow> 0 | Some gp' \<Rightarrow> service_steps env actions gp')"

text \<open>A run goes on until its end or until an exception escapes, and then no step of the service is left out.\<close>

lemma runtime_run_prefix:
  assumes "runtime_inv gp"
  shows "\<exists>as bs gp'. actions = as @ bs \<and> runtime_run env as gp = Some gp' \<and> runtime_inv gp' \<and>
    service_steps env as gp = service_steps env actions gp \<and>
    (bs = [] \<or> runtime_exec env (hd bs) gp' = None \<and> escapes env (hd bs) gp')"
  using assms
proof (induction actions arbitrary: gp)
  case (Cons a actions)
  show ?case
  proof (cases "runtime_exec env a gp")
    case None
    with runtime_exec_inv [OF Cons.prems, of env a] have "escapes env a gp" by simp
    moreover from this have "\<not> service_step a (gp_phase gp)" by (auto simp: escapes_def)
    ultimately show ?thesis
      using None Cons.prems by (intro exI [of _ "[]"] exI [of _ "a # actions"] exI [of _ gp]) simp
  next
    case (Some gp1)
    from Cons.IH [OF exec_keeps [OF Some Cons.prems]] obtain as bs gp' where
      "actions = as @ bs" "runtime_run env as gp1 = Some gp'" "runtime_inv gp'"
      "service_steps env as gp1 = service_steps env actions gp1"
      "bs = [] \<or> runtime_exec env (hd bs) gp' = None \<and> escapes env (hd bs) gp'" by blast
    with Some show ?thesis by (intro exI [of _ "a # as"] exI [of _ bs] exI [of _ gp']) simp
  qed
qed simp

definition phase_rank :: "run_phase \<Rightarrow> nat" where
  "phase_rank phase = (case phase of NoRun \<Rightarrow> 0 | Selecting _ _ _ \<Rightarrow> 2 | Serving _ _ _ \<Rightarrow> 1)"

lemma finishRun_fields [simp]:
  "gp_phase (finishRun env gp) = NoRun"
  "gp_state (finishRun env gp) = Idle"
  "gp_command (finishRun env gp) = gp_command gp"
  "gp_quit (finishRun env gp) \<longleftrightarrow> gp_quit gp \<or> gp_quitWhenStopped gp"
  "gp_quitWhenStopped (finishRun env gp) = gp_quitWhenStopped gp"
  "gp_server (finishRun env gp) = gp_server gp"
  by (simp_all add: finishRun_def runtime_defs Let_def)

lemma refresh_fields [simp]:
  "gp_phase (refreshActiveScreen key gp) = gp_phase gp"
  "gp_state (refreshActiveScreen key gp) = gp_state gp"
  "gp_command (refreshActiveScreen key gp) = gp_command gp"
  "gp_quit (refreshActiveScreen key gp) = gp_quit gp"
  "gp_quitWhenStopped (refreshActiveScreen key gp) = gp_quitWhenStopped gp"
  "gp_stopping (refreshActiveScreen key gp) = gp_stopping gp"
  "gp_runError (refreshActiveScreen key gp) = gp_runError gp"
  "gp_completed (refreshActiveScreen key gp) = gp_completed gp"
  "gp_server (refreshActiveScreen key gp) = gp_server gp"
  "gp_title (refreshActiveScreen key gp) = gp_title gp"
  "gp_timer (refreshActiveScreen key gp) = gp_timer gp"
  "gp_stopRequested (refreshActiveScreen key gp) = gp_stopRequested gp"
  by (auto simp: refreshActiveScreen_def runtime_defs Let_def split: option.split)

lemma log_fields:
  "gp_phase (appendLog env t gp) = gp_phase gp"
  "gp_state (appendLog env t gp) = gp_state gp"
  "gp_command (appendLog env t gp) = gp_command gp"
  "gp_quit (appendLog env t gp) = gp_quit gp"
  "gp_quitWhenStopped (appendLog env t gp) = gp_quitWhenStopped gp"
  "gp_stopping (appendLog env t gp) = gp_stopping gp"
  "gp_stopRequested (appendLog env t gp) = gp_stopRequested gp"
  "gp_runError (appendLog env t gp) = gp_runError gp"
  "gp_completed (appendLog env t gp) = gp_completed gp"
  "gp_server (appendLog env t gp) = gp_server gp"
  "gp_timer (appendLog env t gp) = gp_timer gp"
  "gp_ownerId (appendLog env t gp) = gp_ownerId gp"
  "gp_screenIndex (appendLog env t gp) = gp_screenIndex gp"
  "gp_title (appendLog env t gp) = gp_title gp"
  "gp_detail (appendLog env t gp) = gp_detail gp"
  by (simp_all add: appendLog_def signal_def Let_def)

lemma status_fields:
  "gp_phase (setStatus t u gp) = gp_phase gp"
  "gp_state (setStatus t u gp) = gp_state gp"
  "gp_command (setStatus t u gp) = gp_command gp"
  "gp_quit (setStatus t u gp) = gp_quit gp"
  "gp_quitWhenStopped (setStatus t u gp) = gp_quitWhenStopped gp"
  "gp_stopping (setStatus t u gp) = gp_stopping gp"
  "gp_stopRequested (setStatus t u gp) = gp_stopRequested gp"
  "gp_runError (setStatus t u gp) = gp_runError gp"
  "gp_completed (setStatus t u gp) = gp_completed gp"
  "gp_server (setStatus t u gp) = gp_server gp"
  "gp_timer (setStatus t u gp) = gp_timer gp"
  "gp_ownerId (setStatus t u gp) = gp_ownerId gp"
  "gp_screenIndex (setStatus t u gp) = gp_screenIndex gp"
  "gp_title (setStatus t u gp) = t"
  "gp_detail (setStatus t u gp) = u"
  by (simp_all add: setStatus_def signal_def)

lemma signal_fields:
  "gp_phase (signal ss gp) = gp_phase gp"
  "gp_state (signal ss gp) = gp_state gp"
  "gp_command (signal ss gp) = gp_command gp"
  "gp_quit (signal ss gp) = gp_quit gp"
  "gp_quitWhenStopped (signal ss gp) = gp_quitWhenStopped gp"
  "gp_stopping (signal ss gp) = gp_stopping gp"
  "gp_stopRequested (signal ss gp) = gp_stopRequested gp"
  "gp_runError (signal ss gp) = gp_runError gp"
  "gp_completed (signal ss gp) = gp_completed gp"
  "gp_server (signal ss gp) = gp_server gp"
  "gp_timer (signal ss gp) = gp_timer gp"
  "gp_ownerId (signal ss gp) = gp_ownerId gp"
  "gp_screenIndex (signal ss gp) = gp_screenIndex gp"
  by (simp_all add: signal_def)

lemmas run_fields = log_fields status_fields signal_fields

lemmas runtime_ops = setSelectedMode_def setEndpoint_def setLogLevel_def setSelectedBackend_def setAppConfigPath_def
  createStartupConfig_def importStartupConfig_def saveStartupConfig_def saveStartupConfigAs_def start_def stop_def
  clearLog_def refreshBackendChecks_def quitApplication_def runBackendChecks_def clearRunningServer_def

lemma exec_active:
  assumes "active gp" "\<not> service_step a (gp_phase gp)" "runtime_exec env a gp = Some gp'"
  shows "gp_phase gp' = gp_phase gp" "active gp'" "gp_quit gp' = gp_quit gp"
    "gp_quitWhenStopped gp \<Longrightarrow> gp_quitWhenStopped gp'"
  using assms
  by (cases a; auto simp: runtime_ops runtime_defs active_def Let_def serviceSelected_def serviceEnded_def
        split: if_splits option.splits sum.splits run_phase.splits Option.bind_splits)+

lemma exec_service:
  assumes "service_step a (gp_phase gp)" "runtime_exec env a gp = Some gp'"
  shows "phase_rank (gp_phase gp') < phase_rank (gp_phase gp)"
    "gp_quit gp \<Longrightarrow> gp_quit gp'"
    "gp_quitWhenStopped gp \<Longrightarrow> gp_quitWhenStopped gp'"
    "gp_quitWhenStopped gp \<Longrightarrow> gp_phase gp' = NoRun \<Longrightarrow> gp_quit gp'"
  using assms
  by (cases a; cases "gp_phase gp";
      auto simp: serviceSelected_def serviceEnded_def clearRunningServer_def runtime_defs phase_rank_def Let_def
        split: selection.splits option.splits sum.splits service_end.splits Option.bind_splits if_splits)+

lemma exec_quit:
  assumes "gp_quit gp" "runtime_exec env a gp = Some gp'"
  shows "gp_quit gp'"
proof (cases "service_step a (gp_phase gp)")
  case True
  then show ?thesis using exec_service assms by blast
next
  case False
  with assms show ?thesis
    by (cases a; auto simp: runtime_ops runtime_defs active_def Let_def serviceSelected_def serviceEnded_def
        split: if_splits option.splits sum.splits run_phase.splits Option.bind_splits)
qed

lemma run_quit: "gp_quit gp \<Longrightarrow> runtime_run env actions gp = Some gp' \<Longrightarrow> gp_quit gp'"
  by (induction actions arbitrary: gp) (auto split: Option.bind_splits dest: exec_quit)

lemma quitting_run:
  assumes "runtime_inv gp" "runtime_run env actions gp = Some gp'"
    "gp_quit gp \<or> gp_quitWhenStopped gp \<and> active gp \<and> phase_rank (gp_phase gp) \<le> service_steps env actions gp"
  shows "gp_quit gp'"
  using assms
proof (induction actions arbitrary: gp)
  case Nil
  then show ?case
    by (auto simp: phase_rank_def runtime_inv_def phase_matches_def active_def split: run_phase.splits)
next
  case (Cons a actions)
  obtain gp1 where gp1: "runtime_exec env a gp = Some gp1"
    using Cons.prems(2) by (auto split: Option.bind_splits)
  moreover from this Cons.prems(1) have "runtime_inv gp1" by (rule exec_keeps)
  ultimately have gp1: "runtime_exec env a gp = Some gp1" "runtime_inv gp1" .
  with Cons.prems have rest: "runtime_run env actions gp1 = Some gp'" by simp
  show ?case
  proof (cases "gp_quit gp")
    case True
    then show ?thesis using exec_quit gp1(1) run_quit rest by blast
  next
    case False
    with Cons.prems gp1 have quitting: "gp_quitWhenStopped gp" "active gp"
      and rank: "phase_rank (gp_phase gp) \<le>
        (if service_step a (gp_phase gp) then 1 else 0) + service_steps env actions gp1" by auto
    show ?thesis
    proof (cases "service_step a (gp_phase gp)")
      case True
      with exec_service [OF True gp1(1)] quitting rank
      have "gp_quitWhenStopped gp1" "phase_rank (gp_phase gp1) \<le> service_steps env actions gp1"
        "gp_phase gp1 = NoRun \<Longrightarrow> gp_quit gp1" by auto
      moreover have "gp_phase gp1 = NoRun \<or> active gp1"
        using gp1(2) by (auto simp: runtime_inv_def phase_matches_def active_def split: run_phase.splits)
      ultimately show ?thesis using Cons.IH gp1(2) rest by blast
    next
      case False
      with exec_active [OF quitting(2) False gp1(1)] quitting rank show ?thesis
        using Cons.IH [OF gp1(2) rest] by simp
    qed
  qed
qed

section \<open>Properties\<close>

text \<open>
  C27. Whatever the user, the timers, the log and the service do, in whatever order, the state of the page stays
  well formed: the command is one the page can run, the displayed state matches what the service task waits for,
  a server is watched exactly while one is running, a screen is shown as active only then, and the log stays
  within its limit. Every operation returns, with one exception: the start of the idle page, when the read of
  the configuration throws; a sequence of actions is carried out up to there.
\<close>

theorem runtime_state_well_formed:
  "\<exists>as bs gp. actions = as @ bs \<and> runtime_run env as new_runtime_presenter = Some gp \<and> runtime_inv gp \<and>
    (bs = [] \<or> runtime_exec env (hd bs) gp = None \<and> escapes env (hd bs) gp)"
  using runtime_run_prefix [OF new_runtime_inv, of actions env] by blast

text \<open>
  C28. Closing the window is carried out: once it was asked for, and whatever else happens in between, the
  application has quit after two steps of the service task, the end of the backend selection and the end of
  the service. If an exception ends the run, this is a start after the application has quit.
\<close>

theorem quit_is_carried_out:
  assumes "runtime_inv gp" and "service_steps env actions (quitApplication env gp) \<ge> 2"
  shows "\<exists>as bs gp'. actions = as @ bs \<and> runtime_run env (QuitApplication # as) gp = Some gp' \<and> gp_quit gp' \<and>
    (bs = [] \<or> runtime_exec env (hd bs) gp' = None \<and> escapes env (hd bs) gp')"
proof -
  let ?q = "quitApplication env gp"
  have inv: "runtime_inv ?q" using assms(1) by (rule quit_inv)
  obtain as bs gp' where run: "actions = as @ bs" "runtime_run env as ?q = Some gp'"
    "service_steps env as ?q = service_steps env actions ?q"
    "bs = [] \<or> runtime_exec env (hd bs) gp' = None \<and> escapes env (hd bs) gp'"
    using runtime_run_prefix [OF inv, of actions env] by blast
  have "gp_quit ?q \<or> gp_quitWhenStopped ?q \<and> active ?q"
    by (auto simp: quitApplication_def stop_def runtime_defs active_def Let_def)
  moreover have "phase_rank (gp_phase ?q) \<le> 2" by (simp add: phase_rank_def split: run_phase.split)
  ultimately have "gp_quit gp'" using quitting_run [OF inv run(2)] run(3) assms(2) by auto
  with run show ?thesis by (intro exI [of _ as] exI [of _ bs] exI [of _ gp']) simp
qed

definition demo_platform :: "nat descriptor" where
  "demo_platform =
     \<lparr>bd_name = ''xcb'', bd_displayName = ''X11'', bd_order = 0,
      bd_check = Some (Inr \<lparr>bc_available = True, bc_detail = [], bc_screens = \<lparr>fc_supported = True, fc_detail = []\<rparr>,
        bc_capture = \<lparr>fc_supported = True, fc_detail = []\<rparr>, bc_injection = \<lparr>fc_supported = True, fc_detail = []\<rparr>\<rparr>),
      bd_create = Some (Inr (Some 7))\<rparr>"

definition demo_runtime :: "nat runtime_env" where
  "demo_runtime =
     \<lparr>re_registry = [demo_platform], re_trim = (\<lambda>s. s), re_lower = (\<lambda>s. s), re_tr = (\<lambda>_. [65]),
      re_endpoint = (\<lambda>_. Some 1), re_absolute = (\<lambda>s. [s]), re_pathText = concat, re_parse = (\<lambda>_. Inl 1),
      re_export = (\<lambda>_ _ _. None), re_json = demo_json, re_io = no_faults\<rparr>"

text \<open>A page whose service task waits for the selection of the backend.\<close>

definition demo_starting :: runtime_presenter where
  "demo_starting = new_runtime_presenter\<lparr>gp_state := Starting, gp_phase := Selecting 1 default_config [''mksync.json'']\<rparr>"

lemma demo_starting_inv: "runtime_inv demo_starting"
  by (simp add: runtime_inv_def demo_starting_def new_runtime_presenter_def refreshBackendChecks_def runtime_defs
      phase_matches_def serving_phase_def active_def)

lemma demo_selected:
  "selectBackend [demo_platform] [] 3 = Selected 7 demo_platform (case the (bd_check demo_platform) of Inr c \<Rightarrow> c)"
  by (simp add: selectBackend_def registeredBackends_def checkBackend_def findBackend_def find_named_def demo_platform_def
      supports_def hasRequirement_def requirement_and_def Let_def)

lemma run_requirement_server: "run_requirement (ServerCommand endpoint common) = 3"
  by (simp add: run_requirement_def requirement_or_def)

theorem quit_is_carried_out_witness:
  "\<exists>as bs gp'. [Stop, ServiceSelected, ClearLog, ServiceEnd (Ended True None)] = as @ bs \<and>
     runtime_run demo_runtime (QuitApplication # as) demo_starting = Some gp' \<and> gp_quit gp' \<and> bs = []"
proof -
  let ?actions = "[Stop, ServiceSelected, ClearLog, ServiceEnd (Ended True None)]"
  have steps: "service_steps demo_runtime ?actions (quitApplication demo_runtime demo_starting) \<ge> 2"
    by (simp add: demo_starting_def new_runtime_presenter_def refreshBackendChecks_def quitApplication_def stop_def
        runtime_defs active_def serviceSelected_def clearLog_def run_requirement_server demo_runtime_def default_common_def
        demo_selected refreshActiveScreen_def)
  obtain as bs gp' where quit: "?actions = as @ bs" "runtime_run demo_runtime (QuitApplication # as) demo_starting = Some gp'"
    "gp_quit gp'" "bs = [] \<or> runtime_exec demo_runtime (hd bs) gp' = None \<and> escapes demo_runtime (hd bs) gp'"
    using quit_is_carried_out [OF demo_starting_inv steps] by blast
  have "bs = []"
  proof (rule ccontr)
    assume "bs \<noteq> []"
    with quit(4) obtain fs where start: "hd bs = Start fs" by (auto simp: escapes_def)
    have "hd bs \<in> set ?actions" unfolding quit(1) using \<open>bs \<noteq> []\<close> by simp
    with start show False by simp
  qed
  with quit show ?thesis by blast
qed

fun run_arguments :: "run_phase \<Rightarrow> (nat \<times> app_config \<times> path) option" where
  "run_arguments NoRun = None"
| "run_arguments (Selecting endpoint config p) = Some (endpoint, config, p)"
| "run_arguments (Serving endpoint config p) = Some (endpoint, config, p)"

fun is_path_edit :: "runtime_action \<Rightarrow> bool" where
  "is_path_edit (SetAppConfigPath _) = True"
| "is_path_edit _ = False"

lemma exec_active_command:
  assumes "active gp" "runtime_exec env a gp = Some gp'"
  shows "is_path_edit a \<or> gp_command gp' = gp_command gp"
proof (cases "gp_phase gp")
  case NoRun
  with assms show ?thesis
    by (cases a; auto simp: runtime_ops active_def Let_def run_fields serviceSelected_def serviceEnded_def
          showStartupSuccess_def showStartupError_def showStartupValidationError_def
        split: if_splits option.splits sum.splits Option.bind_splits)
next
  case (Selecting endpoint config p)
  with assms show ?thesis
    by (cases a; auto simp: runtime_ops active_def Let_def run_fields serviceSelected_def serviceEnded_def
          showStartupSuccess_def showStartupError_def showStartupValidationError_def
        split: if_splits option.splits sum.splits selection.splits Option.bind_splits)
next
  case (Serving endpoint config p)
  with assms show ?thesis
    by (cases a; auto simp: runtime_ops active_def Let_def run_fields serviceSelected_def serviceEnded_def
          showStartupSuccess_def showStartupError_def showStartupValidationError_def
        split: if_splits option.splits sum.splits service_end.splits Option.bind_splits)
qed

lemma exec_service_arguments:
  assumes "service_step a (gp_phase gp)" "runtime_exec env a gp = Some gp'"
  shows "gp_phase gp' = NoRun \<or> run_arguments (gp_phase gp') = run_arguments (gp_phase gp)"
  using assms
  by (cases a; cases "gp_phase gp";
      auto simp: serviceSelected_def serviceEnded_def clearRunningServer_def run_fields Let_def
        split: selection.splits Option.bind_splits if_splits)

text \<open>
  The parameters of a run are frozen: while the service is active, no action but an edit of the
  configuration path changes the command that is shown, and none changes the endpoint, the configuration or
  the file the service was started with, until the run is over.
\<close>

theorem settings_frozen_while_active:
  assumes "active gp" and "runtime_exec env a gp = Some gp'"
  shows "(is_path_edit a \<or> gp_command gp' = gp_command gp) \<and>
    (gp_phase gp' = NoRun \<or> run_arguments (gp_phase gp') = run_arguments (gp_phase gp))"
  using exec_active_command [OF assms] exec_active(1) [OF assms(1) _ assms(2)] exec_service_arguments [OF _ assms(2)]
  by (cases "service_step a (gp_phase gp)") auto

theorem settings_frozen_while_active_witness:
  "\<exists>gp'. runtime_exec demo_runtime (SetSelectedMode 1) demo_starting = Some gp' \<and>
     gp_command gp' = gp_command demo_starting"
proof -
  have "active demo_starting" by (simp add: demo_starting_def active_def)
  moreover obtain gp' where gp': "runtime_exec demo_runtime (SetSelectedMode 1) demo_starting = Some gp'"
    using runtime_exec_inv [OF demo_starting_inv, of demo_runtime "SetSelectedMode 1"]
    by (cases "runtime_exec demo_runtime (SetSelectedMode 1) demo_starting") (auto simp: escapes_def)
  ultimately show ?thesis using settings_frozen_while_active by fastforce
qed

lemma finishRun_report:
  "(gp_title (finishRun env gp), gp_detail (finishRun env gp)) =
     (if gp_stopping gp then (StoppedTitle, StoppedSafely)
      else if \<not> text_empty (gp_runError gp) then (FailedTitle, gp_runError gp)
      else if gp_completed gp then (ExitedTitle, RunFinished)
      else (StoppedTitle, ServiceEnded))"
  by (simp add: finishRun_def signal_def Let_def run_fields)

lemma clearRunningServer_fields [simp]:
  "gp_stopping (clearRunningServer gp) = gp_stopping gp"
  "gp_runError (clearRunningServer gp) = gp_runError gp"
  "gp_completed (clearRunningServer gp) = gp_completed gp"
  by (simp_all add: clearRunningServer_def)

text \<open>
  What a run ends with is reported: a stop as a stop, whatever the service returned; otherwise a message
  of the service as a failure; otherwise a normal exit. The page is idle again, watches no server and shows no
  active screen.
\<close>

theorem run_outcome_reported:
  assumes "runtime_inv gp" and "gp_phase gp = Serving endpoint config p" and "gp_runError gp = Verbatim []"
  shows "case serviceEnded env outcome gp of gp' \<Rightarrow>
    gp_state gp' = Idle \<and> \<not> gp_server gp' \<and> \<not> hasActiveScreen gp' \<and>
    (gp_title gp', gp_detail gp') =
       (if gp_stopping gp \<or> outcome = Ended True None then (StoppedTitle, StoppedSafely)
        else (case outcome of
                Threw (c # what) \<Rightarrow> (FailedTitle, Verbatim (c # what))
              | Ended canceled (Some (Inl (c # msg))) \<Rightarrow> (FailedTitle, Verbatim (c # msg))
              | Ended canceled (Some result) \<Rightarrow> (ExitedTitle, RunFinished)
              | _ \<Rightarrow> if gp_completed gp then (ExitedTitle, RunFinished) else (StoppedTitle, ServiceEnded)))"
proof -
  have no_server: "\<not> gp_server (serviceEnded env outcome gp)"
    using assms(2) by (simp add: serviceEnded_def clearRunningServer_def)
  have "runtime_inv (serviceEnded env outcome gp)" by (rule serviceEnded_inv [OF assms(1)])
  with no_server have "\<not> hasActiveScreen (serviceEnded env outcome gp)"
    by (auto simp: runtime_inv_def hasActiveScreen_def)
  moreover have "gp_state (serviceEnded env outcome gp) = Idle" using assms(2) by (simp add: serviceEnded_def)
  moreover have "(gp_title (serviceEnded env outcome gp), gp_detail (serviceEnded env outcome gp)) =
       (if gp_stopping gp \<or> outcome = Ended True None then (StoppedTitle, StoppedSafely)
        else (case outcome of
                Threw (c # what) \<Rightarrow> (FailedTitle, Verbatim (c # what))
              | Ended canceled (Some (Inl (c # msg))) \<Rightarrow> (FailedTitle, Verbatim (c # msg))
              | Ended canceled (Some result) \<Rightarrow> (ExitedTitle, RunFinished)
              | _ \<Rightarrow> if gp_completed gp then (ExitedTitle, RunFinished) else (StoppedTitle, ServiceEnded)))"
    using assms(2,3)
    by (simp only: serviceEnded_def run_phase.case finishRun_report)
       (simp split: service_end.split option.split sum.split list.split)
  ultimately show ?thesis using no_server by simp
qed

definition demo_serving :: runtime_presenter where
  "demo_serving = new_runtime_presenter\<lparr>gp_state := Running, gp_phase := Serving 1 default_config [''mksync.json''],
     gp_server := True, gp_timer := True\<rparr>"

theorem run_outcome_reported_witness:
  "gp_title (serviceEnded demo_runtime (Ended False (Some (Inl ''broken pipe''))) demo_serving) = FailedTitle"
proof -
  have "runtime_inv demo_serving"
    by (simp add: runtime_inv_def demo_serving_def new_runtime_presenter_def refreshBackendChecks_def runtime_defs
        phase_matches_def serving_phase_def active_def)
  moreover have "gp_phase demo_serving = Serving 1 default_config [''mksync.json'']" by (simp add: demo_serving_def)
  moreover have "gp_runError demo_serving = Verbatim []" "\<not> gp_stopping demo_serving"
    by (simp_all add: demo_serving_def new_runtime_presenter_def refreshBackendChecks_def signal_def)
  ultimately show ?thesis
    using run_outcome_reported [of demo_serving 1 default_config "[''mksync.json'']" demo_runtime
        "Ended False (Some (Inl ''broken pipe''))"]
    by simp
qed

text \<open>
  A stop that is requested while the backend is still being selected is shown for a moment only: the task
  overwrites the state with Running and reports the service as running, and as the stop is already pending,
  asking again has no effect. (The stop token is not lost: the service ends as soon as it waits.)
\<close>

theorem stop_hidden_by_startup:
  assumes "gp_state gp = Starting" and "\<not> gp_stopping gp" and "gp_phase gp = Selecting endpoint config p"
    and "gp_command gp = ServerCommand text common"
    and "selectBackend (re_registry env) (cc_backend common) 3 = Selected platform d check"
  shows "\<exists>gp'. runtime_run env [Stop, ServiceSelected] gp = Some gp' \<and> running gp' \<and>
    gp_title gp' = ServerRunning \<and> gp_stopping gp' \<and> gp_stopRequested gp' \<and> runtime_exec env Stop gp' = Some gp'"
proof -
  define gp1 where "gp1 = stop env gp"
  have gp1: "gp_stopping gp1" "gp_stopRequested gp1" "gp_phase gp1 = Selecting endpoint config p"
    "gp_command gp1 = ServerCommand text common"
    using assms(1-4) by (simp_all add: gp1_def stop_def active_def run_fields)
  obtain gp2 where gp2: "serviceSelected env gp1 = Some gp2" "gp_state gp2 = Running" "gp_title gp2 = ServerRunning"
    "gp_stopping gp2" "gp_stopRequested gp2"
    using gp1 assms(5) by (simp add: serviceSelected_def run_requirement_server run_fields Let_def)
  then have "runtime_run env [Stop, ServiceSelected] gp = Some gp2"
    by (simp add: gp1_def [symmetric])
  moreover have "runtime_exec env Stop gp2 = Some gp2" using gp2 by (simp add: stop_def)
  ultimately show ?thesis using gp2 by (simp add: running_def)
qed

theorem stop_hidden_by_startup_witness:
  "\<exists>gp'. runtime_run demo_runtime [Stop, ServiceSelected] demo_starting = Some gp' \<and> running gp' \<and>
    gp_title gp' = ServerRunning \<and> gp_stopping gp' \<and> gp_stopRequested gp' \<and> runtime_exec demo_runtime Stop gp' = Some gp'"
proof (rule stop_hidden_by_startup)
  show "gp_phase demo_starting = Selecting 1 default_config [''mksync.json'']" by (simp add: demo_starting_def)
  show "gp_command demo_starting = ServerCommand ''0.0.0.0:1234'' default_common"
    by (simp add: demo_starting_def new_runtime_presenter_def refreshBackendChecks_def runtime_defs)
  show "selectBackend (re_registry demo_runtime) (cc_backend default_common) 3 =
      Selected 7 demo_platform (case the (bd_check demo_platform) of Inr c \<Rightarrow> c)"
    using demo_selected by (simp add: demo_runtime_def default_common_def)
qed (simp_all add: demo_starting_def new_runtime_presenter_def refreshBackendChecks_def runtime_defs)

end
