(* ===== verification/Win32_Platform.thy ===== *)
theory Win32_Platform
  imports Core_Events Key_Win32
begin

text \<open>
  The Windows backend, \<open>src/platform/win32.cpp\<close>: the monitor table, the capture by low-level hooks with
  its remote-control mode, and the injector.

  \<^item> The system is foreign: \<open>w32_env\<close> holds what its calls answer (monitor lookup, key tables, error codes),
    \<open>os_cursor\<close> and \<open>os_showCount\<close> are the two pieces of its state that the program changes.
  \<^item> The message identifiers are constructors. \<open>LONG\<close> arithmetic is undefined outside 32 bits, and
    \<open>globalToMonitor\<close> throws for an unknown monitor: an operation out of which this escapes is \<open>None\<close>.
  \<^item> All operations on the capture run on the one thread that owns the hooks, so they are atomic. To get
    there they are posted to the window of this thread, which may fail (\<open>post_outcome\<close>). The window and the
    message pump are in \<open>Win32_Thread\<close>; logging is left out.
\<close>

section \<open>Monitors\<close>

type_synonym point = "int \<times> int"

record w32_rect =
  wr_left :: int
  wr_top :: int
  wr_right :: int
  wr_bottom :: int

record w32_monitor =
  wm_index :: nat
  wm_handle :: nat
  wm_rect :: w32_rect
  wm_screen :: screen_info

text \<open>
  What becomes of a function posted to the thread of the window: it runs, \<open>PostMessageW\<close> fails and leaves a
  last error, or the message is accepted but never reached, as the thread has ended or ends before.
\<close>

datatype post_outcome = Posted | PostFailed nat | NeverRun

record w32_env =
  we_monitorInfo :: "nat \<Rightarrow> (w32_rect \<times> string \<times> bool) option"
  we_dpi :: "nat \<Rightarrow> 32 word option"
  we_monitorFromPoint :: "point \<Rightarrow> nat"
  we_vk :: "string \<Rightarrow> 32 word"
  we_mapScanCode :: "32 word \<Rightarrow> 32 word"
  we_getCursorError :: "nat option"
  we_setCursorError :: "point \<Rightarrow> nat option"
  we_mouseHookError :: "nat option"
  we_keyboardHookError :: "nat option"
  we_errorAfterUnhook :: nat
  we_sendError :: "nat option"
  we_post :: post_outcome

text \<open>An effective resolution that cannot be read counts as 96.\<close>

definition monitorDpi :: "w32_env \<Rightarrow> nat \<Rightarrow> int" where
  "monitorDpi env handle = (case we_dpi env handle of None \<Rightarrow> 96 | Some dpi \<Rightarrow> sint dpi)"

definition makeMonitor :: "w32_env \<Rightarrow> nat \<Rightarrow> nat \<Rightarrow> w32_monitor option ub" where
  "makeMonitor env handle index =
     (case we_monitorInfo env handle of
        None \<Rightarrow> Some None
      | Some (rect, name, primary) \<Rightarrow> do {
          width \<leftarrow> i32 (wr_right rect - wr_left rect);
          height \<leftarrow> i32 (wr_bottom rect - wr_top rect);
          Some (Some \<lparr>wm_index = index, wm_handle = handle, wm_rect = rect,
            wm_screen = \<lparr>si_x = wr_left rect, si_y = wr_top rect, si_width = width, si_height = height,
                         si_dpi = monitorDpi env handle, si_name = name, si_primary = primary\<rparr>\<rparr>)
        })"

type_synonym monitor_table = "w32_monitor list \<times> (nat \<times> nat) list"

text \<open>\<open>EnumDisplayMonitors\<close> calls back for each handle until the callback gives up. \<open>emplace\<close> keeps an
  entry that is there.\<close>

fun enumerate_monitors :: "w32_env \<Rightarrow> nat list \<Rightarrow> monitor_table \<Rightarrow> monitor_table option ub" where
  "enumerate_monitors env [] table = Some (Some table)"
| "enumerate_monitors env (handle # handles) (monitors, mapping) = do {
     monitor \<leftarrow> makeMonitor env handle (length monitors);
     (case monitor of
        None \<Rightarrow> Some None
      | Some m \<Rightarrow>
          enumerate_monitors env handles
            (monitors @ [m],
             if map_of mapping handle = None then mapping @ [(handle, length monitors)] else mapping))
   }"

definition enumerateMonitors :: "w32_env \<Rightarrow> nat list \<Rightarrow> monitor_table \<Rightarrow> (bool \<times> monitor_table) ub" where
  "enumerateMonitors env handles table = do {
     found \<leftarrow> enumerate_monitors env handles ([], []);
     Some (case found of None \<Rightarrow> (False, table) | Some table' \<Rightarrow> (True, table'))
   }"

definition w32_screens :: "monitor_table \<Rightarrow> screen_info list" where
  "w32_screens table = map wm_screen (fst table)"

definition globalToMonitor :: "w32_env \<Rightarrow> monitor_table \<Rightarrow> point \<Rightarrow> (nat \<times> point) option" where
  "globalToMonitor env table pt =
     (case map_of (snd table) (we_monitorFromPoint env pt) of
        None \<Rightarrow> None
      | Some n \<Rightarrow>
          (let monitor = fst table ! n; rect = wm_rect monitor
           in do {
             x \<leftarrow> i32 (fst pt - wr_left rect);
             y \<leftarrow> i32 (snd pt - wr_top rect);
             Some (wm_index monitor, (x, y))
           }))"

definition localToGlobal :: "monitor_table \<Rightarrow> nat \<Rightarrow> point \<Rightarrow> point option ub" where
  "localToGlobal table screenIndex pt =
     (if screenIndex \<ge> length (fst table) then Some None
      else (let rect = wm_rect (fst table ! screenIndex)
            in do {
              x \<leftarrow> i32 (wr_left rect + fst pt);
              y \<leftarrow> i32 (wr_top rect + snd pt);
              Some (Some (x, y))
            }))"

section \<open>Capture\<close>

record w32_capture =
  wc_table :: monitor_table
  wc_mouseHook :: bool
  wc_keyboardHook :: bool
  wc_instance :: bool
  wc_sender :: bool
  wc_queue :: "input_event list"
  wc_dropped :: nat
  wc_remote :: bool
  wc_cursorHidden :: bool
  wc_remoteAnchor :: "point option"
  wc_lastMouse :: "point option"
  os_cursor :: point
  os_showCount :: int

definition new_capture :: "monitor_table \<Rightarrow> point \<Rightarrow> int \<Rightarrow> w32_capture" where
  "new_capture table cursor count =
     \<lparr>wc_table = table, wc_mouseHook = False, wc_keyboardHook = False, wc_instance = False, wc_sender = False,
      wc_queue = [], wc_dropped = 0, wc_remote = False, wc_cursorHidden = False, wc_remoteAnchor = None,
      wc_lastMouse = None, os_cursor = cursor, os_showCount = count\<rparr>"

definition SetCursorPos :: "w32_env \<Rightarrow> point \<Rightarrow> w32_capture \<Rightarrow> nat option \<times> w32_capture" where
  "SetCursorPos env pt c =
     (case we_setCursorError env pt of Some e \<Rightarrow> (Some e, c) | None \<Rightarrow> (None, c\<lparr>os_cursor := pt\<rparr>))"

text \<open>\<open>ShowCursor\<close> changes a display count and returns it; the cursor is visible while it is not negative.\<close>

function hide_cursor :: "int \<Rightarrow> int" where
  "hide_cursor count = (if count - 1 \<ge> 0 then hide_cursor (count - 1) else count - 1)"
  by auto
termination by (relation "measure nat") auto

function show_cursor :: "int \<Rightarrow> int" where
  "show_cursor count = (if count + 1 < 0 then show_cursor (count + 1) else count + 1)"
  by auto
termination by (relation "measure (\<lambda>count. nat (- count))") auto

declare hide_cursor.simps [simp del] show_cursor.simps [simp del]

definition beginRemoteControl :: "w32_env \<Rightarrow> w32_capture \<Rightarrow> nat option \<times> w32_capture" where
  "beginRemoteControl env c =
     (case we_getCursorError env of
        Some e \<Rightarrow> (Some e, c)
      | None \<Rightarrow>
          (let cursor = os_cursor c;
               c1 = snd (SetCursorPos env cursor (c\<lparr>wc_remoteAnchor := Some cursor, wc_lastMouse := Some cursor\<rparr>));
               c2 = (if wc_cursorHidden c1 then c1
                     else c1\<lparr>os_showCount := hide_cursor (os_showCount c1), wc_cursorHidden := True\<rparr>)
           in (None, c2\<lparr>wc_remote := True\<rparr>)))"

definition endRemoteControl :: "w32_capture \<Rightarrow> w32_capture" where
  "endRemoteControl c =
     (if \<not> wc_remote c \<and> \<not> wc_cursorHidden c \<and> wc_remoteAnchor c = None then c
      else (let c1 = c\<lparr>wc_remote := False, wc_remoteAnchor := None\<rparr>
            in if wc_cursorHidden c1
               then c1\<lparr>os_showCount := show_cursor (os_showCount c1), wc_cursorHidden := False\<rparr> else c1))"

text \<open>An error code 0 is no error.\<close>

definition error_code :: "nat option \<Rightarrow> nat option" where
  "error_code error = (if error = Some 0 then None else error)"

text \<open>
  \<open>syncUiCall\<close> returns the error of the function it posts, or the error of the post; if the function never
  runs, the caller waits on the latch for ever, and there is no answer (\<open>None\<close>).
\<close>

definition syncUiCall ::
  "w32_env \<Rightarrow> ('c \<Rightarrow> (nat option \<times> 'c) ub) \<Rightarrow> 'c \<Rightarrow> (nat option \<times> 'c) option" where
  "syncUiCall env fn c =
     (case we_post env of
        Posted \<Rightarrow> do { (error, c') \<leftarrow> fn c; Some (error_code error, c') }
      | PostFailed error \<Rightarrow> Some (error_code (Some error), c)
      | NeverRun \<Rightarrow> None)"

definition remote_call :: "w32_env \<Rightarrow> bool \<Rightarrow> w32_capture \<Rightarrow> nat option \<times> w32_capture" where
  "remote_call env active c =
     (if active = wc_remote c then (None, c)
      else if active then beginRemoteControl env c else (None, endRemoteControl c))"

definition w32_setRemoteControlActive ::
  "w32_env \<Rightarrow> bool \<Rightarrow> w32_capture \<Rightarrow> (nat option \<times> w32_capture) option" where
  "w32_setRemoteControlActive env active c = syncUiCall env (\<lambda>c. Some (remote_call env active c)) c"

text \<open>The error of a screen that does not exist is \<open>EINVAL\<close>, 22.\<close>

definition move_call ::
  "w32_env \<Rightarrow> nat \<Rightarrow> int \<Rightarrow> int \<Rightarrow> w32_capture \<Rightarrow> (nat option \<times> w32_capture) ub" where
  "move_call env screenIndex x y c = do {
     target \<leftarrow> localToGlobal (wc_table c) screenIndex (x, y);
     Some (case target of
        None \<Rightarrow> (Some 22, c)
      | Some pt \<Rightarrow>
          (case SetCursorPos env pt c of
             (Some e, c1) \<Rightarrow> (Some e, c1)
           | (None, c1) \<Rightarrow> (None, c1\<lparr>wc_lastMouse := Some pt\<rparr>)))
   }"

definition w32_moveLocalCursor ::
  "w32_env \<Rightarrow> nat \<Rightarrow> int \<Rightarrow> int \<Rightarrow> w32_capture \<Rightarrow> (nat option \<times> w32_capture) option" where
  "w32_moveLocalCursor env screenIndex x y c = syncUiCall env (move_call env screenIndex x y) c"

subsection \<open>Hooks\<close>

definition removeHooks :: "w32_capture \<Rightarrow> w32_capture" where
  "removeHooks c = (endRemoteControl c)\<lparr>wc_mouseHook := False, wc_keyboardHook := False, wc_instance := False\<rparr>"

definition installHooks :: "w32_env \<Rightarrow> w32_capture \<Rightarrow> bool \<times> w32_capture" where
  "installHooks env c =
     (let c1 = c\<lparr>wc_instance := True, wc_mouseHook := (we_mouseHookError env = None)\<rparr>
      in if \<not> wc_mouseHook c1 then (False, removeHooks c1)
         else (let c2 = c1\<lparr>wc_keyboardHook := (we_keyboardHookError env = None)\<rparr>
               in if \<not> wc_keyboardHook c2 then (False, removeHooks c2) else (True, c2)))"

text \<open>
  The two operations that post without \<open>syncUiCall\<close>: they throw when the post fails, and their coroutine
  waits for ever when the function never runs. \<open>initialize\<close> reads the last error after the hooks were removed
  again; error code 0 is no error.
\<close>

datatype 'a ui_outcome = Returned 'a | Thrown nat | Waiting

definition w32_initialize :: "w32_env \<Rightarrow> w32_capture \<Rightarrow> (nat + unit) ui_outcome \<times> w32_capture" where
  "w32_initialize env c =
     (let c0 = c\<lparr>wc_dropped := 0, wc_sender := True, wc_queue := []\<rparr>
      in case we_post env of
           Posted \<Rightarrow>
             (case installHooks env c0 of
                (installed, c1) \<Rightarrow>
                  (let error = (if installed then 0 else we_errorAfterUnhook env)
                   in (Returned (if error \<noteq> 0 then Inl error else Inr ()), c1)))
         | PostFailed error \<Rightarrow> (Thrown error, c0)
         | NeverRun \<Rightarrow> (Waiting, c0))"

definition w32_shutdown :: "w32_env \<Rightarrow> w32_capture \<Rightarrow> unit ui_outcome \<times> w32_capture" where
  "w32_shutdown env c =
     (case we_post env of
        Posted \<Rightarrow> (Returned (), removeHooks c)
      | PostFailed error \<Rightarrow> (Thrown error, c)
      | NeverRun \<Rightarrow> (Waiting, c))"

text \<open>The channel holds 512 events; an event that finds it full is counted and lost.\<close>

definition tryEnqueue :: "input_event \<Rightarrow> w32_capture \<Rightarrow> w32_capture" where
  "tryEnqueue event c =
     (if \<not> wc_sender c then c
      else if length (wc_queue c) < 512 then c\<lparr>wc_queue := wc_queue c @ [event]\<rparr>
      else c\<lparr>wc_dropped := wc_dropped c + 1\<rparr>)"

text \<open>\<open>nextEvent\<close> throws before \<open>initialize\<close>; without an event (\<open>Some (None, _)\<close>) it goes on waiting.\<close>

definition w32_nextEvent :: "w32_capture \<Rightarrow> (input_event option \<times> w32_capture) option" where
  "w32_nextEvent c =
     (if \<not> wc_sender c then None
      else (let c1 = c\<lparr>wc_dropped := 0\<rparr>
            in case wc_queue c1 of
                 [] \<Rightarrow> Some (None, c1)
               | event # rest \<Rightarrow> Some (Some event, c1\<lparr>wc_queue := rest\<rparr>)))"

datatype mouse_message =
    WM_MOUSEMOVE | WM_LBUTTONDOWN | WM_LBUTTONUP | WM_RBUTTONDOWN | WM_RBUTTONUP | WM_MBUTTONDOWN | WM_MBUTTONUP
  | WM_XBUTTONDOWN | WM_XBUTTONUP | WM_MOUSEWHEEL | WM_MOUSEHWHEEL | WM_OtherMouse

datatype keyboard_message = WM_KEYDOWN | WM_KEYUP | WM_SYSKEYDOWN | WM_SYSKEYUP | WM_OtherKey

record ms_hook_struct =
  ms_pt :: point
  ms_mouseData :: "32 word"
  ms_injected :: bool

record kbd_hook_struct =
  kb_vkCode :: "32 word"
  kb_scanCode :: "32 word"
  kb_injected :: bool

datatype hook_result = Swallowed | PassedOn

fun mouseButtonFromMessage :: "mouse_message \<Rightarrow> mouse_button" where
  "mouseButtonFromMessage WM_LBUTTONUP = MouseButton_Left"
| "mouseButtonFromMessage WM_LBUTTONDOWN = MouseButton_Left"
| "mouseButtonFromMessage WM_RBUTTONUP = MouseButton_Right"
| "mouseButtonFromMessage WM_RBUTTONDOWN = MouseButton_Right"
| "mouseButtonFromMessage WM_MBUTTONUP = MouseButton_Middle"
| "mouseButtonFromMessage WM_MBUTTONDOWN = MouseButton_Middle"
| "mouseButtonFromMessage _ = MouseButton_None"

fun isMouseButtonRelease :: "mouse_message \<Rightarrow> bool" where
  "isMouseButtonRelease WM_LBUTTONUP = True"
| "isMouseButtonRelease WM_RBUTTONUP = True"
| "isMouseButtonRelease WM_MBUTTONUP = True"
| "isMouseButtonRelease WM_XBUTTONUP = True"
| "isMouseButtonRelease _ = False"

text \<open>\<open>static_cast<SHORT>(HIWORD(mouseData))\<close>.\<close>

definition wheel_amount :: "32 word \<Rightarrow> int" where
  "wheel_amount mouseData = sint (ucast (drop_bit 16 mouseData) :: 16 word)"

definition move_delta :: "point \<Rightarrow> point \<Rightarrow> point ub" where
  "move_delta pt base = do {
     dx \<leftarrow> i32 (fst pt - fst base);
     dy \<leftarrow> i32 (snd pt - snd base);
     Some (dx, dy)
   }"

definition translate_move ::
  "nat \<Rightarrow> point \<Rightarrow> point \<Rightarrow> w32_capture \<Rightarrow> (input_event option \<times> w32_capture) option" where
  "translate_move screenIndex local pt c = do {
     (dx, dy) \<leftarrow>
       (case (wc_remote c, wc_remoteAnchor c, wc_lastMouse c) of
          (True, Some anchor, _) \<Rightarrow> move_delta pt anchor
        | (_, _, Some base) \<Rightarrow> move_delta pt base
        | _ \<Rightarrow> Some (0, 0));
     if wc_remote c \<and> wc_remoteAnchor c \<noteq> None \<and> dx = 0 \<and> dy = 0 then Some (None, c)
     else Some (Some (MouseMoveEvent \<lparr>mv_x = fst local, mv_y = snd local, mv_screenIndex = screenIndex,
                                      mv_deltaX = dx, mv_deltaY = dy\<rparr>),
                c\<lparr>wc_lastMouse := Some pt\<rparr>)
   }"

definition translateMouseEvent ::
  "w32_env \<Rightarrow> mouse_message \<Rightarrow> ms_hook_struct \<Rightarrow> w32_capture \<Rightarrow> (input_event option \<times> w32_capture) option" where
  "translateMouseEvent env wp info c = do {
     (screenIndex, local) \<leftarrow> globalToMonitor env (wc_table c) (ms_pt info);
     (case wp of
        WM_MOUSEMOVE \<Rightarrow> translate_move screenIndex local (ms_pt info) c
      | WM_MOUSEWHEEL \<Rightarrow>
          Some (Some (MouseWheelEvent \<lparr>mw_x = fst local, mw_y = snd local, mw_deltaX = 0,
                                       mw_deltaY = wheel_amount (ms_mouseData info)\<rparr>), c)
      | WM_MOUSEHWHEEL \<Rightarrow>
          Some (Some (MouseWheelEvent \<lparr>mw_x = fst local, mw_y = snd local,
                                       mw_deltaX = wheel_amount (ms_mouseData info), mw_deltaY = 0\<rparr>), c)
      | WM_OtherMouse \<Rightarrow> Some (None, c)
      | _ \<Rightarrow>
          (let button = mouseButtonFromMessage wp
           in if button = MouseButton_None then Some (None, c)
              else Some (Some (MouseButtonEvent \<lparr>mb_x = fst local, mb_y = snd local, mb_screenIndex = screenIndex,
                                                 mb_button = button, mb_release = isMouseButtonRelease wp\<rparr>), c)))
   }"

definition enqueue_option :: "input_event option \<Rightarrow> w32_capture \<Rightarrow> w32_capture" where
  "enqueue_option event c = (case event of None \<Rightarrow> c | Some e \<Rightarrow> tryEnqueue e c)"

definition mouseHookProc ::
  "w32_env \<Rightarrow> int \<Rightarrow> mouse_message \<Rightarrow> ms_hook_struct \<Rightarrow> w32_capture \<Rightarrow> (hook_result \<times> w32_capture) option" where
  "mouseHookProc env code wp info c =
     (if code < 0 \<or> \<not> wc_instance c then Some (PassedOn, c)
      else if wc_remote c \<and> ms_injected info then Some (Swallowed, c)
      else do {
        (event, c1) \<leftarrow> translateMouseEvent env wp info c;
        let c2 = enqueue_option event c1
        in if \<not> wc_remote c then Some (PassedOn, c2)
           else (case (wp, wc_remoteAnchor c2) of
                   (WM_MOUSEMOVE, Some anchor) \<Rightarrow>
                     Some (Swallowed, if ms_pt info \<noteq> anchor then snd (SetCursorPos env anchor c2) else c2)
                 | _ \<Rightarrow> Some (Swallowed, c2))
      })"

text \<open>\<open>asyncState\<close> is what \<open>GetAsyncKeyState\<close> answers during the callback.\<close>

definition translateKeyboardEvent ::
  "w32_env \<Rightarrow> (32 word \<Rightarrow> 16 word) \<Rightarrow> keyboard_message \<Rightarrow> kbd_hook_struct \<Rightarrow> input_event option" where
  "translateKeyboardEvent env asyncState wp info =
     (let isPress = (wp = WM_KEYDOWN \<or> wp = WM_SYSKEYDOWN);
          isRelease = (wp = WM_KEYUP \<or> wp = WM_SYSKEYUP)
      in if \<not> isPress \<and> \<not> isRelease then None
         else
           (let vkCode = normalizeVirtualKey (we_vk env) (we_mapScanCode env) (kb_vkCode info) (kb_scanCode info);
                k = virtualKeyToKey (we_vk env) vkCode;
                modifiers = currentModifiers (we_vk env) asyncState;
                m = keyModifierFor k;
                modifiers' = (if m = Mod_None then modifiers
                              else if isPress then modifier_or modifiers m
                              else modifier_and modifiers (modifier_not m))
            in Some (KeyEvent \<lparr>ke_key = k, ke_modifiers = modifiers', ke_nativeCode = vkCode, ke_repeat = False,
                               ke_release = isRelease\<rparr>)))"

definition keyboardHookProc ::
  "w32_env \<Rightarrow> (32 word \<Rightarrow> 16 word) \<Rightarrow> int \<Rightarrow> keyboard_message \<Rightarrow> kbd_hook_struct \<Rightarrow> w32_capture \<Rightarrow>
     hook_result \<times> w32_capture" where
  "keyboardHookProc env asyncState code wp info c =
     (if code < 0 \<or> \<not> wc_instance c then (PassedOn, c)
      else if wc_remote c \<and> kb_injected info then (Swallowed, c)
      else (if wc_remote c then Swallowed else PassedOn,
            enqueue_option (translateKeyboardEvent env asyncState wp info) c))"

section \<open>Injection\<close>

datatype mouse_flag =
  MOUSE_LEFTUP | MOUSE_LEFTDOWN | MOUSE_RIGHTUP | MOUSE_RIGHTDOWN | MOUSE_MIDDLEUP | MOUSE_MIDDLEDOWN | MOUSE_WHEEL | MOUSE_HWHEEL

datatype w32_input = MouseInput mouse_flag "32 word" | KeyInput "16 word" bool bool

record w32_injector =
  wi_table :: monitor_table
  wi_initialized :: bool
  wi_cursor :: point
  wi_sent :: "w32_input list"

definition injector_initialize :: "w32_injector \<Rightarrow> w32_injector" where
  "injector_initialize i = i\<lparr>wi_initialized := True\<rparr>"

definition injector_shutdown :: "w32_injector \<Rightarrow> w32_injector" where
  "injector_shutdown i = i\<lparr>wi_initialized := False\<rparr>"

text \<open>An error code 0 is replaced by \<open>ERROR_GEN_FAILURE\<close>, 31.\<close>

definition fallbackError :: "nat \<Rightarrow> nat" where
  "fallbackError e = (if e \<noteq> 0 then e else 31)"

definition sendInputs :: "w32_env \<Rightarrow> w32_input list \<Rightarrow> w32_injector \<Rightarrow> nat option \<times> w32_injector" where
  "sendInputs env inputs i =
     (if inputs = [] then (None, i)
      else (case we_sendError env of
              Some e \<Rightarrow> (Some (fallbackError e), i)
            | None \<Rightarrow> (None, i\<lparr>wi_sent := wi_sent i @ inputs\<rparr>)))"

definition moveCursor :: "w32_env \<Rightarrow> nat \<Rightarrow> int \<Rightarrow> int \<Rightarrow> w32_injector \<Rightarrow> (nat option \<times> w32_injector) ub" where
  "moveCursor env screenIndex x y i = do {
     target \<leftarrow> localToGlobal (wi_table i) screenIndex (x, y);
     Some (case target of
        None \<Rightarrow> (Some 22, i)
      | Some pt \<Rightarrow>
          (case we_setCursorError env pt of
             Some e \<Rightarrow> (Some (fallbackError e), i)
           | None \<Rightarrow> (None, i\<lparr>wi_cursor := pt\<rparr>)))
   }"

fun button_flag :: "mouse_button \<Rightarrow> bool \<Rightarrow> mouse_flag option" where
  "button_flag MouseButton_Left release = Some (if release then MOUSE_LEFTUP else MOUSE_LEFTDOWN)"
| "button_flag MouseButton_Right release = Some (if release then MOUSE_RIGHTUP else MOUSE_RIGHTDOWN)"
| "button_flag MouseButton_Middle release = Some (if release then MOUSE_MIDDLEUP else MOUSE_MIDDLEDOWN)"
| "button_flag MouseButton_None release = None"

fun injectOne :: "w32_env \<Rightarrow> input_event \<Rightarrow> w32_injector \<Rightarrow> (nat option \<times> w32_injector) ub" where
  "injectOne env (MouseMoveEvent e) i = moveCursor env (mv_screenIndex e) (mv_x e) (mv_y e) i"
| "injectOne env (MouseButtonEvent e) i = do {
     (error, i1) \<leftarrow> moveCursor env (mb_screenIndex e) (mb_x e) (mb_y e) i;
     if error \<noteq> None then Some (error, i1)
     else (case button_flag (mb_button e) (mb_release e) of
             None \<Rightarrow> Some (Some 22, i1)
           | Some flag \<Rightarrow> Some (sendInputs env [MouseInput flag 0] i1))
   }"
| "injectOne env (MouseWheelEvent e) i =
     Some (sendInputs env
       ((if mw_deltaY e \<noteq> 0 then [MouseInput MOUSE_WHEEL (word_of_int (mw_deltaY e))] else []) @
        (if mw_deltaX e \<noteq> 0 then [MouseInput MOUSE_HWHEEL (word_of_int (mw_deltaX e))] else [])) i)"
| "injectOne env (KeyEvent e) i =
     Some (case keyToWin32 (we_vk env) (ke_key e) (ke_nativeCode e) of
        None \<Rightarrow> (Some 22, i)
      | Some k \<Rightarrow> sendInputs env [KeyInput (wk_virtualKey k) (ke_release e) (wk_extended k)] i)"

text \<open>Before \<open>initialize\<close> nothing is injected: \<open>ENOTCONN\<close>, 107.\<close>

definition w32_inject :: "w32_env \<Rightarrow> input_event \<Rightarrow> w32_injector \<Rightarrow> (nat option \<times> w32_injector) ub" where
  "w32_inject env event i = (if \<not> wi_initialized i then Some (Some 107, i) else injectOne env event i)"

section \<open>Everything that happens to a capture\<close>

datatype w32_action =
    Initialize | Shutdown | SetRemote bool | MoveLocal nat int int | NextEvent
  | MouseHook int mouse_message ms_hook_struct
  | KeyboardHook "32 word \<Rightarrow> 16 word" int keyboard_message kbd_hook_struct

fun w32_exec :: "w32_env \<Rightarrow> w32_action \<Rightarrow> w32_capture \<Rightarrow> w32_capture option" where
  "w32_exec env Initialize c = Some (snd (w32_initialize env c))"
| "w32_exec env Shutdown c = Some (snd (w32_shutdown env c))"
| "w32_exec env (SetRemote active) c = map_option snd (w32_setRemoteControlActive env active c)"
| "w32_exec env (MoveLocal screenIndex x y) c = map_option snd (w32_moveLocalCursor env screenIndex x y c)"
| "w32_exec env NextEvent c = map_option snd (w32_nextEvent c)"
| "w32_exec env (MouseHook code wp info) c = map_option snd (mouseHookProc env code wp info c)"
| "w32_exec env (KeyboardHook asyncState code wp info) c = Some (snd (keyboardHookProc env asyncState code wp info c))"

text \<open>The window procedure on \<open>WM_DISPLAYCHANGE\<close>.\<close>

definition display_change :: "w32_env \<Rightarrow> nat list \<Rightarrow> w32_capture \<Rightarrow> w32_capture ub" where
  "display_change env handles c = do {
     (ok, table) \<leftarrow> enumerateMonitors env handles (wc_table c);
     Some (c\<lparr>wc_table := table\<rparr>)
   }"

section \<open>Lemmas\<close>

text \<open>Desktop coordinates are far from the limits of 32 bits.\<close>

definition small :: "int \<Rightarrow> bool" where
  "small x \<longleftrightarrow> \<bar>x\<bar> \<le> 536870912"

definition small_point :: "point \<Rightarrow> bool" where
  "small_point p \<longleftrightarrow> small (fst p) \<and> small (snd p)"

definition small_rect :: "w32_rect \<Rightarrow> bool" where
  "small_rect r \<longleftrightarrow> small (wr_left r) \<and> small (wr_top r) \<and> small (wr_right r) \<and> small (wr_bottom r)"

definition table_good :: "monitor_table \<Rightarrow> bool" where
  "table_good table \<longleftrightarrow>
     (\<forall>n < length (fst table). wm_index (fst table ! n) = n \<and> small_rect (wm_rect (fst table ! n))) \<and>
     (\<forall>(h, n) \<in> set (snd table). n < length (fst table))"

text \<open>Every point of the desktop lies on a monitor of the table.\<close>

definition monitor_known :: "w32_env \<Rightarrow> monitor_table \<Rightarrow> point \<Rightarrow> bool" where
  "monitor_known env table p \<longleftrightarrow> map_of (snd table) (we_monitorFromPoint env p) \<noteq> None"

definition monitors_known :: "w32_env \<Rightarrow> monitor_table \<Rightarrow> bool" where
  "monitors_known env table \<longleftrightarrow> (\<forall>p. monitor_known env table p)"

definition w32_inv :: "w32_capture \<Rightarrow> bool" where
  "w32_inv c \<longleftrightarrow>
     table_good (wc_table c) \<and>
     (wc_remote c \<longleftrightarrow> wc_remoteAnchor c \<noteq> None) \<and>
     (wc_cursorHidden c \<longleftrightarrow> wc_remote c) \<and>
     (os_showCount c < 0 \<longleftrightarrow> wc_cursorHidden c) \<and>
     (wc_mouseHook c \<longleftrightarrow> wc_instance c) \<and> (wc_keyboardHook c \<longleftrightarrow> wc_instance c) \<and>
     (wc_instance c \<longrightarrow> wc_sender c) \<and>
     length (wc_queue c) \<le> 512 \<and>
     (case wc_remoteAnchor c of None \<Rightarrow> True | Some p \<Rightarrow> small_point p) \<and>
     (case wc_lastMouse c of None \<Rightarrow> True | Some p \<Rightarrow> small_point p) \<and>
     small_point (os_cursor c)"

lemma small_in_i32: "small x \<Longrightarrow> small y \<Longrightarrow> in_i32 (x - y)" "small x \<Longrightarrow> small y \<Longrightarrow> in_i32 (x + y)"
  by (auto simp: small_def in_i32_def)

lemma hide_cursor_negative: "hide_cursor count < 0"
  by (induction count rule: hide_cursor.induct) (subst hide_cursor.simps, simp)

lemma show_cursor_visible: "show_cursor count \<ge> 0"
  by (induction count rule: show_cursor.induct) (subst show_cursor.simps, simp)

lemma table_entry:
  assumes "table_good table" "map_of (snd table) h = Some n"
  shows "n < length (fst table)" "wm_index (fst table ! n) = n" "small_rect (wm_rect (fst table ! n))"
proof -
  have "(h, n) \<in> set (snd table)" using assms(2) by (rule map_of_SomeD)
  with assms(1) show "n < length (fst table)" by (auto simp: table_good_def)
  with assms(1) show "wm_index (fst table ! n) = n" "small_rect (wm_rect (fst table ! n))"
    by (simp_all add: table_good_def)
qed

lemma globalToMonitor_defined:
  assumes "table_good table" "monitor_known env table p" "small_point p"
  obtains n where "n < length (fst table)"
    "globalToMonitor env table p =
       Some (n, (fst p - wr_left (wm_rect (fst table ! n)), snd p - wr_top (wm_rect (fst table ! n))))"
proof -
  obtain n where n: "map_of (snd table) (we_monitorFromPoint env p) = Some n"
    using assms(2) unfolding monitor_known_def by blast
  with table_entry [OF assms(1) n] assms(3) have
    "globalToMonitor env table p =
       Some (n, (fst p - wr_left (wm_rect (fst table ! n)), snd p - wr_top (wm_rect (fst table ! n))))"
    by (simp add: globalToMonitor_def small_in_i32 small_rect_def small_point_def Let_def)
  with table_entry(1) [OF assms(1) n] that show ?thesis by blast
qed

lemma tryEnqueue_inv: "w32_inv c \<Longrightarrow> w32_inv (tryEnqueue e c)"
  by (auto simp: w32_inv_def tryEnqueue_def)

lemma enqueue_option_inv: "w32_inv c \<Longrightarrow> w32_inv (enqueue_option e c)"
  by (simp add: enqueue_option_def tryEnqueue_inv split: option.split)

lemma enqueue_fields [simp]:
  "wc_remote (enqueue_option e c) = wc_remote c"
  "wc_remoteAnchor (enqueue_option e c) = wc_remoteAnchor c"
  "wc_instance (enqueue_option e c) = wc_instance c"
  "wc_table (enqueue_option e c) = wc_table c"
  "wc_lastMouse (enqueue_option e c) = wc_lastMouse c"
  by (simp_all add: enqueue_option_def tryEnqueue_def split: option.split)

lemma SetCursorPos_inv: "w32_inv c \<Longrightarrow> small_point p \<Longrightarrow> w32_inv (snd (SetCursorPos env p c))"
  by (auto simp: w32_inv_def SetCursorPos_def split: option.split)

lemma endRemote_inv: "w32_inv c \<Longrightarrow> w32_inv (endRemoteControl c)"
  using show_cursor_visible [of "os_showCount c"]
  by (auto simp: w32_inv_def endRemoteControl_def Let_def)

lemma endRemote_fields [simp]:
  "wc_instance (endRemoteControl c) = wc_instance c" "wc_sender (endRemoteControl c) = wc_sender c"
  by (simp_all add: endRemoteControl_def Let_def)

lemma beginRemote_inv: "w32_inv c \<Longrightarrow> w32_inv (snd (beginRemoteControl env c))"
  using hide_cursor_negative [of "os_showCount c"]
  by (auto simp: w32_inv_def beginRemoteControl_def SetCursorPos_def Let_def split: option.split)

lemma move_delta_small: "small_point p \<Longrightarrow> small_point q \<Longrightarrow> move_delta p q = Some (fst p - fst q, snd p - snd q)"
  by (simp add: move_delta_def small_point_def small_in_i32)

lemma translateMouseEvent_inv:
  assumes "w32_inv c" "monitor_known env (wc_table c) (ms_pt info)" "small_point (ms_pt info)"
  obtains event c' where "translateMouseEvent env wp info c = Some (event, c')" "w32_inv c'"
    "wc_remote c' = wc_remote c" "wc_remoteAnchor c' = wc_remoteAnchor c" "wc_instance c' = wc_instance c"
proof -
  have good: "table_good (wc_table c)" using assms(1) by (simp add: w32_inv_def)
  obtain n where monitor: "globalToMonitor env (wc_table c) (ms_pt info) =
      Some (n, (fst (ms_pt info) - wr_left (wm_rect (fst (wc_table c) ! n)), snd (ms_pt info) - wr_top (wm_rect (fst (wc_table c) ! n))))"
    using globalToMonitor_defined [OF good assms(2,3)] by metis
  have remembered: "w32_inv (c\<lparr>wc_lastMouse := Some (ms_pt info)\<rparr>)"
    using assms(1,3) by (simp add: w32_inv_def)
  have base: "(\<forall>p. wc_remoteAnchor c = Some p \<longrightarrow> small_point p) \<and> (\<forall>p. wc_lastMouse c = Some p \<longrightarrow> small_point p)"
    using assms(1) by (auto simp: w32_inv_def)
  have "\<exists>event c'. translate_move n local (ms_pt info) c = Some (event, c') \<and> w32_inv c' \<and>
      wc_remote c' = wc_remote c \<and> wc_remoteAnchor c' = wc_remoteAnchor c \<and> wc_instance c' = wc_instance c" for local
    using remembered assms(1,3) base
    by (auto simp: translate_move_def move_delta_small split: option.split bool.split)
  with monitor assms(1) that show ?thesis
    by (cases wp) (fastforce simp: translateMouseEvent_def Let_def)+
qed

lemma mouseHook_inv:
  assumes "w32_inv c" "monitor_known env (wc_table c) (ms_pt info)" "small_point (ms_pt info)"
  obtains c' where
    "mouseHookProc env code wp info c =
       Some (if code \<ge> 0 \<and> wc_instance c \<and> wc_remote c then Swallowed else PassedOn, c')"
    "w32_inv c'"
proof (cases "code < 0 \<or> \<not> wc_instance c \<or> wc_remote c \<and> ms_injected info")
  case True
  then have "mouseHookProc env code wp info c =
      Some (if code \<ge> 0 \<and> wc_instance c \<and> wc_remote c then Swallowed else PassedOn, c)"
    by (auto simp: mouseHookProc_def)
  with assms(1) that show ?thesis by blast
next
  case False
  obtain event c1 where c1: "translateMouseEvent env wp info c = Some (event, c1)" "w32_inv c1"
    "wc_remote c1 = wc_remote c" "wc_remoteAnchor c1 = wc_remoteAnchor c" "wc_instance c1 = wc_instance c"
    using translateMouseEvent_inv [OF assms] .
  have c2: "w32_inv (enqueue_option event c1)" using c1(2) by (rule enqueue_option_inv)
  moreover have "w32_inv (snd (SetCursorPos env anchor (enqueue_option event c1)))" if "wc_remoteAnchor c = Some anchor" for anchor
    using SetCursorPos_inv [OF c2] assms(1) that by (simp add: w32_inv_def)
  ultimately have "\<exists>c'. mouseHookProc env code wp info c =
      Some (if code \<ge> 0 \<and> wc_instance c \<and> wc_remote c then Swallowed else PassedOn, c') \<and> w32_inv c'"
    using False c1 by (cases wp) (auto simp: mouseHookProc_def Let_def split: option.split)
  with that show ?thesis by blast
qed

lemma keyboardHook_inv: "w32_inv c \<Longrightarrow> w32_inv (snd (keyboardHookProc env asyncState code wp info c))"
  by (simp add: keyboardHookProc_def enqueue_option_inv)

lemma removeHooks_inv: "w32_inv c \<Longrightarrow> w32_inv (removeHooks c)"
  using endRemote_inv [of c] by (simp add: removeHooks_def w32_inv_def)

text \<open>While hooks are being installed, the three flags of the hooks are not yet consistent.\<close>

lemma removeHooks_any:
  assumes "w32_inv (c\<lparr>wc_instance := False, wc_mouseHook := False, wc_keyboardHook := False\<rparr>)"
  shows "w32_inv (removeHooks c)"
proof -
  have "removeHooks c = removeHooks (c\<lparr>wc_instance := False, wc_mouseHook := False, wc_keyboardHook := False\<rparr>)"
    by (simp add: removeHooks_def endRemoteControl_def Let_def)
  with removeHooks_inv [OF assms] show ?thesis by simp
qed

lemma initialize_inv:
  assumes "w32_inv c"
  shows "w32_inv (snd (w32_initialize env c))"
proof -
  let ?c = "c\<lparr>wc_dropped := 0, wc_sender := True, wc_queue := []\<rparr>"
  have fresh: "w32_inv (?c\<lparr>wc_instance := False, wc_mouseHook := False, wc_keyboardHook := False\<rparr>)" "w32_inv ?c"
    using assms by (simp_all add: w32_inv_def)
  have installed: "w32_inv (?c\<lparr>wc_instance := True, wc_mouseHook := True, wc_keyboardHook := True\<rparr>)"
    using assms by (simp add: w32_inv_def)
  have "w32_inv (snd (installHooks env ?c))"
    using installed
    by (auto simp: installHooks_def Let_def intro!: removeHooks_any) (use fresh in simp_all)
  then show ?thesis
    using fresh(2) by (cases "installHooks env ?c") (simp add: w32_initialize_def Let_def split: post_outcome.split)
qed

lemma shutdown_inv: "w32_inv c \<Longrightarrow> w32_inv (snd (w32_shutdown env c))"
  by (simp add: w32_shutdown_def removeHooks_inv split: post_outcome.split)

lemma setRemote_Some:
  "w32_setRemoteControlActive env active c = Some (error, c') \<Longrightarrow>
     c' = snd (remote_call env active c) \<and> we_post env = Posted \<or> c' = c \<and> we_post env \<noteq> Posted"
  by (auto simp: w32_setRemoteControlActive_def syncUiCall_def split: post_outcome.splits prod.splits)

lemma moveLocal_Some:
  "w32_moveLocalCursor env n x y c = Some (error, c') \<Longrightarrow>
     (\<exists>e. move_call env n x y c = Some (e, c')) \<or> c' = c"
  by (auto simp: w32_moveLocalCursor_def syncUiCall_def ub_bind_eq_Some split: post_outcome.splits prod.splits)

definition calm :: "w32_env \<Rightarrow> monitor_table \<Rightarrow> w32_action \<Rightarrow> bool" where
  "calm env table a \<longleftrightarrow>
     (case a of
        SetRemote active \<Rightarrow> we_post env \<noteq> NeverRun
      | MoveLocal n x y \<Rightarrow> we_post env \<noteq> NeverRun \<and> (case localToGlobal table n (x, y) of None \<Rightarrow> False | Some None \<Rightarrow> True | Some (Some p) \<Rightarrow> small_point p)
      | MouseHook code wp info \<Rightarrow> small_point (ms_pt info)
      | _ \<Rightarrow> True)"

lemma table_fields [simp]:
  "wc_table (snd (SetCursorPos env p c)) = wc_table c"
  "wc_table (endRemoteControl c) = wc_table c"
  "wc_table (removeHooks c) = wc_table c"
  "wc_table (snd (beginRemoteControl env c)) = wc_table c"
  "wc_table (snd (installHooks env c)) = wc_table c"
  by (simp_all add: SetCursorPos_def endRemoteControl_def removeHooks_def beginRemoteControl_def installHooks_def Let_def
      split: option.split)

lemma translateMouse_table: "translateMouseEvent env wp info c = Some (event, c') \<Longrightarrow> wc_table c' = wc_table c"
  by (cases wp) (auto simp: translateMouseEvent_def translate_move_def ub_bind_eq_Some Let_def split: if_splits)

lemma move_call_fields:
  assumes "move_call env n x y c = Some (e, c')"
  shows "wc_table c' = wc_table c \<and> wc_sender c' = wc_sender c \<and> wc_remote c' = wc_remote c"
proof -
  from assms obtain target where "localToGlobal (wc_table c) n (x, y) = Some target"
    by (auto simp: move_call_def ub_bind_eq_Some)
  with assms show ?thesis
    by (cases target; cases "we_setCursorError env (the target)") (auto simp: move_call_def SetCursorPos_def)
qed

lemma moveLocal_fields:
  "w32_moveLocalCursor env n x y c = Some (e, c') \<Longrightarrow>
     wc_table c' = wc_table c \<and> wc_sender c' = wc_sender c \<and> wc_remote c' = wc_remote c"
  by (auto dest!: moveLocal_Some move_call_fields)

lemma remote_call_fields [simp]:
  "wc_table (snd (remote_call env active c)) = wc_table c"
  "wc_sender (snd (remote_call env active c)) = wc_sender c"
  by (simp_all add: remote_call_def beginRemoteControl_def endRemoteControl_def SetCursorPos_def Let_def split: option.split)

lemma setRemote_fields:
  "w32_setRemoteControlActive env active c = Some (e, c') \<Longrightarrow> wc_table c' = wc_table c \<and> wc_sender c' = wc_sender c"
  by (auto dest!: setRemote_Some)

lemma shutdown_fields [simp]:
  "wc_table (snd (w32_shutdown env c)) = wc_table c" "wc_sender (snd (w32_shutdown env c)) = wc_sender c"
  by (simp_all add: w32_shutdown_def removeHooks_def endRemoteControl_def Let_def split: post_outcome.split)

lemma initialize_table [simp]: "wc_table (snd (w32_initialize env c)) = wc_table c"
  by (simp add: w32_initialize_def Let_def case_prod_beta split: post_outcome.split)

lemma mouseHook_table: "mouseHookProc env code wp info c = Some (r, c') \<Longrightarrow> wc_table c' = wc_table c"
  by (auto simp: mouseHookProc_def ub_bind_eq_Some Let_def dest!: translateMouse_table
      split: if_splits mouse_message.splits option.splits)

lemma w32_table: "w32_exec env a c = Some c' \<Longrightarrow> wc_table c' = wc_table c"
  by (cases a)
     (auto simp: w32_nextEvent_def keyboardHookProc_def Let_def
       dest: mouseHook_table moveLocal_fields setRemote_fields split: if_splits list.splits)

lemma enqueue_sender [simp]: "wc_sender (enqueue_option e c) = wc_sender c"
  by (simp add: enqueue_option_def tryEnqueue_def split: option.split)

lemma sender_fields [simp]:
  "wc_sender (snd (SetCursorPos env p c)) = wc_sender c"
  "wc_sender (removeHooks c) = wc_sender c"
  "wc_sender (snd (beginRemoteControl env c)) = wc_sender c"
  "wc_sender (snd (installHooks env c)) = wc_sender c"
  "wc_sender (snd (w32_initialize env c))"
  by (simp_all add: SetCursorPos_def removeHooks_def beginRemoteControl_def installHooks_def w32_initialize_def Let_def
      case_prod_beta split: option.split post_outcome.split)

lemma translateMouse_sender: "translateMouseEvent env wp info c = Some (event, c') \<Longrightarrow> wc_sender c' = wc_sender c"
  by (cases wp) (auto simp: translateMouseEvent_def translate_move_def ub_bind_eq_Some Let_def split: if_splits)

lemma mouseHook_sender: "mouseHookProc env code wp info c = Some (r, c') \<Longrightarrow> wc_sender c' = wc_sender c"
  by (auto simp: mouseHookProc_def ub_bind_eq_Some Let_def dest!: translateMouse_sender
      split: if_splits mouse_message.splits option.splits)

lemma w32_sender: "w32_exec env a c = Some c' \<Longrightarrow> wc_sender c \<Longrightarrow> wc_sender c'"
  by (cases a)
     (auto simp: w32_nextEvent_def keyboardHookProc_def Let_def
       dest: mouseHook_sender moveLocal_fields setRemote_fields split: if_splits list.splits)

lemma w32_exec_inv:
  assumes inv: "w32_inv c" and known: "monitors_known env (wc_table c)" and calm: "calm env (wc_table c) a"
    and open_channel: "a = NextEvent \<Longrightarrow> wc_sender c"
  obtains c' where "w32_exec env a c = Some c'" "w32_inv c'"
proof (cases a)
  case (MouseHook code wp info)
  with calm have small: "small_point (ms_pt info)" by (simp add: calm_def)
  have "monitor_known env (wc_table c) (ms_pt info)" using known unfolding monitors_known_def by blast
  from mouseHook_inv [OF inv this small] MouseHook that show ?thesis
    by (metis w32_exec.simps(6) option.simps(9) snd_conv)
next
  case (MoveLocal n x y)
  then obtain target where target: "localToGlobal (wc_table c) n (x, y) = Some target"
    and small: "\<And>p. target = Some p \<Longrightarrow> small_point p" and post: "we_post env \<noteq> NeverRun"
    using calm by (auto simp: calm_def split: option.splits)
  obtain e c' where call: "move_call env n x y c = Some (e, c')"
    using target by (cases "case target of None \<Rightarrow> (Some 22, c) | Some pt \<Rightarrow> (case SetCursorPos env pt c of
             (Some e, c1) \<Rightarrow> (Some e, c1) | (None, c1) \<Rightarrow> (None, c1\<lparr>wc_lastMouse := Some pt\<rparr>))")
       (simp add: move_call_def)
  have "w32_inv c'"
  proof (cases target)
    case None
    with call target inv show ?thesis by (simp add: move_call_def)
  next
    case (Some p)
    have "w32_inv (c\<lparr>os_cursor := p, wc_lastMouse := Some p\<rparr>)"
      using inv small [OF Some] by (simp add: w32_inv_def)
    with call target Some inv show ?thesis
      by (cases "we_setCursorError env p") (auto simp: move_call_def SetCursorPos_def)
  qed
  with that call inv post MoveLocal show ?thesis
    by (cases "we_post env") (simp_all add: w32_moveLocalCursor_def syncUiCall_def)
next
  case NextEvent
  with that inv open_channel show ?thesis
    by (cases "wc_queue c") (auto simp: w32_nextEvent_def w32_inv_def)
next
  case Initialize
  with that initialize_inv [OF inv] show ?thesis by simp
next
  case Shutdown
  with that shutdown_inv [OF inv] show ?thesis by simp
next
  case (SetRemote active)
  with calm have "we_post env \<noteq> NeverRun" by (simp add: calm_def)
  moreover have "w32_inv (snd (remote_call env active c))"
    using inv beginRemote_inv [OF inv] endRemote_inv [OF inv] by (simp add: remote_call_def)
  ultimately show ?thesis
    using that inv SetRemote
    by (cases "we_post env"; cases "remote_call env active c") (simp_all add: w32_setRemoteControlActive_def syncUiCall_def)
next
  case (KeyboardHook asyncState code wp info)
  with that keyboardHook_inv [OF inv] show ?thesis by simp
qed

fun w32_run :: "w32_env \<Rightarrow> w32_action list \<Rightarrow> w32_capture \<Rightarrow> w32_capture option" where
  "w32_run env [] c = Some c"
| "w32_run env (a # actions) c = Option.bind (w32_exec env a c) (w32_run env actions)"

section \<open>Properties\<close>

text \<open>The desktop of the witnesses: two monitors side by side.\<close>

definition demo_table :: monitor_table where
  "demo_table =
     (let m = (\<lambda>n left. \<lparr>wm_index = n, wm_handle = 100 + n,
                          wm_rect = \<lparr>wr_left = left, wr_top = 0, wr_right = left + 1920, wr_bottom = 1080\<rparr>,
                          wm_screen = \<lparr>si_x = left, si_y = 0, si_width = 1920, si_height = 1080, si_dpi = 96,
                                       si_name = [], si_primary = (n = 0)\<rparr>\<rparr>)
      in ([m 0 0, m 1 1920], [(100, 0), (101, 1)]))"

definition demo_w32 :: w32_env where
  "demo_w32 =
     \<lparr>we_monitorInfo = (\<lambda>_. None), we_dpi = (\<lambda>_. None), we_monitorFromPoint = (\<lambda>p. if fst p < 1920 then 100 else 101),
      we_vk = (\<lambda>_. 0), we_mapScanCode = (\<lambda>_. 0), we_getCursorError = None, we_setCursorError = (\<lambda>_. None),
      we_mouseHookError = None, we_keyboardHookError = None, we_errorAfterUnhook = 0, we_sendError = None,
      we_post = Posted\<rparr>"

lemma demo_table_good: "table_good demo_table"
  by (auto simp: table_good_def demo_table_def Let_def less_Suc_eq small_rect_def small_def)

lemma demo_monitors_known: "monitors_known demo_w32 demo_table"
  by (simp add: monitors_known_def monitor_known_def demo_w32_def demo_table_def Let_def)

lemma demo_capture_inv: "w32_inv (new_capture demo_table (5, 5) 0)"
  by (simp add: w32_inv_def new_capture_def demo_table_good small_point_def small_def)

definition demo_remote :: w32_capture where
  "demo_remote = (new_capture demo_table (1919, 7) (-1))\<lparr>wc_sender := True, wc_instance := True, wc_mouseHook := True,
     wc_keyboardHook := True, wc_remote := True, wc_cursorHidden := True, wc_remoteAnchor := Some (1919, 7)\<rparr>"

lemma demo_remote_inv: "w32_inv demo_remote"
  by (simp add: w32_inv_def demo_remote_def new_capture_def demo_table_good small_point_def small_def)

text \<open>
  C29. The mouse hook decides by the mode alone. For a position with coordinates up to \<open>2 ^ 29\<close>, a callback
  of a consistent capture either returns, and then the event is kept from the host exactly if the capture is
  installed and controls a remote screen, and the capture is consistent again (in particular the cursor is
  hidden exactly in that mode, and the queue keeps its bound); or an exception leaves it, and this happens
  exactly if the event is translated and the monitor of its position is not in the table.
\<close>

theorem mouse_hook_swallows_when_remote:
  assumes "w32_inv c" and "small_point (ms_pt info)"
  shows "(mouseHookProc env code wp info c = None \<longleftrightarrow>
      code \<ge> 0 \<and> wc_instance c \<and> \<not> (wc_remote c \<and> ms_injected info) \<and>
      map_of (snd (wc_table c)) (we_monitorFromPoint env (ms_pt info)) = None) \<and>
    (\<forall>r c'. mouseHookProc env code wp info c = Some (r, c') \<longrightarrow>
      (r = Swallowed \<longleftrightarrow> code \<ge> 0 \<and> wc_instance c \<and> wc_remote c) \<and> w32_inv c')"
proof (cases "monitor_known env (wc_table c) (ms_pt info)")
  case True
  obtain c' where "mouseHookProc env code wp info c =
       Some (if code \<ge> 0 \<and> wc_instance c \<and> wc_remote c then Swallowed else PassedOn, c')" "w32_inv c'"
    using mouseHook_inv [OF assms(1) True assms(2)] .
  with True show ?thesis by (simp add: monitor_known_def)
next
  case False
  then have "translateMouseEvent env wp info c = None"
    by (simp add: translateMouseEvent_def globalToMonitor_def monitor_known_def)
  with False assms(1) show ?thesis by (auto simp: mouseHookProc_def monitor_known_def)
qed

theorem mouse_hook_swallows_when_remote_witness:
  "\<exists>r c'. mouseHookProc demo_w32 0 WM_LBUTTONDOWN \<lparr>ms_pt = (3, 4), ms_mouseData = 0, ms_injected = False\<rparr> demo_remote =
     Some (r, c') \<and> r = Swallowed \<and> w32_inv c'"
proof -
  let ?info = "\<lparr>ms_pt = (3, 4), ms_mouseData = 0, ms_injected = False\<rparr>"
  have "small_point (ms_pt ?info)" by (simp add: small_point_def small_def)
  note hook = mouse_hook_swallows_when_remote [OF demo_remote_inv this, of demo_w32 0 WM_LBUTTONDOWN]
  have known: "map_of (snd (wc_table demo_remote)) (we_monitorFromPoint demo_w32 (ms_pt ?info)) \<noteq> None"
    and mode: "wc_instance demo_remote" "wc_remote demo_remote"
    by (simp_all add: demo_remote_def new_capture_def demo_table_def demo_w32_def Let_def)
  from hook known obtain r c' where
    "mouseHookProc demo_w32 0 WM_LBUTTONDOWN ?info demo_remote = Some (r, c')" by auto
  with hook mode show ?thesis by simp
qed

fun user_moves :: "w32_env \<Rightarrow> point list \<Rightarrow> w32_capture \<Rightarrow> w32_capture option" where
  "user_moves env [] c = Some c"
| "user_moves env (p # ps) c =
     Option.bind (mouseHookProc env 0 WM_MOUSEMOVE \<lparr>ms_pt = p, ms_mouseData = 0, ms_injected = False\<rparr> c)
       (\<lambda>(r, c'). user_moves env ps c')"

fun delta_of :: "input_event \<Rightarrow> point" where
  "delta_of (MouseMoveEvent e) = (mv_deltaX e, mv_deltaY e)"
| "delta_of _ = (0, 0)"

lemma remote_move:
  assumes "w32_inv c" "monitors_known env (wc_table c)" "small_point p" "wc_instance c" "wc_remoteAnchor c = Some anchor"
    "length (wc_queue c) < 512"
  obtains c' e where
    "mouseHookProc env 0 WM_MOUSEMOVE \<lparr>ms_pt = p, ms_mouseData = 0, ms_injected = False\<rparr> c = Some (Swallowed, c')"
    "w32_inv c'" "wc_instance c'" "wc_remoteAnchor c' = Some anchor" "wc_table c' = wc_table c"
    "wc_queue c' = (if p = anchor then wc_queue c else wc_queue c @ [e])"
    "delta_of e = (fst p - fst anchor, snd p - snd anchor)"
proof -
  let ?info = "\<lparr>ms_pt = p, ms_mouseData = 0, ms_injected = False\<rparr>"
  have remote: "wc_remote c" and good: "table_good (wc_table c)" and sender: "wc_sender c" and anchor: "small_point anchor"
    using assms(1,4,5) by (simp_all add: w32_inv_def)
  have known: "monitor_known env (wc_table c) (ms_pt ?info)" using assms(2) unfolding monitors_known_def by blast
  obtain c' where c': "mouseHookProc env 0 WM_MOUSEMOVE ?info c = Some (Swallowed, c')" "w32_inv c'"
  proof -
    have "small_point (ms_pt ?info)" using assms(3) by simp
    from mouseHook_inv [OF assms(1) known this, of 0 WM_MOUSEMOVE] that remote assms(4) show ?thesis by auto
  qed
  obtain n where monitor: "globalToMonitor env (wc_table c) p =
      Some (n, (fst p - wr_left (wm_rect (fst (wc_table c) ! n)), snd p - wr_top (wm_rect (fst (wc_table c) ! n))))"
    using globalToMonitor_defined [OF good _ assms(3)] known by (metis ms_hook_struct.select_convs(1))
  define e where "e = MouseMoveEvent
    \<lparr>mv_x = fst p - wr_left (wm_rect (fst (wc_table c) ! n)), mv_y = snd p - wr_top (wm_rect (fst (wc_table c) ! n)),
     mv_screenIndex = n, mv_deltaX = fst p - fst anchor, mv_deltaY = snd p - snd anchor\<rparr>"
  have zero: "p = anchor \<longleftrightarrow> fst p - fst anchor = 0 \<and> snd p - snd anchor = 0" by (auto simp: prod_eq_iff)
  have translated: "translateMouseEvent env WM_MOUSEMOVE ?info c =
      Some (if p = anchor then (None, c) else (Some e, c\<lparr>wc_lastMouse := Some p\<rparr>))"
    using monitor remote assms(5) zero
    by (simp add: translateMouseEvent_def translate_move_def move_delta_small [OF assms(3) anchor] e_def)
  have hooked: "mouseHookProc env 0 WM_MOUSEMOVE ?info c =
      Some (Swallowed, if p = anchor then c
        else snd (SetCursorPos env anchor (c\<lparr>wc_lastMouse := Some p, wc_queue := wc_queue c @ [e]\<rparr>)))"
    using translated remote assms(4-6) sender
    by (simp add: mouseHookProc_def enqueue_option_def tryEnqueue_def Let_def)
  have fields: "wc_instance (snd (SetCursorPos env q d)) = wc_instance d"
    "wc_remoteAnchor (snd (SetCursorPos env q d)) = wc_remoteAnchor d"
    "wc_queue (snd (SetCursorPos env q d)) = wc_queue d" for q d
    by (simp_all add: SetCursorPos_def split: option.split)
  have "delta_of e = (fst p - fst anchor, snd p - snd anchor)" by (simp add: e_def)
  with that [of c' e] c' hooked assms(4,5) show ?thesis by (auto simp: fields split: if_splits)
qed

text \<open>
  Relative motion reaches the remote screen exactly: while the cursor is pinned, every position that
  differs from the anchor is reported once, in order, with the distance from the anchor as its delta, however
  close the anchor is to the border of the desktop, and nothing else is queued.
\<close>

theorem remote_motion_exact:
  assumes "w32_inv c" and "monitors_known env (wc_table c)" and "list_all small_point ps" and "wc_instance c"
    and "wc_remoteAnchor c = Some anchor" and "length (wc_queue c) + length ps \<le> 512"
  shows "\<exists>c' es. user_moves env ps c = Some c' \<and> w32_inv c' \<and> wc_remoteAnchor c' = Some anchor \<and>
    wc_queue c' = wc_queue c @ es \<and>
    map delta_of es = map (\<lambda>p. (fst p - fst anchor, snd p - snd anchor)) (filter (\<lambda>p. p \<noteq> anchor) ps)"
  using assms
proof (induction ps arbitrary: c)
  case (Cons p ps)
  have "small_point p" "length (wc_queue c) < 512" using Cons.prems(3,6) by simp_all
  then obtain c1 e where c1:
    "mouseHookProc env 0 WM_MOUSEMOVE \<lparr>ms_pt = p, ms_mouseData = 0, ms_injected = False\<rparr> c = Some (Swallowed, c1)"
    "w32_inv c1" "wc_instance c1" "wc_remoteAnchor c1 = Some anchor" "wc_table c1 = wc_table c"
    "wc_queue c1 = (if p = anchor then wc_queue c else wc_queue c @ [e])"
    "delta_of e = (fst p - fst anchor, snd p - snd anchor)"
    using remote_move Cons.prems(1,2,4,5) by blast
  have "length (wc_queue c1) + length ps \<le> 512" using c1(6) Cons.prems(6) by (simp split: if_splits)
  with Cons.IH [of c1] c1 Cons.prems(2,3) obtain c' es where
    "user_moves env ps c1 = Some c'" "w32_inv c'" "wc_remoteAnchor c' = Some anchor" "wc_queue c' = wc_queue c1 @ es"
    "map delta_of es = map (\<lambda>p. (fst p - fst anchor, snd p - snd anchor)) (filter (\<lambda>p. p \<noteq> anchor) ps)"
    by auto
  with c1 show ?case by (intro exI [of _ c'] exI [of _ "(if p = anchor then [] else [e]) @ es"]) simp
qed simp

theorem remote_motion_exact_witness:
  "\<exists>c' es. user_moves demo_w32 [(1925, 7), (1919, 7), (1919, 2)] demo_remote = Some c' \<and> wc_queue c' = es \<and>
     map delta_of es = [(6, 0), (0, -5)]"
proof -
  note inv = demo_remote_inv
  have "monitors_known demo_w32 (wc_table demo_remote)"
    using demo_monitors_known by (simp add: demo_remote_def new_capture_def)
  from remote_motion_exact [OF inv this, of "[(1925, 7), (1919, 7), (1919, 2)]" "(1919, 7)"]
  show ?thesis by (auto simp: demo_remote_def new_capture_def small_point_def small_def)
qed

text \<open>
  A position on the desktop survives the way to its monitor and back: the pixel that capture computes for
  a desktop point is injected at this very point.
\<close>

theorem desktop_point_round_trip:
  assumes "table_good table" and "small_point p" and "globalToMonitor env table p = Some (screenIndex, local)"
  shows "localToGlobal table screenIndex local = Some (Some p)"
proof -
  obtain n where n: "map_of (snd table) (we_monitorFromPoint env p) = Some n"
    using assms(3) by (auto simp: globalToMonitor_def split: option.splits)
  note entry = table_entry [OF assms(1) n]
  with assms(2,3) n have "screenIndex = n"
    and "local = (fst p - wr_left (wm_rect (fst table ! n)), snd p - wr_top (wm_rect (fst table ! n)))"
    by (auto simp: globalToMonitor_def Let_def ub_bind_eq_Some)
  moreover have "in_i32 (fst p)" "in_i32 (snd p)"
    using assms(2) by (auto simp: small_point_def small_def in_i32_def)
  ultimately show ?thesis using entry by (simp add: localToGlobal_def Let_def)
qed

theorem desktop_point_round_trip_witness:
  "localToGlobal demo_table 1 (80, 30) = Some (Some (2000, 30))"
proof -
  have "globalToMonitor demo_w32 demo_table (2000, 30) = Some (1, (80, 30))"
    by (simp add: globalToMonitor_def demo_w32_def demo_table_def Let_def)
  moreover have "small_point (2000, 30)" by (simp add: small_point_def small_def)
  ultimately show ?thesis using desktop_point_round_trip [OF demo_table_good] by blast
qed

text \<open>
  The cursor of the host is visible exactly while the host is in control: starting from a visible cursor,
  after any sequence of actions that the system lets happen, it is hidden if and only if a remote screen is
  being controlled; in particular it is visible again after shutdown.
\<close>

theorem cursor_hidden_iff_remote:
  assumes "w32_inv c" and "monitors_known env (wc_table c)" and "list_all (calm env (wc_table c)) actions"
    and "wc_sender c" and "w32_run env actions c = Some c'" and "we_post env' = Posted"
  shows "(os_showCount c' < 0 \<longleftrightarrow> wc_remote c') \<and> os_showCount (snd (w32_shutdown env' c')) \<ge> 0"
proof -
  have "w32_inv c'"
    using assms(1-5)
  proof (induction actions arbitrary: c)
    case (Cons a actions)
    obtain c1 where c1: "w32_exec env a c = Some c1" "w32_inv c1"
      using w32_exec_inv [OF Cons.prems(1,2), of a] Cons.prems(3,4) by auto
    moreover have "wc_sender c1" using c1(1) Cons.prems(4) by (rule w32_sender)
    ultimately show ?case
      using Cons.IH [of c1] Cons.prems w32_table [OF c1(1)] by simp
  qed simp
  moreover from this have "w32_inv (snd (w32_shutdown env' c'))" by (rule shutdown_inv)
  moreover have "\<not> wc_remote (snd (w32_shutdown env' c'))"
    using assms(6) by (auto simp: w32_shutdown_def removeHooks_def endRemoteControl_def Let_def)
  ultimately show ?thesis unfolding w32_inv_def by (meson not_less)
qed

theorem cursor_hidden_iff_remote_witness:
  "\<exists>c'. w32_run demo_w32 [SetRemote True, NextEvent, SetRemote False] (demo_remote\<lparr>wc_queue := []\<rparr>) = Some c' \<and>
     os_showCount (snd (w32_shutdown demo_w32 c')) \<ge> 0"
proof -
  let ?c = "demo_remote\<lparr>wc_queue := []\<rparr>"
  have inv: "w32_inv ?c"
    by (simp add: w32_inv_def demo_remote_def new_capture_def demo_table_good small_point_def small_def)
  have known: "monitors_known demo_w32 (wc_table ?c)"
    using demo_monitors_known by (simp add: demo_remote_def new_capture_def)
  have calm: "list_all (calm demo_w32 (wc_table ?c)) [SetRemote True, NextEvent, SetRemote False]"
    by (simp add: calm_def demo_w32_def)
  have sender: "wc_sender ?c" by (simp add: demo_remote_def)
  obtain c' where run: "w32_run demo_w32 [SetRemote True, NextEvent, SetRemote False] ?c = Some c'"
    using sender
    by (simp add: w32_nextEvent_def w32_setRemoteControlActive_def syncUiCall_def remote_call_def demo_remote_def
        new_capture_def demo_w32_def)
  have "we_post demo_w32 = Posted" by (simp add: demo_w32_def)
  from cursor_hidden_iff_remote [OF inv known calm sender run this] run show ?thesis by blast
qed

text \<open>
  A failed installation can be reported as a success: \<open>initialize\<close> asks for the last error only after the
  hooks have been taken down again, so if that cleared it, the caller is told that capture works although
  nothing is hooked.
\<close>

theorem failed_hook_reported_as_success:
  assumes "we_post env = Posted" and "we_mouseHookError env \<noteq> None" and "we_errorAfterUnhook env = 0"
  shows "case w32_initialize env c of (result, c') \<Rightarrow>
    result = Returned (Inr ()) \<and> \<not> wc_instance c' \<and> \<not> wc_mouseHook c' \<and> \<not> wc_keyboardHook c'"
  using assms by (simp add: w32_initialize_def installHooks_def removeHooks_def Let_def)

theorem failed_hook_reported_as_success_witness:
  "case w32_initialize (demo_w32\<lparr>we_mouseHookError := Some 1428\<rparr>) demo_remote of (result, c') \<Rightarrow>
    result = Returned (Inr ()) \<and> \<not> wc_instance c' \<and> \<not> wc_mouseHook c' \<and> \<not> wc_keyboardHook c'"
proof (rule failed_hook_reported_as_success)
  show "we_post (demo_w32\<lparr>we_mouseHookError := Some 1428\<rparr>) = Posted" by (simp add: demo_w32_def)
  show "we_mouseHookError (demo_w32\<lparr>we_mouseHookError := Some 1428\<rparr>) \<noteq> None" by simp
  show "we_errorAfterUnhook (demo_w32\<lparr>we_mouseHookError := Some 1428\<rparr>) = 0" by (simp add: demo_w32_def)
qed

text \<open>
  A position on a monitor that is not in the table ends the program: the exception of
  \<open>globalToMonitor\<close> leaves the hook, which the system has called.
\<close>

theorem unknown_monitor_escapes_hook:
  assumes "map_of (snd (wc_table c)) (we_monitorFromPoint env (ms_pt info)) = None"
    and "code \<ge> 0" and "wc_instance c" and "\<not> wc_remote c"
  shows "mouseHookProc env code wp info c = None"
  using assms by (simp add: mouseHookProc_def translateMouseEvent_def globalToMonitor_def)

theorem unknown_monitor_escapes_hook_witness:
  "mouseHookProc demo_w32 0 WM_MOUSEMOVE \<lparr>ms_pt = (1, 1), ms_mouseData = 0, ms_injected = False\<rparr>
     (demo_remote\<lparr>wc_remote := False, wc_table := ([], [])\<rparr>) = None"
  by (rule unknown_monitor_escapes_hook) (simp_all add: demo_remote_def)

end
