(* ===== verification/Key_Xcb.thy ===== *)
theory Key_Xcb
  imports Core_Events
begin

text \<open>
  The key translation of the X11 backend, \<open>src/platform/xcb.cpp\<close>: capture turns the key symbol of a
  key code into a key and asks for the state of the modifier keys, injection turns a key into a symbol and
  the symbol into a key code.

  \<^item> The \<open>XK_\<close> and \<open>XF86XK_\<close> macros belong to the system headers: they are the parameter \<open>xk\<close>, a function
    from the name of the macro to its value; \<open>xk_documented\<close> states the documented values.
  \<^item> The keyboard mapping of the server is foreign: \<open>xm_symbol\<close> gives the symbol in column 0 of a key code,
    \<open>xm_codes\<close> the key codes of a symbol.
\<close>

section \<open>Capture\<close>

definition xcb_keyModifierFor :: "key \<Rightarrow> key_modifier" where
  "xcb_keyModifierFor k =
     (case map_of
        [(Key_LeftCtrl, Mod_LeftCtrl), (Key_RightCtrl, Mod_RightCtrl), (Key_LeftShift, Mod_LeftShift),
         (Key_RightShift, Mod_RightShift), (Key_LeftAlt, Mod_LeftAlt), (Key_RightAlt, Mod_RightAlt),
         (Key_LeftMeta, Mod_LeftMeta), (Key_RightMeta, Mod_RightMeta)] k of
        Some m \<Rightarrow> m | None \<Rightarrow> Mod_None)"

definition xcb_symbols :: "(string \<times> key) list" where
  "xcb_symbols =
    [(''0'', Key_Digit0), (''Return'', Key_Enter), (''KP_Enter'', Key_KeypadEnter),
     (''Escape'', Key_Esc), (''BackSpace'', Key_Backspace), (''Tab'', Key_Tab),
     (''space'', Key_Space), (''minus'', Key_Minus), (''equal'', Key_Equal),
     (''bracketleft'', Key_LeftBrace), (''bracketright'', Key_RightBrace), (''backslash'', Key_Backslash),
     (''semicolon'', Key_Semicolon), (''apostrophe'', Key_Apostrophe), (''grave'', Key_Grave),
     (''comma'', Key_Comma), (''period'', Key_Dot), (''slash'', Key_Slash),
     (''Caps_Lock'', Key_CapsLock), (''F1'', Key_F1), (''F2'', Key_F2),
     (''F3'', Key_F3), (''F4'', Key_F4), (''F5'', Key_F5),
     (''F6'', Key_F6), (''F7'', Key_F7), (''F8'', Key_F8),
     (''F9'', Key_F9), (''F10'', Key_F10), (''F11'', Key_F11),
     (''F12'', Key_F12), (''Print'', Key_SysRq), (''Scroll_Lock'', Key_ScrollLock),
     (''Pause'', Key_Pause), (''Insert'', Key_Insert), (''Home'', Key_Home),
     (''Page_Up'', Key_PageUp), (''Delete'', Key_Delete), (''End'', Key_End),
     (''Page_Down'', Key_PageDown), (''Right'', Key_Right), (''Left'', Key_Left),
     (''Down'', Key_Down), (''Up'', Key_Up), (''Num_Lock'', Key_NumLock),
     (''KP_Divide'', Key_KeypadSlash), (''KP_Multiply'', Key_KeypadAsterisk), (''KP_Subtract'', Key_KeypadMinus),
     (''KP_Add'', Key_KeypadPlus), (''KP_0'', Key_Keypad0), (''KP_1'', Key_Keypad1),
     (''KP_2'', Key_Keypad2), (''KP_3'', Key_Keypad3), (''KP_4'', Key_Keypad4),
     (''KP_5'', Key_Keypad5), (''KP_6'', Key_Keypad6), (''KP_7'', Key_Keypad7),
     (''KP_8'', Key_Keypad8), (''KP_9'', Key_Keypad9), (''KP_Decimal'', Key_KeypadDot),
     (''Control_L'', Key_LeftCtrl), (''Control_R'', Key_RightCtrl), (''Shift_L'', Key_LeftShift),
     (''Shift_R'', Key_RightShift), (''Alt_L'', Key_LeftAlt), (''Alt_R'', Key_RightAlt),
     (''Super_L'', Key_LeftMeta), (''Super_R'', Key_RightMeta)]"

definition translateKeySym :: "(string \<Rightarrow> 32 word) \<Rightarrow> 32 word \<Rightarrow> key" where
  "translateKeySym xk keySym =
     (if xk ''a'' \<le> keySym \<and> keySym \<le> xk ''z'' then Key_A + (keySym - xk ''a'')
      else if xk ''A'' \<le> keySym \<and> keySym \<le> xk ''Z'' then Key_A + (keySym - xk ''A'')
      else if xk ''1'' \<le> keySym \<and> keySym \<le> xk ''9'' then Key_Digit1 + (keySym - xk ''1'')
      else (case map_of (map (\<lambda>(name, k). (xk name, k)) xcb_symbols) keySym of
              Some k \<Rightarrow> k | None \<Rightarrow> Key_None))"

record xcb_mapping =
  xm_symbol :: "8 word \<Rightarrow> 32 word"
  xm_codes :: "32 word \<Rightarrow> 8 word list"

text \<open>\<open>keys\<close> is the answer to \<open>QueryKeymap\<close>, 32 bytes with a bit per key code, or an error.\<close>

definition code_pressed :: "8 word list \<Rightarrow> 8 word \<Rightarrow> bool" where
  "code_pressed keys code \<longleftrightarrow> bit (keys ! (unat code div 8)) (unat code mod 8)"

definition symbol_pressed :: "xcb_mapping \<Rightarrow> 8 word list \<Rightarrow> 32 word \<Rightarrow> bool" where
  "symbol_pressed mapping keys keySym \<longleftrightarrow> list_ex (code_pressed keys) (takeWhile (\<lambda>code. code \<noteq> 0) (xm_codes mapping keySym))"

definition xcb_modifier_keys :: "(string \<times> key_modifier) list" where
  "xcb_modifier_keys =
     [(''Control_L'', Mod_LeftCtrl), (''Control_R'', Mod_RightCtrl), (''Shift_L'', Mod_LeftShift),
      (''Shift_R'', Mod_RightShift), (''Alt_L'', Mod_LeftAlt), (''Alt_R'', Mod_RightAlt),
      (''Super_L'', Mod_LeftMeta), (''Super_R'', Mod_RightMeta)]"

definition xcb_currentModifiers ::
  "(string \<Rightarrow> 32 word) \<Rightarrow> xcb_mapping \<Rightarrow> 8 word list option \<Rightarrow> key_modifier" where
  "xcb_currentModifiers xk mapping reply =
     (case reply of
        None \<Rightarrow> Mod_None
      | Some keys \<Rightarrow>
          fold (\<lambda>(name, flag) modifiers. if symbol_pressed mapping keys (xk name) then modifier_or modifiers flag else modifiers)
            xcb_modifier_keys Mod_None)"

definition translateKey ::
  "(string \<Rightarrow> 32 word) \<Rightarrow> xcb_mapping \<Rightarrow> 8 word list option \<Rightarrow> 8 word \<Rightarrow> bool \<Rightarrow> input_event" where
  "translateKey xk mapping reply keyCode release =
     (let k = translateKeySym xk (xm_symbol mapping keyCode);
          modifiers = xcb_currentModifiers xk mapping reply;
          m = xcb_keyModifierFor k
      in KeyEvent
           \<lparr>ke_key = k,
            ke_modifiers = (if m = Mod_None then modifiers
                            else if release then modifier_and modifiers (modifier_not m)
                            else modifier_or modifiers m),
            ke_nativeCode = ucast keyCode, ke_repeat = False, ke_release = release\<rparr>)"

section \<open>Injection\<close>

definition xcb_injection :: "(key \<times> string) list" where
  "xcb_injection =
    [(Key_Digit0, ''0''), (Key_Enter, ''Return''), (Key_KeypadEnter, ''KP_Enter''),
     (Key_Esc, ''Escape''), (Key_Backspace, ''BackSpace''), (Key_Tab, ''Tab''),
     (Key_Space, ''space''), (Key_Minus, ''minus''), (Key_Equal, ''equal''),
     (Key_LeftBrace, ''bracketleft''), (Key_RightBrace, ''bracketright''), (Key_Backslash, ''backslash''),
     (Key_Semicolon, ''semicolon''), (Key_Apostrophe, ''apostrophe''), (Key_Grave, ''grave''),
     (Key_Comma, ''comma''), (Key_Dot, ''period''), (Key_Slash, ''slash''),
     (Key_CapsLock, ''Caps_Lock''), (Key_SysRq, ''Print''), (Key_ScrollLock, ''Scroll_Lock''),
     (Key_Pause, ''Pause''), (Key_Insert, ''Insert''), (Key_Home, ''Home''),
     (Key_PageUp, ''Page_Up''), (Key_Delete, ''Delete''), (Key_End, ''End''),
     (Key_PageDown, ''Page_Down''), (Key_Right, ''Right''), (Key_Left, ''Left''),
     (Key_Down, ''Down''), (Key_Up, ''Up''), (Key_NumLock, ''Num_Lock''),
     (Key_KeypadSlash, ''KP_Divide''), (Key_KeypadAsterisk, ''KP_Multiply''), (Key_KeypadMinus, ''KP_Subtract''),
     (Key_KeypadPlus, ''KP_Add''), (Key_Keypad0, ''KP_0''), (Key_KeypadDot, ''KP_Decimal''),
     (Key_LeftCtrl, ''Control_L''), (Key_RightCtrl, ''Control_R''), (Key_LeftShift, ''Shift_L''),
     (Key_RightShift, ''Shift_R''), (Key_LeftAlt, ''Alt_L''), (Key_RightAlt, ''Alt_R''),
     (Key_LeftMeta, ''Super_L''), (Key_RightMeta, ''Super_R''), (Key_VolumeUp, ''XF86_AudioRaiseVolume''),
     (Key_MediaVolumeUp, ''XF86_AudioRaiseVolume''), (Key_VolumeDown, ''XF86_AudioLowerVolume''), (Key_MediaVolumeDown, ''XF86_AudioLowerVolume''),
     (Key_Mute, ''XF86_AudioMute''), (Key_MediaMute, ''XF86_AudioMute''), (Key_MediaPlayPause, ''XF86_AudioPlay''),
     (Key_MediaStopCd, ''XF86_AudioStop''), (Key_MediaStop, ''XF86_AudioStop''), (Key_MediaPreviousSong, ''XF86_AudioPrev''),
     (Key_MediaNextSong, ''XF86_AudioNext'')]"

definition keySymFor :: "(string \<Rightarrow> 32 word) \<Rightarrow> key \<Rightarrow> 32 word option" where
  "keySymFor xk k =
     (if Key_A \<le> k \<and> k \<le> Key_Z then Some (xk ''a'' + (k - Key_A))
      else if Key_Digit1 \<le> k \<and> k \<le> Key_Digit9 then Some (xk ''1'' + (k - Key_Digit1))
      else if Key_F1 \<le> k \<and> k \<le> Key_F12 then Some (xk ''F1'' + (k - Key_F1))
      else if Key_F13 \<le> k \<and> k \<le> Key_F24 then Some (xk ''F13'' + (k - Key_F13))
      else if Key_Keypad1 \<le> k \<and> k \<le> Key_Keypad9 then Some (xk ''KP_1'' + (k - Key_Keypad1))
      else map_option xk (map_of xcb_injection k))"

definition keyCodeFor :: "(string \<Rightarrow> 32 word) \<Rightarrow> xcb_mapping \<Rightarrow> key_event \<Rightarrow> 8 word option" where
  "keyCodeFor xk mapping event =
     (let native = (if 0 < ke_nativeCode event \<and> ke_nativeCode event \<le> 255
                    then Some (ucast (ke_nativeCode event)) else None)
      in case keySymFor xk (ke_key event) of
           None \<Rightarrow> native
         | Some keySym \<Rightarrow>
             (case xm_codes mapping keySym of
                code # _ \<Rightarrow> if code \<noteq> 0 then Some code else native
              | [] \<Rightarrow> native))"

section \<open>The documented values\<close>

definition x11_symbols :: "(string \<times> 32 word) list" where
  "x11_symbols =
    [(''a'', 0x61), (''z'', 0x7A), (''A'', 0x41), (''Z'', 0x5A),
     (''1'', 0x31), (''9'', 0x39), (''0'', 0x30), (''Return'', 0xFF0D),
     (''KP_Enter'', 0xFF8D), (''Escape'', 0xFF1B), (''BackSpace'', 0xFF08), (''Tab'', 0xFF09),
     (''space'', 0x20), (''minus'', 0x2D), (''equal'', 0x3D), (''bracketleft'', 0x5B),
     (''bracketright'', 0x5D), (''backslash'', 0x5C), (''semicolon'', 0x3B), (''apostrophe'', 0x27),
     (''grave'', 0x60), (''comma'', 0x2C), (''period'', 0x2E), (''slash'', 0x2F),
     (''Caps_Lock'', 0xFFE5), (''F1'', 0xFFBE), (''F2'', 0xFFBF), (''F3'', 0xFFC0),
     (''F4'', 0xFFC1), (''F5'', 0xFFC2), (''F6'', 0xFFC3), (''F7'', 0xFFC4),
     (''F8'', 0xFFC5), (''F9'', 0xFFC6), (''F10'', 0xFFC7), (''F11'', 0xFFC8),
     (''F12'', 0xFFC9), (''Print'', 0xFF61), (''Scroll_Lock'', 0xFF14), (''Pause'', 0xFF13),
     (''Insert'', 0xFF63), (''Home'', 0xFF50), (''Page_Up'', 0xFF55), (''Delete'', 0xFFFF),
     (''End'', 0xFF57), (''Page_Down'', 0xFF56), (''Right'', 0xFF53), (''Left'', 0xFF51),
     (''Down'', 0xFF54), (''Up'', 0xFF52), (''Num_Lock'', 0xFF7F), (''KP_Divide'', 0xFFAF),
     (''KP_Multiply'', 0xFFAA), (''KP_Subtract'', 0xFFAD), (''KP_Add'', 0xFFAB), (''KP_0'', 0xFFB0),
     (''KP_1'', 0xFFB1), (''KP_2'', 0xFFB2), (''KP_3'', 0xFFB3), (''KP_4'', 0xFFB4),
     (''KP_5'', 0xFFB5), (''KP_6'', 0xFFB6), (''KP_7'', 0xFFB7), (''KP_8'', 0xFFB8),
     (''KP_9'', 0xFFB9), (''KP_Decimal'', 0xFFAE), (''Control_L'', 0xFFE3), (''Control_R'', 0xFFE4),
     (''Shift_L'', 0xFFE1), (''Shift_R'', 0xFFE2), (''Alt_L'', 0xFFE9), (''Alt_R'', 0xFFEA),
     (''Super_L'', 0xFFEB), (''Super_R'', 0xFFEC), (''F13'', 0xFFCA), (''XF86_AudioRaiseVolume'', 0x1008FF13),
     (''XF86_AudioLowerVolume'', 0x1008FF11), (''XF86_AudioMute'', 0x1008FF12), (''XF86_AudioPlay'', 0x1008FF14), (''XF86_AudioStop'', 0x1008FF15),
     (''XF86_AudioPrev'', 0x1008FF16), (''XF86_AudioNext'', 0x1008FF17)]"

definition xk_documented :: "(string \<Rightarrow> 32 word) \<Rightarrow> bool" where
  "xk_documented xk \<longleftrightarrow> map (xk \<circ> fst) x11_symbols = map snd x11_symbols"

lemma xk_values:
  assumes "xk_documented xk"
  shows
    "xk ''a'' = 0x61"
    "xk ''z'' = 0x7A"
    "xk ''A'' = 0x41"
    "xk ''Z'' = 0x5A"
    "xk ''1'' = 0x31"
    "xk ''9'' = 0x39"
    "xk ''0'' = 0x30"
    "xk ''Return'' = 0xFF0D"
    "xk ''KP_Enter'' = 0xFF8D"
    "xk ''Escape'' = 0xFF1B"
    "xk ''BackSpace'' = 0xFF08"
    "xk ''Tab'' = 0xFF09"
    "xk ''space'' = 0x20"
    "xk ''minus'' = 0x2D"
    "xk ''equal'' = 0x3D"
    "xk ''bracketleft'' = 0x5B"
    "xk ''bracketright'' = 0x5D"
    "xk ''backslash'' = 0x5C"
    "xk ''semicolon'' = 0x3B"
    "xk ''apostrophe'' = 0x27"
    "xk ''grave'' = 0x60"
    "xk ''comma'' = 0x2C"
    "xk ''period'' = 0x2E"
    "xk ''slash'' = 0x2F"
    "xk ''Caps_Lock'' = 0xFFE5"
    "xk ''F1'' = 0xFFBE"
    "xk ''F2'' = 0xFFBF"
    "xk ''F3'' = 0xFFC0"
    "xk ''F4'' = 0xFFC1"
    "xk ''F5'' = 0xFFC2"
    "xk ''F6'' = 0xFFC3"
    "xk ''F7'' = 0xFFC4"
    "xk ''F8'' = 0xFFC5"
    "xk ''F9'' = 0xFFC6"
    "xk ''F10'' = 0xFFC7"
    "xk ''F11'' = 0xFFC8"
    "xk ''F12'' = 0xFFC9"
    "xk ''Print'' = 0xFF61"
    "xk ''Scroll_Lock'' = 0xFF14"
    "xk ''Pause'' = 0xFF13"
    "xk ''Insert'' = 0xFF63"
    "xk ''Home'' = 0xFF50"
    "xk ''Page_Up'' = 0xFF55"
    "xk ''Delete'' = 0xFFFF"
    "xk ''End'' = 0xFF57"
    "xk ''Page_Down'' = 0xFF56"
    "xk ''Right'' = 0xFF53"
    "xk ''Left'' = 0xFF51"
    "xk ''Down'' = 0xFF54"
    "xk ''Up'' = 0xFF52"
    "xk ''Num_Lock'' = 0xFF7F"
    "xk ''KP_Divide'' = 0xFFAF"
    "xk ''KP_Multiply'' = 0xFFAA"
    "xk ''KP_Subtract'' = 0xFFAD"
    "xk ''KP_Add'' = 0xFFAB"
    "xk ''KP_0'' = 0xFFB0"
    "xk ''KP_1'' = 0xFFB1"
    "xk ''KP_2'' = 0xFFB2"
    "xk ''KP_3'' = 0xFFB3"
    "xk ''KP_4'' = 0xFFB4"
    "xk ''KP_5'' = 0xFFB5"
    "xk ''KP_6'' = 0xFFB6"
    "xk ''KP_7'' = 0xFFB7"
    "xk ''KP_8'' = 0xFFB8"
    "xk ''KP_9'' = 0xFFB9"
    "xk ''KP_Decimal'' = 0xFFAE"
    "xk ''Control_L'' = 0xFFE3"
    "xk ''Control_R'' = 0xFFE4"
    "xk ''Shift_L'' = 0xFFE1"
    "xk ''Shift_R'' = 0xFFE2"
    "xk ''Alt_L'' = 0xFFE9"
    "xk ''Alt_R'' = 0xFFEA"
    "xk ''Super_L'' = 0xFFEB"
    "xk ''Super_R'' = 0xFFEC"
    "xk ''F13'' = 0xFFCA"
    "xk ''XF86_AudioRaiseVolume'' = 0x1008FF13"
    "xk ''XF86_AudioLowerVolume'' = 0x1008FF11"
    "xk ''XF86_AudioMute'' = 0x1008FF12"
    "xk ''XF86_AudioPlay'' = 0x1008FF14"
    "xk ''XF86_AudioStop'' = 0x1008FF15"
    "xk ''XF86_AudioPrev'' = 0x1008FF16"
    "xk ''XF86_AudioNext'' = 0x1008FF17"
  using assms by (simp_all add: xk_documented_def x11_symbols_def)

definition x11_symbol :: "string \<Rightarrow> 32 word" where
  "x11_symbol name = (case map_of x11_symbols name of Some c \<Rightarrow> c | None \<Rightarrow> 0)"

lemma x11_symbol_documented: "xk_documented x11_symbol"
  by code_simp

lemma symbol_cases:
  "map_of (map (\<lambda>(name, k). (xk name, k)) xcb_symbols) c = Some k \<Longrightarrow>
    \<exists>name. (name, k) \<in> set xcb_symbols \<and> xk name = c"
  by (drule map_of_SomeD) auto

lemma xcb_table_inverted:
  assumes "xk_documented xk"
  shows "\<forall>(name, k) \<in> set xcb_symbols. keySymFor xk k = Some (xk name)"
  by (simp add: xcb_symbols_def keySymFor_def xcb_injection_def xk_values [OF assms])

text \<open>The sum of a key and the distance of two symbols stays in the range of the key.\<close>

lemma word_shift:
  fixes c :: "32 word"
  assumes "of_nat lo \<le> c" "c \<le> of_nat hi" "lo \<le> hi" "hi < 1000" "base < 1000"
  shows "unat (of_nat base + (c - of_nat lo)) = base + (unat c - lo)" "lo \<le> unat c" "unat c \<le> hi"
proof -
  have lo: "unat (of_nat lo :: 32 word) = lo" "unat (of_nat hi :: 32 word) = hi" "unat (of_nat base :: 32 word) = base"
    using assms(3-5) by (simp_all add: unat_of_nat take_bit_nat_eq_self)
  show n: "lo \<le> unat c" "unat c \<le> hi" using assms(1,2) lo by (simp_all add: word_le_nat_alt)
  have "unat (c - of_nat lo) = unat c - lo" using assms(1) lo by (simp add: unat_sub)
  with n assms(4,5) lo show "unat (of_nat base + (c - of_nat lo)) = base + (unat c - lo)"
    by (simp add: unat_word_ariths)
qed

section \<open>Properties\<close>

text \<open>
  What is captured on one X11 host is replayed on another: a symbol that capture turns into a key is the
  symbol for which injection looks up a key code, a capital letter as the letter of its key.
\<close>

theorem x11_injection_replays_capture:
  assumes "xk_documented xk" and "translateKeySym xk s \<noteq> Key_None"
  shows "keySymFor xk (translateKeySym xk s) = Some (if 0x41 \<le> s \<and> s \<le> 0x5A then s + 0x20 else s)"
proof -
  note xk = xk_values [OF assms(1)]
  consider (small) "of_nat 97 \<le> s" "s \<le> of_nat 122" | (capital) "of_nat 65 \<le> s" "s \<le> of_nat 90"
    | (digit) "of_nat 49 \<le> s" "s \<le> of_nat 57"
    | (other) "\<not> (97 \<le> s \<and> s \<le> 122)" "\<not> (65 \<le> s \<and> s \<le> 90)" "\<not> (49 \<le> s \<and> s \<le> 57)"
    by fastforce
  then show ?thesis
  proof cases
    case small
    have n: "97 \<le> unat s" "unat s \<le> 122" and u: "unat (4 + (s - 97)) = 4 + (unat s - 97)"
      using word_shift [OF small, of 4] by simp_all
    from u n have "4 \<le> 4 + (s - 97)" "4 + (s - 97) \<le> 29" by (simp_all only: word_le_nat_alt) simp_all
    with small n show ?thesis by (simp add: translateKeySym_def keySymFor_def xk word_le_nat_alt)
  next
    case capital
    have n: "65 \<le> unat s" "unat s \<le> 90" and u: "unat (4 + (s - 65)) = 4 + (unat s - 65)"
      using word_shift [OF capital, of 4] by simp_all
    from u n have "4 \<le> 4 + (s - 65)" "4 + (s - 65) \<le> 29" by (simp_all only: word_le_nat_alt) simp_all
    moreover have "\<not> 97 \<le> s" using n by (simp add: word_le_nat_alt)
    ultimately show ?thesis using capital by (simp add: translateKeySym_def keySymFor_def xk)
  next
    case digit
    have n: "49 \<le> unat s" "unat s \<le> 57" and u: "unat (30 + (s - 49)) = 30 + (unat s - 49)"
      using word_shift [OF digit, of 30] by simp_all
    from u n have "30 \<le> 30 + (s - 49)" "30 + (s - 49) \<le> 38" "\<not> 30 + (s - 49) \<le> 29"
      by (simp_all only: word_le_nat_alt) simp_all
    moreover have "\<not> 97 \<le> s" "\<not> 65 \<le> s" using n by (simp_all add: word_le_nat_alt)
    ultimately show ?thesis using digit by (simp add: translateKeySym_def keySymFor_def xk)
  next
    case other
    then obtain k where k: "translateKeySym xk s = k" "map_of (map (\<lambda>(name, k). (xk name, k)) xcb_symbols) s = Some k"
      using assms(2) by (auto simp: translateKeySym_def xk split: option.splits)
    obtain name where name: "(name, k) \<in> set xcb_symbols" "xk name = s"
      using symbol_cases [OF k(2)] by (elim exE conjE)
    from bspec [OF xcb_table_inverted [OF assms(1)] name(1)] other(2) show ?thesis by (simp add: k(1) name(2))
  qed
qed

theorem x11_injection_replays_capture_witness:
  "keySymFor x11_symbol (translateKeySym x11_symbol 0x51) = Some 0x71"
proof -
  have "translateKeySym x11_symbol 0x51 = Key_Q"
    by (simp add: translateKeySym_def xk_values [OF x11_symbol_documented])
  then show ?thesis using x11_injection_replays_capture [OF x11_symbol_documented, where s = "0x51"] by simp
qed

text \<open>
  The flags of a captured key are exactly the modifier keys that the server reports as down, the left and the
  right ones apart.
\<close>

theorem xcb_currentModifiers_exact:
  "map (\<lambda>(name, flag). modifier_and (xcb_currentModifiers xk mapping (Some keys)) flag \<noteq> Mod_None) xcb_modifier_keys =
   map (\<lambda>(name, flag). symbol_pressed mapping keys (xk name)) xcb_modifier_keys"
proof -
  have "modifier_and (xcb_currentModifiers xk mapping (Some keys)) flag \<noteq> Mod_None \<longleftrightarrow> symbol_pressed mapping keys (xk name)"
    if "(name, flag) \<in> set xcb_modifier_keys" for name flag
    unfolding xcb_currentModifiers_def modifier_and_def option.case
    by (rule flag_of_fold [OF _ _ that]) (use that in \<open>auto simp: xcb_modifier_keys_def\<close>)
  then show ?thesis by auto
qed

end
