(* ===== verification/Xcb_Platform.thy ===== *)
theory Xcb_Platform
  imports Key_Xcb Cxx_Double
begin

text \<open>
  The X11 backend, \<open>src/platform/xcb.cpp\<close>: the screen table, the capture by raw input events with its
  grabs, and the injector.

  \<^item> The X server is foreign: \<open>xcb_env\<close> holds what it answers to the requests of an operation (an error code,
    a reply, or none), and the resources that the program has created and not yet freed are the list
    \<open>xc_live\<close>. Error codes: \<open>ENOTCONN\<close> 107, \<open>EINVAL\<close> 22, \<open>EBUSY\<close> 16, \<open>EIO\<close> 5, \<open>ENOMEM\<close> 12,
    \<open>EOPNOTSUPP\<close> 95.
  \<^item> A frame of the protocol is a constructor of \<open>x_event\<close>. \<open>int\<close> and \<open>int64_t\<close> arithmetic is undefined
    outside its range (\<open>None\<close>), \<open>double\<close> arithmetic is that of \<open>Cxx_Double\<close>.
  \<^item> Logging, the mutex and the name of the display are left out.
\<close>

section \<open>Screens\<close>

record xcb_screen =
  xs_index :: nat
  xs_number :: int
  xs_root :: nat
  xs_screen :: screen_info

definition coordinateFits :: "int \<Rightarrow> bool" where
  "coordinateFits v \<longleftrightarrow> - 32768 \<le> v \<and> v \<le> 32767"

definition screen_dpi :: "nat \<Rightarrow> int \<Rightarrow> int" where
  "screen_dpi width widthMm =
     (if widthMm > 0
      then int (dbl_lround (dbl_div (dbl_mul (dbl_of_nat width) mm_per_inch) (dbl_of_nat (nat widthMm))))
      else 72)"

text \<open>A monitor as RandR reports it; \<open>rm_name\<close> is the name behind its atom, if that can be had.\<close>

record randr_monitor =
  rm_x :: int
  rm_y :: int
  rm_width :: nat
  rm_height :: nat
  rm_widthMm :: "32 word"
  rm_name :: "string option"
  rm_primary :: bool

text \<open>\<open>fmt\<close> is the formatting of a number.\<close>

definition monitorName :: "(nat \<Rightarrow> string) \<Rightarrow> string option \<Rightarrow> nat \<Rightarrow> string" where
  "monitorName fmt name index =
     (case name of Some (c # cs) \<Rightarrow> c # cs | _ \<Rightarrow> ''monitor-'' @ fmt index)"

fun randr_screens :: "(nat \<Rightarrow> string) \<Rightarrow> int \<Rightarrow> nat \<Rightarrow> randr_monitor list \<Rightarrow> xcb_screen list \<Rightarrow> xcb_screen list" where
  "randr_screens fmt defaultScreen root [] screens = screens"
| "randr_screens fmt defaultScreen root (m # ms) screens =
     randr_screens fmt defaultScreen root ms
       (if rm_width m \<noteq> 0 \<and> rm_height m \<noteq> 0
        then screens @ [\<lparr>xs_index = length screens, xs_number = defaultScreen, xs_root = root,
               xs_screen = \<lparr>si_x = rm_x m, si_y = rm_y m, si_width = int (rm_width m), si_height = int (rm_height m),
                            si_dpi = screen_dpi (rm_width m) (sint (rm_widthMm m)),
                            si_name = monitorName fmt (rm_name m) (length screens), si_primary = rm_primary m\<rparr>\<rparr>]
        else screens)"

text \<open>What the queries about RandR give: no extension, a version, and the monitors.\<close>

record randr_state =
  rr_present :: bool
  rr_version :: "(nat \<times> nat) option"
  rr_monitors :: "randr_monitor list option"

definition enumerateRandrMonitors :: "(nat \<Rightarrow> string) \<Rightarrow> int \<Rightarrow> nat \<Rightarrow> randr_state \<Rightarrow> xcb_screen list" where
  "enumerateRandrMonitors fmt defaultScreen root rr =
     (if \<not> rr_present rr then []
      else (case rr_version rr of
              None \<Rightarrow> []
            | Some (major, minor) \<Rightarrow>
                if major < 1 \<or> major = 1 \<and> minor < 5 then []
                else (case rr_monitors rr of
                        None \<Rightarrow> []
                      | Some ms \<Rightarrow> randr_screens fmt defaultScreen root ms [])))"

record x_root =
  xr_root :: nat
  xr_width :: nat
  xr_height :: nat
  xr_widthMm :: nat

text \<open>The loop over the root windows runs while no screen has been found.\<close>

fun root_screens :: "(nat \<Rightarrow> string) \<Rightarrow> int \<Rightarrow> x_root list \<Rightarrow> nat \<Rightarrow> xcb_screen list \<Rightarrow> xcb_screen list" where
  "root_screens fmt defaultScreen [] index screens = screens"
| "root_screens fmt defaultScreen (r # roots) index screens =
     (if screens \<noteq> [] then screens
      else root_screens fmt defaultScreen roots (index + 1)
        (screens @ [\<lparr>xs_index = index, xs_number = int index, xs_root = xr_root r,
           xs_screen = \<lparr>si_x = 0, si_y = 0, si_width = int (xr_width r), si_height = int (xr_height r),
                        si_dpi = screen_dpi (xr_width r) (int (xr_widthMm r)), si_name = ''screen-'' @ fmt index,
                        si_primary = (int index = defaultScreen)\<rparr>\<rparr>]))"

text \<open>Without any screen the constructor throws.\<close>

definition xcb_enumerateScreens ::
  "(nat \<Rightarrow> string) \<Rightarrow> int \<Rightarrow> nat \<Rightarrow> randr_state \<Rightarrow> x_root list \<Rightarrow> xcb_screen list option" where
  "xcb_enumerateScreens fmt defaultScreen root rr roots =
     (let screens = root_screens fmt defaultScreen roots 0 (enumerateRandrMonitors fmt defaultScreen root rr)
      in if screens = [] then None else Some screens)"

fun nearest_screen :: "int \<Rightarrow> int \<Rightarrow> xcb_screen list \<Rightarrow> xcb_screen \<Rightarrow> int \<Rightarrow> xcb_screen ub" where
  "nearest_screen x y [] best bestDistance = Some best"
| "nearest_screen x y (s # ss) best bestDistance =
     (let info = xs_screen s
      in do {
        right \<leftarrow> i32 (si_x info + si_width info);
        bottom \<leftarrow> i32 (si_y info + si_height info);
        if si_x info \<le> x \<and> si_y info \<le> y \<and> x < right \<and> y < bottom then Some s
        else do {
          let deltaX = x - std_clamp x (si_x info) right;
              deltaY = y - std_clamp y (si_y info) bottom
          in do {
            squareX \<leftarrow> i64 (deltaX * deltaX);
            squareY \<leftarrow> i64 (deltaY * deltaY);
            distance \<leftarrow> i64 (squareX + squareY);
            if distance < bestDistance then nearest_screen x y ss s distance
            else nearest_screen x y ss best bestDistance
          }
        }
      })"

definition globalToScreen :: "xcb_screen list \<Rightarrow> int \<Rightarrow> int \<Rightarrow> (nat \<times> int \<times> int) ub" where
  "globalToScreen screens x y =
     (case screens of
        [] \<Rightarrow> Some (0, x, y)
      | first # _ \<Rightarrow> do {
          best \<leftarrow> nearest_screen x y screens first 9223372036854775807;
          localX \<leftarrow> i32 (x - si_x (xs_screen best));
          localY \<leftarrow> i32 (y - si_y (xs_screen best));
          Some (xs_index best, localX, localY)
        })"

definition xcb_localToGlobal :: "xcb_screen list \<Rightarrow> nat \<Rightarrow> int \<Rightarrow> int \<Rightarrow> (int \<times> int) option ub" where
  "xcb_localToGlobal screens screenIndex x y =
     (if screenIndex \<ge> length screens then Some None
      else (let info = xs_screen (screens ! screenIndex)
            in do {
              gx \<leftarrow> i32 (si_x info + x);
              gy \<leftarrow> i32 (si_y info + y);
              Some (Some (gx, gy))
            }))"

definition xcb_root :: "xcb_screen list \<Rightarrow> nat \<Rightarrow> nat option" where
  "xcb_root screens screenIndex = (if screenIndex \<ge> length screens then None else Some (xs_root (screens ! screenIndex)))"

section \<open>Capture\<close>

datatype x_request =
    SelectEvents | CreatePixmap | CreateGC | FillRectangle | CreateCursor | CreateWindow | MapWindow | WarpPointer int int nat

datatype x_resource = Pixmap nat | GC nat | Cursor nat | Window nat

text \<open>A reply to a grab: missing (or a protocol error), or its status.\<close>

record xcb_env =
  xe_connect :: "nat option"
  xe_check :: "x_request \<Rightarrow> nat option"
  xe_flush :: "nat option"
  xe_keySymbols :: bool
  xe_poller :: "nat option"
  xe_grabPointer :: "nat option"
  xe_grabKeyboard :: "nat option"
  xe_pointer :: "(int \<times> int) option"
  xe_keymap :: "8 word list option"
  xe_screens :: "xcb_screen list"
  xe_defaultRoot :: nat
  xe_xiOpcode :: nat
  xe_rawDuringGrab :: bool
  xe_xk :: "string \<Rightarrow> 32 word"
  xe_mapping :: xcb_mapping

record xcb_capture =
  xc_connected :: bool
  xc_keySymbols :: bool
  xc_poller :: bool
  xc_hiddenCursor :: "nat option"
  xc_grabWindow :: "nat option"
  xc_remote :: bool
  xc_pointerGrabbed :: bool
  xc_keyboardGrabbed :: bool
  xc_lastCore :: "(int \<times> int) option"
  xc_nextId :: nat
  xc_live :: "x_resource list"

definition new_xcb_capture :: xcb_capture where
  "new_xcb_capture =
     \<lparr>xc_connected = False, xc_keySymbols = False, xc_poller = False, xc_hiddenCursor = None, xc_grabWindow = None,
      xc_remote = False, xc_pointerGrabbed = False, xc_keyboardGrabbed = False, xc_lastCore = None, xc_nextId = 1,
      xc_live = []\<rparr>"

definition generate_id :: "xcb_capture \<Rightarrow> nat \<times> xcb_capture" where
  "generate_id c = (xc_nextId c, c\<lparr>xc_nextId := xc_nextId c + 1\<rparr>)"

text \<open>A checked request that creates a resource, and the unchecked one that frees it.\<close>

definition x_create :: "xcb_env \<Rightarrow> x_request \<Rightarrow> x_resource \<Rightarrow> xcb_capture \<Rightarrow> nat option \<times> xcb_capture" where
  "x_create env request resource c =
     (case xe_check env request of
        Some e \<Rightarrow> (Some e, c)
      | None \<Rightarrow> (None, c\<lparr>xc_live := resource # xc_live c\<rparr>))"

definition x_free :: "x_resource \<Rightarrow> xcb_capture \<Rightarrow> xcb_capture" where
  "x_free resource c = c\<lparr>xc_live := removeAll resource (xc_live c)\<rparr>"

definition grabStatusError :: "nat \<Rightarrow> nat" where
  "grabStatusError status = (if status = 1 \<or> status = 4 then 16 else if status = 2 \<or> status = 3 then 22 else 5)"

definition destroyGrabWindow :: "xcb_capture \<Rightarrow> xcb_capture" where
  "destroyGrabWindow c =
     (case xc_grabWindow c of None \<Rightarrow> c | Some w \<Rightarrow> (x_free (Window w) c)\<lparr>xc_grabWindow := None\<rparr>)"

definition releaseRemoteControl :: "xcb_capture \<Rightarrow> xcb_capture" where
  "releaseRemoteControl c =
     (if \<not> xc_connected c then c
      else (destroyGrabWindow (c\<lparr>xc_keyboardGrabbed := False, xc_pointerGrabbed := False\<rparr>))
             \<lparr>xc_lastCore := None, xc_remote := False\<rparr>)"

definition ensureHiddenCursor :: "xcb_env \<Rightarrow> xcb_capture \<Rightarrow> (nat + nat) \<times> xcb_capture" where
  "ensureHiddenCursor env c =
     (case xc_hiddenCursor c of
        Some cursor \<Rightarrow> (Inr cursor, c)
      | None \<Rightarrow>
          (let (pixmap, c1) = generate_id c
           in case x_create env CreatePixmap (Pixmap pixmap) c1 of
                (Some e, c2) \<Rightarrow> (Inl e, c2)
              | (None, c2) \<Rightarrow>
                  (let (gc, c3) = generate_id c2
                   in case x_create env CreateGC (GC gc) c3 of
                        (Some e, c4) \<Rightarrow> (Inl e, x_free (Pixmap pixmap) c4)
                      | (None, c4) \<Rightarrow>
                          (let filled = xe_check env FillRectangle;
                               (cursor, c5) = generate_id c4;
                               (result, c6) = (if filled = None then x_create env CreateCursor (Cursor cursor) c5 else (filled, c5));
                               c7 = x_free (Pixmap pixmap) (x_free (GC gc) c6)
                           in case result of
                                Some e \<Rightarrow> (Inl e, c7)
                              | None \<Rightarrow> (Inr cursor, c7\<lparr>xc_hiddenCursor := Some cursor\<rparr>)))))"

definition ensureGrabWindow :: "xcb_env \<Rightarrow> xcb_capture \<Rightarrow> (nat + nat) \<times> xcb_capture" where
  "ensureGrabWindow env c =
     (case xc_grabWindow c of
        Some w \<Rightarrow> (Inr w, c)
      | None \<Rightarrow>
          (let (w, c1) = generate_id c
           in case x_create env CreateWindow (Window w) c1 of
                (Some e, c2) \<Rightarrow> (Inl e, c2)
              | (None, c2) \<Rightarrow>
                  (case xe_check env MapWindow of
                     Some e \<Rightarrow> (Inl e, x_free (Window w) c2)
                   | None \<Rightarrow> (Inr w, c2\<lparr>xc_grabWindow := Some w\<rparr>))))"

text \<open>After the pointer: the keyboard, which may be refused, and the flags.\<close>

definition pointer_grabbed :: "xcb_env \<Rightarrow> xcb_capture \<Rightarrow> xcb_capture" where
  "pointer_grabbed env c =
     (let c1 = c\<lparr>xc_pointerGrabbed := True\<rparr>;
          c2 = (if xe_grabKeyboard env = Some 0 then c1\<lparr>xc_keyboardGrabbed := True\<rparr> else c1)
      in c2\<lparr>xc_remote := True, xc_lastCore := xe_pointer env\<rparr>)"

definition acquireRemoteControl :: "xcb_env \<Rightarrow> xcb_capture \<Rightarrow> nat option \<times> xcb_capture" where
  "acquireRemoteControl env c =
     (case ensureHiddenCursor env c of
        (Inl e, c1) \<Rightarrow> (Some e, c1)
      | (Inr cursor, c1) \<Rightarrow>
          (case ensureGrabWindow env c1 of
             (Inl e, c2) \<Rightarrow> (Some e, c2)
           | (Inr w, c2) \<Rightarrow>
               (case xe_grabPointer env of
                  None \<Rightarrow> (Some 5, destroyGrabWindow c2)
                | Some status \<Rightarrow>
                    if status \<noteq> 0 then (Some (grabStatusError status), destroyGrabWindow c2)
                    else (case xe_flush env of
                            Some e \<Rightarrow> (Some e, releaseRemoteControl (pointer_grabbed env c2))
                          | None \<Rightarrow> (None, pointer_grabbed env c2)))))"

definition xcb_setRemoteControlActive :: "xcb_env \<Rightarrow> bool \<Rightarrow> xcb_capture \<Rightarrow> nat option \<times> xcb_capture" where
  "xcb_setRemoteControlActive env active c =
     (if \<not> xc_connected c then (Some 107, c)
      else if active = xc_remote c then (None, c)
      else if \<not> active then (None, releaseRemoteControl c)
      else acquireRemoteControl env c)"

text \<open>Closing the connection makes the server free what was created over it.\<close>

definition xcb_closeConnection :: "xcb_capture \<Rightarrow> xcb_capture" where
  "xcb_closeConnection c =
     (let c1 = c\<lparr>xc_poller := False\<rparr>;
          c2 = (if xc_connected c1
                then (let r = releaseRemoteControl c1
                      in case xc_hiddenCursor r of
                           None \<Rightarrow> r
                         | Some cursor \<Rightarrow> (x_free (Cursor cursor) r)\<lparr>xc_hiddenCursor := None\<rparr>)
                else c1)
      in c2\<lparr>xc_keySymbols := False, xc_connected := False\<rparr>)"

definition selectRawInput :: "xcb_env \<Rightarrow> nat option" where
  "selectRawInput env = (case xe_check env SelectEvents of Some e \<Rightarrow> Some e | None \<Rightarrow> xe_flush env)"

definition xcb_initialize :: "xcb_env \<Rightarrow> xcb_capture \<Rightarrow> nat option \<times> xcb_capture" where
  "xcb_initialize env c =
     (let c1 = xcb_closeConnection c
      in case xe_connect env of
           Some e \<Rightarrow> (Some e, c1)
         | None \<Rightarrow>
             (let c2 = c1\<lparr>xc_connected := True\<rparr>
              in case selectRawInput env of
                   Some e \<Rightarrow> (Some e, xcb_closeConnection c2)
                 | None \<Rightarrow>
                     if \<not> xe_keySymbols env then (Some 12, xcb_closeConnection c2)
                     else (let c3 = c2\<lparr>xc_keySymbols := True\<rparr>
                           in case xe_poller env of
                                Some e \<Rightarrow> (Some e, c3)
                              | None \<Rightarrow> (None, c3\<lparr>xc_poller := True\<rparr>))))"

definition xcb_moveLocalCursor ::
  "xcb_env \<Rightarrow> nat \<Rightarrow> int \<Rightarrow> int \<Rightarrow> xcb_capture \<Rightarrow> (nat option \<times> xcb_capture) ub" where
  "xcb_moveLocalCursor env screenIndex x y c =
     (if \<not> xc_connected c then Some (Some 107, c)
      else do {
        target \<leftarrow> xcb_localToGlobal (xe_screens env) screenIndex x y;
        Some (case target of
           None \<Rightarrow> (Some 22, c)
         | Some (gx, gy) \<Rightarrow>
             if \<not> coordinateFits gx \<or> \<not> coordinateFits gy then (Some 22, c)
             else (let root = (case xcb_root (xe_screens env) screenIndex of Some r \<Rightarrow> r | None \<Rightarrow> xe_defaultRoot env)
                   in case xe_check env (WarpPointer gx gy root) of
                        Some e \<Rightarrow> (Some e, c)
                      | None \<Rightarrow> (xe_flush env, c\<lparr>xc_lastCore := Some (gx, gy)\<rparr>)))
      })"

subsection \<open>Events\<close>

text \<open>
  The raw value of an axis is a 32.32 fixed-point number. The sum of its parts is the whole number of
  \<open>2 ^ -32\<close>, rounded to a double; \<open>lround\<close> rounds halves away from zero, and the cast to 32 bits wraps.
\<close>

definition fixed3232_lround :: "int \<Rightarrow> nat \<Rightarrow> int" where
  "fixed3232_lround integral frac =
     (let n = integral * 4294967296 + int frac;
          m = int (dbl_lround (round53 (nat \<bar>n\<bar>), 32))
      in int32_cast (if n < 0 then - m else m))"

fun raw_axes :: "32 word list \<Rightarrow> (int \<times> nat) list \<Rightarrow> nat list \<Rightarrow> nat \<Rightarrow> int \<times> int \<Rightarrow> int \<times> int" where
  "raw_axes bits values [] valueIndex delta = delta"
| "raw_axes bits values (axis # axes) valueIndex delta =
     (if \<not> bit (bits ! (axis div 32)) (axis mod 32) then raw_axes bits values axes valueIndex delta
      else (let d = fixed3232_lround (fst (values ! valueIndex)) (snd (values ! valueIndex));
                delta' = (if axis = 0 then (d, snd delta) else if axis = 1 then (fst delta, d) else delta)
            in raw_axes bits values axes (valueIndex + 1) delta'))"

definition rawMotionDelta :: "32 word list \<Rightarrow> (int \<times> nat) list \<Rightarrow> int \<times> int" where
  "rawMotionDelta bits values = raw_axes bits values [0..<length bits * 32] 0 (0, 0)"

datatype x_raw =
    RawMotion "32 word list" "(int \<times> nat) list"
  | RawButton nat bool
  | RawKey nat bool
  | RawOther

datatype x_event =
    ErrorEvent
  | MappingNotify
  | MotionNotify int int
  | ButtonEvent nat bool int int
  | KeyboardEvent "8 word" bool
  | Generic nat x_raw
  | OtherEvent

definition translateCoreMouseMove :: "xcb_env \<Rightarrow> int \<Rightarrow> int \<Rightarrow> xcb_capture \<Rightarrow> (input_event \<times> xcb_capture) ub" where
  "translateCoreMouseMove env rx ry c = do {
     (screenIndex, x, y) \<leftarrow> globalToScreen (xe_screens env) rx ry;
     (dx, dy) \<leftarrow>
       (case xc_lastCore c of
          None \<Rightarrow> Some (0, 0)
        | Some (px, py) \<Rightarrow> do { dx \<leftarrow> i32 (rx - px); dy \<leftarrow> i32 (ry - py); Some (dx, dy) });
     Some (MouseMoveEvent \<lparr>mv_x = x, mv_y = y, mv_screenIndex = screenIndex, mv_deltaX = dx, mv_deltaY = dy\<rparr>,
           c\<lparr>xc_lastCore := Some (rx, ry)\<rparr>)
   }"

definition screenLocalPoint :: "xcb_env \<Rightarrow> (int \<times> int) option \<Rightarrow> (nat \<times> int \<times> int) option ub" where
  "screenLocalPoint env rootPoint =
     (case (if rootPoint \<noteq> None then rootPoint else xe_pointer env) of
        None \<Rightarrow> Some None
      | Some (x, y) \<Rightarrow> map_option Some (globalToScreen (xe_screens env) x y))"

definition translateButton :: "xcb_env \<Rightarrow> nat \<Rightarrow> bool \<Rightarrow> (int \<times> int) option \<Rightarrow> input_event option ub" where
  "translateButton env detail release rootPoint = do {
     pointer \<leftarrow> screenLocalPoint env rootPoint;
     (case pointer of
        None \<Rightarrow> Some None
      | Some (screenIndex, x, y) \<Rightarrow>
          if 1 \<le> detail \<and> detail \<le> 3
          then Some (Some (MouseButtonEvent
                 \<lparr>mb_x = x, mb_y = y, mb_screenIndex = screenIndex,
                  mb_button = (if detail = 1 then MouseButton_Left else if detail = 2 then MouseButton_Middle else MouseButton_Right),
                  mb_release = release\<rparr>))
          else if 4 \<le> detail \<and> detail \<le> 7 \<and> \<not> release
          then Some (Some (MouseWheelEvent
                 \<lparr>mw_x = x, mw_y = y,
                  mw_deltaX = (if detail = 6 then - 120 else if detail = 7 then 120 else 0),
                  mw_deltaY = (if detail = 4 then 120 else if detail = 5 then - 120 else 0)\<rparr>))
          else Some None)
   }"

definition translateCoreEvent :: "xcb_env \<Rightarrow> x_event \<Rightarrow> xcb_capture \<Rightarrow> (input_event option \<times> xcb_capture) ub" where
  "translateCoreEvent env event c =
     (case event of
        MotionNotify rx ry \<Rightarrow> map_option (\<lambda>(e, c'). (Some e, c')) (translateCoreMouseMove env rx ry c)
      | ButtonEvent detail release rx ry \<Rightarrow>
          map_option (\<lambda>e. (e, c)) (translateButton env detail release (Some (rx, ry)))
      | KeyboardEvent code release \<Rightarrow>
          Some (Some (translateKey (xe_xk env) (xe_mapping env) (xe_keymap env) code release), c)
      | _ \<Rightarrow> Some (None, c))"

definition translateRaw :: "xcb_env \<Rightarrow> x_raw \<Rightarrow> input_event option ub" where
  "translateRaw env raw =
     (case raw of
        RawMotion bits values \<Rightarrow>
          (case xe_pointer env of
             None \<Rightarrow> Some None
           | Some (px, py) \<Rightarrow> do {
               (screenIndex, x, y) \<leftarrow> globalToScreen (xe_screens env) px py;
               let (dx, dy) = rawMotionDelta bits values
               in Some (Some (MouseMoveEvent
                    \<lparr>mv_x = x, mv_y = y, mv_screenIndex = screenIndex, mv_deltaX = dx, mv_deltaY = dy\<rparr>))
             })
      | RawButton detail release \<Rightarrow> translateButton env detail release None
      | RawKey detail release \<Rightarrow>
          if detail > 255 then Some None
          else Some (Some (translateKey (xe_xk env) (xe_mapping env) (xe_keymap env) (of_nat detail) release))
      | RawOther \<Rightarrow> Some None)"

definition translateEvent :: "xcb_env \<Rightarrow> x_event \<Rightarrow> xcb_capture \<Rightarrow> (input_event option \<times> xcb_capture) ub" where
  "translateEvent env event c =
     (if event = ErrorEvent \<or> event = MappingNotify then Some (None, c)
      else do {
        (core, c1) \<leftarrow> (if xc_remote c \<and> \<not> xe_rawDuringGrab env then translateCoreEvent env event c else Some (None, c));
        (case core of
           Some e \<Rightarrow> Some (Some e, c1)
         | None \<Rightarrow>
             (case event of
                Generic extension raw \<Rightarrow>
                  if extension \<noteq> xe_xiOpcode env then Some (None, c1)
                  else map_option (\<lambda>e. (e, c1)) (translateRaw env raw)
              | _ \<Rightarrow> Some (None, c1)))
      })"

text \<open>
  \<open>nextEvent\<close> over the frames that have arrived: the first one that translates is returned, with the frames
  behind it. Without one it waits for more (\<open>NoMore\<close>). It throws without a connection or a poller.
\<close>

datatype 'e fetched = NotRunning | NoMore | Fetched 'e "x_event list"

fun fetch_event :: "xcb_env \<Rightarrow> x_event list \<Rightarrow> xcb_capture \<Rightarrow> (input_event fetched \<times> xcb_capture) ub" where
  "fetch_event env [] c = Some (NoMore, c)"
| "fetch_event env (event # events) c = do {
     (translated, c1) \<leftarrow> translateEvent env event c;
     (case translated of
        Some e \<Rightarrow> Some (Fetched e events, c1)
      | None \<Rightarrow> fetch_event env events c1)
   }"

definition xcb_nextEvent :: "xcb_env \<Rightarrow> x_event list \<Rightarrow> xcb_capture \<Rightarrow> (input_event fetched \<times> xcb_capture) ub" where
  "xcb_nextEvent env events c =
     (if \<not> xc_connected c \<or> \<not> xc_poller c then Some (NotRunning, c) else fetch_event env events c)"

section \<open>Injection\<close>

datatype x_fake = FakeMotion nat int int | FakeButton nat bool | FakeKey "8 word" bool

record xcb_injector =
  xi_connected :: bool
  xi_keySymbols :: bool
  xi_sent :: "x_fake list"

text \<open>\<open>xj_fakeError n\<close> is the answer to the fake request after \<open>n\<close> successful ones.\<close>

record xcb_inject_env =
  xj_connect :: "nat option"
  xj_testExtension :: bool
  xj_testVersion :: bool
  xj_keySymbols :: bool
  xj_fakeError :: "nat \<Rightarrow> nat option"
  xj_flush :: "nat option"
  xj_screens :: "xcb_screen list"
  xj_xk :: "string \<Rightarrow> 32 word"
  xj_mapping :: xcb_mapping

definition injector_closeConnection :: "xcb_injector \<Rightarrow> xcb_injector" where
  "injector_closeConnection i = i\<lparr>xi_keySymbols := False, xi_connected := False\<rparr>"

definition xcb_injector_initialize :: "xcb_inject_env \<Rightarrow> xcb_injector \<Rightarrow> nat option \<times> xcb_injector" where
  "xcb_injector_initialize env i =
     (let i1 = injector_closeConnection i
      in case xj_connect env of
           Some e \<Rightarrow> (Some e, i1)
         | None \<Rightarrow>
             (let i2 = i1\<lparr>xi_connected := True\<rparr>
              in if \<not> xj_testExtension env then (Some 95, injector_closeConnection i2)
                 else if \<not> xj_testVersion env then (Some 95, injector_closeConnection i2)
                 else if \<not> xj_keySymbols env then (Some 12, injector_closeConnection i2)
                 else (None, i2\<lparr>xi_keySymbols := True\<rparr>)))"

fun buttonFor :: "mouse_button \<Rightarrow> nat option" where
  "buttonFor MouseButton_Left = Some 1"
| "buttonFor MouseButton_Middle = Some 2"
| "buttonFor MouseButton_Right = Some 3"
| "buttonFor MouseButton_None = None"

definition fakeInput :: "xcb_inject_env \<Rightarrow> x_fake \<Rightarrow> xcb_injector \<Rightarrow> nat option \<times> xcb_injector" where
  "fakeInput env fake i =
     (case xj_fakeError env (length (xi_sent i)) of
        Some e \<Rightarrow> (Some e, i)
      | None \<Rightarrow> (None, i\<lparr>xi_sent := xi_sent i @ [fake]\<rparr>))"

definition then_flush :: "xcb_inject_env \<Rightarrow> nat option \<times> xcb_injector \<Rightarrow> nat option \<times> xcb_injector" where
  "then_flush env r = (case r of (Some e, i) \<Rightarrow> (Some e, i) | (None, i) \<Rightarrow> (xj_flush env, i))"

text \<open>Asking where the pointer ended up only leads to a warning.\<close>

definition xcb_moveCursor :: "xcb_inject_env \<Rightarrow> nat \<Rightarrow> int \<Rightarrow> int \<Rightarrow> xcb_injector \<Rightarrow> (nat option \<times> xcb_injector) ub" where
  "xcb_moveCursor env screenIndex x y i = do {
     target \<leftarrow> xcb_localToGlobal (xj_screens env) screenIndex x y;
     Some (case (target, xcb_root (xj_screens env) screenIndex) of
        (Some (gx, gy), Some root) \<Rightarrow>
          if \<not> coordinateFits gx \<or> \<not> coordinateFits gy then (Some 22, i)
          else then_flush env (fakeInput env (FakeMotion root gx gy) i)
      | _ \<Rightarrow> (Some 22, i))
   }"

fun fake_clicks :: "xcb_inject_env \<Rightarrow> nat \<Rightarrow> nat \<Rightarrow> xcb_injector \<Rightarrow> nat option \<times> xcb_injector" where
  "fake_clicks env button 0 i = (None, i)"
| "fake_clicks env button (Suc n) i =
     (case fakeInput env (FakeButton button True) i of
        (Some e, i1) \<Rightarrow> (Some e, i1)
      | (None, i1) \<Rightarrow>
          (case fakeInput env (FakeButton button False) i1 of
             (Some e, i2) \<Rightarrow> (Some e, i2)
           | (None, i2) \<Rightarrow> fake_clicks env button n i2))"

definition fakeButtonClick :: "xcb_inject_env \<Rightarrow> nat \<Rightarrow> nat \<Rightarrow> xcb_injector \<Rightarrow> nat option \<times> xcb_injector" where
  "fakeButtonClick env button count i = then_flush env (fake_clicks env button count i)"

text \<open>\<open>std::abs\<close> of the smallest integer is undefined; the sum is unsigned.\<close>

definition wheelClickCount :: "int \<Rightarrow> nat ub" where
  "wheelClickCount delta = do {
     magnitude \<leftarrow> i32 \<bar>delta\<bar>;
     Some (max 1 ((nat magnitude + 119) mod 4294967296 div 120))
   }"

definition wheel_axis ::
  "xcb_inject_env \<Rightarrow> int \<Rightarrow> nat \<Rightarrow> nat \<Rightarrow> xcb_injector \<Rightarrow> (nat option \<times> xcb_injector) ub" where
  "wheel_axis env delta positive negative i =
     (if delta = 0 then Some (None, i)
      else do {
        count \<leftarrow> wheelClickCount delta;
        Some (fakeButtonClick env (if delta > 0 then positive else negative) count i)
      })"

fun xcb_injectOne :: "xcb_inject_env \<Rightarrow> input_event \<Rightarrow> xcb_injector \<Rightarrow> (nat option \<times> xcb_injector) ub" where
  "xcb_injectOne env (MouseMoveEvent e) i = xcb_moveCursor env (mv_screenIndex e) (mv_x e) (mv_y e) i"
| "xcb_injectOne env (MouseButtonEvent e) i = do {
     (error, i1) \<leftarrow> xcb_moveCursor env (mb_screenIndex e) (mb_x e) (mb_y e) i;
     if error \<noteq> None then Some (error, i1)
     else (case buttonFor (mb_button e) of
             None \<Rightarrow> Some (Some 22, i1)
           | Some button \<Rightarrow> Some (then_flush env (fakeInput env (FakeButton button (\<not> mb_release e)) i1)))
   }"
| "xcb_injectOne env (MouseWheelEvent e) i = do {
     (error, i1) \<leftarrow> wheel_axis env (mw_deltaY e) 4 5 i;
     if error \<noteq> None then Some (error, i1) else wheel_axis env (mw_deltaX e) 7 6 i1
   }"
| "xcb_injectOne env (KeyEvent e) i =
     Some (case keyCodeFor (xj_xk env) (xj_mapping env) e of
        None \<Rightarrow> (Some 22, i)
      | Some code \<Rightarrow> then_flush env (fakeInput env (FakeKey code (\<not> ke_release e)) i))"

definition xcb_inject :: "xcb_inject_env \<Rightarrow> input_event \<Rightarrow> xcb_injector \<Rightarrow> (nat option \<times> xcb_injector) ub" where
  "xcb_inject env event i = (if \<not> xi_connected i then Some (Some 107, i) else xcb_injectOne env event i)"

section \<open>Which sessions it serves\<close>

definition isWaylandSession :: "(string \<Rightarrow> string option) \<Rightarrow> bool" where
  "isWaylandSession getenv \<longleftrightarrow> getenv ''XDG_SESSION_TYPE'' = Some ''wayland''"

definition envIsSet :: "(string \<Rightarrow> string option) \<Rightarrow> string \<Rightarrow> bool" where
  "envIsSet getenv name \<longleftrightarrow> (case getenv name of None \<Rightarrow> False | Some v \<Rightarrow> v \<noteq> [])"

section \<open>Lemmas on screens\<close>

definition on_wire :: "screen_info \<Rightarrow> bool" where
  "on_wire info \<longleftrightarrow> coordinateFits (si_x info) \<and> coordinateFits (si_y info) \<and>
     0 \<le> si_width info \<and> si_width info \<le> 65535 \<and> 0 \<le> si_height info \<and> si_height info \<le> 65535"

definition contains :: "int \<Rightarrow> int \<Rightarrow> xcb_screen \<Rightarrow> bool" where
  "contains x y s \<longleftrightarrow>
     si_x (xs_screen s) \<le> x \<and> x < si_x (xs_screen s) + si_width (xs_screen s) \<and>
     si_y (xs_screen s) \<le> y \<and> y < si_y (xs_screen s) + si_height (xs_screen s)"

definition distance_to :: "int \<Rightarrow> int \<Rightarrow> xcb_screen \<Rightarrow> int" where
  "distance_to x y s =
     (x - std_clamp x (si_x (xs_screen s)) (si_x (xs_screen s) + si_width (xs_screen s))) ^ 2 +
     (y - std_clamp y (si_y (xs_screen s)) (si_y (xs_screen s) + si_height (xs_screen s))) ^ 2"

lemma clamp_gap:
  assumes "coordinateFits v" "coordinateFits lo" "0 \<le> w" "w \<le> 65535"
  shows "\<bar>v - std_clamp v lo (lo + w)\<bar> \<le> 131072"
  using assms by (auto simp: std_clamp_def coordinateFits_def)

lemma square_bound: "\<bar>d\<bar> \<le> (131072 :: int) \<Longrightarrow> 0 \<le> d * d \<and> d * d \<le> 17179869184"
  using mult_mono [of "\<bar>d\<bar>" 131072 "\<bar>d\<bar>" 131072] by (simp add: abs_mult_self_eq)

lemma distance_bounds:
  assumes "coordinateFits x" "coordinateFits y" "on_wire (xs_screen s)"
  shows "0 \<le> distance_to x y s" "distance_to x y s \<le> 34359738368"
  using square_bound [OF clamp_gap [of x "si_x (xs_screen s)" "si_width (xs_screen s)"]]
    square_bound [OF clamp_gap [of y "si_y (xs_screen s)" "si_height (xs_screen s)"]] assms
  by (simp_all add: distance_to_def on_wire_def power2_eq_square)

lemma i64_small:
  assumes "0 \<le> a \<and> a \<le> 17179869184" "0 \<le> b \<and> b \<le> 17179869184"
  shows "i64 a = Some a" "i64 b = Some b" "i64 (a + b) = Some (a + b)"
  using assms by (auto simp: i64_def)

lemma nearest_screen_step:
  assumes "coordinateFits x" "coordinateFits y" "on_wire (xs_screen s)"
  shows "nearest_screen x y (s # ss) best d =
    (if contains x y s then Some s
     else if distance_to x y s < d then nearest_screen x y ss s (distance_to x y s) else nearest_screen x y ss best d)"
proof -
  have sums: "in_i32 (si_x (xs_screen s) + si_width (xs_screen s))" "in_i32 (si_y (xs_screen s) + si_height (xs_screen s))"
    using assms(3) by (auto simp: on_wire_def coordinateFits_def in_i32_def)
  let ?dx = "x - std_clamp x (si_x (xs_screen s)) (si_x (xs_screen s) + si_width (xs_screen s))"
  let ?dy = "y - std_clamp y (si_y (xs_screen s)) (si_y (xs_screen s) + si_height (xs_screen s))"
  have "0 \<le> ?dx * ?dx \<and> ?dx * ?dx \<le> 17179869184" "0 \<le> ?dy * ?dy \<and> ?dy * ?dy \<le> 17179869184"
    using square_bound [OF clamp_gap [of x "si_x (xs_screen s)" "si_width (xs_screen s)"]]
      square_bound [OF clamp_gap [of y "si_y (xs_screen s)" "si_height (xs_screen s)"]] assms
    by (simp_all add: on_wire_def)
  note squares = i64_small [OF this]
  have sum: "?dx * ?dx + ?dy * ?dy = distance_to x y s" by (simp add: distance_to_def power2_eq_square)
  show ?thesis
    using sums squares(3) [unfolded sum] by (simp add: Let_def contains_def squares sum conj_ac)
qed

lemma nearest_screen_result:
  assumes "coordinateFits x" "coordinateFits y" "\<forall>s \<in> set ss. on_wire (xs_screen s)"
  shows "case find (contains x y) ss of
      Some s \<Rightarrow> nearest_screen x y ss best d = Some s
    | None \<Rightarrow> \<exists>s. nearest_screen x y ss best d = Some s \<and>
        (s = best \<and> (\<forall>t \<in> set ss. d \<le> distance_to x y t) \<or>
         s \<in> set ss \<and> distance_to x y s < d \<and> (\<forall>t \<in> set ss. distance_to x y s \<le> distance_to x y t))"
  using assms(3)
proof (induction ss arbitrary: best d)
  case (Cons s ss)
  then have wire: "on_wire (xs_screen s)" by simp
  note step = nearest_screen_step [OF assms(1,2) wire]
  show ?case
  proof (cases "contains x y s")
    case True
    then show ?thesis by (simp add: step del: nearest_screen.simps)
  next
    case False
    let ?d = "if distance_to x y s < d then distance_to x y s else d"
    let ?b = "if distance_to x y s < d then s else best"
    have next_step: "nearest_screen x y (s # ss) best d = nearest_screen x y ss ?b ?d"
      using False by (simp add: step del: nearest_screen.simps)
    from Cons.IH [of ?b ?d] Cons.prems False show ?thesis
      by (auto simp add: next_step simp del: nearest_screen.simps split: option.splits if_splits)
  qed
qed simp

lemma globalToScreen_result:
  assumes "coordinateFits x" "coordinateFits y" "\<forall>s \<in> set screens. on_wire (xs_screen s)" "screens \<noteq> []"
  obtains s where "s \<in> set screens"
    "globalToScreen screens x y = Some (xs_index s, x - si_x (xs_screen s), y - si_y (xs_screen s))"
    "if \<exists>t \<in> set screens. contains x y t then find (contains x y) screens = Some s
     else \<forall>t \<in> set screens. distance_to x y s \<le> distance_to x y t"
proof -
  obtain first rest where screens: "screens = first # rest" using assms(4) by (cases screens) auto
  let ?near = "nearest_screen x y screens first 9223372036854775807"
  have "\<exists>s \<in> set screens. ?near = Some s \<and>
      (if \<exists>t \<in> set screens. contains x y t then find (contains x y) screens = Some s
       else \<forall>t \<in> set screens. distance_to x y s \<le> distance_to x y t)"
  proof (cases "find (contains x y) screens")
    case None
    then have none: "\<not> (\<exists>t \<in> set screens. contains x y t)" by (simp add: find_None_iff)
    from nearest_screen_result [OF assms(1-3), of first 9223372036854775807] None obtain s where
      s: "?near = Some s" and which: "s = first \<and> (\<forall>t \<in> set screens. 9223372036854775807 \<le> distance_to x y t) \<or>
         s \<in> set screens \<and> (\<forall>t \<in> set screens. distance_to x y s \<le> distance_to x y t)" by auto
    moreover have "\<not> 9223372036854775807 \<le> distance_to x y first"
      using distance_bounds(2) [OF assms(1,2), of first] assms(3) screens by simp
    ultimately show ?thesis using none screens by auto
  next
    case (Some s)
    with nearest_screen_result [OF assms(1-3), of first 9223372036854775807] have "?near = Some s" by simp
    moreover have "s \<in> set screens \<and> contains x y s" using Some by (rule find_SomeD)
    ultimately show ?thesis using Some by auto
  qed
  then obtain s where s: "s \<in> set screens" "?near = Some s"
    "if \<exists>t \<in> set screens. contains x y t then find (contains x y) screens = Some s
     else \<forall>t \<in> set screens. distance_to x y s \<le> distance_to x y t" by blast
  have "in_i32 (x - si_x (xs_screen s))" "in_i32 (y - si_y (xs_screen s))"
    using assms(1-3) s(1) by (auto simp: on_wire_def coordinateFits_def in_i32_def)
  with s that screens show ?thesis by (simp add: globalToScreen_def del: nearest_screen.simps)
qed

section \<open>Lemmas on the grabs\<close>

definition xcb_inv :: "xcb_capture \<Rightarrow> bool" where
  "xcb_inv c \<longleftrightarrow>
     (xc_grabWindow c \<noteq> None \<longleftrightarrow> xc_remote c) \<and>
     (xc_pointerGrabbed c \<longleftrightarrow> xc_remote c) \<and>
     (xc_keyboardGrabbed c \<longrightarrow> xc_remote c) \<and>
     (xc_remote c \<longrightarrow> xc_connected c) \<and>
     (xc_poller c \<longrightarrow> xc_connected c) \<and>
     (xc_hiddenCursor c \<noteq> None \<longrightarrow> xc_connected c) \<and>
     set (xc_live c) = Cursor ` set_option (xc_hiddenCursor c) \<union> Window ` set_option (xc_grabWindow c)"

lemma xcb_invI:
  assumes "xc_grabWindow c \<noteq> None \<longleftrightarrow> xc_remote c" "xc_pointerGrabbed c \<longleftrightarrow> xc_remote c"
    "xc_keyboardGrabbed c \<longrightarrow> xc_remote c" "xc_remote c \<longrightarrow> xc_connected c" "xc_poller c \<longrightarrow> xc_connected c"
    "xc_hiddenCursor c \<noteq> None \<longrightarrow> xc_connected c"
    "set (xc_live c) = Cursor ` set_option (xc_hiddenCursor c) \<union> Window ` set_option (xc_grabWindow c)"
  shows "xcb_inv c"
  using assms by (simp add: xcb_inv_def)

lemma release_inv: "xcb_inv c \<Longrightarrow> xcb_inv (releaseRemoteControl c)"
  by (cases "xc_grabWindow c") (auto simp: xcb_inv_def releaseRemoteControl_def destroyGrabWindow_def x_free_def)

lemma release_fields:
  assumes "xc_connected c"
  shows "\<not> xc_remote (releaseRemoteControl c)" "\<not> xc_pointerGrabbed (releaseRemoteControl c)"
    "\<not> xc_keyboardGrabbed (releaseRemoteControl c)" "xc_grabWindow (releaseRemoteControl c) = None"
    "xc_connected (releaseRemoteControl c)" "xc_hiddenCursor (releaseRemoteControl c) = xc_hiddenCursor c"
  using assms by (simp_all add: releaseRemoteControl_def destroyGrabWindow_def x_free_def split: option.split)

lemma hiddenCursor_cases:
  assumes "xcb_inv c" "xc_connected c" "\<not> xc_remote c" "ensureHiddenCursor env c = (r, c')"
  shows "xcb_inv c' \<and> xc_connected c' \<and> \<not> xc_remote c'"
proof (cases "xc_hiddenCursor c")
  case (Some cursor)
  with assms show ?thesis by (auto simp: ensureHiddenCursor_def)
next
  case None
  have window: "xc_grabWindow c = None" using assms(1,3) by (auto simp: xcb_inv_def)
  have live: "set (xc_live c) = {}" using assms(1) None window by (auto simp: xcb_inv_def)
  show ?thesis
    using assms None window live
    by (auto simp: ensureHiddenCursor_def generate_id_def x_create_def x_free_def Let_def xcb_inv_def
        split: option.splits if_splits)
qed

lemma grabWindow_cases:
  assumes "xcb_inv c" "xc_connected c" "\<not> xc_remote c" "ensureGrabWindow env c = (r, c')"
  shows "case r of
      Inl e \<Rightarrow> xcb_inv c' \<and> \<not> xc_remote c'
    | Inr w \<Rightarrow> xc_grabWindow c' = Some w \<and> xcb_inv (c'\<lparr>xc_remote := True, xc_pointerGrabbed := True\<rparr>) \<and>
        xc_connected c' \<and> \<not> xc_remote c' \<and> \<not> xc_pointerGrabbed c' \<and> \<not> xc_keyboardGrabbed c'"
proof -
  have window: "xc_grabWindow c = None" using assms(1,3) by (auto simp: xcb_inv_def)
  have live: "set (xc_live c) = Cursor ` set_option (xc_hiddenCursor c)" using assms(1) window by (auto simp: xcb_inv_def)
  have no: "\<not> xc_pointerGrabbed c" "\<not> xc_keyboardGrabbed c" using assms(1,3) by (auto simp: xcb_inv_def)
  show ?thesis
  proof (cases "xe_check env CreateWindow")
    case (Some e)
    with assms window show ?thesis
      by (auto simp: ensureGrabWindow_def generate_id_def x_create_def Let_def xcb_inv_def)
  next
    case None
    then show ?thesis
      using assms window live no
      by (cases "xe_check env MapWindow")
         (auto simp: ensureGrabWindow_def generate_id_def x_create_def x_free_def Let_def xcb_inv_def)
  qed
qed

lemma destroy_inv:
  assumes "xcb_inv (c\<lparr>xc_remote := True, xc_pointerGrabbed := True\<rparr>)" "\<not> xc_remote c" "\<not> xc_pointerGrabbed c"
    "\<not> xc_keyboardGrabbed c"
  shows "xcb_inv (destroyGrabWindow c)" "\<not> xc_remote (destroyGrabWindow c)"
  using assms by (auto simp: xcb_inv_def destroyGrabWindow_def x_free_def split: option.splits)

lemma acquire_cases:
  assumes "xcb_inv c" "xc_connected c" "\<not> xc_remote c" "acquireRemoteControl env c = (r, c')"
  shows "xcb_inv c' \<and> (xc_remote c' \<longleftrightarrow> r = None)"
proof -
  obtain r1 c1 where c1: "ensureHiddenCursor env c = (r1, c1)" by (cases "ensureHiddenCursor env c")
  note cursor = hiddenCursor_cases [OF assms(1-3) c1]
  show ?thesis
  proof (cases r1)
    case (Inl e)
    with assms(4) c1 cursor show ?thesis by (auto simp: acquireRemoteControl_def)
  next
    case (Inr cursor_id)
    obtain r2 c2 where c2: "ensureGrabWindow env c1 = (r2, c2)" by (cases "ensureGrabWindow env c1")
    note window = grabWindow_cases [OF _ _ _ c2] cursor
    show ?thesis
    proof (cases r2)
      case (Inl e)
      with assms(4) c1 c2 window Inr show ?thesis by (auto simp: acquireRemoteControl_def)
    next
      case (Inr w)
      with window have w: "xcb_inv (c2\<lparr>xc_remote := True, xc_pointerGrabbed := True\<rparr>)" "\<not> xc_remote c2"
        "\<not> xc_pointerGrabbed c2" "\<not> xc_keyboardGrabbed c2" "xc_connected c2" by auto
      note destroyed = destroy_inv [OF w(1-4)]
      let ?c5 = "pointer_grabbed env c2"
      have five: "xcb_inv ?c5" "xc_connected ?c5" "xc_remote ?c5"
        using w by (simp_all add: xcb_inv_def pointer_grabbed_def Let_def)
      have acquired: "acquireRemoteControl env c =
          (case xe_grabPointer env of
             None \<Rightarrow> (Some 5, destroyGrabWindow c2)
           | Some status \<Rightarrow>
               if status \<noteq> 0 then (Some (grabStatusError status), destroyGrabWindow c2)
               else (case xe_flush env of Some e \<Rightarrow> (Some e, releaseRemoteControl ?c5) | None \<Rightarrow> (None, ?c5)))"
        using c1 c2 \<open>r1 = Inr cursor_id\<close> Inr by (simp add: acquireRemoteControl_def)
      show ?thesis
      proof (cases "xe_grabPointer env = Some 0")
        case False
        with acquired assms(4) destroyed show ?thesis by (auto split: option.splits if_splits)
      next
        case True
        show ?thesis
        proof (cases "xe_flush env")
          case None
          with True acquired assms(4) five show ?thesis by auto
        next
          case (Some e)
          with True acquired assms(4) have "r = Some e" "c' = releaseRemoteControl ?c5" by auto
          with release_inv [OF five(1)] release_fields(1) [OF five(2)] show ?thesis by simp
        qed
      qed
    qed
  qed
qed

lemma setRemote_cases:
  assumes "xcb_inv c" "xcb_setRemoteControlActive env active c = (r, c')"
  shows "xcb_inv c' \<and> (case r of None \<Rightarrow> xc_remote c' = active | Some e \<Rightarrow> \<not> xc_remote c')"
proof (cases "xc_connected c \<and> active \<noteq> xc_remote c \<and> active")
  case True
  with assms acquire_cases [OF assms(1), of env r c'] show ?thesis
    by (auto simp: xcb_setRemoteControlActive_def split: option.split)
next
  case False
  with assms release_inv [OF assms(1)] release_fields(1) [of c] show ?thesis
    by (auto simp: xcb_setRemoteControlActive_def xcb_inv_def split: if_splits)
qed

lemma close_inv:
  assumes "xcb_inv c"
  shows "xcb_inv (xcb_closeConnection c)" "xc_live (xcb_closeConnection c) = []" "\<not> xc_connected (xcb_closeConnection c)"
    "\<not> xc_poller (xcb_closeConnection c)"
proof -
  let ?c = "c\<lparr>xc_poller := False\<rparr>"
  have p: "xcb_inv ?c" using assms by (simp add: xcb_inv_def)
  show "\<not> xc_connected (xcb_closeConnection c)" "\<not> xc_poller (xcb_closeConnection c)"
    by (auto simp: xcb_closeConnection_def releaseRemoteControl_def destroyGrabWindow_def x_free_def Let_def split: option.split)
  have "xcb_inv (xcb_closeConnection c) \<and> xc_live (xcb_closeConnection c) = []"
  proof (cases "xc_connected c")
    case False
    then have closed: "xcb_closeConnection c = ?c\<lparr>xc_keySymbols := False, xc_connected := False\<rparr>"
      by (simp add: xcb_closeConnection_def Let_def)
    have "xc_live c = []" "xc_hiddenCursor c = None" "\<not> xc_remote c" using p False by (auto simp: xcb_inv_def)
    with p closed show ?thesis by (simp add: xcb_inv_def)
  next
    case True
    define r where "r = releaseRemoteControl ?c"
    have r: "xcb_inv r" "\<not> xc_remote r" "xc_grabWindow r = None" "\<not> xc_poller r"
      using release_inv [OF p] release_fields [of ?c] True
      by (simp_all add: r_def releaseRemoteControl_def destroyGrabWindow_def x_free_def split: option.split)
    have closed: "xcb_closeConnection c =
        (case xc_hiddenCursor r of None \<Rightarrow> r | Some cursor \<Rightarrow> (x_free (Cursor cursor) r)\<lparr>xc_hiddenCursor := None\<rparr>)
          \<lparr>xc_keySymbols := False, xc_connected := False\<rparr>"
      unfolding r_def using True by (simp add: xcb_closeConnection_def Let_def)
    show ?thesis
    proof (cases "xc_hiddenCursor r")
      case None
      with r have "xc_live r = []" by (auto simp: xcb_inv_def)
      with None r closed show ?thesis by (auto simp: xcb_inv_def)
    next
      case (Some cursor)
      with r have "set (xc_live r) = {Cursor cursor}" by (auto simp: xcb_inv_def)
      then have "removeAll (Cursor cursor) (xc_live r) = []" by (simp add: filter_empty_conv removeAll_filter_not_eq)
      with Some r closed show ?thesis by (auto simp: xcb_inv_def x_free_def)
    qed
  qed
  then show "xcb_inv (xcb_closeConnection c)" "xc_live (xcb_closeConnection c) = []" by simp_all
qed

lemma xcb_initialize_inv:
  assumes "xcb_inv c"
  shows "xcb_inv (snd (xcb_initialize env c))"
proof -
  have opened: "xcb_inv (xcb_closeConnection c\<lparr>xc_connected := True\<rparr>)"
    using close_inv [OF assms] by (auto simp: xcb_inv_def)
  have keys: "xcb_inv (d\<lparr>xc_connected := True, xc_keySymbols := k, xc_poller := True\<rparr>)"
    "xcb_inv (d\<lparr>xc_connected := True, xc_keySymbols := k\<rparr>)" if "xcb_inv (d\<lparr>xc_connected := True\<rparr>)" for d k
    using that by (simp_all add: xcb_inv_def)
  show ?thesis
    using close_inv(1) [OF assms] close_inv(1) [OF opened] keys [OF opened]
    by (simp add: xcb_initialize_def Let_def split: option.split)
qed

datatype xcb_action =
    XInit xcb_env | XShutdown | XSetRemote xcb_env bool | XMoveLocal xcb_env nat int int | XNextEvent xcb_env "x_event list"

fun xcb_exec :: "xcb_action \<Rightarrow> xcb_capture \<Rightarrow> xcb_capture ub" where
  "xcb_exec (XInit env) c = Some (snd (xcb_initialize env c))"
| "xcb_exec XShutdown c = Some (xcb_closeConnection c)"
| "xcb_exec (XSetRemote env active) c = Some (snd (xcb_setRemoteControlActive env active c))"
| "xcb_exec (XMoveLocal env screenIndex x y) c = map_option snd (xcb_moveLocalCursor env screenIndex x y c)"
| "xcb_exec (XNextEvent env events) c = map_option snd (xcb_nextEvent env events c)"

lemma lastCore_inv: "xcb_inv c \<Longrightarrow> xcb_inv (c\<lparr>xc_lastCore := p\<rparr>)"
  by (simp add: xcb_inv_def)

lemma moveLocal_inv:
  assumes "xcb_inv c" "xcb_moveLocalCursor env n x y c = Some (r, c')"
  shows "xcb_inv c'"
proof (cases "xc_connected c")
  case False
  with assms show ?thesis by (simp add: xcb_moveLocalCursor_def)
next
  case True
  with assms(2) obtain target where target: "xcb_localToGlobal (xe_screens env) n x y = Some target"
    by (auto simp: xcb_moveLocalCursor_def ub_bind_eq_Some)
  show ?thesis
  proof (cases target)
    case None
    with True target assms show ?thesis by (simp add: xcb_moveLocalCursor_def)
  next
    case (Some p)
    obtain gx gy where p: "p = (gx, gy)" by (cases p)
    from True target Some p assms(2) have "c' = c \<or> c' = c\<lparr>xc_lastCore := Some (gx, gy)\<rparr>"
      by (auto simp: xcb_moveLocalCursor_def Let_def split: if_splits option.splits)
    with assms(1) lastCore_inv show ?thesis by blast
  qed
qed

lemma translateEvent_inv:
  assumes "xcb_inv c" "translateEvent env event c = Some (e, c')"
  shows "xcb_inv c'"
proof -
  have core: "xcb_inv c1" if "translateCoreEvent env event c = Some (core, c1)" for core c1
    using that assms(1)
    by (auto simp: translateCoreEvent_def translateCoreMouseMove_def ub_bind_eq_Some lastCore_inv split: x_event.splits)
  from assms core show ?thesis
    by (auto simp: translateEvent_def ub_bind_eq_Some split: if_splits option.splits x_event.splits)
qed

lemma fetch_inv: "xcb_inv c \<Longrightarrow> fetch_event env events c = Some (r, c') \<Longrightarrow> xcb_inv c'"
proof (induction events arbitrary: c)
  case (Cons event events)
  obtain e c1 where e: "translateEvent env event c = Some (e, c1)"
    using Cons.prems(2) by (auto simp: ub_bind_eq_Some)
  have "xcb_inv c1" using translateEvent_inv [OF Cons.prems(1) e] .
  with Cons.IH [of c1] Cons.prems(2) e show ?case by (cases e) auto
qed simp

lemma xcb_exec_inv:
  assumes "xcb_inv c" "xcb_exec a c = Some c'"
  shows "xcb_inv c'"
proof (cases a)
  case (XInit env)
  with assms xcb_initialize_inv show ?thesis by auto
next
  case XShutdown
  with assms close_inv(1) [OF assms(1)] show ?thesis by auto
next
  case (XSetRemote env active)
  with assms setRemote_cases [OF assms(1), of env active] show ?thesis
    by (metis option.inject prod.collapse xcb_exec.simps(3))
next
  case (XMoveLocal env n x y)
  with assms moveLocal_inv show ?thesis by auto
next
  case (XNextEvent env events)
  with assms fetch_inv show ?thesis by (auto simp: xcb_nextEvent_def split: if_splits)
qed

fun xcb_run :: "xcb_action list \<Rightarrow> xcb_capture \<Rightarrow> xcb_capture ub" where
  "xcb_run [] c = Some c"
| "xcb_run (a # actions) c = Option.bind (xcb_exec a c) (xcb_run actions)"

lemma xcb_run_inv: "xcb_inv c \<Longrightarrow> xcb_run actions c = Some c' \<Longrightarrow> xcb_inv c'"
  by (induction actions arbitrary: c) (auto simp: ub_bind_eq_Some dest: xcb_exec_inv)

section \<open>Properties\<close>

lemma new_xcb_inv: "xcb_inv new_xcb_capture"
  by (simp add: xcb_inv_def new_xcb_capture_def)

text \<open>
  Taking the input is all or nothing: whatever the X server refuses, switching the mode leaves the
  capture either in control, with the pointer grabbed on a mapped window, or out of control, with no grab and
  no window left; a reported success means that the mode is the requested one.
\<close>

theorem xcb_grab_all_or_nothing:
  assumes "xcb_inv c" and "xcb_setRemoteControlActive env active c = (r, c')"
  shows "(if xc_remote c'
     then xc_pointerGrabbed c' \<and> xc_grabWindow c' \<noteq> None
     else \<not> xc_pointerGrabbed c' \<and> \<not> xc_keyboardGrabbed c' \<and> xc_grabWindow c' = None) \<and>
    (case r of None \<Rightarrow> xc_remote c' = active | Some e \<Rightarrow> \<not> xc_remote c')"
  using setRemote_cases [OF assms] by (auto simp: xcb_inv_def)

definition demo_xcb :: xcb_env where
  "demo_xcb =
     \<lparr>xe_connect = None, xe_check = (\<lambda>_. None), xe_flush = None, xe_keySymbols = True, xe_poller = None,
      xe_grabPointer = Some 1, xe_grabKeyboard = Some 0, xe_pointer = Some (0, 0), xe_keymap = None, xe_screens = [],
      xe_defaultRoot = 1, xe_xiOpcode = 131, xe_rawDuringGrab = True, xe_xk = x11_symbol,
      xe_mapping = \<lparr>xm_symbol = (\<lambda>_. 0), xm_codes = (\<lambda>_. [])\<rparr>\<rparr>"

theorem xcb_grab_all_or_nothing_witness:
  "case xcb_setRemoteControlActive demo_xcb True (new_xcb_capture\<lparr>xc_connected := True\<rparr>) of
     (r, c') \<Rightarrow> r = Some 16 \<and> \<not> xc_pointerGrabbed c' \<and> xc_grabWindow c' = None"
proof -
  let ?c = "new_xcb_capture\<lparr>xc_connected := True\<rparr>"
  have inv: "xcb_inv ?c" by (simp add: xcb_inv_def new_xcb_capture_def)
  obtain r c' where step: "xcb_setRemoteControlActive demo_xcb True ?c = (r, c')"
    by (cases "xcb_setRemoteControlActive demo_xcb True ?c")
  have "r = Some 16"
    using step
    by (simp add: xcb_setRemoteControlActive_def acquireRemoteControl_def new_xcb_capture_def demo_xcb_def
        ensureHiddenCursor_def ensureGrabWindow_def generate_id_def x_create_def x_free_def grabStatusError_def)
  with xcb_grab_all_or_nothing [OF inv step] step show ?thesis by auto
qed

text \<open>
  C30. No resource is lost: after any sequence of operations, whichever of their requests fail, what the
  program holds on the X server is at most the hidden cursor and the grab window it remembers, and after
  shutdown nothing.
\<close>

theorem xcb_no_resource_leak:
  assumes "xcb_run actions new_xcb_capture = Some c"
  shows "set (xc_live c) = Cursor ` set_option (xc_hiddenCursor c) \<union> Window ` set_option (xc_grabWindow c) \<and>
    (xc_grabWindow c \<noteq> None \<longleftrightarrow> xc_remote c) \<and> xc_live (xcb_closeConnection c) = []"
proof -
  have "xcb_inv c" using new_xcb_inv assms by (rule xcb_run_inv)
  with close_inv(2) show ?thesis by (simp add: xcb_inv_def)
qed

theorem xcb_no_resource_leak_witness:
  "\<exists>c. xcb_run [XInit demo_xcb, XSetRemote demo_xcb True] new_xcb_capture = Some c \<and>
     xc_live (xcb_closeConnection c) = []"
proof -
  obtain c where "xcb_run [XInit demo_xcb, XSetRemote demo_xcb True] new_xcb_capture = Some c" by simp
  with xcb_no_resource_leak show ?thesis by blast
qed

text \<open>
  A failed start can leave the connection open: if only the poller cannot be made, \<open>initialize\<close> reports
  the error and keeps the connection, and the mode can still be switched although no event is ever read.
\<close>

theorem xcb_failed_start_keeps_connection:
  assumes "xcb_inv c" and "xe_connect env = None" and "selectRawInput env = None" and "xe_keySymbols env"
    and "xe_poller env = Some e"
  shows "case xcb_initialize env c of (r, c') \<Rightarrow>
    r = Some e \<and> xc_connected c' \<and> \<not> xc_poller c' \<and> xcb_nextEvent env events c' = Some (NotRunning, c')"
  using assms close_inv(4) [OF assms(1)] by (simp add: xcb_initialize_def Let_def xcb_nextEvent_def)

theorem xcb_failed_start_keeps_connection_witness:
  "case xcb_initialize (demo_xcb\<lparr>xe_poller := Some 24\<rparr>) new_xcb_capture of (r, c') \<Rightarrow> r = Some 24 \<and> xc_connected c'"
proof -
  let ?env = "demo_xcb\<lparr>xe_poller := Some 24\<rparr>"
  have "xe_connect ?env = None" "selectRawInput ?env = None" "xe_keySymbols ?env" "xe_poller ?env = Some 24"
    by (simp_all add: demo_xcb_def selectRawInput_def)
  from xcb_failed_start_keeps_connection [OF new_xcb_inv this, of "[]"] show ?thesis by (simp split: prod.splits)
qed

section \<open>The screen table\<close>

definition indexed :: "xcb_screen list \<Rightarrow> bool" where
  "indexed screens \<longleftrightarrow> (\<forall>i < length screens. xs_index (screens ! i) = i)"

lemma indexed_append: "indexed screens \<Longrightarrow> xs_index s = length screens \<Longrightarrow> indexed (screens @ [s])"
  by (auto simp: indexed_def nth_append less_Suc_eq)

definition monitor_on_wire :: "randr_monitor \<Rightarrow> bool" where
  "monitor_on_wire m \<longleftrightarrow> coordinateFits (rm_x m) \<and> coordinateFits (rm_y m) \<and> rm_width m \<le> 65535 \<and> rm_height m \<le> 65535"

definition root_on_wire :: "x_root \<Rightarrow> bool" where
  "root_on_wire r \<longleftrightarrow> xr_width r \<le> 65535 \<and> xr_height r \<le> 65535"

lemma randr_screens_table:
  assumes "list_all monitor_on_wire ms" "indexed screens" "\<forall>s \<in> set screens. on_wire (xs_screen s)"
  shows "indexed (randr_screens fmt d root ms screens)" "\<forall>s \<in> set (randr_screens fmt d root ms screens). on_wire (xs_screen s)"
proof -
  have "indexed (randr_screens fmt d root ms screens) \<and> (\<forall>s \<in> set (randr_screens fmt d root ms screens). on_wire (xs_screen s))"
    using assms
  proof (induction ms arbitrary: screens)
    case (Cons m ms)
    from Cons.prems have m: "monitor_on_wire m" "list_all monitor_on_wire ms" by simp_all
    show ?case
    proof (cases "rm_width m \<noteq> 0 \<and> rm_height m \<noteq> 0")
      case True
      with m Cons.prems(2,3) show ?thesis
        unfolding randr_screens.simps(2) if_P [OF True]
        by (intro Cons.IH m(2)) (simp_all add: indexed_append on_wire_def monitor_on_wire_def)
    next
      case False
      with m Cons.prems(2,3) show ?thesis
        unfolding randr_screens.simps(2) if_not_P [OF False] by (intro Cons.IH)
    qed
  qed simp
  then show "indexed (randr_screens fmt d root ms screens)"
    "\<forall>s \<in> set (randr_screens fmt d root ms screens). on_wire (xs_screen s)" by simp_all
qed

lemma root_screens_first:
  "root_screens fmt d roots index screens =
     (case (screens, roots) of
        ([], r # rs) \<Rightarrow>
          [\<lparr>xs_index = index, xs_number = int index, xs_root = xr_root r,
            xs_screen = \<lparr>si_x = 0, si_y = 0, si_width = int (xr_width r), si_height = int (xr_height r),
                         si_dpi = screen_dpi (xr_width r) (int (xr_widthMm r)), si_name = ''screen-'' @ fmt index,
                         si_primary = (int index = d)\<rparr>\<rparr>]
      | _ \<Rightarrow> screens)"
proof -
  have found: "root_screens fmt d rs i (s # ss) = s # ss" for rs i s ss by (cases rs) simp_all
  show ?thesis by (cases screens; cases roots) (simp_all add: found)
qed

lemma enumerated_table:
  assumes "xcb_enumerateScreens fmt d root rr roots = Some screens"
    and "\<forall>ms. rr_monitors rr = Some ms \<longrightarrow> list_all monitor_on_wire ms" and "list_all root_on_wire roots"
  shows "indexed screens" "\<forall>s \<in> set screens. on_wire (xs_screen s)" "screens \<noteq> []"
proof -
  let ?randr = "enumerateRandrMonitors fmt d root rr"
  have randr: "indexed ?randr \<and> (\<forall>s \<in> set ?randr. on_wire (xs_screen s))"
    using assms(2) randr_screens_table [of _ "[]"]
    by (auto simp: enumerateRandrMonitors_def indexed_def split: option.split)
  have screens: "screens = root_screens fmt d roots 0 ?randr" "screens \<noteq> []"
    using assms(1) by (auto simp: xcb_enumerateScreens_def Let_def split: if_splits)
  show "screens \<noteq> []" by (fact screens(2))
  show "indexed screens" "\<forall>s \<in> set screens. on_wire (xs_screen s)"
    using screens(1) randr assms(3)
    by (auto simp: root_screens_first indexed_def on_wire_def coordinateFits_def root_on_wire_def split: list.splits)
qed

text \<open>
  Desktop points and screen points translate into each other: on the screens that enumeration yields, a
  desktop point is assigned to a screen that contains it if there is one and to a nearest one otherwise,
  without overflow, and translating the result back gives the point.
\<close>

theorem x11_point_round_trip:
  assumes "xcb_enumerateScreens fmt d root rr roots = Some screens"
    and "\<forall>ms. rr_monitors rr = Some ms \<longrightarrow> list_all monitor_on_wire ms" and "list_all root_on_wire roots"
    and "coordinateFits x" and "coordinateFits y"
  shows "\<exists>n lx ly. globalToScreen screens x y = Some (n, lx, ly) \<and> n < length screens \<and>
    xcb_localToGlobal screens n lx ly = Some (Some (x, y)) \<and>
    (contains x y (screens ! n) \<or>
     (\<forall>s \<in> set screens. \<not> contains x y s \<and> distance_to x y (screens ! n) \<le> distance_to x y s))"
proof -
  note table = enumerated_table [OF assms(1-3)]
  obtain s where s: "s \<in> set screens"
    "globalToScreen screens x y = Some (xs_index s, x - si_x (xs_screen s), y - si_y (xs_screen s))"
    "if \<exists>t \<in> set screens. contains x y t then find (contains x y) screens = Some s
     else \<forall>t \<in> set screens. distance_to x y s \<le> distance_to x y t"
    using globalToScreen_result [OF assms(4,5) table(2,3)] .
  from s(1) table(1) obtain n where n: "n < length screens" "screens ! n = s" "xs_index s = n"
    by (auto simp: indexed_def in_set_conv_nth)
  have "in_i32 x" "in_i32 y" using assms(4,5) by (auto simp: coordinateFits_def in_i32_def)
  then have "xcb_localToGlobal screens n (x - si_x (xs_screen s)) (y - si_y (xs_screen s)) = Some (Some (x, y))"
    using n by (simp add: xcb_localToGlobal_def Let_def)
  moreover have "contains x y s \<or> (\<forall>t \<in> set screens. \<not> contains x y t \<and> distance_to x y s \<le> distance_to x y t)"
    using s(3) by (auto split: if_splits dest: find_SomeD)
  ultimately show ?thesis using s(2) n by auto
qed

definition demo_randr :: randr_state where
  "demo_randr = \<lparr>rr_present = True, rr_version = Some (1, 5), rr_monitors = Some
     [\<lparr>rm_x = 0, rm_y = 0, rm_width = 1920, rm_height = 1080, rm_widthMm = 0, rm_name = Some ''DP-1'', rm_primary = True\<rparr>,
      \<lparr>rm_x = 1920, rm_y = 0, rm_width = 1280, rm_height = 1024, rm_widthMm = 0, rm_name = None, rm_primary = False\<rparr>]\<rparr>"

theorem x11_point_round_trip_witness:
  "\<exists>screens n lx ly. xcb_enumerateScreens (\<lambda>_. ''1'') 0 7 demo_randr [] = Some screens \<and>
     globalToScreen screens 2000 500 = Some (n, lx, ly) \<and> xcb_localToGlobal screens n lx ly = Some (Some (2000, 500))"
proof -
  obtain screens where "xcb_enumerateScreens (\<lambda>_. ''1'') 0 7 demo_randr [] = Some screens"
    by (simp add: xcb_enumerateScreens_def enumerateRandrMonitors_def demo_randr_def Let_def)
  moreover from this have "\<exists>n lx ly. globalToScreen screens 2000 500 = Some (n, lx, ly) \<and> n < length screens \<and>
      xcb_localToGlobal screens n lx ly = Some (Some (2000, 500)) \<and>
      (contains 2000 500 (screens ! n) \<or>
       (\<forall>s \<in> set screens. \<not> contains 2000 500 s \<and> distance_to 2000 500 (screens ! n) \<le> distance_to 2000 500 s))"
    by (rule x11_point_round_trip) (simp_all add: demo_randr_def monitor_on_wire_def coordinateFits_def)
  ultimately show ?thesis by blast
qed

text \<open>
  Without RandR only the first root window is reported, whichever screen is the default one: the loop over
  the root windows stops as soon as it has found a screen, and no screen is primary then.
\<close>

theorem fallback_reports_first_root_only:
  assumes "enumerateRandrMonitors fmt d root rr = []"
  shows "\<exists>s. xcb_enumerateScreens fmt d root rr (r # roots) = Some [s] \<and> xs_root s = xr_root r \<and>
    (si_primary (xs_screen s) \<longleftrightarrow> d = 0)"
  using assms by (auto simp: xcb_enumerateScreens_def root_screens_first)

theorem fallback_reports_first_root_only_witness:
  "\<exists>s. xcb_enumerateScreens (\<lambda>_. ''0'') 1 7 (demo_randr\<lparr>rr_present := False\<rparr>)
      [\<lparr>xr_root = 6, xr_width = 1024, xr_height = 768, xr_widthMm = 0\<rparr>,
       \<lparr>xr_root = 7, xr_width = 1920, xr_height = 1080, xr_widthMm = 0\<rparr>] = Some [s] \<and>
     xs_root s = 6 \<and> \<not> si_primary (xs_screen s)"
proof -
  have "enumerateRandrMonitors (\<lambda>_. ''0'') 1 7 (demo_randr\<lparr>rr_present := False\<rparr>) = []"
    by (simp add: enumerateRandrMonitors_def)
  from fallback_reports_first_root_only [OF this] show ?thesis by fastforce
qed

section \<open>Wheel\<close>

text \<open>The deltas that another X11 host would capture from the clicks of a wheel button.\<close>

fun clicks_captured :: "xcb_env \<Rightarrow> x_fake list \<Rightarrow> int \<times> int" where
  "clicks_captured env [] = (0, 0)"
| "clicks_captured env (FakeButton button press # fakes) =
     (case translateButton env button (\<not> press) (Some (0, 0)) of
        Some (Some (MouseWheelEvent e)) \<Rightarrow>
          (case clicks_captured env fakes of (x, y) \<Rightarrow> (mw_deltaX e + x, mw_deltaY e + y))
      | _ \<Rightarrow> clicks_captured env fakes)"
| "clicks_captured env (_ # fakes) = clicks_captured env fakes"

definition wheel_clicks :: "nat \<Rightarrow> nat \<Rightarrow> x_fake list" where
  "wheel_clicks button n = concat (replicate n [FakeButton button True, FakeButton button False])"

lemma fake_clicks_sent:
  assumes "\<forall>n. xj_fakeError env n = None"
  shows "fake_clicks env button n i = (None, i\<lparr>xi_sent := xi_sent i @ wheel_clicks button n\<rparr>)"
  using assms by (induction n arbitrary: i) (simp_all add: fakeInput_def wheel_clicks_def)

lemma wheelClickCount_multiple:
  assumes "in_i32 (120 * k)" "k \<noteq> 0"
  shows "wheelClickCount (120 * k) = Some (nat \<bar>k\<bar>)"
proof -
  have k: "\<bar>k\<bar> \<le> 17895697" using assms(1) unfolding in_i32_def by arith
  then have "i32 \<bar>120 * k\<bar> = Some (120 * \<bar>k\<bar>)" by (simp add: in_i32_def abs_mult)
  moreover have "(nat (120 * \<bar>k\<bar>) + 119) mod 4294967296 = 120 * nat \<bar>k\<bar> + 119"
    using k by (simp add: nat_mult_distrib)
  ultimately show ?thesis using assms(2) by (simp add: wheelClickCount_def max_def)
qed

lemma clicks_captured_append:
  "clicks_captured env (fakes @ fakes') =
     (fst (clicks_captured env fakes) + fst (clicks_captured env fakes'),
      snd (clicks_captured env fakes) + snd (clicks_captured env fakes'))"
  by (induction env fakes rule: clicks_captured.induct)
     (auto split: option.split input_event.split prod.split)

lemma clicks_captured_wheel:
  assumes "xe_screens env = []" "button \<in> {4, 5, 6, 7}"
  shows "clicks_captured env (wheel_clicks button n) =
    (int n * (if button = 6 then - 120 else if button = 7 then 120 else 0),
     int n * (if button = 4 then 120 else if button = 5 then - 120 else 0))"
  using assms
  by (induction n)
     (auto simp: wheel_clicks_def translateButton_def screenLocalPoint_def globalToScreen_def distrib_right)

lemma wheel_axis_sent:
  assumes "\<forall>n. xj_fakeError env n = None" "xj_flush env = None" "in_i32 (120 * k)"
  shows "wheel_axis env (120 * k) positive negative i =
    Some (None, i\<lparr>xi_sent := xi_sent i @ wheel_clicks (if k > 0 then positive else negative) (nat \<bar>k\<bar>)\<rparr>)"
  using assms(2,3)
  by (cases "k = 0") (simp_all add: wheel_axis_def wheelClickCount_multiple fakeButtonClick_def then_flush_def
      fake_clicks_sent [OF assms(1)] wheel_clicks_def)

text \<open>
  A wheel event of whole steps survives injection and capture: the clicks that are injected for it are
  captured, by another X11 host, as steps in the same directions with the same total.
\<close>

theorem x11_wheel_round_trip:
  assumes "xi_connected i" and "\<forall>n. xj_fakeError env n = None" and "xj_flush env = None"
    and "in_i32 (120 * h)" and "in_i32 (120 * v)" and "xe_screens env' = []"
  shows "\<exists>fakes. xcb_inject env (MouseWheelEvent \<lparr>mw_x = x, mw_y = y, mw_deltaX = 120 * h, mw_deltaY = 120 * v\<rparr>) i =
      Some (None, i\<lparr>xi_sent := xi_sent i @ fakes\<rparr>) \<and> clicks_captured env' fakes = (120 * h, 120 * v)"
proof -
  let ?fakes = "wheel_clicks (if v > 0 then 4 else 5) (nat \<bar>v\<bar>) @ wheel_clicks (if h > 0 then 7 else 6) (nat \<bar>h\<bar>)"
  have "xcb_inject env (MouseWheelEvent \<lparr>mw_x = x, mw_y = y, mw_deltaX = 120 * h, mw_deltaY = 120 * v\<rparr>) i =
      Some (None, i\<lparr>xi_sent := xi_sent i @ ?fakes\<rparr>)"
    using assms(1) by (simp add: xcb_inject_def wheel_axis_sent [OF assms(2,3,4)] wheel_axis_sent [OF assms(2,3,5)])
  moreover have "clicks_captured env' ?fakes = (120 * h, 120 * v)"
    using assms(6) by (simp add: clicks_captured_append clicks_captured_wheel)
  ultimately show ?thesis by blast
qed

definition demo_injection :: xcb_inject_env where
  "demo_injection =
     \<lparr>xj_connect = None, xj_testExtension = True, xj_testVersion = True, xj_keySymbols = True,
      xj_fakeError = (\<lambda>_. None), xj_flush = None, xj_screens = [], xj_xk = x11_symbol,
      xj_mapping = \<lparr>xm_symbol = (\<lambda>_. 0), xm_codes = (\<lambda>_. [])\<rparr>\<rparr>"

theorem x11_wheel_round_trip_witness:
  "\<exists>fakes. xcb_inject demo_injection (MouseWheelEvent \<lparr>mw_x = 0, mw_y = 0, mw_deltaX = 120, mw_deltaY = - 360\<rparr>)
      \<lparr>xi_connected = True, xi_keySymbols = True, xi_sent = []\<rparr> =
      Some (None, \<lparr>xi_connected = True, xi_keySymbols = True, xi_sent = fakes\<rparr>) \<and>
     clicks_captured demo_xcb fakes = (120, - 360)"
proof -
  have "in_i32 (120 * 1)" "in_i32 (120 * - 3)" by (simp_all add: in_i32_def)
  from x11_wheel_round_trip [where i = "\<lparr>xi_connected = True, xi_keySymbols = True, xi_sent = []\<rparr>"
      and env = demo_injection and env' = demo_xcb and x = 0 and y = 0, OF _ _ _ this]
  show ?thesis by (simp add: demo_injection_def demo_xcb_def)
qed

end
