(* ===== verification/Wayland_Platform.thy ===== *)
theory Wayland_Platform
  imports Key_Evdev Core_Events Cxx_Double "HOL-Library.Signed_Division"
begin

text \<open>
  The backend for compositors with the wlroots protocols, \<open>src/platform/wayland.cpp\<close>: the outputs as the
  compositor announces them, and the injector that drives a virtual pointer and a virtual keyboard. It has no
  capture.

  \<^item> An event of the compositor is a constructor of \<open>wl_event\<close>, and \<open>wl_dispatch\<close> is the listener that
    receives it. The listeners of an output get the output as their data; here it is addressed by the name
    of its global, which the compositor does not use twice.
  \<^item> The compositor and the system are foreign: \<open>wl_env\<close> and \<open>wl_inject_env\<close> hold what their calls
    answer. A request to the compositor is a constructor of \<open>wl_request\<close>; the time stamps are left out.
  \<^item> A loop that waits for the system consumes a list of answers; if they run out, it has not returned.
  \<^item> Error codes: \<open>ENOTCONN\<close> 107, \<open>EINVAL\<close> 22, \<open>EOPNOTSUPP\<close> 95, \<open>ENOMEM\<close> 12, \<open>EOVERFLOW\<close> 75,
    \<open>EIO\<close> 5, \<open>ECONNRESET\<close> 104.
\<close>

section \<open>Outputs\<close>

record wl_output =
  wo_registryName :: nat
  wo_xdg :: bool
  wo_fallbackX :: int
  wo_fallbackY :: int
  wo_physicalWidthMm :: int
  wo_physicalHeightMm :: int
  wo_modeWidth :: int
  wo_modeHeight :: int
  wo_scale :: int
  wo_transform :: int
  wo_logicalX :: int
  wo_logicalY :: int
  wo_logicalWidth :: int
  wo_logicalHeight :: int
  wo_hasLogicalPosition :: bool
  wo_hasLogicalSize :: bool
  wo_make :: string
  wo_model :: string
  wo_name :: string
  wo_description :: string

definition new_output :: "nat \<Rightarrow> wl_output" where
  "new_output name =
     \<lparr>wo_registryName = name, wo_xdg = False, wo_fallbackX = 0, wo_fallbackY = 0, wo_physicalWidthMm = 0,
      wo_physicalHeightMm = 0, wo_modeWidth = 0, wo_modeHeight = 0, wo_scale = 1, wo_transform = 0, wo_logicalX = 0,
      wo_logicalY = 0, wo_logicalWidth = 0, wo_logicalHeight = 0, wo_hasLogicalPosition = False,
      wo_hasLogicalSize = False, wo_make = [], wo_model = [], wo_name = [], wo_description = []\<rparr>"

record wl_platform =
  wp_display :: bool
  wp_registry :: bool
  wp_seat :: bool
  wp_xdgOutputManager :: bool
  wp_virtualPointerManager :: bool
  wp_virtualKeyboardManager :: bool
  wp_outputs :: "wl_output list"

definition empty_platform :: wl_platform where
  "empty_platform =
     \<lparr>wp_display = False, wp_registry = False, wp_seat = False, wp_xdgOutputManager = False,
      wp_virtualPointerManager = False, wp_virtualKeyboardManager = False, wp_outputs = []\<rparr>"

text \<open>The transformations by a quarter turn have the odd numbers.\<close>

definition rotated :: "wl_output \<Rightarrow> bool" where
  "rotated output \<longleftrightarrow> wo_transform output \<in> {1, 3, 5, 7}"

definition output_size :: "wl_output \<Rightarrow> int \<times> int" where
  "output_size output =
     (if wo_hasLogicalSize output then (wo_logicalWidth output, wo_logicalHeight output)
      else (let width = (if rotated output then wo_modeHeight output else wo_modeWidth output);
                height = (if rotated output then wo_modeWidth output else wo_modeHeight output)
            in (width sdiv max 1 (wo_scale output), height sdiv max 1 (wo_scale output))))"

definition output_name :: "(nat \<Rightarrow> string) \<Rightarrow> wl_output \<Rightarrow> nat \<Rightarrow> string" where
  "output_name fmt output index =
     (let name = (if wo_name output \<noteq> [] then wo_name output
                  else wo_make output @ (if wo_model output = [] then []
                    else (if wo_make output = [] then [] else '' '') @ wo_model output))
      in if name = [] then ''wayland-output-'' @ fmt index else name)"

definition output_dpi :: "wl_output \<Rightarrow> int" where
  "output_dpi output =
     (if wo_physicalWidthMm output > 0 \<and> wo_modeWidth output > 0
      then int32_cast (int (dbl_lround (dbl_div (dbl_mul (dbl_of_nat (nat (wo_modeWidth output))) mm_per_inch)
             (dbl_of_nat (nat (wo_physicalWidthMm output))))))
      else 72)"

definition screenInfo :: "(nat \<Rightarrow> string) \<Rightarrow> wl_output \<Rightarrow> nat \<Rightarrow> screen_info" where
  "screenInfo fmt output index =
     \<lparr>si_x = (if wo_hasLogicalPosition output then wo_logicalX output else wo_fallbackX output),
      si_y = (if wo_hasLogicalPosition output then wo_logicalY output else wo_fallbackY output),
      si_width = max 1 (fst (output_size output)), si_height = max 1 (snd (output_size output)),
      si_dpi = output_dpi output, si_name = output_name fmt output index, si_primary = (index = 0)\<rparr>"

definition wl_screens :: "(nat \<Rightarrow> string) \<Rightarrow> wl_platform \<Rightarrow> screen_info list" where
  "wl_screens fmt p = map (\<lambda>i. screenInfo fmt (wp_outputs p ! i) i) [0..<length (wp_outputs p)]"

subsection \<open>Absolute positions\<close>

record absolute_position =
  ap_x :: nat
  ap_y :: nat
  ap_width :: nat
  ap_height :: nat

text \<open>The sums of two 32-bit values and their differences are exact in 64 bits.\<close>

definition extend_bounds :: "screen_info \<Rightarrow> (int \<times> int) \<times> (int \<times> int) \<Rightarrow> (int \<times> int) \<times> (int \<times> int)" where
  "extend_bounds screen bounds =
     (case bounds of ((minX, minY), (maxX, maxY)) \<Rightarrow>
        ((min minX (si_x screen), min minY (si_y screen)),
         (max maxX (si_x screen + si_width screen), max maxY (si_y screen + si_height screen))))"

definition desktop_bounds :: "screen_info list \<Rightarrow> (int \<times> int) \<times> (int \<times> int)" where
  "desktop_bounds screens =
     fold extend_bounds screens ((2147483647, 2147483647), (- 2147483648, - 2147483648))"

definition absolutePosition :: "(nat \<Rightarrow> string) \<Rightarrow> wl_platform \<Rightarrow> nat \<Rightarrow> int \<Rightarrow> int \<Rightarrow> absolute_position option ub" where
  "absolutePosition fmt p screenIndex x y =
     (let screens = wl_screens fmt p
      in if screenIndex \<ge> length screens \<or> screens = [] then Some None
         else (let ((minX, minY), (maxX, maxY)) = desktop_bounds screens;
                   screen = screens ! screenIndex
               in do {
                 right \<leftarrow> i32 (si_width screen - 1);
                 bottom \<leftarrow> i32 (si_height screen - 1);
                 let globalX = si_x screen + std_clamp x 0 (max 0 right) - minX;
                     globalY = si_y screen + std_clamp y 0 (max 0 bottom) - minY;
                     width = std_clamp (maxX - minX) 1 4294967295;
                     height = std_clamp (maxY - minY) 1 4294967295
                 in Some (Some \<lparr>ap_x = nat (std_clamp globalX 0 (width - 1)), ap_y = nat (std_clamp globalY 0 (height - 1)),
                                ap_width = nat width, ap_height = nat height\<rparr>)
               }))"

subsection \<open>Events of the compositor\<close>

datatype wl_event =
    Global nat string
  | GlobalRemove nat
  | OutputGeometry nat int int int int "string option" "string option" int
  | OutputMode nat bool int int
  | OutputDone nat
  | OutputScale nat int
  | OutputName nat "string option"
  | OutputDescription nat "string option"
  | XdgLogicalPosition nat int int
  | XdgLogicalSize nat int int
  | XdgDone nat
  | XdgName nat "string option"
  | XdgDescription nat "string option"

text \<open>\<open>wl_bound name\<close> tells whether binding the global, and listening to it, succeeds.\<close>

record wl_env =
  wl_displayError :: "nat option"
  wl_registryOk :: bool
  wl_listenOk :: bool
  wl_bound :: "nat \<Rightarrow> bool"
  wl_attachOk :: "nat \<Rightarrow> bool"
  wl_discovered :: "nat + wl_event list"
  wl_geometry :: "nat + wl_event list"

definition text_or_empty :: "string option \<Rightarrow> string" where
  "text_or_empty s = (case s of None \<Rightarrow> [] | Some t \<Rightarrow> t)"

definition update_output :: "nat \<Rightarrow> (wl_output \<Rightarrow> wl_output) \<Rightarrow> wl_platform \<Rightarrow> wl_platform" where
  "update_output name f p =
     p\<lparr>wp_outputs := map (\<lambda>output. if wo_registryName output = name then f output else output) (wp_outputs p)\<rparr>"

definition registryGlobal :: "wl_env \<Rightarrow> nat \<Rightarrow> string \<Rightarrow> wl_platform \<Rightarrow> wl_platform" where
  "registryGlobal env name interface p =
     (if interface = ''wl_seat'' \<and> \<not> wp_seat p then p\<lparr>wp_seat := wl_bound env name\<rparr>
      else if interface = ''wl_output''
      then (if \<not> wl_bound env name then p else p\<lparr>wp_outputs := wp_outputs p @ [new_output name]\<rparr>)
      else if interface = ''zxdg_output_manager_v1'' \<and> \<not> wp_xdgOutputManager p
      then p\<lparr>wp_xdgOutputManager := wl_bound env name\<rparr>
      else if interface = ''zwlr_virtual_pointer_manager_v1'' \<and> \<not> wp_virtualPointerManager p
      then p\<lparr>wp_virtualPointerManager := wl_bound env name\<rparr>
      else if interface = ''zwp_virtual_keyboard_manager_v1'' \<and> \<not> wp_virtualKeyboardManager p
      then p\<lparr>wp_virtualKeyboardManager := wl_bound env name\<rparr>
      else p)"

fun erase_output :: "nat \<Rightarrow> wl_output list \<Rightarrow> wl_output list" where
  "erase_output name [] = []"
| "erase_output name (output # outputs) =
     (if wo_registryName output = name then outputs else output # erase_output name outputs)"

fun wl_dispatch :: "wl_env \<Rightarrow> wl_event \<Rightarrow> wl_platform \<Rightarrow> wl_platform" where
  "wl_dispatch env (Global name interface) p = registryGlobal env name interface p"
| "wl_dispatch env (GlobalRemove name) p = p\<lparr>wp_outputs := erase_output name (wp_outputs p)\<rparr>"
| "wl_dispatch env (OutputGeometry name x y widthMm heightMm mk mdl transform) p =
     update_output name (\<lambda>output. output
       \<lparr>wo_fallbackX := x, wo_fallbackY := y, wo_physicalWidthMm := widthMm, wo_physicalHeightMm := heightMm,
        wo_make := text_or_empty mk, wo_model := text_or_empty mdl, wo_transform := transform\<rparr>) p"
| "wl_dispatch env (OutputMode name current width height) p =
     (if \<not> current then p
      else update_output name (\<lambda>output. output\<lparr>wo_modeWidth := width, wo_modeHeight := height\<rparr>) p)"
| "wl_dispatch env (OutputDone name) p = p"
| "wl_dispatch env (OutputScale name scale) p = update_output name (\<lambda>output. output\<lparr>wo_scale := max 1 scale\<rparr>) p"
| "wl_dispatch env (OutputName name s) p = update_output name (\<lambda>output. output\<lparr>wo_name := text_or_empty s\<rparr>) p"
| "wl_dispatch env (OutputDescription name s) p =
     update_output name (\<lambda>output. output\<lparr>wo_description := text_or_empty s\<rparr>) p"
| "wl_dispatch env (XdgLogicalPosition name x y) p =
     update_output name (\<lambda>output. output\<lparr>wo_logicalX := x, wo_logicalY := y, wo_hasLogicalPosition := True\<rparr>) p"
| "wl_dispatch env (XdgLogicalSize name width height) p =
     update_output name (\<lambda>output. output
       \<lparr>wo_logicalWidth := width, wo_logicalHeight := height, wo_hasLogicalSize := (width > 0 \<and> height > 0)\<rparr>) p"
| "wl_dispatch env (XdgDone name) p = p"
| "wl_dispatch env (XdgName name s) p =
     update_output name (\<lambda>output. if wo_name output = [] then output\<lparr>wo_name := text_or_empty s\<rparr> else output) p"
| "wl_dispatch env (XdgDescription name s) p =
     update_output name (\<lambda>output. if wo_description output = [] then output\<lparr>wo_description := text_or_empty s\<rparr> else output) p"

text \<open>Attaching stops, with an exception, at the first output for which it fails.\<close>

fun attach_outputs :: "wl_env \<Rightarrow> bool \<Rightarrow> wl_output list \<Rightarrow> wl_output list option" where
  "attach_outputs env manager [] = Some []"
| "attach_outputs env manager (output # outputs) =
     (if \<not> manager \<or> wo_xdg output then map_option (Cons output) (attach_outputs env manager outputs)
      else if \<not> wl_attachOk env (wo_registryName output) then None
      else map_option (Cons (output\<lparr>wo_xdg := True\<rparr>)) (attach_outputs env manager outputs))"

definition attachXdgOutputs :: "wl_env \<Rightarrow> wl_platform \<Rightarrow> wl_platform option" where
  "attachXdgOutputs env p =
     map_option (\<lambda>outputs. p\<lparr>wp_outputs := outputs\<rparr>) (attach_outputs env (wp_xdgOutputManager p) (wp_outputs p))"

definition cleanup :: "wl_platform \<Rightarrow> wl_platform" where
  "cleanup p =
     p\<lparr>wp_outputs := [], wp_virtualKeyboardManager := False, wp_virtualPointerManager := False,
       wp_xdgOutputManager := False, wp_seat := False, wp_registry := False, wp_display := False\<rparr>"

definition wl_roundtrip :: "wl_env \<Rightarrow> string \<Rightarrow> nat + wl_event list \<Rightarrow> wl_platform \<Rightarrow> string + wl_platform" where
  "wl_roundtrip env operation answer p =
     (case answer of
        Inl e \<Rightarrow> Inl (''Wayland failed to '' @ operation)
      | Inr events \<Rightarrow> Inr (fold (wl_dispatch env) events p))"

text \<open>The constructor: on an exception everything is cleaned up, and no platform comes into being.\<close>

definition new_wl_platform :: "wl_env \<Rightarrow> string + wl_platform" where
  "new_wl_platform env =
     (if wl_displayError env \<noteq> None then Inl ''Failed to connect to Wayland compositor''
      else if \<not> wl_registryOk env then Inl ''Failed to get Wayland registry''
      else if \<not> wl_listenOk env then Inl ''Failed to listen to Wayland registry''
      else (case wl_roundtrip env ''discover globals'' (wl_discovered env) (empty_platform\<lparr>wp_display := True, wp_registry := True\<rparr>) of
              Inl what \<Rightarrow> Inl what
            | Inr p \<Rightarrow>
                (case attachXdgOutputs env p of
                   None \<Rightarrow> Inl ''Failed to create xdg-output object''
                 | Some p1 \<Rightarrow> wl_roundtrip env ''read output geometry'' (wl_geometry env) p1)))"

section \<open>Injection\<close>

datatype wl_axis = VerticalScroll | HorizontalScroll

datatype wl_request =
    MotionAbsolute absolute_position
  | PointerButton "32 word" bool
  | Axis wl_axis int
  | AxisDiscrete wl_axis int int
  | Frame
  | KeyRequest "32 word" bool
  | ModifiersRequest "32 word"
  | KeymapRequest nat

datatype flush_attempt = Flushed | FlushError nat | FlushBusy "nat + bool"

datatype write_attempt = Wrote nat | WroteNothing | WriteInterrupted | WriteError nat

text \<open>
  \<open>vj_fixed negative magnitude\<close> is the conversion of a double to the fixed-point format of the protocol,
  \<open>vj_modIndex\<close> the index of a modifier in the keymap, \<open>vj_code\<close> and \<open>vj_button\<close> the constants of
  \<open>linux/input-event-codes.h\<close>.
\<close>

record wl_inject_env =
  vj_pointerCreated :: bool
  vj_keyboardCreated :: bool
  vj_context :: bool
  vj_keymap :: bool
  vj_keymapText :: "nat option"
  vj_memfd :: "nat option"
  vj_writes :: "write_attempt list"
  vj_seek :: "nat option"
  vj_modIndex :: "string \<Rightarrow> nat option"
  vj_poller :: "nat option"
  vj_flushes :: "flush_attempt list"
  vj_fixed :: "bool \<Rightarrow> dbl \<Rightarrow> int"
  vj_code :: "string \<Rightarrow> 32 word"
  vj_button :: "string \<Rightarrow> 32 word"
  vj_format :: "nat \<Rightarrow> string"
  vj_platform :: wl_platform

record wl_injector =
  wj_pointer :: bool
  wj_keyboard :: bool
  wj_poller :: bool
  wj_context :: bool
  wj_keymap :: bool
  wj_shift :: "32 word"
  wj_ctrl :: "32 word"
  wj_alt :: "32 word"
  wj_logo :: "32 word"
  wj_sent :: "wl_request list"

definition wl_send :: "wl_request list \<Rightarrow> wl_injector \<Rightarrow> wl_injector" where
  "wl_send requests i = i\<lparr>wj_sent := wj_sent i @ requests\<rparr>"

definition wl_close :: "wl_injector \<Rightarrow> wl_injector" where
  "wl_close i =
     i\<lparr>wj_poller := False, wj_keyboard := False, wj_pointer := False, wj_keymap := False, wj_context := False\<rparr>"

text \<open>\<open>None\<close>: still waiting for the compositor to take the data.\<close>

fun wl_flush :: "flush_attempt list \<Rightarrow> nat option option" where
  "wl_flush [] = None"
| "wl_flush (Flushed # attempts) = Some None"
| "wl_flush (FlushError e # attempts) = Some (Some e)"
| "wl_flush (FlushBusy (Inl e) # attempts) = Some (Some e)"
| "wl_flush (FlushBusy (Inr broken) # attempts) = (if broken then Some (Some 104) else wl_flush attempts)"

fun write_keymap :: "write_attempt list \<Rightarrow> nat \<Rightarrow> nat \<Rightarrow> nat option option" where
  "write_keymap attempts written nbytes =
     (if nbytes \<le> written then Some None
      else (case attempts of
              [] \<Rightarrow> None
            | Wrote n # rest \<Rightarrow> if n = 0 then Some (Some 5) else write_keymap rest (written + n) nbytes
            | WriteInterrupted # rest \<Rightarrow> write_keymap rest written nbytes
            | WroteNothing # rest \<Rightarrow> Some (Some 5)
            | WriteError e # rest \<Rightarrow> Some (Some e)))"

declare write_keymap.simps [simp del]

definition modifierMask :: "wl_inject_env \<Rightarrow> string \<Rightarrow> 32 word" where
  "modifierMask env name =
     (case vj_modIndex env name of None \<Rightarrow> 0 | Some index \<Rightarrow> if index \<ge> 32 then 0 else push_bit index 1)"

definition createKeymap :: "wl_inject_env \<Rightarrow> wl_injector \<Rightarrow> (nat option \<times> wl_injector) option" where
  "createKeymap env i =
     (let i1 = i\<lparr>wj_context := vj_context env\<rparr>
      in if \<not> vj_context env then Some (Some 12, i1)
         else (let i2 = i1\<lparr>wj_keymap := vj_keymap env\<rparr>
               in if \<not> vj_keymap env then Some (Some 22, i2)
                  else (case vj_keymapText env of
                          None \<Rightarrow> Some (Some 12, i2)
                        | Some n \<Rightarrow>
                            if n + 1 > 4294967295 then Some (Some 75, i2)
                            else (case vj_memfd env of
                                    Some e \<Rightarrow> Some (Some e, i2)
                                  | None \<Rightarrow> do {
                                      written \<leftarrow> write_keymap (vj_writes env) 0 (n + 1);
                                      Some (case written of
                                         Some e \<Rightarrow> (Some e, i2)
                                       | None \<Rightarrow>
                                           (case vj_seek env of
                                              Some e \<Rightarrow> (Some e, i2)
                                            | None \<Rightarrow>
                                                (None, (wl_send [KeymapRequest (n + 1)] i2)
                                                   \<lparr>wj_shift := modifierMask env ''Shift'', wj_ctrl := modifierMask env ''Control'',
                                                    wj_alt := modifierMask env ''Mod1'', wj_logo := modifierMask env ''Mod4''\<rparr>)))
                                    }))))"

definition wl_initialize :: "wl_inject_env \<Rightarrow> wl_injector \<Rightarrow> (nat option \<times> wl_injector) option" where
  "wl_initialize env i =
     (let i1 = wl_close i; p = vj_platform env
      in if \<not> wp_seat p \<or> \<not> wp_virtualPointerManager p \<or> \<not> wp_virtualKeyboardManager p then Some (Some 95, i1)
         else (let i2 = i1\<lparr>wj_pointer := vj_pointerCreated env, wj_keyboard := vj_keyboardCreated env\<rparr>
               in if \<not> wj_pointer i2 \<or> \<not> wj_keyboard i2 then Some (Some 12, wl_close i2)
                  else do {
                    (keymap, i3) \<leftarrow> createKeymap env i2;
                    (case keymap of
                       Some e \<Rightarrow> Some (Some e, wl_close i3)
                     | None \<Rightarrow>
                         (case vj_poller env of
                            Some e \<Rightarrow> Some (Some e, wl_close i3)
                          | None \<Rightarrow> do {
                              flushed \<leftarrow> wl_flush (vj_flushes env);
                              Some (case flushed of
                                 Some e \<Rightarrow> (Some e, wl_close (i3\<lparr>wj_poller := True\<rparr>))
                               | None \<Rightarrow> (None, i3\<lparr>wj_poller := True\<rparr>))
                            }))
                  }))"

definition modifiersFor :: "wl_injector \<Rightarrow> key_modifier \<Rightarrow> 32 word" where
  "modifiersFor i modifiers =
     (let add = (\<lambda>left right bits m. if modifier_and modifiers (modifier_or left right) \<noteq> Mod_None then m OR bits else m)
      in add Mod_LeftMeta Mod_RightMeta (wj_logo i)
           (add Mod_LeftAlt Mod_RightAlt (wj_alt i)
             (add Mod_LeftCtrl Mod_RightCtrl (wj_ctrl i)
               (add Mod_LeftShift Mod_RightShift (wj_shift i) 0))))"

definition queuePointerPosition ::
  "wl_inject_env \<Rightarrow> nat \<Rightarrow> int \<Rightarrow> int \<Rightarrow> wl_injector \<Rightarrow> (nat option \<times> wl_injector) ub" where
  "queuePointerPosition env screenIndex x y i = do {
     position \<leftarrow> absolutePosition (vj_format env) (vj_platform env) screenIndex x y;
     Some (case position of None \<Rightarrow> (Some 22, i) | Some p \<Rightarrow> (None, wl_send [MotionAbsolute p] i))
   }"

fun pointerButton :: "wl_inject_env \<Rightarrow> mouse_button \<Rightarrow> 32 word option" where
  "pointerButton env MouseButton_Left = Some (vj_button env ''BTN_LEFT'')"
| "pointerButton env MouseButton_Right = Some (vj_button env ''BTN_RIGHT'')"
| "pointerButton env MouseButton_Middle = Some (vj_button env ''BTN_MIDDLE'')"
| "pointerButton env MouseButton_None = None"

text \<open>One axis of a wheel event: whole steps as a discrete event. \<open>d\<close> is the delta in the direction of the axis.\<close>

definition wl_axis_requests :: "wl_inject_env \<Rightarrow> wl_axis \<Rightarrow> int \<Rightarrow> wl_request list" where
  "wl_axis_requests env axis d =
     (let steps = d sdiv 120; v = vj_fixed env (d < 0) (dbl_div (dbl_of_nat (nat \<bar>d\<bar>)) (dbl_of_nat 12))
      in if steps \<noteq> 0 then [AxisDiscrete axis v steps] else [Axis axis v])"

fun wl_injectOne :: "wl_inject_env \<Rightarrow> input_event \<Rightarrow> wl_injector \<Rightarrow> (nat option \<times> wl_injector) ub" where
  "wl_injectOne env (MouseMoveEvent e) i = do {
     (error, i1) \<leftarrow> queuePointerPosition env (mv_screenIndex e) (mv_x e) (mv_y e) i;
     Some (if error \<noteq> None then (error, i1) else (None, wl_send [Frame] i1))
   }"
| "wl_injectOne env (MouseButtonEvent e) i = do {
     (error, i1) \<leftarrow> queuePointerPosition env (mb_screenIndex e) (mb_x e) (mb_y e) i;
     Some (if error \<noteq> None then (error, i1)
           else (case pointerButton env (mb_button e) of
                   None \<Rightarrow> (Some 22, i1)
                 | Some button \<Rightarrow> (None, wl_send [PointerButton button (\<not> mb_release e), Frame] i1)))
   }"
| "wl_injectOne env (MouseWheelEvent e) i = do {
     vertical \<leftarrow> (if mw_deltaY e = 0 then Some []
                   else do { d \<leftarrow> i32 (- mw_deltaY e); Some (wl_axis_requests env VerticalScroll d) });
     let horizontal = (if mw_deltaX e = 0 then [] else wl_axis_requests env HorizontalScroll (mw_deltaX e))
     in Some (None, wl_send (vertical @ horizontal @ [Frame]) i)
   }"
| "wl_injectOne env (KeyEvent e) i =
     Some (case evdevKeyCode (vj_code env) (ke_key e) of
        None \<Rightarrow> (Some 22, i)
      | Some code \<Rightarrow>
          (None, wl_send [KeyRequest code (\<not> ke_release e), ModifiersRequest (modifiersFor i (ke_modifiers e))] i))"

text \<open>The outer option is undefined behaviour, \<open>Some None\<close> a flush that still waits.\<close>

definition wl_inject :: "wl_inject_env \<Rightarrow> input_event \<Rightarrow> wl_injector \<Rightarrow> (nat option \<times> wl_injector) option ub" where
  "wl_inject env event i =
     (if \<not> wj_pointer i \<or> \<not> wj_keyboard i \<or> \<not> wj_poller i then Some (Some (Some 107, i))
      else do {
        (error, i1) \<leftarrow> wl_injectOne env event i;
        Some (if error \<noteq> None then Some (error, i1)
              else map_option (\<lambda>flushed. (flushed, i1)) (wl_flush (vj_flushes env)))
      })"

section \<open>Capture\<close>

text \<open>There is none: every operation reports so, and waiting for an event throws.\<close>

definition wl_capture_initialize :: "nat option" where "wl_capture_initialize = Some 95"

definition wl_capture_setRemote :: "bool \<Rightarrow> nat option" where "wl_capture_setRemote active = Some 95"

definition wl_capture_moveLocal :: "nat \<Rightarrow> int \<Rightarrow> int \<Rightarrow> nat option" where
  "wl_capture_moveLocal screenIndex x y = Some 95"

section \<open>Lemmas\<close>

definition output_typed :: "wl_output \<Rightarrow> bool" where
  "output_typed output \<longleftrightarrow>
     in_i32 (wo_fallbackX output) \<and> in_i32 (wo_fallbackY output) \<and> in_i32 (wo_modeWidth output) \<and>
     in_i32 (wo_modeHeight output) \<and> in_i32 (wo_logicalX output) \<and> in_i32 (wo_logicalY output) \<and>
     in_i32 (wo_logicalWidth output) \<and> in_i32 (wo_logicalHeight output)"

lemma sdiv_le:
  assumes "a \<le> m" "0 \<le> m" "1 \<le> (k :: int)"
  shows "a sdiv k \<le> m"
proof (cases "0 \<le> a")
  case True
  then have "a sdiv k = a div k" using assms(3) by (cases "a = 0") (simp_all add: signed_divide_int_def)
  also have "\<dots> \<le> a div 1" using True assms(3) by (intro zdiv_mono2) simp_all
  also have "\<dots> = a" by simp
  finally show ?thesis using assms(1) by simp
next
  case False
  then have "a sdiv k = - (\<bar>a\<bar> div k)" using assms(3) by (simp add: signed_divide_int_def)
  moreover have "0 \<le> \<bar>a\<bar> div k" using assms(3) by (simp add: pos_imp_zdiv_nonneg_iff)
  ultimately show ?thesis using assms(2) by linarith
qed

lemma screenInfo_typed:
  assumes "output_typed output"
  shows "in_i32 (si_x (screenInfo fmt output n))" "in_i32 (si_y (screenInfo fmt output n))"
    "1 \<le> si_width (screenInfo fmt output n)" "si_width (screenInfo fmt output n) \<le> 2147483647"
    "1 \<le> si_height (screenInfo fmt output n)" "si_height (screenInfo fmt output n) \<le> 2147483647"
  using assms
  by (auto simp: screenInfo_def output_size_def output_typed_def in_i32_def Let_def intro!: sdiv_le)

lemma bounds_fold:
  "fold extend_bounds screens ((a, b), (c, d)) =
     ((fold min (map si_x screens) a, fold min (map si_y screens) b),
      (fold max (map (\<lambda>s. si_x s + si_width s) screens) c, fold max (map (\<lambda>s. si_y s + si_height s) screens) d))"
  by (induction screens arbitrary: a b c d) (simp_all add: extend_bounds_def min.commute max.commute)

lemma fold_min_Min:
  assumes "xs \<noteq> []" "\<forall>x \<in> set xs. x \<le> (a :: int)"
  shows "fold min xs a = Min (set xs)"
proof -
  have "fold min xs a = Min (set (a # xs))" by (simp only: Min.set_eq_fold)
  also have "\<dots> = min a (Min (set xs))" using assms(1) by simp
  also have "\<dots> = Min (set xs)" using assms Min_in [of "set xs"] by (intro min_absorb2) auto
  finally show ?thesis .
qed

lemma fold_max_Max:
  assumes "xs \<noteq> []" "\<forall>x \<in> set xs. (a :: int) \<le> x"
  shows "fold max xs a = Max (set xs)"
proof -
  have "fold max xs a = Max (set (a # xs))" by (simp only: Max.set_eq_fold)
  also have "\<dots> = max a (Max (set xs))" using assms(1) by simp
  also have "\<dots> = Max (set xs)" using assms Max_in [of "set xs"] by (intro max_absorb2) auto
  finally show ?thesis .
qed

text \<open>The rectangle that the screens span.\<close>

definition desktop_left :: "screen_info list \<Rightarrow> int" where "desktop_left screens = Min (si_x ` set screens)"
definition desktop_top :: "screen_info list \<Rightarrow> int" where "desktop_top screens = Min (si_y ` set screens)"
definition desktop_right :: "screen_info list \<Rightarrow> int" where
  "desktop_right screens = Max ((\<lambda>s. si_x s + si_width s) ` set screens)"
definition desktop_bottom :: "screen_info list \<Rightarrow> int" where
  "desktop_bottom screens = Max ((\<lambda>s. si_y s + si_height s) ` set screens)"

lemma wl_screens_typed:
  assumes "\<forall>output \<in> set (wp_outputs p). output_typed output" "s \<in> set (wl_screens fmt p)"
  shows "in_i32 (si_x s)" "in_i32 (si_y s)" "1 \<le> si_width s" "si_width s \<le> 2147483647" "1 \<le> si_height s"
    "si_height s \<le> 2147483647"
proof -
  from assms(2) obtain n where "n < length (wp_outputs p)" "s = screenInfo fmt (wp_outputs p ! n) n"
    by (auto simp: wl_screens_def)
  with assms(1) screenInfo_typed [of "wp_outputs p ! n" fmt n]
  show "in_i32 (si_x s)" "in_i32 (si_y s)" "1 \<le> si_width s" "si_width s \<le> 2147483647" "1 \<le> si_height s"
    "si_height s \<le> 2147483647" by simp_all
qed

lemma desktop_bounds_eq:
  assumes "screens \<noteq> []"
    and "\<forall>s \<in> set screens. in_i32 (si_x s) \<and> in_i32 (si_y s) \<and> 1 \<le> si_width s \<and> 1 \<le> si_height s"
  shows "desktop_bounds screens =
    ((desktop_left screens, desktop_top screens), (desktop_right screens, desktop_bottom screens))"
proof -
  have "fold min (map si_x screens) 2147483647 = desktop_left screens"
    "fold min (map si_y screens) 2147483647 = desktop_top screens"
    "fold max (map (\<lambda>s. si_x s + si_width s) screens) (- 2147483648) = desktop_right screens"
    "fold max (map (\<lambda>s. si_y s + si_height s) screens) (- 2147483648) = desktop_bottom screens"
    using assms
    by (subst fold_min_Min fold_max_Max;
        fastforce simp: in_i32_def desktop_left_def desktop_top_def desktop_right_def desktop_bottom_def)+
  then show ?thesis by (simp add: desktop_bounds_def bounds_fold)
qed

lemma desktop_bounds_member:
  assumes "s \<in> set screens"
  shows "desktop_left screens \<le> si_x s" "desktop_top screens \<le> si_y s"
    "si_x s + si_width s \<le> desktop_right screens" "si_y s + si_height s \<le> desktop_bottom screens"
  using assms by (simp_all add: desktop_left_def desktop_top_def desktop_right_def desktop_bottom_def)

lemma axis_position:
  assumes "1 \<le> w" "left \<le> x" "x + w \<le> right"
  shows "let total = std_clamp (right - left) 1 4294967295; pos = std_clamp (x + std_clamp v 0 (max 0 (w - 1)) - left) 0 (total - 1)
    in 0 \<le> pos \<and> pos < total \<and>
       (right - left \<le> 4294967295 \<longrightarrow> total = right - left \<and> pos = x + std_clamp v 0 (w - 1) - left)"
  using assms std_clamp_bounds [of 0 "w - 1" v] by (auto simp: Let_def std_clamp_def)

lemma wl_close_closed: "wl_close i = i' \<Longrightarrow>
    \<not> wj_pointer i' \<and> \<not> wj_keyboard i' \<and> \<not> wj_poller i' \<and> \<not> wj_context i' \<and> \<not> wj_keymap i'"
  by (auto simp: wl_close_def)

lemma createKeymap_result:
  assumes "createKeymap env i = Some (r, i')"
  shows "wj_pointer i' = wj_pointer i" "wj_keyboard i' = wj_keyboard i" "r = None \<Longrightarrow> wj_keymap i' \<and> wj_context i'"
  using assms
  by (auto simp: createKeymap_def wl_send_def Let_def ub_bind_eq_Some split: if_splits option.splits)

lemma wl_flush_returns: "wl_flush attempts \<noteq> None \<longleftrightarrow> (\<exists>a \<in> set attempts. a \<noteq> FlushBusy (Inr False))"
  by (induction attempts rule: wl_flush.induct) auto

section \<open>Properties\<close>

text \<open>
  C31. The virtual pointer goes where the event says, on every arrangement of outputs: the requested position is
  inside the requested extent, without overflow, and unless the desktop is wider than 32 bits can say, the
  extent is that of the desktop and the position is the event's point, clamped to its screen, seen from the
  corner of the desktop.
\<close>

theorem wayland_position_exact:
  assumes "\<forall>output \<in> set (wp_outputs p). output_typed output" and "n < length (wp_outputs p)"
  shows "\<exists>pos. absolutePosition fmt p n x y = Some (Some pos) \<and> ap_x pos < ap_width pos \<and> ap_y pos < ap_height pos \<and>
    (let screens = wl_screens fmt p; s = screens ! n; w = desktop_right screens - desktop_left screens;
         h = desktop_bottom screens - desktop_top screens
     in (w \<le> 4294967295 \<longrightarrow> int (ap_width pos) = w \<and>
           int (ap_x pos) = si_x s + std_clamp x 0 (si_width s - 1) - desktop_left screens) \<and>
        (h \<le> 4294967295 \<longrightarrow> int (ap_height pos) = h \<and>
           int (ap_y pos) = si_y s + std_clamp y 0 (si_height s - 1) - desktop_top screens))"
proof -
  let ?screens = "wl_screens fmt p" and ?s = "wl_screens fmt p ! n"
  have len: "length ?screens = length (wp_outputs p)" by (simp add: wl_screens_def)
  with assms(2) have s: "?s \<in> set ?screens" "?screens \<noteq> []" "n < length ?screens" by auto
  note typed = wl_screens_typed [OF assms(1)]
  have bounds: "desktop_bounds ?screens =
      ((desktop_left ?screens, desktop_top ?screens), (desktop_right ?screens, desktop_bottom ?screens))"
    by (rule desktop_bounds_eq [OF s(2)]) (use typed in blast)
  have "in_i32 (si_width ?s - 1)" "in_i32 (si_height ?s - 1)" using typed [OF s(1)] by (simp_all add: in_i32_def)
  note small = this
  note X = axis_position [OF typed(3) [OF s(1)] desktop_bounds_member(1,3) [OF s(1)], where v = x, unfolded Let_def]
  note Y = axis_position [OF typed(5) [OF s(1)] desktop_bounds_member(2,4) [OF s(1)], where v = y, unfolded Let_def]
  define w h px py where "w = std_clamp (desktop_right ?screens - desktop_left ?screens) 1 4294967295"
    and "h = std_clamp (desktop_bottom ?screens - desktop_top ?screens) 1 4294967295"
    and "px = std_clamp (si_x ?s + std_clamp x 0 (max 0 (si_width ?s - 1)) - desktop_left ?screens) 0 (w - 1)"
    and "py = std_clamp (si_y ?s + std_clamp y 0 (max 0 (si_height ?s - 1)) - desktop_top ?screens) 0 (h - 1)"
  have "absolutePosition fmt p n x y =
      Some (Some \<lparr>ap_x = nat px, ap_y = nat py, ap_width = nat w, ap_height = nat h\<rparr>)"
    using s(2,3) small by (simp add: absolutePosition_def bounds Let_def w_def h_def px_def py_def not_le)
  moreover have "0 \<le> px" "px < w" "0 \<le> py" "py < h"
    using X Y by (simp_all only: w_def [symmetric] h_def [symmetric] px_def [symmetric] py_def [symmetric])
  moreover have "desktop_right ?screens - desktop_left ?screens \<le> 4294967295 \<Longrightarrow>
      w = desktop_right ?screens - desktop_left ?screens \<and> px = si_x ?s + std_clamp x 0 (si_width ?s - 1) - desktop_left ?screens"
    "desktop_bottom ?screens - desktop_top ?screens \<le> 4294967295 \<Longrightarrow>
      h = desktop_bottom ?screens - desktop_top ?screens \<and> py = si_y ?s + std_clamp y 0 (si_height ?s - 1) - desktop_top ?screens"
    using X Y by (simp_all only: w_def [symmetric] h_def [symmetric] px_def [symmetric] py_def [symmetric])
  ultimately show ?thesis
    unfolding Let_def by (intro exI [of _ "\<lparr>ap_x = nat px, ap_y = nat py, ap_width = nat w, ap_height = nat h\<rparr>"] conjI impI) simp_all
qed

definition demo_output :: "nat \<Rightarrow> int \<Rightarrow> wl_output" where
  "demo_output name x = (new_output name)\<lparr>wo_logicalX := x, wo_logicalWidth := 1920, wo_logicalHeight := 1080,
     wo_hasLogicalPosition := True, wo_hasLogicalSize := True\<rparr>"

definition demo_wayland :: wl_platform where
  "demo_wayland =
     \<lparr>wp_display = True, wp_registry = True, wp_seat = True, wp_xdgOutputManager = True,
      wp_virtualPointerManager = True, wp_virtualKeyboardManager = True,
      wp_outputs = [demo_output 5 0, demo_output 6 (- 1920)]\<rparr>"

lemma demo_wayland_outputs:
  "\<forall>output \<in> set (wp_outputs demo_wayland). output_typed output" "length (wp_outputs demo_wayland) = 2"
  by (simp_all add: demo_wayland_def demo_output_def new_output_def output_typed_def in_i32_def)

theorem wayland_position_exact_witness:
  "\<exists>pos. absolutePosition (\<lambda>_. []) demo_wayland 0 5 7 = Some (Some pos) \<and> ap_x pos < ap_width pos \<and> ap_x pos = 1925"
proof -
  have screens: "wl_screens (\<lambda>_. []) demo_wayland =
      [screenInfo (\<lambda>_. []) (demo_output 5 0) 0, screenInfo (\<lambda>_. []) (demo_output 6 (- 1920)) 1]"
    by (simp add: wl_screens_def demo_wayland_def)
  have fields: "si_x (screenInfo (\<lambda>_. []) (demo_output m z) k) = z" "si_width (screenInfo (\<lambda>_. []) (demo_output m z) k) = 1920"
    for m z k by (simp_all add: screenInfo_def demo_output_def output_size_def)
  have "desktop_left (wl_screens (\<lambda>_. []) demo_wayland) = - 1920" "desktop_right (wl_screens (\<lambda>_. []) demo_wayland) = 1920"
    by (simp_all add: screens fields desktop_left_def desktop_right_def)
  note extent = this
  have n: "0 < length (wp_outputs demo_wayland)" by (simp add: demo_wayland_outputs(2))
  obtain pos where "absolutePosition (\<lambda>_. []) demo_wayland 0 5 7 = Some (Some pos)" "ap_x pos < ap_width pos"
    "int (ap_x pos) = si_x (wl_screens (\<lambda>_. []) demo_wayland ! 0) +
      std_clamp 5 0 (si_width (wl_screens (\<lambda>_. []) demo_wayland ! 0) - 1) - desktop_left (wl_screens (\<lambda>_. []) demo_wayland)"
    using wayland_position_exact [OF demo_wayland_outputs(1) n, of "\<lambda>_. []" 5 7] extent by (auto simp: Let_def)
  moreover have "si_x (wl_screens (\<lambda>_. []) demo_wayland ! 0) = 0" "si_width (wl_screens (\<lambda>_. []) demo_wayland ! 0) = 1920"
    by (simp_all add: screens fields)
  ultimately show ?thesis by (simp add: extent)
qed

text \<open>
  Starting the injector is all or nothing: if \<open>initialize\<close> returns, then either without an error, and both
  devices, their keymap and the poller are there, or with one, and nothing is left open.
\<close>

theorem wl_start_all_or_nothing:
  assumes "wl_initialize env i = Some (r, i')"
  shows "if r = None then wj_pointer i' \<and> wj_keyboard i' \<and> wj_poller i' \<and> wj_keymap i' \<and> wj_context i'
    else \<not> wj_pointer i' \<and> \<not> wj_keyboard i' \<and> \<not> wj_poller i' \<and> \<not> wj_context i' \<and> \<not> wj_keymap i'"
proof -
  let ?i2 = "(wl_close i)\<lparr>wj_pointer := vj_pointerCreated env, wj_keyboard := vj_keyboardCreated env\<rparr>"
  let ?p = "vj_platform env"
  let ?devices = "wp_seat ?p \<and> wp_virtualPointerManager ?p \<and> wp_virtualKeyboardManager ?p \<and>
    vj_pointerCreated env \<and> vj_keyboardCreated env"
  show ?thesis
  proof (cases ?devices)
    case False
    with assms have "r \<noteq> None" "i' = wl_close i \<or> i' = wl_close ?i2"
      by (auto simp: wl_initialize_def Let_def split: if_splits)
    then show ?thesis by (auto simp: wl_close_def)
  next
    case True
    have started: "wl_initialize env i = Option.bind (createKeymap env ?i2) (\<lambda>(keymap, i3).
        case keymap of
          Some e \<Rightarrow> Some (Some e, wl_close i3)
        | None \<Rightarrow>
            (case vj_poller env of
               Some e \<Rightarrow> Some (Some e, wl_close i3)
             | None \<Rightarrow> Option.bind (wl_flush (vj_flushes env)) (\<lambda>flushed. Some
                 (case flushed of
                    Some e \<Rightarrow> (Some e, wl_close (i3\<lparr>wj_poller := True\<rparr>))
                  | None \<Rightarrow> (None, i3\<lparr>wj_poller := True\<rparr>)))))"
      using True by (simp add: wl_initialize_def Let_def)
    obtain e i3 where i3: "createKeymap env ?i2 = Some (e, i3)"
      using assms unfolding started by (cases "createKeymap env ?i2") auto
    note keymap = createKeymap_result [OF this]
    have "(\<exists>err j. r = Some err \<and> i' = wl_close j) \<or> r = None \<and> e = None \<and> i' = i3\<lparr>wj_poller := True\<rparr>"
      using assms unfolding started i3
      by (cases e; cases "vj_poller env"; auto simp: ub_bind_eq_Some split: option.splits)
    with keymap True show ?thesis by (auto simp: wl_close_def)
  qed
qed

definition demo_wl_injection :: wl_inject_env where
  "demo_wl_injection =
     \<lparr>vj_pointerCreated = True, vj_keyboardCreated = True, vj_context = True, vj_keymap = True, vj_keymapText = Some 2,
      vj_memfd = None, vj_writes = [WriteInterrupted, Wrote 1, Wrote 2], vj_seek = None, vj_modIndex = (\<lambda>_. Some 0),
      vj_poller = None, vj_flushes = [FlushBusy (Inr True)], vj_fixed = (\<lambda>_ _. 0), vj_code = linux_code,
      vj_button = (\<lambda>_. 272), vj_format = (\<lambda>_. []), vj_platform = demo_wayland\<rparr>"

definition closed_wl_injector :: wl_injector where
  "closed_wl_injector =
     \<lparr>wj_pointer = False, wj_keyboard = False, wj_poller = False, wj_context = False, wj_keymap = False, wj_shift = 0,
      wj_ctrl = 0, wj_alt = 0, wj_logo = 0, wj_sent = []\<rparr>"

theorem wl_start_all_or_nothing_witness:
  "\<exists>i. wl_initialize demo_wl_injection closed_wl_injector = Some (Some 104, i) \<and> \<not> wj_pointer i \<and> \<not> wj_poller i"
proof -
  have "write_keymap [WriteInterrupted, Wrote 1, Wrote 2] 0 3 = Some None" by (simp add: write_keymap.simps)
  then obtain i where "wl_initialize demo_wl_injection closed_wl_injector = Some (Some 104, i)"
    by (simp add: wl_initialize_def demo_wl_injection_def demo_wayland_def closed_wl_injector_def wl_close_def
        createKeymap_def Let_def)
  with wl_start_all_or_nothing show ?thesis by fastforce
qed

end
