(* ===== verification/Portal_Platform.thy ===== *)
theory Portal_Platform
  imports Key_Evdev Core_Events Cxx_Double
begin

text \<open>
  The backend for desktop portals, \<open>src/platform/wayland_portal.cpp\<close>: capture through pointer barriers and
  libei events, and injection through emulated libei devices.

  \<^item> The portal, libei and D-Bus are foreign: the records \<open>portal_env\<close> and \<open>remote_env\<close> hold what their
    calls answer. A libei event is a constructor of \<open>ei_event\<close>, a call that leaves the program one of
    \<open>portal_call\<close> and \<open>ei_request\<close>. The screens of the platform, which capture and injector share, are a
    field of each.
  \<^item> Coordinates are doubles, the theory \<open>Cxx_Double\<close>; a conversion to an integer that does not fit is
    undefined. The accuracy of \<open>std::hypot\<close> is left to the implementation: it is a parameter.
  \<^item> A loop that waits for the system consumes a list of rounds; if they run out, it still waits.
  \<^item> The mutex is left out: each function that takes it is one step. Error codes: \<open>ENOTCONN\<close> 107,
    \<open>EINVAL\<close> 22, \<open>EOPNOTSUPP\<close> 95, \<open>ENOMEM\<close> 12, \<open>EIO\<close> 5, \<open>ECANCELED\<close> 125, \<open>EACCES\<close> 13,
    \<open>ENODEV\<close> 19, \<open>ECONNREFUSED\<close> 111, \<open>ECONNRESET\<close> 104.
\<close>

section \<open>Errors\<close>

datatype g_error =
    IoCancelled | IoPermissionDenied | DBusAccessDenied | DBusAuthFailed | IoNotSupported | DBusUnknownMethod
  | DBusUnknownInterface | OtherError

definition portalError :: "g_error option \<Rightarrow> nat" where
  "portalError error =
     (case error of
        None \<Rightarrow> 5
      | Some e \<Rightarrow>
          if e = IoCancelled then 125
          else if e \<in> {IoPermissionDenied, DBusAccessDenied, DBusAuthFailed} then 13
          else if e \<in> {IoNotSupported, DBusUnknownMethod, DBusUnknownInterface} then 95
          else 5)"

section \<open>Screens and coordinates\<close>

record local_point =
  lp_screenIndex :: nat
  lp_x :: int
  lp_y :: int

definition updateScreens :: "screen_info list \<Rightarrow> screen_info list \<Rightarrow> screen_info list" where
  "updateScreens screens old = (if screens = [] then old else screens)"

definition portal_inside :: "screen_info \<Rightarrow> sdbl \<Rightarrow> sdbl \<Rightarrow> bool ub" where
  "portal_inside s x y =
     (if sdbl_less x (sdbl_of_int (si_x s)) \<or> sdbl_less y (sdbl_of_int (si_y s)) then Some False
      else do {
        right \<leftarrow> i32 (si_x s + si_width s);
        if \<not> sdbl_less x (sdbl_of_int right) then Some False
        else do {
          bottom \<leftarrow> i32 (si_y s + si_height s);
          Some (sdbl_less y (sdbl_of_int bottom))
        }
      })"

fun portal_find :: "screen_info list \<Rightarrow> nat \<Rightarrow> sdbl \<Rightarrow> sdbl \<Rightarrow> (nat \<times> screen_info) option ub" where
  "portal_find [] index x y = Some None"
| "portal_find (s # ss) index x y = do {
     inside \<leftarrow> portal_inside s x y;
     if inside then Some (Some (index, s)) else portal_find ss (index + 1) x y
   }"

definition dbl_less :: "dbl \<Rightarrow> dbl \<Rightarrow> bool" where
  "dbl_less a b \<longleftrightarrow> fst a * 2 ^ snd b < fst b * 2 ^ snd a"

definition last_pixel :: "int \<Rightarrow> int \<Rightarrow> int ub" where
  "last_pixel start extent = do { stop \<leftarrow> i32 (start + extent); i32 (stop - 1) }"

fun portal_nearest ::
  "(sdbl \<Rightarrow> sdbl \<Rightarrow> dbl) \<Rightarrow> screen_info list \<Rightarrow> nat \<Rightarrow> sdbl \<Rightarrow> sdbl \<Rightarrow> nat \<Rightarrow> dbl \<Rightarrow> nat ub" where
  "portal_nearest hypot [] index x y best bestDistance = Some best"
| "portal_nearest hypot (s # ss) index x y best bestDistance = do {
     right \<leftarrow> last_pixel (si_x s) (si_width s);
     bottom \<leftarrow> last_pixel (si_y s) (si_height s);
     let localX = sdbl_clamp x (sdbl_of_int (si_x s)) (sdbl_of_int right);
         localY = sdbl_clamp y (sdbl_of_int (si_y s)) (sdbl_of_int bottom);
         distance = hypot (sdbl_sub x localX) (sdbl_sub y localY)
     in if dbl_less distance bestDistance then portal_nearest hypot ss (index + 1) x y index distance
        else portal_nearest hypot ss (index + 1) x y best bestDistance
   }"

text \<open>The greatest finite double.\<close>

definition dbl_max :: dbl where
  "dbl_max = ((2 ^ 53 - 1) * 2 ^ 971, 0)"

definition clamp_pixel :: "sdbl \<Rightarrow> int \<Rightarrow> int \<Rightarrow> int ub" where
  "clamp_pixel v start extent = do {
     whole \<leftarrow> i64 (sdbl_lround v);
     offset \<leftarrow> i32 (int32_cast whole - start);
     hi \<leftarrow> i32 (extent - 1);
     Some (std_clamp offset 0 hi)
   }"

definition portal_globalToLocal ::
  "(sdbl \<Rightarrow> sdbl \<Rightarrow> dbl) \<Rightarrow> screen_info list \<Rightarrow> sdbl \<Rightarrow> sdbl \<Rightarrow> local_point option ub" where
  "portal_globalToLocal hypot screens x y =
     (if screens = [] then Some None
      else do {
        found \<leftarrow> portal_find screens 0 x y;
        (case found of
           Some (index, s) \<Rightarrow> do {
             px \<leftarrow> i32 (sdbl_floor (sdbl_sub x (sdbl_of_int (si_x s))));
             py \<leftarrow> i32 (sdbl_floor (sdbl_sub y (sdbl_of_int (si_y s))));
             Some (Some \<lparr>lp_screenIndex = index, lp_x = px, lp_y = py\<rparr>)
           }
         | None \<Rightarrow> do {
             best \<leftarrow> portal_nearest hypot screens 0 x y 0 dbl_max;
             px \<leftarrow> clamp_pixel x (si_x (screens ! best)) (si_width (screens ! best));
             py \<leftarrow> clamp_pixel y (si_y (screens ! best)) (si_height (screens ! best));
             Some (Some \<lparr>lp_screenIndex = best, lp_x = px, lp_y = py\<rparr>)
           })
      })"

definition pixel_at :: "int \<Rightarrow> int \<Rightarrow> int \<Rightarrow> int ub" where
  "pixel_at start extent v = do { hi \<leftarrow> i32 (extent - 1); i32 (start + std_clamp v 0 hi) }"

definition portal_localToGlobal :: "screen_info list \<Rightarrow> nat \<Rightarrow> int \<Rightarrow> int \<Rightarrow> (sdbl \<times> sdbl) option ub" where
  "portal_localToGlobal screens screenIndex x y =
     (if screenIndex \<ge> length screens then Some None
      else do {
        gx \<leftarrow> pixel_at (si_x (screens ! screenIndex)) (si_width (screens ! screenIndex)) x;
        gy \<leftarrow> pixel_at (si_y (screens ! screenIndex)) (si_height (screens ! screenIndex)) y;
        Some (Some (sdbl_of_int gx, sdbl_of_int gy))
      })"

section \<open>Capture\<close>

subsection \<open>Barriers\<close>

text \<open>A zone: its corner and its unsigned size.\<close>

type_synonym zone = "int \<times> int \<times> nat \<times> nat"

fun zone_screens :: "(nat \<Rightarrow> string) \<Rightarrow> zone list \<Rightarrow> nat \<Rightarrow> screen_info list" where
  "zone_screens fmt [] index = []"
| "zone_screens fmt ((x, y, width, height) # zones) index =
     (if width = 0 \<or> height = 0 then zone_screens fmt zones index
      else \<lparr>si_x = x, si_y = y, si_width = int (min width 2147483647), si_height = int (min height 2147483647),
            si_dpi = 72, si_name = ''portal-zone-'' @ fmt index, si_primary = (index = 0)\<rparr>
           # zone_screens fmt zones (index + 1))"

definition zoneScreens :: "(nat \<Rightarrow> string) \<Rightarrow> zone list \<Rightarrow> screen_info list" where
  "zoneScreens fmt zones = zone_screens fmt zones 0"

record barrier =
  br_id :: nat
  br_x1 :: int
  br_y1 :: int
  br_x2 :: int
  br_y2 :: int

definition barrier_specs :: "nat \<Rightarrow> screen_info \<Rightarrow> barrier list ub" where
  "barrier_specs first s = do {
     lastX \<leftarrow> last_pixel (si_x s) (si_width s);
     lastY \<leftarrow> last_pixel (si_y s) (si_height s);
     right \<leftarrow> i32 (si_x s + si_width s);
     bottom \<leftarrow> i32 (si_y s + si_height s);
     Some
       [\<lparr>br_id = first, br_x1 = si_x s, br_y1 = si_y s, br_x2 = si_x s, br_y2 = lastY\<rparr>,
        \<lparr>br_id = first + 1, br_x1 = right, br_y1 = si_y s, br_x2 = right, br_y2 = lastY\<rparr>,
        \<lparr>br_id = first + 2, br_x1 = si_x s, br_y1 = si_y s, br_x2 = lastX, br_y2 = si_y s\<rparr>,
        \<lparr>br_id = first + 3, br_x1 = si_x s, br_y1 = bottom, br_x2 = lastX, br_y2 = bottom\<rparr>]
   }"

fun all_barriers :: "nat \<Rightarrow> screen_info list \<Rightarrow> barrier list ub" where
  "all_barriers first [] = Some []"
| "all_barriers first (s # ss) = do {
     specs \<leftarrow> barrier_specs first s;
     rest \<leftarrow> all_barriers (first + 4) ss;
     Some (specs @ rest)
   }"

record barrier_setup =
  bs_screens :: "screen_info list"
  bs_barriers :: "barrier list"
  bs_active :: nat

text \<open>
  \<open>pe_made\<close> tells for which identifier the barrier object is made, \<open>pe_barrierError\<close> whether the portal
  rejects the list, \<open>pe_barrierActive\<close> which barriers it then reports as active.
\<close>

record portal_env =
  pe_format :: "nat \<Rightarrow> string"
  pe_hypot :: "sdbl \<Rightarrow> sdbl \<Rightarrow> dbl"
  pe_cancellable :: bool
  pe_session :: "g_error option + unit"
  pe_zones :: "zone list"
  pe_made :: "nat \<Rightarrow> bool"
  pe_barrierError :: "g_error option"
  pe_barrierActive :: "nat \<Rightarrow> bool"
  pe_eis :: "g_error option + unit"
  pe_receiver :: bool
  pe_setup :: "nat option"
  pe_poller :: "nat option"
  pe_code :: "string \<Rightarrow> 32 word"
  pe_button :: "string \<Rightarrow> 32 word"

definition configureBarriers :: "portal_env \<Rightarrow> (nat + barrier_setup) ub" where
  "configureBarriers env =
     (let screens = zoneScreens (pe_format env) (pe_zones env)
      in do {
        specs \<leftarrow> all_barriers 1 screens;
        let barriers = filter (\<lambda>b. pe_made env (br_id b)) specs;
            count = length (filter (\<lambda>b. pe_barrierActive env (br_id b)) barriers)
        in Some
          (if barriers = [] then Inl 19
           else (case pe_barrierError env of
                   Some e \<Rightarrow> Inl (portalError (Some e))
                 | None \<Rightarrow>
                     if count = 0 then Inl 95
                     else Inr \<lparr>bs_screens = screens, bs_barriers = barriers, bs_active = count\<rparr>))
      })"

subsection \<open>State\<close>

datatype portal_call = EnableSession | ReleaseAt nat sdbl sdbl | DisableSession | CloseSession

record portal_capture =
  pc_screens :: "screen_info list"
  pc_events :: "input_event list"
  pc_globalX :: sdbl
  pc_globalY :: sdbl
  pc_activationId :: nat
  pc_modifiers :: key_modifier
  pc_active :: bool
  pc_closed :: bool
  pc_session :: bool
  pc_cancellable :: bool
  pc_ei :: bool
  pc_poller :: bool
  pc_signals :: bool
  pc_barriers :: "barrier list"
  pc_calls :: "portal_call list"

definition portal_call :: "portal_call list \<Rightarrow> portal_capture \<Rightarrow> portal_capture" where
  "portal_call calls c = c\<lparr>pc_calls := pc_calls c @ calls\<rparr>"

text \<open>A fresh \<open>CaptureState\<close>; the members of the capture itself are kept.\<close>

definition new_capture_state :: "portal_capture \<Rightarrow> portal_capture" where
  "new_capture_state c =
     c\<lparr>pc_events := [], pc_globalX := (0, 0), pc_globalY := (0, 0), pc_activationId := 0, pc_modifiers := Mod_None,
       pc_active := False, pc_closed := False\<rparr>"

definition new_portal_capture :: "screen_info list \<Rightarrow> portal_capture" where
  "new_portal_capture screens =
     \<lparr>pc_screens = screens, pc_events = [], pc_globalX = (0, 0), pc_globalY = (0, 0), pc_activationId = 0,
      pc_modifiers = Mod_None, pc_active = False, pc_closed = False, pc_session = False, pc_cancellable = False,
      pc_ei = False, pc_poller = False, pc_signals = False, pc_barriers = [], pc_calls = []\<rparr>"

subsection \<open>Signals of the portal\<close>

definition captureActivated :: "nat \<Rightarrow> (sdbl \<times> sdbl) option \<Rightarrow> portal_capture \<Rightarrow> portal_capture" where
  "captureActivated activationId position c =
     (let c1 = c\<lparr>pc_activationId := activationId, pc_active := True\<rparr>
      in case position of None \<Rightarrow> c1 | Some (x, y) \<Rightarrow> c1\<lparr>pc_globalX := x, pc_globalY := y\<rparr>)"

definition captureDeactivated :: "nat \<Rightarrow> portal_capture \<Rightarrow> portal_capture" where
  "captureDeactivated activationId c =
     (if pc_activationId c = activationId then c\<lparr>pc_activationId := 0, pc_active := False\<rparr> else c)"

definition captureDisabled :: "portal_capture \<Rightarrow> portal_capture" where
  "captureDisabled c = c\<lparr>pc_activationId := 0, pc_active := False\<rparr>"

definition captureZonesChanged :: "(nat \<Rightarrow> string) \<Rightarrow> zone list \<Rightarrow> portal_capture \<Rightarrow> portal_capture" where
  "captureZonesChanged fmt zones c = c\<lparr>pc_screens := updateScreens (zoneScreens fmt zones) (pc_screens c)\<rparr>"

subsection \<open>Start and stop\<close>

definition portal_close :: "portal_capture \<Rightarrow> portal_capture" where
  "portal_close c =
     (let c1 = c\<lparr>pc_closed := True, pc_active := False, pc_poller := False\<rparr>;
          c2 = (if pc_session c1 then portal_call [DisableSession, CloseSession] (c1\<lparr>pc_signals := False\<rparr>) else c1)
      in c2\<lparr>pc_ei := False, pc_barriers := [], pc_session := False, pc_cancellable := False\<rparr>)"

definition portal_initialize :: "portal_env \<Rightarrow> portal_capture \<Rightarrow> (nat option \<times> portal_capture) ub" where
  "portal_initialize env c =
     (let c1 = (new_capture_state (portal_close c))\<lparr>pc_cancellable := pe_cancellable env\<rparr>
      in if \<not> pe_cancellable env then Some (Some 12, c1)
         else (case pe_session env of
                 Inl e \<Rightarrow> Some (Some (portalError e), portal_close c1)
               | Inr _ \<Rightarrow>
                   (let c2 = c1\<lparr>pc_session := True, pc_signals := True\<rparr>
                    in do {
                      configured \<leftarrow> configureBarriers env;
                      Some (case configured of
                         Inl e \<Rightarrow> (Some e, portal_close c2)
                       | Inr conf \<Rightarrow>
                           (let c3 = c2\<lparr>pc_screens := updateScreens (bs_screens conf) (pc_screens c2),
                                        pc_barriers := bs_barriers conf\<rparr>
                            in case pe_eis env of
                                 Inl e \<Rightarrow> (Some (portalError e), portal_close c3)
                               | Inr _ \<Rightarrow>
                                   if \<not> pe_receiver env then (Some 12, portal_close c3)
                                   else (let c4 = c3\<lparr>pc_ei := True\<rparr>
                                         in case pe_setup env of
                                              Some e \<Rightarrow> (Some e, portal_close c4)
                                            | None \<Rightarrow>
                                                (case pe_poller env of
                                                   Some e \<Rightarrow> (Some e, portal_close c4)
                                                 | None \<Rightarrow> (None, portal_call [EnableSession] (c4\<lparr>pc_poller := True\<rparr>))))))
                    })))"

subsection \<open>Events of libei\<close>

datatype ei_event =
    SeatAdded
  | PointerMotion sdbl sdbl
  | PointerMotionAbsolute sdbl sdbl
  | ButtonButton "32 word" bool
  | ScrollDiscrete int int
  | ScrollDelta sdbl sdbl
  | KeyboardKey "32 word" bool
  | EiDisconnect
  | EiOther

text \<open>The modifiers that count as such.\<close>

definition portal_keyModifierFor :: "key \<Rightarrow> key_modifier" where
  "portal_keyModifierFor k =
     (if k = Key_LeftCtrl then Mod_LeftCtrl
      else if k = Key_RightCtrl then Mod_RightCtrl
      else if k = Key_LeftShift then Mod_LeftShift
      else if k = Key_RightShift then Mod_RightShift
      else if k = Key_LeftAlt then Mod_LeftAlt
      else if k = Key_RightAlt then Mod_RightAlt
      else if k = Key_LeftMeta then Mod_LeftMeta
      else if k = Key_RightMeta then Mod_RightMeta
      else Mod_None)"

definition portal_pointerButton :: "(string \<Rightarrow> 32 word) \<Rightarrow> 32 word \<Rightarrow> mouse_button" where
  "portal_pointerButton button code =
     (if code = button ''BTN_LEFT'' then MouseButton_Left
      else if code = button ''BTN_RIGHT'' then MouseButton_Right
      else if code = button ''BTN_MIDDLE'' then MouseButton_Middle
      else MouseButton_None)"

definition evdevButton :: "(string \<Rightarrow> 32 word) \<Rightarrow> mouse_button \<Rightarrow> 32 word option" where
  "evdevButton button b =
     (case b of
        MouseButton_Left \<Rightarrow> Some (button ''BTN_LEFT'')
      | MouseButton_Right \<Rightarrow> Some (button ''BTN_RIGHT'')
      | MouseButton_Middle \<Rightarrow> Some (button ''BTN_MIDDLE'')
      | MouseButton_None \<Rightarrow> None)"

definition portal_queue :: "input_event \<Rightarrow> portal_capture \<Rightarrow> portal_capture" where
  "portal_queue event c = c\<lparr>pc_events := pc_events c @ [event]\<rparr>"

definition pointerPoint :: "portal_env \<Rightarrow> portal_capture \<Rightarrow> local_point option ub" where
  "pointerPoint env c = portal_globalToLocal (pe_hypot env) (pc_screens c) (pc_globalX c) (pc_globalY c)"

definition lround32 :: "sdbl \<Rightarrow> int ub" where
  "lround32 v = do { whole \<leftarrow> i64 (sdbl_lround v); Some (int32_cast whole) }"

definition queue_at :: "portal_env \<Rightarrow> (local_point \<Rightarrow> input_event ub) \<Rightarrow> portal_capture \<Rightarrow> portal_capture ub" where
  "queue_at env event c = do {
     point \<leftarrow> pointerPoint env c;
     (case point of None \<Rightarrow> Some c | Some p \<Rightarrow> do { e \<leftarrow> event p; Some (portal_queue e c) })
   }"

definition track_modifier :: "key \<Rightarrow> bool \<Rightarrow> key_modifier \<Rightarrow> key_modifier" where
  "track_modifier k release m =
     (let flag = portal_keyModifierFor k
      in if flag = Mod_None then m
         else if release then modifier_and m (modifier_not flag) else modifier_or m flag)"

fun portal_process :: "portal_env \<Rightarrow> ei_event \<Rightarrow> portal_capture \<Rightarrow> portal_capture ub" where
  "portal_process env SeatAdded c = Some c"
| "portal_process env (PointerMotion dx dy) c =
     queue_at env (\<lambda>p. do {
       deltaX \<leftarrow> lround32 dx;
       deltaY \<leftarrow> lround32 dy;
       Some (MouseMoveEvent \<lparr>mv_x = lp_x p, mv_y = lp_y p, mv_screenIndex = lp_screenIndex p,
                             mv_deltaX = deltaX, mv_deltaY = deltaY\<rparr>)
     }) (c\<lparr>pc_globalX := sdbl_add (pc_globalX c) dx, pc_globalY := sdbl_add (pc_globalY c) dy\<rparr>)"
| "portal_process env (PointerMotionAbsolute x y) c =
     queue_at env (\<lambda>p. Some (MouseMoveEvent
       \<lparr>mv_x = lp_x p, mv_y = lp_y p, mv_screenIndex = lp_screenIndex p, mv_deltaX = 0, mv_deltaY = 0\<rparr>))
       (c\<lparr>pc_globalX := x, pc_globalY := y\<rparr>)"
| "portal_process env (ButtonButton code press) c =
     (let button = portal_pointerButton (pe_button env) code
      in if button = MouseButton_None then map_option (\<lambda>_. c) (pointerPoint env c)
         else queue_at env (\<lambda>p. Some (MouseButtonEvent
           \<lparr>mb_x = lp_x p, mb_y = lp_y p, mb_screenIndex = lp_screenIndex p, mb_button = button, mb_release = (\<not> press)\<rparr>)) c)"
| "portal_process env (ScrollDiscrete dx dy) c =
     queue_at env (\<lambda>p. do {
       deltaY \<leftarrow> i32 (- dy);
       Some (MouseWheelEvent \<lparr>mw_x = lp_x p, mw_y = lp_y p, mw_deltaX = dx, mw_deltaY = deltaY\<rparr>)
     }) c"
| "portal_process env (ScrollDelta dx dy) c =
     queue_at env (\<lambda>p. do {
       deltaX \<leftarrow> lround32 (sdbl_mul dx (12, 0));
       deltaY \<leftarrow> lround32 (sdbl_mul (sdbl_neg dy) (12, 0));
       Some (MouseWheelEvent \<lparr>mw_x = lp_x p, mw_y = lp_y p, mw_deltaX = deltaX, mw_deltaY = deltaY\<rparr>)
     }) c"
| "portal_process env (KeyboardKey native press) c =
     (let k = keyFromEvdev (pe_code env) native
      in Some (if k = Key_None then c
               else (let m = track_modifier k (\<not> press) (pc_modifiers c)
                     in portal_queue (KeyEvent \<lparr>ke_key = k, ke_modifiers = m, ke_nativeCode = native, ke_repeat = False,
                                                ke_release = (\<not> press)\<rparr>) (c\<lparr>pc_modifiers := m\<rparr>))))"
| "portal_process env EiDisconnect c = Some (c\<lparr>pc_closed := True\<rparr>)"
| "portal_process env EiOther c = Some c"

fun portal_process_all :: "portal_env \<Rightarrow> ei_event list \<Rightarrow> portal_capture \<Rightarrow> portal_capture ub" where
  "portal_process_all env [] c = Some c"
| "portal_process_all env (e # es) c = do { c1 \<leftarrow> portal_process env e c; portal_process_all env es c1 }"

definition portal_dispatchEi :: "portal_env \<Rightarrow> ei_event list \<Rightarrow> portal_capture \<Rightarrow> portal_capture ub" where
  "portal_dispatchEi env events c = (if \<not> pc_ei c then Some c else portal_process_all env events c)"

text \<open>
  One round of \<open>nextEvent\<close>: the events that libei has, then either a result or a wait for the socket, with
  an error, a broken connection, or readiness.
\<close>

datatype portal_next = NextEvent input_event | NextThrows nat | StillWaiting

fun portal_nextEvent ::
  "portal_env \<Rightarrow> (ei_event list \<times> (nat + bool)) list \<Rightarrow> portal_capture \<Rightarrow> (portal_next \<times> portal_capture) ub" where
  "portal_nextEvent env [] c = Some (StillWaiting, c)"
| "portal_nextEvent env ((events, polled) # rounds) c = do {
     c1 \<leftarrow> portal_dispatchEi env events c;
     (case pc_events c1 of
        e # es \<Rightarrow> Some (NextEvent e, c1\<lparr>pc_events := es\<rparr>)
      | [] \<Rightarrow>
          if pc_closed c1 then Some (NextThrows 107, c1)
          else (case polled of
                  Inl err \<Rightarrow> Some (NextThrows err, c1)
                | Inr broken \<Rightarrow> if broken then Some (NextThrows 104, c1) else portal_nextEvent env rounds c1))
   }"

definition portal_setRemoteControlActive :: "bool \<Rightarrow> portal_capture \<Rightarrow> nat option" where
  "portal_setRemoteControlActive active c = (if \<not> pc_session c then Some 107 else None)"

definition portal_moveLocalCursor ::
  "nat \<Rightarrow> int \<Rightarrow> int \<Rightarrow> portal_capture \<Rightarrow> (nat option \<times> portal_capture) ub" where
  "portal_moveLocalCursor screenIndex x y c =
     (if \<not> pc_session c then Some (Some 107, c)
      else do {
        position \<leftarrow> portal_localToGlobal (pc_screens c) screenIndex x y;
        Some (case position of
           None \<Rightarrow> (Some 22, c)
         | Some (gx, gy) \<Rightarrow>
             (let c1 = c\<lparr>pc_globalX := gx, pc_globalY := gy, pc_active := False, pc_activationId := 0\<rparr>
              in (None, if pc_activationId c = 0 then c1 else portal_call [ReleaseAt (pc_activationId c) gx gy] c1)))
      })"

section \<open>Injection\<close>

datatype ei_capability = CapPointer | CapPointerAbsolute | CapButton | CapScroll | CapKeyboard

record ei_device =
  dv_object :: nat
  dv_resumed :: bool
  dv_emulating :: bool

datatype ei_request =
    StartEmulating nat "32 word"
  | StopEmulating nat
  | EiMotionAbsolute nat sdbl sdbl
  | EiButton nat "32 word" bool
  | EiScrollDiscrete nat int int
  | EiKey nat "32 word" bool
  | EiFrame nat

datatype ei_device_event =
    DevSeatAdded | DeviceAdded nat | DeviceResumed nat | DevicePaused nat | DeviceRemoved nat | DevDisconnect | DevOther

text \<open>
  \<open>re_has\<close> are the capabilities of a device, \<open>re_regions\<close> its regions (corner and size, unsigned, and
  physical scale), \<open>re_granted\<close> the devices that the user has granted: pointer and keyboard. A round of the
  start is the events that libei has and the outcome of waiting for more.
\<close>

type_synonym region = "(nat \<times> nat \<times> nat \<times> nat) \<times> sdbl"

record remote_env =
  me_format :: "nat \<Rightarrow> string"
  me_has :: "nat \<Rightarrow> ei_capability \<Rightarrow> bool"
  me_regions :: "nat \<Rightarrow> region list"
  me_cancellable :: bool
  me_session :: "g_error option + unit"
  me_start :: "g_error option + unit"
  me_granted :: "bool \<times> bool"
  me_eis :: "g_error option + unit"
  me_sender :: bool
  me_setup :: "nat option"
  me_poller :: "nat option"
  me_code :: "string \<Rightarrow> 32 word"
  me_button :: "string \<Rightarrow> 32 word"

record portal_injector =
  pj_screens :: "screen_info list"
  pj_session :: bool
  pj_cancellable :: bool
  pj_ei :: bool
  pj_poller :: bool
  pj_devices :: "ei_device list"
  pj_sequence :: "32 word"
  pj_disconnected :: bool
  pj_sent :: "ei_request list"

definition ei_send :: "ei_request list \<Rightarrow> portal_injector \<Rightarrow> portal_injector" where
  "ei_send requests i = i\<lparr>pj_sent := pj_sent i @ requests\<rparr>"

definition pinjector_close :: "portal_injector \<Rightarrow> portal_injector" where
  "pinjector_close i =
     (ei_send (map (\<lambda>d. StopEmulating (dv_object d)) (filter dv_emulating (pj_devices i))) i)
       \<lparr>pj_poller := False, pj_devices := [], pj_ei := False, pj_session := False, pj_cancellable := False,
        pj_disconnected := False\<rparr>"

definition device :: "remote_env \<Rightarrow> ei_capability \<Rightarrow> portal_injector \<Rightarrow> nat option" where
  "device env capability i =
     map_option dv_object (find (\<lambda>d. dv_resumed d \<and> me_has env (dv_object d) capability) (pj_devices i))"

definition ready :: "remote_env \<Rightarrow> portal_injector \<Rightarrow> bool" where
  "ready env i \<longleftrightarrow>
     device env CapPointerAbsolute i \<noteq> None \<and> device env CapButton i \<noteq> None \<and> device env CapScroll i \<noteq> None \<and>
     device env CapKeyboard i \<noteq> None"

text \<open>The device that \<open>findDevice\<close> finds, the first with this object, is changed or erased.\<close>

fun update_device :: "nat \<Rightarrow> (ei_device \<Rightarrow> ei_device) \<Rightarrow> ei_device list \<Rightarrow> ei_device list" where
  "update_device object f [] = []"
| "update_device object f (d # ds) = (if dv_object d = object then f d # ds else d # update_device object f ds)"

fun erase_device :: "nat \<Rightarrow> ei_device list \<Rightarrow> ei_device list" where
  "erase_device object [] = []"
| "erase_device object (d # ds) = (if dv_object d = object then ds else d # erase_device object ds)"

definition findDevice :: "nat \<Rightarrow> portal_injector \<Rightarrow> ei_device option" where
  "findDevice object i = find (\<lambda>d. dv_object d = object) (pj_devices i)"

fun device_event :: "ei_device_event \<Rightarrow> portal_injector \<Rightarrow> portal_injector" where
  "device_event DevSeatAdded i = i"
| "device_event (DeviceAdded object) i =
     i\<lparr>pj_devices := pj_devices i @ [\<lparr>dv_object = object, dv_resumed = False, dv_emulating = False\<rparr>]\<rparr>"
| "device_event (DeviceResumed object) i =
     (case findDevice object i of
        None \<Rightarrow> i
      | Some d \<Rightarrow>
          if dv_emulating d then i\<lparr>pj_devices := update_device object (\<lambda>d. d\<lparr>dv_resumed := True\<rparr>) (pj_devices i)\<rparr>
          else (ei_send [StartEmulating object (pj_sequence i)] i)
                 \<lparr>pj_devices := update_device object (\<lambda>d. d\<lparr>dv_resumed := True, dv_emulating := True\<rparr>) (pj_devices i),
                  pj_sequence := pj_sequence i + 1\<rparr>)"
| "device_event (DevicePaused object) i =
     i\<lparr>pj_devices := update_device object (\<lambda>d. d\<lparr>dv_resumed := False, dv_emulating := False\<rparr>) (pj_devices i)\<rparr>"
| "device_event (DeviceRemoved object) i = i\<lparr>pj_devices := erase_device object (pj_devices i)\<rparr>"
| "device_event DevDisconnect i = i\<lparr>pj_disconnected := True\<rparr>"
| "device_event DevOther i = i"

definition pinjector_dispatchEi :: "ei_device_event list \<Rightarrow> portal_injector \<Rightarrow> portal_injector" where
  "pinjector_dispatchEi events i = (if \<not> pj_ei i then i else fold device_event events i)"

text \<open>The regions become screens, each once.\<close>

fun region_screens ::
  "(nat \<Rightarrow> string) \<Rightarrow> region list \<Rightarrow> (nat \<times> nat \<times> nat \<times> nat) list \<Rightarrow> screen_info list \<Rightarrow> screen_info list ub" where
  "region_screens fmt [] seen screens = Some screens"
| "region_screens fmt ((rect, scale) # regions) seen screens =
     (case rect of (x, y, width, height) \<Rightarrow>
        if width = 0 \<or> height = 0 \<or> List.member seen rect then region_screens fmt regions seen screens
        else do {
          dpi \<leftarrow> lround32 (sdbl_mul (72, 0) scale);
          region_screens fmt regions (seen @ [rect])
            (screens @ [\<lparr>si_x = int32_cast (int x), si_y = int32_cast (int y), si_width = int32_cast (int width),
                         si_height = int32_cast (int height), si_dpi = dpi,
                         si_name = ''portal-region-'' @ fmt (length screens), si_primary = (screens = [])\<rparr>])
        })"

definition updateScreensFromRegions :: "remote_env \<Rightarrow> portal_injector \<Rightarrow> portal_injector ub" where
  "updateScreensFromRegions env i = do {
     screens \<leftarrow> region_screens (me_format env)
       (concat (map (\<lambda>d. if me_has env (dv_object d) CapPointerAbsolute then me_regions env (dv_object d) else []) (pj_devices i)))
       [] [];
     Some (i\<lparr>pj_screens := updateScreens screens (pj_screens i)\<rparr>)
   }"

text \<open>Waiting for the devices: \<open>None\<close> as result means that they are not there yet.\<close>

fun await_devices ::
  "remote_env \<Rightarrow> (ei_device_event list \<times> (nat + bool)) list \<Rightarrow> portal_injector \<Rightarrow> nat option option \<times> portal_injector" where
  "await_devices env [] i = ((if ready env i then Some None else None), i)"
| "await_devices env ((events, polled) # rounds) i =
     (if ready env i then (Some None, i)
      else (let i1 = pinjector_dispatchEi events i
            in if pj_disconnected i1 then (Some (Some 111), pinjector_close i1)
               else if ready env i1 then (Some None, i1)
               else (case polled of
                       Inl e \<Rightarrow> (Some (Some e), i1)
                     | Inr broken \<Rightarrow>
                         if broken then (Some (Some 104), pinjector_close i1) else await_devices env rounds i1)))"

definition pinjector_initialize ::
  "remote_env \<Rightarrow> (ei_device_event list \<times> (nat + bool)) list \<Rightarrow> portal_injector \<Rightarrow> (nat option option \<times> portal_injector) ub" where
  "pinjector_initialize env rounds i =
     (let i1 = (pinjector_close i)\<lparr>pj_cancellable := me_cancellable env\<rparr>
      in if \<not> me_cancellable env then Some (Some (Some 12), i1)
         else (case me_session env of
                 Inl e \<Rightarrow> Some (Some (Some (portalError e)), pinjector_close i1)
               | Inr _ \<Rightarrow>
                   (let i2 = i1\<lparr>pj_session := True\<rparr>
                    in case me_start env of
                         Inl e \<Rightarrow> Some (Some (Some (portalError e)), pinjector_close i2)
                       | Inr _ \<Rightarrow>
                           if \<not> fst (me_granted env) \<or> \<not> snd (me_granted env) then Some (Some (Some 13), pinjector_close i2)
                           else (case me_eis env of
                                   Inl e \<Rightarrow> Some (Some (Some (portalError e)), pinjector_close i2)
                                 | Inr _ \<Rightarrow>
                                     if \<not> me_sender env then Some (Some (Some 12), pinjector_close i2)
                                     else (let i3 = i2\<lparr>pj_ei := True\<rparr>
                                           in case me_setup env of
                                                Some e \<Rightarrow> Some (Some (Some e), pinjector_close i3)
                                              | None \<Rightarrow>
                                                  (case me_poller env of
                                                     Some e \<Rightarrow> Some (Some (Some e), pinjector_close i3)
                                                   | None \<Rightarrow>
                                                       (case await_devices env rounds (i3\<lparr>pj_poller := True\<rparr>) of
                                                          (Some None, i4) \<Rightarrow> do {
                                                            i5 \<leftarrow> updateScreensFromRegions env i4;
                                                            Some (Some None, i5)
                                                          }
                                                        | (r, i4) \<Rightarrow> Some (r, i4))))))))"

definition movePointer :: "remote_env \<Rightarrow> nat \<Rightarrow> int \<Rightarrow> int \<Rightarrow> portal_injector \<Rightarrow> (nat option \<times> portal_injector) ub" where
  "movePointer env screenIndex x y i = do {
     position \<leftarrow> portal_localToGlobal (pj_screens i) screenIndex x y;
     Some (case (device env CapPointerAbsolute i, position) of
        (Some pointer, Some (gx, gy)) \<Rightarrow> (None, ei_send [EiMotionAbsolute pointer gx gy, EiFrame pointer] i)
      | _ \<Rightarrow> (Some 22, i))
   }"

fun pinjector_injectOne :: "remote_env \<Rightarrow> input_event \<Rightarrow> portal_injector \<Rightarrow> (nat option \<times> portal_injector) ub" where
  "pinjector_injectOne env (MouseMoveEvent e) i = movePointer env (mv_screenIndex e) (mv_x e) (mv_y e) i"
| "pinjector_injectOne env (MouseButtonEvent e) i = do {
     (error, i1) \<leftarrow> movePointer env (mb_screenIndex e) (mb_x e) (mb_y e) i;
     Some (if error \<noteq> None then (error, i1)
           else (case (device env CapButton i1, evdevButton (me_button env) (mb_button e)) of
                   (Some d, Some button) \<Rightarrow> (None, ei_send [EiButton d button (\<not> mb_release e), EiFrame d] i1)
                 | _ \<Rightarrow> (Some 22, i1)))
   }"
| "pinjector_injectOne env (MouseWheelEvent e) i =
     (case device env CapScroll i of
        None \<Rightarrow> Some (Some 95, i)
      | Some scroll \<Rightarrow> do {
          deltaY \<leftarrow> i32 (- mw_deltaY e);
          Some (None, ei_send [EiScrollDiscrete scroll (mw_deltaX e) deltaY, EiFrame scroll] i)
        })"
| "pinjector_injectOne env (KeyEvent e) i =
     Some (case (device env CapKeyboard i, evdevKeyCode (me_code env) (ke_key e)) of
        (Some keyboard, Some native) \<Rightarrow> (None, ei_send [EiKey keyboard native (\<not> ke_release e), EiFrame keyboard] i)
      | _ \<Rightarrow> (Some 22, i))"

text \<open>\<open>events\<close> is what libei has when the event is injected.\<close>

definition pinjector_inject ::
  "remote_env \<Rightarrow> ei_device_event list \<Rightarrow> input_event \<Rightarrow> portal_injector \<Rightarrow> (nat option \<times> portal_injector) ub" where
  "pinjector_inject env events event i =
     (if \<not> pj_ei i \<or> \<not> ready env i then Some (Some 107, i)
      else (let i1 = pinjector_dispatchEi events i
            in if pj_disconnected i1 then Some (Some 104, i1) else pinjector_injectOne env event i1))"

section \<open>Lemmas on coordinates\<close>

text \<open>
  Screens of the size that systems allow, and coordinates with at most 20 binary places: differences of such
  coordinates are exact.
\<close>

definition portal_screen :: "screen_info \<Rightarrow> bool" where
  "portal_screen s \<longleftrightarrow>
     \<bar>si_x s\<bar> \<le> 1048576 \<and> \<bar>si_y s\<bar> \<le> 1048576 \<and> 1 \<le> si_width s \<and> si_width s \<le> 1048576 \<and>
     1 \<le> si_height s \<and> si_height s \<le> 1048576"

definition fine :: "sdbl \<Rightarrow> bool" where
  "fine v \<longleftrightarrow> snd v \<le> 20 \<and> \<bar>fst v\<bar> \<le> 1073741824 * 2 ^ snd v"

definition pixel_in :: "sdbl \<Rightarrow> sdbl \<Rightarrow> screen_info \<Rightarrow> bool" where
  "pixel_in x y s \<longleftrightarrow>
     si_x s \<le> sdbl_floor x \<and> sdbl_floor x < si_x s + si_width s \<and>
     si_y s \<le> sdbl_floor y \<and> sdbl_floor y < si_y s + si_height s"

lemma floor_less_iff: "sdbl_floor v < n \<longleftrightarrow> fst v < n * 2 ^ snd v"
proof -
  let ?p = "2 ^ snd v :: int"
  have "n \<le> fst v div ?p" if "n * ?p \<le> fst v"
    using zdiv_mono1 [OF that, of ?p] by simp
  moreover have "n * ?p \<le> fst v" if "n \<le> fst v div ?p"
  proof -
    have "fst v div ?p * ?p = fst v - fst v mod ?p" by (simp add: minus_mod_eq_div_mult)
    moreover have "0 \<le> fst v mod ?p" by simp
    moreover have "n * ?p \<le> fst v div ?p * ?p" using that by (intro mult_right_mono) simp_all
    ultimately show ?thesis by linarith
  qed
  ultimately show ?thesis unfolding sdbl_floor_def by (meson not_le)
qed

lemma portal_screen_i32:
  assumes "portal_screen s"
  shows "in_i32 (si_x s)" "in_i32 (si_y s)" "in_i32 (si_x s + si_width s)" "in_i32 (si_y s + si_height s)"
    "in_i32 (si_x s + si_width s - 1)" "in_i32 (si_y s + si_height s - 1)" "in_i32 (si_width s - 1)" "in_i32 (si_height s - 1)"
  using assms by (auto simp: portal_screen_def in_i32_def)

lemma portal_inside_iff:
  assumes "portal_screen s"
  shows "portal_inside s x y = Some (pixel_in x y s)"
  using portal_screen_i32 [OF assms]
  by (auto simp: portal_inside_def sdbl_less_int pixel_in_def floor_less_iff not_less [symmetric])

lemma portal_find_eq:
  assumes "\<forall>s \<in> set ss. portal_screen s"
  shows "case portal_find ss k x y of
      None \<Rightarrow> False
    | Some None \<Rightarrow> \<forall>s \<in> set ss. \<not> pixel_in x y s
    | Some (Some (n, s)) \<Rightarrow> k \<le> n \<and> n < k + length ss \<and> ss ! (n - k) = s \<and> pixel_in x y s \<and>
        (\<forall>j < n - k. \<not> pixel_in x y (ss ! j))"
  using assms
proof (induction ss arbitrary: k)
  case (Cons s ss)
  show ?case
  proof (cases "pixel_in x y s")
    case True
    with Cons.prems show ?thesis by (simp add: portal_inside_iff)
  next
    case False
    then have step: "portal_find (s # ss) k x y = portal_find ss (k + 1) x y"
      using Cons.prems by (simp add: portal_inside_iff)
    from Cons.IH [of "k + 1"] Cons.prems
    have IH: "case portal_find ss (k + 1) x y of
        None \<Rightarrow> False
      | Some None \<Rightarrow> \<forall>s \<in> set ss. \<not> pixel_in x y s
      | Some (Some (n, s)) \<Rightarrow> k + 1 \<le> n \<and> n < k + 1 + length ss \<and> ss ! (n - (k + 1)) = s \<and> pixel_in x y s \<and>
          (\<forall>j < n - (k + 1). \<not> pixel_in x y (ss ! j))" by simp
    show ?thesis
    proof (cases "portal_find ss (k + 1) x y")
      case None
      with IH show ?thesis by simp
    next
      case (Some r)
      show ?thesis
      proof (cases r)
        case None
        with Some IH False show ?thesis by (simp add: step del: portal_find.simps)
      next
        case (Some p)
        obtain n t where p: "p = (n, t)" by (cases p)
        with Some \<open>portal_find ss (k + 1) x y = Some r\<close> IH
        have n: "k + 1 \<le> n" "n < k + 1 + length ss" "ss ! (n - (k + 1)) = t" "pixel_in x y t"
          "\<forall>j < n - (k + 1). \<not> pixel_in x y (ss ! j)" by simp_all
        moreover have Suc: "n - k = Suc (n - (k + 1))" using n(1) by simp
        moreover have "(s # ss) ! (n - k) = t" using n(3) unfolding Suc by simp
        moreover have "\<not> pixel_in x y ((s # ss) ! j)" if "j < n - k" for j
          using that n(5) False unfolding Suc by (cases j) auto
        ultimately show ?thesis
          using n Some p \<open>portal_find ss (k + 1) x y = Some r\<close> by (simp add: step del: portal_find.simps)
      qed
    qed
  qed
qed simp

lemma portal_nearest_result:
  assumes "\<forall>s \<in> set ss. portal_screen s"
  shows "\<exists>n. portal_nearest hypot ss k x y best d = Some n \<and> (n = best \<or> k \<le> n \<and> n < k + length ss)"
  using assms
proof (induction ss arbitrary: k best d)
  case (Cons s ss)
  then have s: "portal_screen s" "\<forall>s \<in> set ss. portal_screen s" by simp_all
  have "last_pixel (si_x s) (si_width s) = Some (si_x s + si_width s - 1)"
    "last_pixel (si_y s) (si_height s) = Some (si_y s + si_height s - 1)"
    using portal_screen_i32 [OF s(1)] by (simp_all add: last_pixel_def)
  note pixels = this
  define dist where "dist = hypot (sdbl_sub x (sdbl_clamp x (sdbl_of_int (si_x s)) (sdbl_of_int (si_x s + si_width s - 1))))
      (sdbl_sub y (sdbl_clamp y (sdbl_of_int (si_y s)) (sdbl_of_int (si_y s + si_height s - 1))))"
  have "portal_nearest hypot (s # ss) k x y best d =
      (if dbl_less dist d then portal_nearest hypot ss (k + 1) x y k dist else portal_nearest hypot ss (k + 1) x y best d)"
    using pixels by (simp add: Let_def dist_def)
  then obtain b e where "portal_nearest hypot (s # ss) k x y best d = portal_nearest hypot ss (k + 1) x y b e"
    "b = best \<or> b = k" by (cases "dbl_less dist d") auto
  moreover obtain n where "portal_nearest hypot ss (k + 1) x y b e = Some n" "n = b \<or> k + 1 \<le> n \<and> n < k + 1 + length ss"
    using Cons.IH [OF s(2)] by blast
  ultimately show ?case by auto
qed simp

lemma lround_fine:
  assumes "fine v"
  shows "\<bar>sdbl_lround v\<bar> \<le> 1073741824"
proof -
  define m where "m = nat \<bar>fst v\<bar>"
  define p where "p = (2 :: nat) ^ snd v"
  have "m \<le> 1073741824 * p" using assms by (simp add: fine_def m_def p_def nat_le_iff)
  moreover have "0 < p" by (simp add: p_def)
  ultimately have "2 * m + p < 1073741825 * (2 * p)" by linarith
  then have "2 * m + 2 ^ snd v < 1073741825 * 2 ^ Suc (snd v)" by (simp only: p_def power_Suc)
  then have "dbl_lround (m, snd v) < 1073741825"
    unfolding dbl_lround_def fst_conv snd_conv by (simp add: less_mult_imp_div_less)
  then have "\<bar>sgn (fst v)\<bar> * int (dbl_lround (m, snd v)) \<le> 1 * 1073741824"
    by (intro mult_mono) (auto simp: sgn_if)
  then show ?thesis by (simp add: sdbl_lround_def m_def abs_mult)
qed

lemma clamp_pixel_result:
  assumes "fine v" "\<bar>start\<bar> \<le> 1048576" "1 \<le> extent" "extent \<le> 1048576"
  shows "\<exists>r. clamp_pixel v start extent = Some r \<and> 0 \<le> r \<and> r < extent"
proof -
  have "i64 (sdbl_lround v) = Some (sdbl_lround v)" "in_i32 (sdbl_lround v)" "in_i32 (sdbl_lround v - start)" "in_i32 (extent - 1)"
    using lround_fine [OF assms(1)] assms(2-4) by (auto simp: i64_def in_i32_def)
  then show ?thesis
    using std_clamp_bounds [of 0 "extent - 1" "sdbl_lround v - start"] assms(3) by (simp add: clamp_pixel_def)
qed

lemma floor_sub:
  assumes "fine v" "\<bar>n\<bar> \<le> 1048576"
  shows "sdbl_floor (sdbl_sub v (sdbl_of_int n)) = sdbl_floor v - n"
proof -
  let ?p = "2 ^ snd v :: int"
  have "?p \<le> 2 ^ 20" using assms(1) by (intro power_increasing) (simp_all add: fine_def)
  then have p: "0 < ?p" "?p \<le> 1048576" by simp_all
  have "\<bar>fst v\<bar> \<le> 1073741824 * 1048576"
    using assms(1) p mult_left_mono [of ?p 1048576 1073741824] by (simp add: fine_def)
  moreover have "\<bar>n * ?p\<bar> \<le> 1048576 * 1048576"
    using mult_mono [of "\<bar>n\<bar>" 1048576 ?p 1048576] assms(2) p by (simp add: abs_mult)
  ultimately have "\<bar>fst v - n * ?p\<bar> < 2 ^ 53" by simp
  moreover have "in_i32 n" using assms(2) unfolding in_i32_def by arith
  ultimately have "sdbl_sub v (sdbl_of_int n) = (fst v - n * ?p, snd v)" by (intro sdbl_sub_int)
  moreover have "(fst v - n * ?p) div ?p = fst v div ?p - n"
    using p(1) div_mult_self1 [of ?p "fst v" "- n"] by (simp add: algebra_simps)
  ultimately show ?thesis by (simp add: sdbl_floor_def)
qed

lemma portal_globalToLocal_result:
  assumes "\<forall>s \<in> set screens. portal_screen s" "screens \<noteq> []" "fine x" "fine y"
  obtains n px py where "n < length screens"
    "portal_globalToLocal hypot screens x y = Some (Some \<lparr>lp_screenIndex = n, lp_x = px, lp_y = py\<rparr>)"
    "0 \<le> px" "px < si_width (screens ! n)" "0 \<le> py" "py < si_height (screens ! n)"
    "(\<exists>s \<in> set screens. pixel_in x y s) \<longrightarrow> pixel_in x y (screens ! n) \<and> (\<forall>j < n. \<not> pixel_in x y (screens ! j)) \<and>
       px = sdbl_floor x - si_x (screens ! n) \<and> py = sdbl_floor y - si_y (screens ! n)"
proof (cases "portal_find screens 0 x y")
  case None
  with portal_find_eq [OF assms(1), where k = 0 and x = x and y = y] show ?thesis by simp
next
  case (Some found)
  note find = portal_find_eq [OF assms(1), where k = 0 and x = x and y = y, unfolded Some]
  show ?thesis
  proof (cases found)
    case None
    with find have none: "\<not> (\<exists>s \<in> set screens. pixel_in x y s)" by simp
    obtain n where near: "portal_nearest hypot screens 0 x y 0 dbl_max = Some n" "n < length screens"
      using portal_nearest_result [OF assms(1), where hypot = hypot and k = 0 and x = x and y = y and best = 0 and d = dbl_max]
        assms(2) by auto
    then have s: "portal_screen (screens ! n)" using assms(1) by simp
    obtain px where px: "clamp_pixel x (si_x (screens ! n)) (si_width (screens ! n)) = Some px" "0 \<le> px" "px < si_width (screens ! n)"
      using clamp_pixel_result [OF assms(3), of "si_x (screens ! n)" "si_width (screens ! n)"] s by (auto simp: portal_screen_def)
    obtain py where py: "clamp_pixel y (si_y (screens ! n)) (si_height (screens ! n)) = Some py" "0 \<le> py" "py < si_height (screens ! n)"
      using clamp_pixel_result [OF assms(4), of "si_y (screens ! n)" "si_height (screens ! n)"] s by (auto simp: portal_screen_def)
    show ?thesis
      using that [of n px py] near px py none Some None assms(2) by (simp add: portal_globalToLocal_def)
  next
    case found: (Some p)
    obtain n s where p: "p = (n, s)" by (cases p)
    with find found have n: "n < length screens" "screens ! n = s" "pixel_in x y s" "\<forall>j < n. \<not> pixel_in x y (screens ! j)"
      by simp_all
    then have s: "portal_screen s" using assms(1) by auto
    have floors: "sdbl_floor (sdbl_sub x (sdbl_of_int (si_x s))) = sdbl_floor x - si_x s"
      "sdbl_floor (sdbl_sub y (sdbl_of_int (si_y s))) = sdbl_floor y - si_y s"
      using floor_sub [OF assms(3)] floor_sub [OF assms(4)] s by (simp_all add: portal_screen_def)
    have range: "0 \<le> sdbl_floor x - si_x s" "sdbl_floor x - si_x s < si_width s" "0 \<le> sdbl_floor y - si_y s"
      "sdbl_floor y - si_y s < si_height s" using n(3) by (auto simp: pixel_in_def)
    moreover from range have "in_i32 (sdbl_floor x - si_x s)" "in_i32 (sdbl_floor y - si_y s)"
      using s by (auto simp: portal_screen_def in_i32_def)
    ultimately show ?thesis
      using that [of n "sdbl_floor x - si_x s" "sdbl_floor y - si_y s"] n Some found p assms(2) floors
      by (simp add: portal_globalToLocal_def)
  qed
qed

section \<open>Properties\<close>


definition demo_zone :: "int \<Rightarrow> screen_info" where
  "demo_zone x = \<lparr>si_x = x, si_y = 0, si_width = 1920, si_height = 1080, si_dpi = 72, si_name = ''portal-zone-0'',
     si_primary = True\<rparr>"

lemma demo_zone_ok: "\<bar>x\<bar> \<le> 1920 \<Longrightarrow> portal_screen (demo_zone x)"
  by (simp add: demo_zone_def portal_screen_def)


text \<open>
  Without the bound on the binary places this fails: a point that a screen contains by less than the
  precision of the difference is reported one pixel beyond its right border. (Here a screen to the left of
  the origin, and a point \<open>2 ^ -60\<close> left of it.)
\<close>

theorem portal_point_beyond_border:
  "portal_globalToLocal hypot [demo_zone (- 1920)] (- 1, 60) (0, 0) =
     Some (Some \<lparr>lp_screenIndex = 0, lp_x = 1920, lp_y = 0\<rparr>)"
proof -
  have "bit_len 2213609288845146193919 = 71" by (simp add: bit_len.simps)
  then have r: "round53 2213609288845146193919 = 2213609288845146193920" by (simp add: round53_def rne_div_def Let_def)
  have "sdbl_floor (sdbl_sub (- 1, 60) (sdbl_of_int (- 1920))) = 1920"
    by (simp add: sdbl_sub_def sdbl_add_def sdbl_neg_def sdbl_of_int_exact sdbl_floor_def round53s_def r Let_def)
  moreover have "sdbl_floor (sdbl_sub (0, 0) (sdbl_of_int 0)) = 0"
    using floor_sub [of "(0, 0)" 0] by (simp add: fine_def sdbl_floor_def)
  moreover have "portal_inside (demo_zone (- 1920)) (- 1, 60) (0, 0) = Some True"
    by (simp add: portal_inside_iff demo_zone_ok) (simp add: pixel_in_def demo_zone_def sdbl_floor_def)
  ultimately show ?thesis by (simp add: portal_globalToLocal_def demo_zone_def)
qed

lemma portal_close_closed:
  "\<not> pc_session (portal_close c)" "\<not> pc_ei (portal_close c)" "\<not> pc_poller (portal_close c)"
  "pc_barriers (portal_close c) = []" "pc_closed (portal_close c)" "\<not> pc_cancellable (portal_close c)"
  "\<not> pc_active (portal_close c)"
  by (simp_all add: portal_close_def portal_call_def Let_def)

lemma configureBarriers_active: "configureBarriers env = Some (Inr conf) \<Longrightarrow> bs_barriers conf \<noteq> [] \<and> 0 < bs_active conf"
  by (auto simp: configureBarriers_def ub_bind_eq_Some Let_def split: if_splits option.splits)

text \<open>
  C33. Starting the capture is all or nothing, whatever the portal refuses: without an error there is a session
  with its signals, at least one barrier, a poller, and enabling it is the last that was asked of the portal;
  with an error nothing is left open.
\<close>

theorem portal_start_all_or_nothing:
  assumes "portal_initialize env c = Some (r, c')"
  shows "if r = None
    then pc_session c' \<and> pc_signals c' \<and> pc_ei c' \<and> pc_poller c' \<and> pc_barriers c' \<noteq> [] \<and> \<not> pc_closed c' \<and>
      pc_events c' = [] \<and> last (pc_calls c') = EnableSession
    else \<not> pc_session c' \<and> \<not> pc_ei c' \<and> \<not> pc_poller c' \<and> pc_barriers c' = []"
proof -
  let ?c1 = "(new_capture_state (portal_close c))\<lparr>pc_cancellable := pe_cancellable env\<rparr>"
  have fresh: "\<not> pc_session ?c1" "\<not> pc_ei ?c1" "\<not> pc_poller ?c1" "pc_barriers ?c1 = []" "\<not> pc_closed ?c1" "pc_events ?c1 = []"
    by (simp_all add: new_capture_state_def portal_close_closed)
  show ?thesis
  proof (cases "pe_cancellable env \<and> pe_session env = Inr ()")
    case False
    with assms have "r \<noteq> None" "c' = ?c1 \<or> c' = portal_close ?c1"
      by (auto simp: portal_initialize_def Let_def split: if_splits sum.splits)
    with fresh show ?thesis by (auto simp: portal_close_closed)
  next
    case True
    let ?c2 = "?c1\<lparr>pc_session := True, pc_signals := True\<rparr>"
    obtain configured where configured: "configureBarriers env = Some configured"
      using assms True by (auto simp: portal_initialize_def Let_def ub_bind_eq_Some)
    show ?thesis
    proof (cases configured)
      case (Inl e)
      with assms True configured have "r = Some e" "c' = portal_close ?c2"
        by (auto simp: portal_initialize_def Let_def)
      then show ?thesis by (simp add: portal_close_closed)
    next
      case (Inr conf)
      let ?c3 = "?c2\<lparr>pc_screens := updateScreens (bs_screens conf) (pc_screens ?c2), pc_barriers := bs_barriers conf\<rparr>"
      have "r \<noteq> None \<and> (\<exists>d. c' = portal_close d) \<or>
          r = None \<and> c' = portal_call [EnableSession] (?c3\<lparr>pc_ei := True, pc_poller := True\<rparr>)"
        using assms True configured Inr
        by (cases "pe_eis env"; cases "pe_setup env"; cases "pe_poller env"; cases r;
            simp add: portal_initialize_def Let_def split: if_splits; blast)
      then show ?thesis
        using fresh configureBarriers_active [of env conf] configured Inr
        by (auto simp: portal_close_closed portal_call_def)
    qed
  qed
qed

definition demo_portal :: portal_env where
  "demo_portal =
     \<lparr>pe_format = (\<lambda>_. ''0''), pe_hypot = (\<lambda>_ _. (0, 0)), pe_cancellable = True, pe_session = Inr (),
      pe_zones = [(0, 0, 1920, 1080)], pe_made = (\<lambda>_. True), pe_barrierError = None, pe_barrierActive = (\<lambda>n. n = 2),
      pe_eis = Inl (Some DBusUnknownMethod), pe_receiver = True, pe_setup = None, pe_poller = None, pe_code = linux_code,
      pe_button = (\<lambda>s. if s = ''BTN_LEFT'' then 272 else if s = ''BTN_RIGHT'' then 273 else 274)\<rparr>"

theorem portal_start_all_or_nothing_witness:
  "\<exists>c. portal_initialize demo_portal (new_portal_capture []) = Some (Some 95, c) \<and> \<not> pc_session c \<and> pc_barriers c = []"
proof -
  obtain c where "portal_initialize demo_portal (new_portal_capture []) = Some (Some 95, c)"
    by (simp add: portal_initialize_def demo_portal_def configureBarriers_def zoneScreens_def barrier_specs_def
        last_pixel_def portalError_def Let_def)
  with portal_start_all_or_nothing show ?thesis by fastforce
qed

section \<open>Modifiers\<close>

text \<open>Whether a key is down after some events, \<open>d\<close> telling whether it was before.\<close>

fun held :: "(string \<Rightarrow> 32 word) \<Rightarrow> key \<Rightarrow> ei_event list \<Rightarrow> bool \<Rightarrow> bool" where
  "held code k [] d = d"
| "held code k (e # es) d =
     held code k es (case e of KeyboardKey native press \<Rightarrow> if keyFromEvdev code native = k then press else d | _ \<Rightarrow> d)"

definition flag_set :: "key_modifier \<Rightarrow> key_modifier \<Rightarrow> bool" where
  "flag_set m flag \<longleftrightarrow> modifier_and m flag \<noteq> Mod_None"

definition modifier_keys :: "(key \<times> key_modifier) list" where
  "modifier_keys =
     [(Key_LeftCtrl, Mod_LeftCtrl), (Key_RightCtrl, Mod_RightCtrl), (Key_LeftShift, Mod_LeftShift),
      (Key_RightShift, Mod_RightShift), (Key_LeftAlt, Mod_LeftAlt), (Key_RightAlt, Mod_RightAlt),
      (Key_LeftMeta, Mod_LeftMeta), (Key_RightMeta, Mod_RightMeta)]"

lemma modifier_key_cases:
  assumes "portal_keyModifierFor k \<noteq> Mod_None"
  shows "(k, portal_keyModifierFor k) \<in> set modifier_keys"
  using assms by (simp add: portal_keyModifierFor_def modifier_keys_def split: if_splits)

lemma modifier_keys_disjoint:
  "list_all (\<lambda>(k, f). list_all (\<lambda>(k', f'). k' = k \<or> f' AND f = 0) modifier_keys) modifier_keys"
  by (simp add: modifier_keys_def)

lemma flag_set_or: "flag_set (modifier_or m f) g \<longleftrightarrow> flag_set m g \<or> f AND g \<noteq> 0"
  by (simp add: flag_set_def modifier_or_def modifier_and_def bit.conj_disj_distrib2) (metis word_bw_lcs(2) or_eq_0_iff)

lemma track_same:
  assumes "portal_keyModifierFor k \<noteq> Mod_None"
  shows "flag_set (track_modifier k release m) (portal_keyModifierFor k) \<longleftrightarrow> \<not> release"
  using assms modifier_cleared [of m "portal_keyModifierFor k"]
  by (simp add: track_modifier_def flag_set_def modifier_or_and Let_def)

lemma flags_disjoint:
  assumes "portal_keyModifierFor k \<noteq> Mod_None" "k' \<noteq> k"
  shows "portal_keyModifierFor k' AND portal_keyModifierFor k = 0"
proof (cases "portal_keyModifierFor k' = Mod_None")
  case False
  note pairs = modifier_keys_disjoint [unfolded list_all_iff]
  from bspec [OF bspec [OF pairs modifier_key_cases [OF assms(1)], unfolded prod.case] modifier_key_cases [OF False]] assms(2)
  show ?thesis by (simp only: prod.case) blast
qed simp

lemma track_other:
  assumes "portal_keyModifierFor k \<noteq> Mod_None" "k' \<noteq> k"
  shows "flag_set (track_modifier k' release m) (portal_keyModifierFor k) = flag_set m (portal_keyModifierFor k)"
proof -
  let ?f = "portal_keyModifierFor k'" and ?g = "portal_keyModifierFor k"
  have disjoint: "?f AND ?g = 0" using flags_disjoint [OF assms] .
  have "(?f OR NOT ?f) AND ?g = (?f AND ?g) OR (NOT ?f AND ?g)" by (rule bit.conj_disj_distrib2)
  then have "NOT ?f AND ?g = ?g" by (simp add: disjoint)
  then have "(m AND NOT ?f) AND ?g = m AND ?g" by (simp add: word_bw_assocs)
  with disjoint show ?thesis
    by (simp add: track_modifier_def Let_def flag_set_or) (simp add: flag_set_def modifier_and_def modifier_not_def)
qed

text \<open>The modifiers of the capture are only touched by key events.\<close>

lemma queue_at_fields:
  assumes "queue_at env f c = Some c'"
  shows "pc_modifiers c' = pc_modifiers c"
  using assms by (auto simp: queue_at_def ub_bind_eq_Some portal_queue_def split: option.splits)

lemma process_modifiers:
  assumes "portal_process env e c = Some c'" "portal_keyModifierFor k \<noteq> Mod_None"
  shows "flag_set (pc_modifiers c') (portal_keyModifierFor k) =
    held (pe_code env) k [e] (flag_set (pc_modifiers c) (portal_keyModifierFor k))"
proof (cases e)
  case (KeyboardKey native press)
  let ?k = "keyFromEvdev (pe_code env) native"
  show ?thesis
  proof (cases "?k = Key_None")
    case True
    have "k \<noteq> Key_None" using assms(2) by (auto simp: portal_keyModifierFor_def)
    with True KeyboardKey assms(1) show ?thesis by auto
  next
    case False
    then have "pc_modifiers c' = track_modifier ?k (\<not> press) (pc_modifiers c)"
      using assms(1) KeyboardKey by (auto simp: portal_queue_def Let_def)
    with KeyboardKey show ?thesis
      using track_same [OF assms(2)] track_other [OF assms(2), of ?k] by simp
  qed
next
  case (ButtonButton code press)
  with assms(1) show ?thesis by (auto simp: Let_def dest: queue_at_fields split: if_splits)
qed (use assms(1) in \<open>auto dest: queue_at_fields\<close>)



section \<open>From injection to capture\<close>

text \<open>What the compositor of the injected side delivers to a capture there.\<close>

fun ei_seen :: "ei_request list \<Rightarrow> ei_event list" where
  "ei_seen [] = []"
| "ei_seen (EiMotionAbsolute d x y # rs) = PointerMotionAbsolute x y # ei_seen rs"
| "ei_seen (EiButton d b press # rs) = ButtonButton b press # ei_seen rs"
| "ei_seen (EiScrollDiscrete d x y # rs) = ScrollDiscrete x y # ei_seen rs"
| "ei_seen (EiKey d k press # rs) = KeyboardKey k press # ei_seen rs"
| "ei_seen (r # rs) = ei_seen rs"

definition apart :: "screen_info list \<Rightarrow> bool" where
  "apart screens \<longleftrightarrow> (\<forall>i < length screens. \<forall>j < length screens. \<forall>x y.
     pixel_in x y (screens ! i) \<and> pixel_in x y (screens ! j) \<longrightarrow> i = j)"

definition pixel_of :: "screen_info \<Rightarrow> int \<Rightarrow> int \<Rightarrow> int \<times> int" where
  "pixel_of s x y = (std_clamp x 0 (si_width s - 1), std_clamp y 0 (si_height s - 1))"

lemma pixel_at_result:
  assumes "\<bar>start\<bar> \<le> 1048576" "1 \<le> extent" "extent \<le> 1048576"
  shows "pixel_at start extent v = Some (start + std_clamp v 0 (extent - 1))"
proof -
  have "in_i32 (extent - 1)" "in_i32 (start + std_clamp v 0 (extent - 1))"
    using assms std_clamp_bounds [of 0 "extent - 1" v] by (auto simp: in_i32_def)
  then show ?thesis by (simp add: pixel_at_def)
qed

lemma whole_fine: "\<bar>n\<bar> \<le> 1073741824 \<Longrightarrow> fine (sdbl_of_int n) \<and> sdbl_floor (sdbl_of_int n) = n"
  by (subst (1 2) sdbl_of_int_exact) (auto simp: in_i32_def fine_def sdbl_floor_def)

lemma portal_pixel_round_trip:
  assumes "\<forall>s \<in> set screens. portal_screen s" "apart screens" "n < length screens"
  shows "\<exists>gx gy. portal_localToGlobal screens n x y = Some (Some (gx, gy)) \<and>
    portal_globalToLocal hypot screens gx gy =
      Some (Some \<lparr>lp_screenIndex = n, lp_x = fst (pixel_of (screens ! n) x y), lp_y = snd (pixel_of (screens ! n) x y)\<rparr>)"
proof -
  let ?s = "screens ! n"
  define px py where "px = std_clamp x 0 (si_width ?s - 1)" and "py = std_clamp y 0 (si_height ?s - 1)"
  have s: "portal_screen ?s" using assms(1,3) by simp
  have p: "0 \<le> px" "px < si_width ?s" "0 \<le> py" "py < si_height ?s"
    using s std_clamp_bounds [of 0 "si_width ?s - 1" x] std_clamp_bounds [of 0 "si_height ?s - 1" y]
    by (simp_all add: px_def py_def portal_screen_def)
  have global: "portal_localToGlobal screens n x y = Some (Some (sdbl_of_int (si_x ?s + px), sdbl_of_int (si_y ?s + py)))"
    using s assms(3) pixel_at_result [of "si_x ?s" "si_width ?s" x] pixel_at_result [of "si_y ?s" "si_height ?s" y]
    by (simp add: portal_localToGlobal_def portal_screen_def px_def py_def)
  have whole: "\<bar>si_x ?s + px\<bar> \<le> 1073741824" "\<bar>si_y ?s + py\<bar> \<le> 1073741824"
    using s p by (auto simp: portal_screen_def)
  let ?x = "sdbl_of_int (si_x ?s + px)" and ?y = "sdbl_of_int (si_y ?s + py)"
  have there: "pixel_in ?x ?y ?s" using whole_fine [OF whole(1)] whole_fine [OF whole(2)] p by (simp add: pixel_in_def)
  have ne: "screens \<noteq> []" using assms(3) by auto
  obtain m qx qy where m: "m < length screens"
    "portal_globalToLocal hypot screens ?x ?y = Some (Some \<lparr>lp_screenIndex = m, lp_x = qx, lp_y = qy\<rparr>)"
    "(\<exists>s \<in> set screens. pixel_in ?x ?y s) \<longrightarrow> pixel_in ?x ?y (screens ! m) \<and> (\<forall>j < m. \<not> pixel_in ?x ?y (screens ! j)) \<and>
       qx = sdbl_floor ?x - si_x (screens ! m) \<and> qy = sdbl_floor ?y - si_y (screens ! m)"
    using portal_globalToLocal_result [OF assms(1) ne, of ?x ?y hypot] whole_fine [OF whole(1)] whole_fine [OF whole(2)] by metis
  then have "pixel_in ?x ?y (screens ! m)" "qx = sdbl_floor ?x - si_x (screens ! m)" "qy = sdbl_floor ?y - si_y (screens ! m)"
    using there assms(3) by auto
  moreover from this(1) there assms(2,3) m(1) have "m = n" unfolding apart_def by blast
  ultimately have "qx = px" "qy = py" using whole_fine [OF whole(1)] whole_fine [OF whole(2)] by simp_all
  with m(2) global \<open>m = n\<close> show ?thesis by (simp add: pixel_of_def px_def py_def)
qed

text \<open>
  The events that reproduce an event on the other side: the position clamped to its screen, keys that share
  an input code as the first of them, and a move in front of a click.
\<close>

fun reproduces :: "screen_info list \<Rightarrow> input_event \<Rightarrow> input_event list \<Rightarrow> bool" where
  "reproduces screens (KeyEvent e) es =
     (\<exists>m n. es = [KeyEvent \<lparr>ke_key = canonical_key (ke_key e), ke_modifiers = m, ke_nativeCode = n, ke_repeat = False,
                             ke_release = ke_release e\<rparr>])"
| "reproduces screens (MouseWheelEvent e) es = (\<exists>x y. es = [MouseWheelEvent (e\<lparr>mw_x := x, mw_y := y\<rparr>)])"
| "reproduces screens (MouseMoveEvent e) es =
     (case pixel_of (screens ! mv_screenIndex e) (mv_x e) (mv_y e) of (x, y) \<Rightarrow>
        es = [MouseMoveEvent (absolute_move x y (mv_screenIndex e))])"
| "reproduces screens (MouseButtonEvent e) es =
     (case pixel_of (screens ! mb_screenIndex e) (mb_x e) (mb_y e) of (x, y) \<Rightarrow>
        es = [MouseMoveEvent (absolute_move x y (mb_screenIndex e)), MouseButtonEvent (e\<lparr>mb_x := x, mb_y := y\<rparr>)])"

definition buttons_distinct :: "(string \<Rightarrow> 32 word) \<Rightarrow> bool" where
  "buttons_distinct button \<longleftrightarrow> distinct (map button [''BTN_LEFT'', ''BTN_RIGHT'', ''BTN_MIDDLE''])"

definition captures :: "portal_env \<Rightarrow> ei_request list \<Rightarrow> portal_capture \<Rightarrow> input_event list \<Rightarrow> bool" where
  "captures env requests c es \<longleftrightarrow>
     (\<exists>c'. portal_process_all env (ei_seen requests) c = Some c' \<and> pc_events c' = pc_events c @ es)"

lemma movePointer_result:
  assumes "movePointer env n x y i = Some (None, i')"
    and "\<forall>s \<in> set (pj_screens i). portal_screen s" "apart (pj_screens i)"
  obtains d gx gy where "n < length (pj_screens i)" "i' = ei_send [EiMotionAbsolute d gx gy, EiFrame d] i"
    "portal_globalToLocal hypot (pj_screens i) gx gy = Some (Some \<lparr>lp_screenIndex = n,
       lp_x = fst (pixel_of (pj_screens i ! n) x y), lp_y = snd (pixel_of (pj_screens i ! n) x y)\<rparr>)"
proof -
  from assms(1) obtain target where target: "portal_localToGlobal (pj_screens i) n x y = Some target"
    by (auto simp: movePointer_def ub_bind_eq_Some)
  have "\<exists>d gx gy. target = Some (gx, gy) \<and> i' = ei_send [EiMotionAbsolute d gx gy, EiFrame d] i"
    using assms(1) target
    by (cases "device env CapPointerAbsolute i"; cases target; auto simp: movePointer_def)
  with target obtain d gx gy where d: "portal_localToGlobal (pj_screens i) n x y = Some (Some (gx, gy))"
    "i' = ei_send [EiMotionAbsolute d gx gy, EiFrame d] i" by blast
  then have n: "n < length (pj_screens i)" by (simp add: portal_localToGlobal_def split: if_splits)
  from portal_pixel_round_trip [OF assms(2,3) n, of x y hypot] d(1) have
    "portal_globalToLocal hypot (pj_screens i) gx gy = Some (Some \<lparr>lp_screenIndex = n,
       lp_x = fst (pixel_of (pj_screens i ! n) x y), lp_y = snd (pixel_of (pj_screens i ! n) x y)\<rparr>)" by auto
  with that n d(2) show thesis .
qed

lemma evdev_button_back:
  assumes "buttons_distinct button" "evdevButton button b = Some code"
  shows "portal_pointerButton button code = b" "b \<noteq> MouseButton_None"
  using assms by (cases b; auto simp: evdevButton_def buttons_distinct_def portal_pointerButton_def)+

text \<open>The requests of a pointer position, read back by the capture.\<close>

lemma replay_position:
  assumes moved: "movePointer env screen x y i = Some (None, i')" and screens: "\<forall>s \<in> set (pj_screens i). portal_screen s" "apart (pj_screens i)"
  obtains d gx gy where "i' = ei_send [EiMotionAbsolute d gx gy, EiFrame d] i"
    "\<And>c'. pc_screens c' = pj_screens i \<Longrightarrow> pc_globalX c' = gx \<Longrightarrow> pc_globalY c' = gy \<Longrightarrow>
     pointerPoint cap c' = Some (Some \<lparr>lp_screenIndex = screen, lp_x = fst (pixel_of (pj_screens i ! screen) x y), lp_y = snd (pixel_of (pj_screens i ! screen) x y)\<rparr>)"
  by (rule movePointer_result [OF moved screens, of "pe_hypot cap"]) (simp add: pointerPoint_def)

lemma replay_button:
  assumes "pinjector_injectOne env (MouseButtonEvent e) i = Some (None, i')"
  obtains i1 b code where "movePointer env (mb_screenIndex e) (mb_x e) (mb_y e) i = Some (None, i1)"
    "evdevButton (me_button env) (mb_button e) = Some code" "i' = ei_send [EiButton b code (\<not> mb_release e), EiFrame b] i1"
proof -
  obtain r i1 where "movePointer env (mb_screenIndex e) (mb_x e) (mb_y e) i = Some (r, i1)" "r = None"
    using assms by (auto simp: ub_bind_eq_Some split: if_splits)
  then have moved: "movePointer env (mb_screenIndex e) (mb_x e) (mb_y e) i = Some (None, i1)" by simp
  obtain b code where "evdevButton (me_button env) (mb_button e) = Some code"
    "i' = ei_send [EiButton b code (\<not> mb_release e), EiFrame b] i1"
    using assms moved by (auto split: option.splits)
  with moved that show ?thesis by blast
qed


definition demo_desktop :: remote_env where
  "demo_desktop =
     \<lparr>me_format = (\<lambda>_. ''0''), me_has = (\<lambda>_ _. True), me_regions = (\<lambda>_. [((0, 0, 1920, 1080), (1, 0))]),
      me_cancellable = True, me_session = Inr (), me_start = Inr (), me_granted = (True, True), me_eis = Inr (),
      me_sender = True, me_setup = None, me_poller = None, me_code = linux_code,
      me_button = pe_button demo_portal\<rparr>"

definition demo_pinjector :: portal_injector where
  "demo_pinjector =
     \<lparr>pj_screens = [demo_zone 0], pj_session = True, pj_cancellable = True, pj_ei = True, pj_poller = True,
      pj_devices = [\<lparr>dv_object = 3, dv_resumed = True, dv_emulating = True\<rparr>], pj_sequence = 2, pj_disconnected = False,
      pj_sent = []\<rparr>"

definition demo_shift :: key_event where
  "demo_shift = \<lparr>ke_key = Key_LeftShift, ke_modifiers = Mod_None, ke_nativeCode = 0, ke_repeat = False, ke_release = False\<rparr>"


section \<open>Where the injector gives up\<close>

fun inject_all ::
  "remote_env \<Rightarrow> (ei_device_event list \<times> input_event) list \<Rightarrow> portal_injector \<Rightarrow> nat option list \<Rightarrow> (nat option list \<times> portal_injector) ub" where
  "inject_all env [] i results = Some (results, i)"
| "inject_all env ((events, event) # rest) i results = do {
     (r, i1) \<leftarrow> pinjector_inject env events event i;
     inject_all env rest i1 (results @ [r])
   }"

lemma inject_all_stuck:
  "\<not> ready env i \<Longrightarrow> inject_all env rest i results = Some (results @ replicate (length rest) (Some 107), i)"
  by (induction rest arbitrary: results) (auto simp: pinjector_inject_def replicate_append_same [symmetric])

lemma device_paused:
  assumes "\<forall>d \<in> set ds. dv_resumed d \<longrightarrow> dv_object d = object" "distinct (map dv_object ds)"
  shows "\<forall>d \<in> set (update_device object (\<lambda>d. d\<lparr>dv_resumed := False, dv_emulating := False\<rparr>) ds). \<not> dv_resumed d"
  using assms
proof (induction ds)
  case (Cons d ds)
  show ?case
  proof (cases "dv_object d = object")
    case True
    with Cons.prems have "\<forall>d \<in> set ds. \<not> dv_resumed d" by (auto simp: image_iff)
    with True show ?thesis by simp
  next
    case False
    with Cons have "\<not> dv_resumed d" by auto
    with Cons False show ?thesis by simp
  qed
qed simp

text \<open>
  A pause is final: when the compositor pauses the device that injection uses, the event at hand fails, and
  so does every later one, even after the device is resumed: an injector that is not ready no longer looks at
  the events of libei that would make it ready again.
\<close>

theorem portal_pause_is_final:
  assumes "pj_ei i" and "ready env i" and "\<not> pj_disconnected i"
    and "\<forall>d \<in> set (pj_devices i). dv_resumed d \<longrightarrow> dv_object d = object" and "distinct (map dv_object (pj_devices i))"
  shows "\<exists>i'. inject_all env (([DevicePaused object], KeyEvent e) # ([DeviceResumed object], event) # rest) i [] =
      Some (Some 22 # Some 107 # replicate (length rest) (Some 107), i')"
proof -
  let ?i = "device_event (DevicePaused object) i"
  have none: "device env capability ?i = None" for capability
    using device_paused [OF assms(4,5)] by (auto simp: device_def find_None_iff)
  then have "\<not> ready env ?i" by (simp add: ready_def)
  moreover have "pinjector_inject env [DevicePaused object] (KeyEvent e) i = Some (Some 22, ?i)"
    using assms(1-3) none [of CapKeyboard] by (simp add: pinjector_inject_def pinjector_dispatchEi_def)
  ultimately show ?thesis
    using inject_all_stuck [of env ?i "([DeviceResumed object], event) # rest" "[Some 22]"]
    by (simp del: device_event.simps)
qed

theorem portal_pause_is_final_witness:
  "\<exists>i'. inject_all demo_desktop [([DevicePaused 3], KeyEvent demo_shift), ([DeviceResumed 3], KeyEvent demo_shift)] demo_pinjector [] =
     Some ([Some 22, Some 107], i')"
proof -
  have "pj_ei demo_pinjector" "ready demo_desktop demo_pinjector" "\<not> pj_disconnected demo_pinjector"
    "\<forall>d \<in> set (pj_devices demo_pinjector). dv_resumed d \<longrightarrow> dv_object d = 3"
    "distinct (map dv_object (pj_devices demo_pinjector))"
    by (simp_all add: demo_pinjector_def ready_def device_def demo_desktop_def)
  from portal_pause_is_final [OF this, of demo_shift "KeyEvent demo_shift" "[]"] show ?thesis by simp
qed

text \<open>
  A start that fails while it waits for the devices leaves the session open: every other failure closes it.
\<close>

theorem portal_failed_wait_keeps_session:
  assumes "pj_session i" and "pj_ei i" and "\<not> pj_disconnected i" and "\<not> ready env (pinjector_dispatchEi events i)"
    and "\<not> ready env i" and "\<not> pj_disconnected (pinjector_dispatchEi events i)"
  shows "case await_devices env ((events, Inl err) # rounds) i of (r, i') \<Rightarrow> r = Some (Some err) \<and> pj_session i' \<and> pj_ei i'"
proof -
  have "pj_session (fold device_event es j) = pj_session j \<and> pj_ei (fold device_event es j) = pj_ei j" for es j
  proof (induction es arbitrary: j)
    case (Cons e es)
    have "pj_session (device_event e j) = pj_session j \<and> pj_ei (device_event e j) = pj_ei j"
      by (cases e) (auto simp: ei_send_def split: option.split)
    with Cons show ?case by simp
  qed simp
  with assms show ?thesis by (simp add: pinjector_dispatchEi_def Let_def)
qed

theorem portal_failed_wait_keeps_session_witness:
  "case await_devices demo_desktop [([DevicePaused 3], Inl 5)] (demo_pinjector\<lparr>pj_devices := []\<rparr>) of
     (r, i') \<Rightarrow> r = Some (Some 5) \<and> pj_session i' \<and> pj_ei i'"
  by (rule portal_failed_wait_keeps_session)
     (simp_all add: demo_pinjector_def ready_def device_def pinjector_dispatchEi_def)

end
