(* ===== verification/Host_Capture.thy ===== *)
theory Host_Capture
  imports Input_Router Win32_Platform Xcb_Platform
begin

text \<open>
  The router and the capture of a backend together: what \<open>src/app/server_input.cpp\<close> relies on of
  \<open>InputCapture\<close> (\<open>src/platform/platform.hpp\<close>), and what the captures of Windows and X11 promise.

  \<^item> The interface is the locale \<open>input_capture\<close>; its client is the router, with a capture whose state is
    \<open>None\<close> once one of its operations ran into undefined behaviour or gave no answer.
  \<^item> \<open>host_step\<close> is one step of the host: the router handles a captured event, with whatever answers the
    system gives to the capture meanwhile, or the capture does something of its own.
  \<^item> The result: input is kept from the host only while a remote screen is active, if a request to give it
    back is carried out; on X11 it always is while the capture is connected, on Windows it has to be
    posted to the thread of the window.
\<close>

section \<open>The system\<close>

text \<open>The operations of a capture, for the router; senders are as before.\<close>

definition capture_io ::
  "(bool \<Rightarrow> 'cap \<Rightarrow> (nat option \<times> 'cap) ub) \<Rightarrow> (nat \<Rightarrow> int \<Rightarrow> int \<Rightarrow> 'cap \<Rightarrow> (nat option \<times> 'cap) ub) \<Rightarrow>
     ('snd \<Rightarrow> bool) \<Rightarrow> (input_event \<Rightarrow> 'snd \<Rightarrow> bool \<times> 'snd) \<Rightarrow> ('cap ub, 'snd) router_io" where
  "capture_io set_remote move_cursor valid send =
     \<lparr>io_setRemote = (\<lambda>active capture. case capture of
          None \<Rightarrow> (False, None)
        | Some c \<Rightarrow> (case set_remote active c of
                      None \<Rightarrow> (False, None)
                    | Some (error, c') \<Rightarrow> (error = None, Some c'))),
      io_moveCursor = (\<lambda>screenIndex x y capture. case capture of
          None \<Rightarrow> (False, None)
        | Some c \<Rightarrow> (case move_cursor screenIndex x y c of
                      None \<Rightarrow> (False, None)
                    | Some (error, c') \<Rightarrow> (error = None, Some c'))),
      io_senderValid = valid, io_trySend = send\<rparr>"

inductive host_step ::
  "('cap ub, 'snd) router_io set \<Rightarrow> ('act \<Rightarrow> 'cap \<Rightarrow> 'cap ub) \<Rightarrow>
     ('ep::linorder, 'cap ub, 'snd) router \<Rightarrow> ('ep, 'cap ub, 'snd) router \<Rightarrow> bool"
  for ios exec where
  captured: "io \<in> ios \<Longrightarrow> event_small e \<Longrightarrow> handleInputEvent io e r = Some r' \<Longrightarrow> host_step ios exec r r'"
| own: "rt_capture r = Some (Some c) \<Longrightarrow> exec a c = Some c' \<Longrightarrow> host_step ios exec r (r\<lparr>rt_capture := Some (Some c')\<rparr>)"

inductive_cases host_stepE: "host_step ios exec r r'"

text \<open>The answers of the system differ from one call to the next.\<close>

definition capture_ios ::
  "('env \<Rightarrow> bool \<Rightarrow> 'cap \<Rightarrow> (nat option \<times> 'cap) ub) \<Rightarrow> ('env \<Rightarrow> nat \<Rightarrow> int \<Rightarrow> int \<Rightarrow> 'cap \<Rightarrow> (nat option \<times> 'cap) ub) \<Rightarrow>
     ('env \<Rightarrow> bool) \<Rightarrow> ('snd \<Rightarrow> bool) \<Rightarrow> (input_event \<Rightarrow> 'snd \<Rightarrow> bool \<times> 'snd) \<Rightarrow> ('cap ub, 'snd) router_io set" where
  "capture_ios set_remote move_cursor usable valid send =
     {capture_io (set_remote env) (move_cursor env) valid send | env. usable env}"

text \<open>The capture of the router is in a proper state, and withholds input only for a remote screen.\<close>

definition withholds_ok :: "('cap \<Rightarrow> bool) \<Rightarrow> ('cap \<Rightarrow> bool) \<Rightarrow> 'cap ub option \<Rightarrow> bool \<Rightarrow> bool" where
  "withholds_ok proper remote capture active \<longleftrightarrow>
     (\<exists>c. capture = Some (Some c) \<and> proper c \<and> (remote c \<longrightarrow> active))"

section \<open>The contract of a capture\<close>

locale input_capture =
  fixes set_remote :: "'env \<Rightarrow> bool \<Rightarrow> 'cap \<Rightarrow> (nat option \<times> 'cap) ub"
    and move_cursor :: "'env \<Rightarrow> nat \<Rightarrow> int \<Rightarrow> int \<Rightarrow> 'cap \<Rightarrow> (nat option \<times> 'cap) ub"
    and exec :: "'act \<Rightarrow> 'cap \<Rightarrow> 'cap ub"
    and usable :: "'env \<Rightarrow> bool"
    and remote :: "'cap \<Rightarrow> bool"
    and proper :: "'cap \<Rightarrow> bool"
  assumes set_defined: "proper c \<Longrightarrow> usable env \<Longrightarrow> set_remote env active c \<noteq> None"
    and set_proper: "proper c \<Longrightarrow> usable env \<Longrightarrow> set_remote env active c = Some (error, c') \<Longrightarrow> proper c'"
    and set_asked: "proper c \<Longrightarrow> usable env \<Longrightarrow> set_remote env active c = Some (error, c') \<Longrightarrow> remote c' \<Longrightarrow> active"
    and move_defined:
      "proper c \<Longrightarrow> usable env \<Longrightarrow> Input_Router.small x \<Longrightarrow> Input_Router.small y \<Longrightarrow> move_cursor env n x y c \<noteq> None"
    and move_keeps: "proper c \<Longrightarrow> move_cursor env n x y c = Some (error, c') \<Longrightarrow> proper c' \<and> remote c' = remote c"
    and exec_keeps: "proper c \<Longrightarrow> exec a c = Some c' \<Longrightarrow> proper c' \<and> (remote c' \<longrightarrow> remote c)"
begin

abbreviation "ios \<equiv> capture_ios set_remote move_cursor usable"

abbreviation "ok \<equiv> withholds_ok proper remote"

lemma set_mode_ok:
  assumes "io \<in> ios valid send" and "ok capture active0"
  shows "ok (set_mode io active capture) active"
proof -
  obtain c where c: "capture = Some (Some c)" "proper c" using assms(2) by (auto simp: withholds_ok_def)
  from assms(1) obtain env where io: "io = capture_io (set_remote env) (move_cursor env) valid send" "usable env"
    by (auto simp: capture_ios_def)
  obtain error c' where set: "set_remote env active c = Some (error, c')"
    using set_defined [OF c(2) io(2)] by fastforce
  from set_proper [OF c(2) io(2) set] set_asked [OF c(2) io(2) set] c(1) io(1) set show ?thesis
    by (simp add: set_mode_def withholds_ok_def capture_io_def)
qed

lemma warp_ok:
  assumes "io \<in> ios valid send" and "ok (rt_capture r) active"
    and "\<forall>p. rt_point r = Some p \<longrightarrow> Input_Router.small (sp_x p) \<and> Input_Router.small (sp_y p)"
  shows "ok (rt_capture (warp io r)) active"
proof (cases "\<exists>c s p. rt_capture r = Some c \<and> active_view r = Some s \<and> rt_point r = Some p \<and> vs_local s")
  case False
  then have "rt_capture (warp io r) = rt_capture r" by (auto simp: warp_def split: option.split)
  with assms(2) show ?thesis by simp
next
  case True
  then obtain c s p where r: "rt_capture r = Some c" "active_view r = Some s" "rt_point r = Some p" "vs_local s" by blast
  with assms(2) obtain c0 where c0: "c = Some c0" "proper c0" "remote c0 \<longrightarrow> active" by (auto simp: withholds_ok_def)
  from assms(1) obtain env where io: "io = capture_io (set_remote env) (move_cursor env) valid send" "usable env"
    by (auto simp: capture_ios_def)
  from move_defined [OF c0(2) io(2)] assms(3) r(3)
  obtain error c' where m: "move_cursor env (key_screenIndex (sp_key p)) (sp_x p) (sp_y p) c0 = Some (error, c')"
    by fastforce
  have "rt_capture (warp io r) = Some (Some c')"
    using r c0(1) io(1) m by (auto simp: warp_def capture_io_def)
  with move_keeps [OF c0(2) m] c0(3) show ?thesis by (simp add: withholds_ok_def)
qed

lemma event_keeps:
  assumes good: "router_ok r" and small: "event_small e" and io: "io \<in> ios valid send"
    and capture: "ok (rt_capture r) (remote_view r)" and step: "handleInputEvent io e r = Some r'"
  shows "router_ok r' \<and> ok (rt_capture r') (remote_view r')"
proof -
  from handleInputEvent_ok [OF good small, of io] step have good': "router_ok r'" by (metis option.inject)
  moreover from good small have "ok (rt_capture r') (remote_view r')"
  proof (cases rule: handleInputEvent_control [where io = io])
    case (moved r0)
    with step capture same_control_views(2) [OF moved(2)] show ?thesis by (simp add: same_control_def)
  next
    case (sent r0 s e')
    have "remote_view (snd (queueInputForScreen io s e' r0)) = remote_view r0"
      by (simp add: remote_view_def active_view_def cong: option.case_cong)
    with sent step capture same_control_views(2) [OF sent(2)] show ?thesis by (simp add: same_control_def)
  next
    case (switch r0 q n t)
    then have r': "r' = switched io n t q r0" and c0: "rt_capture r0 = rt_capture r" using step by (simp_all add: same_control_def)
    have "store_findScreen (sp_key q) (rt_store r0) = Some (n, t)" "store_inv (rt_store r0)"
      using switch(2,3) router_okD(2) [OF good] by (simp_all add: same_control_def)
    then have view: "remote_view r' = (\<not> vs_local t)"
      by (simp add: r' remote_view_def active_view_switched)
    have mode: "ok (set_mode io (\<not> vs_local t) (rt_capture r0)) (\<not> vs_local t)"
      using set_mode_ok [OF io] capture c0 by simp
    show ?thesis
    proof (cases "vs_local t")
      case False
      with mode view show ?thesis by (simp add: r' switched_def Let_def)
    next
      case True
      let ?r1 = "r0\<lparr>rt_active := Some n, rt_point := Some q, rt_capture := set_mode io False (rt_capture r0)\<rparr>"
      have eq: "r' = warp io ?r1" using True by (simp add: r' switched_def)
      then have "rt_point r' = Some q" by simp
      with router_okD(6,7) [OF good'] have "Input_Router.small (sp_x q)" "Input_Router.small (sp_y q)" by simp_all
      then have "ok (rt_capture (warp io ?r1)) False"
        using mode True by (intro warp_ok [OF io]) simp_all
      with eq view True show ?thesis by simp
    qed
  next
    case (home r1)
    then have "\<not> remote_view r'" using good step by (auto elim: activateFirstLocal_ok [where io = io])
    moreover have "rt_capture r' = set_mode io False (rt_capture r)"
      using home step by (auto simp: activateFirstLocal_eq [OF router_okD(2) [OF good]] split: option.splits)
    ultimately show ?thesis using set_mode_ok [OF io capture, of False] by simp
  qed
  ultimately show ?thesis ..
qed

lemma step_keeps:
  assumes "host_step (ios valid send) exec r r'" "router_ok r" "ok (rt_capture r) (remote_view r)"
  shows "router_ok r' \<and> ok (rt_capture r') (remote_view r')"
  using assms(1)
proof (rule host_stepE)
  fix io e
  assume "io \<in> ios valid send" "event_small e" "handleInputEvent io e r = Some r'"
  from event_keeps [OF assms(2) this(2,1) assms(3) this(3)] show ?thesis .
next
  fix c a c'
  assume r': "r' = r\<lparr>rt_capture := Some (Some c')\<rparr>" and c: "rt_capture r = Some (Some c)" "exec a c = Some c'"
  have "proper c" "remote c \<longrightarrow> remote_view r" using c(1) assms(3) by (auto simp: withholds_ok_def)
  with exec_keeps [of c a c'] c(2) have "ok (Some (Some c')) (remote_view r)" by (auto simp: withholds_ok_def)
  moreover have "remote_view r' = remote_view r" "router_ok r'"
    using assms(2) by (simp_all add: r' remote_view_def active_view_def router_ok_def cong: option.case_cong)
  ultimately show ?thesis by (simp add: r')
qed

lemma run_keeps:
  assumes "(host_step (ios valid send) exec)\<^sup>*\<^sup>* r r'" "router_ok r" "rt_capture r = Some (Some c)" "proper c" "\<not> remote c"
  shows "router_ok r' \<and> ok (rt_capture r') (remote_view r')"
  using assms(1)
proof induction
  case base
  from assms(2-5) show ?case by (simp add: withholds_ok_def)
next
  case (step r1 r2)
  with step_keeps show ?case by blast
qed

lemma hotkey_frees:
  assumes "router_ok r" "ok (rt_capture r) (remote_view r)" "io \<in> ios valid send"
    and "\<not> ke_release k" "ke_key k = Key_F12"
  shows "\<exists>r'. handleInputEvent io (KeyEvent k) r = Some r' \<and> ok (rt_capture r') False"
proof -
  obtain r1 where r1: "activateFirstLocalScreen io r = Some r1" "\<not> remote_view r1"
    using assms(1) by (rule activateFirstLocal_ok)
  have step: "handleInputEvent io (KeyEvent k) r = Some (if remote_view r then r1 else r)"
    using assms(4,5) r1(1) router_okD(5) [OF assms(1)] by (simp add: handleInputEvent_def tryHandleLocalHotkey_def)
  from event_keeps [OF assms(1) _ assms(3,2) step] r1(2) assms(2) step show ?thesis by (auto split: if_splits)
qed

text \<open>
  The host is never locked out: input is withheld only for a remote screen, every next event can be handled,
  and the hot key gives the input back.
\<close>

lemma host_never_locked_out:
  assumes "(host_step (ios valid send) exec)\<^sup>*\<^sup>* r r'" "router_ok r" "rt_capture r = Some (Some c)" "proper c" "\<not> remote c"
  shows "(\<exists>c'. rt_capture r' = Some (Some c') \<and> (remote c' \<longrightarrow> remote_view r')) \<and>
    (\<forall>io \<in> ios valid send.
       (\<forall>e. event_small e \<longrightarrow> handleInputEvent io e r' \<noteq> None) \<and>
       (\<forall>k. \<not> ke_release k \<and> ke_key k = Key_F12 \<longrightarrow>
          (\<exists>r'' c''. handleInputEvent io (KeyEvent k) r' = Some r'' \<and> rt_capture r'' = Some (Some c'') \<and> \<not> remote c'')))"
proof -
  from run_keeps [OF assms] have good: "router_ok r'" "ok (rt_capture r') (remote_view r')" by simp_all
  have "handleInputEvent io e r' \<noteq> None" if "event_small e" for io e
    by (rule handleInputEvent_ok [OF good(1) that, of io]) simp
  moreover have "\<exists>r'' c''. handleInputEvent io (KeyEvent k) r' = Some r'' \<and> rt_capture r'' = Some (Some c'') \<and> \<not> remote c''"
    if "io \<in> ios valid send" "\<not> ke_release k" "ke_key k = Key_F12" for io k
    using hotkey_frees [OF good that] by (auto simp: withholds_ok_def)
  ultimately show ?thesis using good(2) by (auto simp: withholds_ok_def)
qed

end

section \<open>Windows\<close>

text \<open>What happens on the thread of the window, not on behalf of the router: start, stop, reads, hooks.\<close>

fun w32_own :: "w32_env \<times> w32_action \<Rightarrow> w32_capture \<Rightarrow> w32_capture ub" where
  "w32_own (env, SetRemote active) c = None"
| "w32_own (env, MoveLocal screenIndex x y) c = None"
| "w32_own (env, action) c = w32_exec env action c"

lemma remote_ended [simp]: "\<not> wc_remote (endRemoteControl c)" "\<not> wc_remote (removeHooks c)"
  by (simp_all add: endRemoteControl_def removeHooks_def Let_def)

text \<open>A request reaches the capture when it can be posted to the thread of the window, and this runs.\<close>

definition w32_usable :: "w32_env \<Rightarrow> bool" where
  "w32_usable env \<longleftrightarrow> we_post env = Posted"

lemma w32_set_remote:
  assumes "w32_setRemoteControlActive env active c = Some (error, c')"
  shows "w32_usable env \<Longrightarrow> wc_remote c' \<Longrightarrow> active" "wc_table c' = wc_table c"
  using setRemote_Some [OF assms] setRemote_fields [OF assms]
  by (auto simp: w32_usable_def remote_call_def beginRemoteControl_def Let_def split: option.splits if_splits)

lemma w32_set_defined: "w32_usable env \<Longrightarrow> w32_setRemoteControlActive env active c \<noteq> None"
  by (cases "remote_call env active c") (simp add: w32_usable_def w32_setRemoteControlActive_def syncUiCall_def)

lemma w32_move_defined:
  assumes "table_good (wc_table c)" "w32_usable env" "Input_Router.small x" "Input_Router.small y"
  shows "w32_moveLocalCursor env n x y c \<noteq> None"
proof -
  have "localToGlobal (wc_table c) n (x, y) \<noteq> None"
  proof (cases "n < length (fst (wc_table c))")
    case True
    with assms(1) have "small_rect (wm_rect (fst (wc_table c) ! n))" by (simp add: table_good_def)
    then have "in_i32 (wr_left (wm_rect (fst (wc_table c) ! n)) + x)" "in_i32 (wr_top (wm_rect (fst (wc_table c) ! n)) + y)"
      using assms(3,4) by (auto simp: small_rect_def Win32_Platform.small_def Input_Router.small_def in_i32_def)
    then show ?thesis by (simp add: localToGlobal_def Let_def)
  qed (simp add: localToGlobal_def)
  then have "move_call env n x y c \<noteq> None" by (auto simp: move_call_def)
  then show ?thesis using assms(2) by (auto simp: w32_moveLocalCursor_def syncUiCall_def w32_usable_def)
qed

lemma translateMouse_remote: "translateMouseEvent env wp info c = Some (event, c') \<Longrightarrow> wc_remote c' = wc_remote c"
  by (cases wp) (auto simp: translateMouseEvent_def translate_move_def ub_bind_eq_Some Let_def split: if_splits)

lemma remote_kept [simp]:
  "wc_remote (enqueue_option event c) = wc_remote c" "wc_remote (snd (SetCursorPos env p c)) = wc_remote c"
  by (simp_all add: enqueue_option_def tryEnqueue_def SetCursorPos_def split: option.split)

lemma mouseHook_remote: "mouseHookProc env code wp info c = Some (r, c') \<Longrightarrow> wc_remote c' = wc_remote c"
  by (auto simp: mouseHookProc_def ub_bind_eq_Some Let_def dest!: translateMouse_remote
      split: if_splits mouse_message.splits option.splits)

lemma w32_own_remote: "w32_own (env, action) c = Some c' \<Longrightarrow> wc_remote c' \<longrightarrow> wc_remote c"
proof (cases action)
  case Initialize
  assume "w32_own (env, action) c = Some c'"
  with Initialize show ?thesis
    by (auto simp: w32_initialize_def installHooks_def Let_def split: if_splits post_outcome.splits)
next
  case Shutdown
  assume "w32_own (env, action) c = Some c'"
  with Shutdown show ?thesis by (auto simp: w32_shutdown_def split: post_outcome.splits)
qed (auto simp: w32_nextEvent_def keyboardHookProc_def enqueue_option_def tryEnqueue_def Let_def
      dest: mouseHook_remote split: if_splits list.splits option.splits)

lemma w32_own_exec: "w32_own (env, action) c = Some c' \<Longrightarrow> w32_exec env action c = Some c'"
  by (cases action) simp_all

interpretation w32: input_capture w32_setRemoteControlActive w32_moveLocalCursor w32_own w32_usable wc_remote
  "\<lambda>c. table_good (wc_table c)"
proof unfold_locales
  fix env n x y c error c'
  assume "table_good (wc_table c)" "w32_moveLocalCursor env n x y c = Some (error, c')"
  then show "table_good (wc_table c') \<and> wc_remote c' = wc_remote c"
    by (simp add: moveLocal_fields)
next
  fix env active c error c'
  assume "table_good (wc_table c)" "w32_setRemoteControlActive env active c = Some (error, c')"
  then show "table_good (wc_table c')" by (simp add: w32_set_remote(2))
next
  fix a c c'
  assume "table_good (wc_table c)" "w32_own a c = Some c'"
  then show "table_good (wc_table c') \<and> (wc_remote c' \<longrightarrow> wc_remote c)"
    using w32_own_remote [of "fst a" "snd a" c c'] w32_table [of "fst a" "snd a" c c'] w32_own_exec [of "fst a" "snd a" c c'] by simp
qed (auto simp: w32_set_defined w32_move_defined dest: w32_set_remote(1))

section \<open>X11\<close>

fun xcb_own :: "xcb_action \<Rightarrow> xcb_capture \<Rightarrow> xcb_capture ub" where
  "xcb_own (XSetRemote env active) c = None"
| "xcb_own (XMoveLocal env screenIndex x y) c = None"
| "xcb_own action c = xcb_exec action c"

text \<open>A request to the X server is always answered.\<close>

definition answered ::
  "('env \<Rightarrow> bool \<Rightarrow> 'cap \<Rightarrow> nat option \<times> 'cap) \<Rightarrow> 'env \<Rightarrow> bool \<Rightarrow> 'cap \<Rightarrow> (nat option \<times> 'cap) ub" where
  "answered set_remote env active c = Some (set_remote env active c)"

definition x11_usable :: "xcb_env \<Rightarrow> bool" where
  "x11_usable env \<longleftrightarrow> (\<forall>s \<in> set (xe_screens env). Input_Router.small (si_x (xs_screen s)) \<and> Input_Router.small (si_y (xs_screen s)))"

definition x11_grabbed :: "xcb_capture \<Rightarrow> bool" where
  "x11_grabbed c \<longleftrightarrow> xc_pointerGrabbed c \<or> xc_keyboardGrabbed c"

lemma x11_grabbed_remote: "xcb_inv c \<Longrightarrow> x11_grabbed c = xc_remote c"
  by (auto simp: x11_grabbed_def xcb_inv_def)

lemma xcb_set_remote:
  assumes "xcb_inv c"
  shows "xcb_inv (snd (xcb_setRemoteControlActive env active c))"
    "x11_grabbed (snd (xcb_setRemoteControlActive env active c)) \<Longrightarrow> active"
proof -
  obtain r c' where step: "xcb_setRemoteControlActive env active c = (r, c')"
    by (cases "xcb_setRemoteControlActive env active c")
  note cases = setRemote_cases [OF assms step]
  then show "xcb_inv (snd (xcb_setRemoteControlActive env active c))" by (simp add: step)
  from cases show "x11_grabbed (snd (xcb_setRemoteControlActive env active c)) \<Longrightarrow> active"
    by (auto simp: step x11_grabbed_remote split: option.splits)
qed

lemma xcb_move_defined:
  assumes "x11_usable env" "Input_Router.small x" "Input_Router.small y"
  shows "xcb_moveLocalCursor env n x y c \<noteq> None"
proof (cases "n < length (xe_screens env)")
  case True
  then have "xe_screens env ! n \<in> set (xe_screens env)" by simp
  with assms(1) have "Input_Router.small (si_x (xs_screen (xe_screens env ! n)))"
    "Input_Router.small (si_y (xs_screen (xe_screens env ! n)))" by (simp_all add: x11_usable_def)
  then have "in_i32 (si_x (xs_screen (xe_screens env ! n)) + x)" "in_i32 (si_y (xs_screen (xe_screens env ! n)) + y)"
    using assms(2,3) by (auto simp: Input_Router.small_def in_i32_def)
  with True show ?thesis by (simp add: xcb_moveLocalCursor_def xcb_localToGlobal_def Let_def)
qed (simp add: xcb_moveLocalCursor_def xcb_localToGlobal_def)

lemma xcb_move_remote:
  assumes "xcb_moveLocalCursor env n x y c = Some (r, c')"
  shows "x11_grabbed c' = x11_grabbed c"
proof (cases "xc_connected c")
  case True
  with assms obtain target where target: "xcb_localToGlobal (xe_screens env) n x y = Some target"
    by (auto simp: xcb_moveLocalCursor_def ub_bind_eq_Some)
  with True assms show ?thesis
    by (auto simp: xcb_moveLocalCursor_def x11_grabbed_def Let_def split: if_splits option.splits prod.splits)
qed (use assms in \<open>simp add: xcb_moveLocalCursor_def\<close>)

lemma translateCoreMove_grabs: "translateCoreMouseMove env p q c = Some (e, c') \<Longrightarrow> x11_grabbed c' = x11_grabbed c"
  by (auto simp: translateCoreMouseMove_def ub_bind_eq_Some x11_grabbed_def)

lemma translateCore_grabs: "translateCoreEvent env event c = Some (e, c') \<Longrightarrow> x11_grabbed c' = x11_grabbed c"
  by (auto simp: translateCoreEvent_def ub_bind_eq_Some dest: translateCoreMove_grabs split: x_event.splits)

lemma translateEvent_grabs: "translateEvent env event c = Some (e, c') \<Longrightarrow> x11_grabbed c' = x11_grabbed c"
  by (auto simp: translateEvent_def ub_bind_eq_Some dest: translateCore_grabs split: if_splits option.splits x_event.splits)

lemma fetch_grabs: "fetch_event env events c = Some (r, c') \<Longrightarrow> x11_grabbed c' = x11_grabbed c"
proof (induction events arbitrary: c)
  case (Cons event events)
  then obtain e c1 where e: "translateEvent env event c = Some (e, c1)" by (auto simp: ub_bind_eq_Some)
  with Cons.IH [of c1] Cons.prems translateEvent_grabs [OF e] show ?case by (cases e) auto
qed simp

lemma closed_not_grabbed: "xcb_inv c \<Longrightarrow> \<not> x11_grabbed (xcb_closeConnection c)"
  using close_inv [of c] by (auto simp: x11_grabbed_remote xcb_inv_def)

lemma xcb_own_grabs:
  assumes "xcb_inv c" "xcb_own a c = Some c'"
  shows "x11_grabbed c' \<longrightarrow> x11_grabbed c"
proof (cases a)
  case (XInit env)
  have opened: "xcb_inv (xcb_closeConnection c\<lparr>xc_connected := True\<rparr>)"
    using close_inv(1,2) [OF assms(1)] closed_not_grabbed [OF assms(1)] by (auto simp: xcb_inv_def x11_grabbed_def)
  then have "\<not> x11_grabbed (xcb_closeConnection (xcb_closeConnection c\<lparr>xc_connected := True\<rparr>))" by (rule closed_not_grabbed)
  with XInit assms(2) closed_not_grabbed [OF assms(1)] show ?thesis
    by (auto simp: xcb_initialize_def Let_def x11_grabbed_def split: option.splits if_splits)
next
  case XShutdown
  with assms closed_not_grabbed show ?thesis by auto
next
  case (XNextEvent env events)
  with assms fetch_grabs show ?thesis by (auto simp: xcb_nextEvent_def split: if_splits)
qed (use assms in auto)

lemma xcb_own_exec: "xcb_own a c = Some c' \<Longrightarrow> xcb_exec a c = Some c'"
  by (cases a) simp_all

interpretation x11: input_capture "answered xcb_setRemoteControlActive" xcb_moveLocalCursor xcb_own x11_usable x11_grabbed xcb_inv
proof unfold_locales
  fix a c c'
  assume "xcb_inv c" "xcb_own a c = Some c'"
  then show "xcb_inv c' \<and> (x11_grabbed c' \<longrightarrow> x11_grabbed c)"
    using xcb_own_grabs [of c a c'] xcb_exec_inv [of c a c'] xcb_own_exec [of a c c'] by simp
next
  fix env active c error c'
  assume "xcb_inv c" "answered xcb_setRemoteControlActive env active c = Some (error, c')"
  then show "xcb_inv c'" using xcb_set_remote(1) [of c env active] by (simp add: answered_def)
next
  fix env active c error c'
  assume "xcb_inv c" "answered xcb_setRemoteControlActive env active c = Some (error, c')" "x11_grabbed c'"
  then show active using xcb_set_remote(2) [of c env active] by (simp add: answered_def)
qed (auto simp: answered_def xcb_move_defined dest: xcb_move_remote moveLocal_inv)

section \<open>Properties\<close>

text \<open>
  C12. On Windows the host is never locked out as long as the requests of the router reach the thread of the
  window: in every interleaving of captured events, hook callbacks, reads, starts and stops, and whatever the
  system answers to everything but the post of a request of the router, the hooks withhold input only while
  a remote screen is active; the next event can be handled without undefined behaviour, and the hot key gives
  the input back. The condition is needed: \<open>failed_post_keeps_input\<close>.
\<close>

theorem windows_host_never_locked_out:
  assumes "(host_step (capture_ios w32_setRemoteControlActive w32_moveLocalCursor w32_usable valid send) w32_own)\<^sup>*\<^sup>* r r'"
    and "router_ok r" and "rt_capture r = Some (Some c)" and "table_good (wc_table c)" and "\<not> wc_remote c"
  shows "(\<exists>c'. rt_capture r' = Some (Some c') \<and> (wc_remote c' \<longrightarrow> remote_view r')) \<and>
    (\<forall>io \<in> capture_ios w32_setRemoteControlActive w32_moveLocalCursor w32_usable valid send.
       (\<forall>e. event_small e \<longrightarrow> handleInputEvent io e r' \<noteq> None) \<and>
       (\<forall>k. \<not> ke_release k \<and> ke_key k = Key_F12 \<longrightarrow>
          (\<exists>r'' c''. handleInputEvent io (KeyEvent k) r' = Some r'' \<and> rt_capture r'' = Some (Some c'') \<and> \<not> wc_remote c'')))"
  using assms by (rule w32.host_never_locked_out)

text \<open>
  When the hot key is pressed and the request to give the input back cannot be posted, the router goes back to
  the host all the same and ignores the error: the host is active, and its input stays withheld. When the
  thread of the window has ended, there is no answer at all.
\<close>

theorem failed_post_keeps_input:
  assumes "router_ok r" and "remote_view r" and "rt_capture r = Some (Some c)" and "wc_remote c"
    and "we_post env \<noteq> Posted" and "\<not> ke_release k" and "ke_key k = Key_F12"
  shows "\<exists>r'. handleInputEvent (capture_io (w32_setRemoteControlActive env) (w32_moveLocalCursor env) valid send)
        (KeyEvent k) r = Some r' \<and> \<not> remote_view r' \<and>
      rt_capture r' = Some (if we_post env = NeverRun then None else Some c)"
proof -
  let ?io = "capture_io (w32_setRemoteControlActive env) (w32_moveLocalCursor env) valid send"
  obtain r' where r': "activateFirstLocalScreen ?io r = Some r'" "\<not> remote_view r'"
    using assms(1) by (rule activateFirstLocal_ok)
  have "handleInputEvent ?io (KeyEvent k) r = Some r'"
    using assms(2,6,7) r'(1) router_okD(5) [OF assms(1)] by (simp add: handleInputEvent_def tryHandleLocalHotkey_def)
  moreover have "rt_capture r' = set_mode ?io False (rt_capture r)"
    using r'(1) by (auto simp: activateFirstLocal_eq [OF router_okD(2) [OF assms(1)]] split: option.splits)
  then have "rt_capture r' = Some (if we_post env = NeverRun then None else Some c)"
    using assms(3,5)
    by (simp add: set_mode_def capture_io_def w32_setRemoteControlActive_def syncUiCall_def split: post_outcome.splits)
  ultimately show ?thesis using r'(2) by blast
qed

definition host_at_home :: "'cap \<Rightarrow> (nat, 'cap ub, input_event list) router" where
  "host_at_home c = \<lparr>rt_store = two_store, rt_senders = [(7, [])], rt_capture = Some (Some c), rt_active = Some 0,
     rt_point = Some \<lparr>sp_key = ScreenKey ''host'' 0, sp_x = 960, sp_y = 540\<rparr>, rt_lastLocal = None, rt_pendingWarp = None\<rparr>"

lemma host_at_home_ok: "router_ok (host_at_home c)" "active_view (host_at_home c) = Some demo_host"
  by (simp_all add: router_ok_def state_ok_def host_at_home_def two_store_sync two_store_small two_store_nodes
        Input_Router.small_def active_view_def map_wf_def)

definition host_at_peer :: "'cap \<Rightarrow> (nat, 'cap ub, input_event list) router" where
  "host_at_peer c = (host_at_home c)\<lparr>rt_active := Some 1,
     rt_point := Some \<lparr>sp_key = ScreenKey ''peer'' 0, sp_x = 960, sp_y = 540\<rparr>\<rparr>"

lemma host_at_peer_ok: "router_ok (host_at_peer c)" "active_view (host_at_peer c) = Some demo_peer"
  by (simp_all add: router_ok_def state_ok_def host_at_peer_def host_at_home_def two_store_sync two_store_small
        two_store_nodes [simplified] Input_Router.small_def inside_def active_view_def map_wf_def)

lemma host_crossing:
  "rt_pendingWarp (host_at_home c) \<noteq> Some \<lparr>sp_key = ScreenKey ''host'' 0, sp_x = 1919, sp_y = 540\<rparr>"
  "hitEdge (st_topology (rt_store (host_at_home c))) \<lparr>sp_key = ScreenKey ''host'' 0, sp_x = 1919, sp_y = 540\<rparr> = Some (Some Edge_Right)"
  "findNeighbor (st_topology (rt_store (host_at_home c))) (ScreenKey ''host'' 0) Edge_Right = Some (Some (ScreenKey ''peer'' 0))"
  "store_findScreen (ScreenKey ''peer'' 0) (rt_store (host_at_home c)) = Some (1, demo_peer)"
  "map_find (rt_senders (host_at_home c)) (vs_endpoint demo_peer) = Some []"
  by (simp_all add: host_at_home_def hitEdge_def findNeighbor_def findScreen_def two_store_fields store_findScreen_def
        nodes_def)
     (simp add: demo_host_def)

lemma demo_move_small: "event_small (MouseMoveEvent (demo_move 1919 540 0 0))"
  by (simp add: demo_move_def move_small_def Input_Router.small_def)

theorem windows_host_never_locked_out_witness:
  "\<exists>r' c'. handleInputEvent (capture_io (w32_setRemoteControlActive demo_w32) (w32_moveLocalCursor demo_w32) (\<lambda>_. True) (\<lambda>e sent. (True, sent @ [e])))
      (MouseMoveEvent (demo_move 1919 540 0 0)) (host_at_home (new_capture demo_table (1919, 540) 0)) = Some r' \<and>
     rt_capture r' = Some (Some c') \<and> (wc_remote c' \<longrightarrow> remote_view r')"
proof -
  let ?send = "\<lambda>e sent. (True, sent @ [e])" and ?c = "new_capture demo_table (1919, 540) 0"
  let ?io = "capture_io (w32_setRemoteControlActive demo_w32) (w32_moveLocalCursor demo_w32) (\<lambda>_. True) ?send"
  let ?ios = "capture_ios w32_setRemoteControlActive w32_moveLocalCursor w32_usable (\<lambda>_. True) ?send"
  obtain r' where r': "handleInputEvent ?io (MouseMoveEvent (demo_move 1919 540 0 0)) (host_at_home ?c) = Some r'"
    by (rule handleInputEvent_ok [OF host_at_home_ok(1) demo_move_small])
  have "w32_usable demo_w32" by (simp add: w32_usable_def demo_w32_def)
  then have "?io \<in> ?ios" by (auto simp: capture_ios_def)
  from host_step.captured [OF this demo_move_small r'] have "(host_step ?ios w32_own)\<^sup>*\<^sup>* (host_at_home ?c) r'" by (rule r_into_rtranclp)
  from windows_host_never_locked_out [OF this host_at_home_ok(1), of ?c] r' show ?thesis
    by (auto simp: host_at_home_def new_capture_def demo_table_good)
qed

theorem failed_post_keeps_input_witness:
  "\<exists>r'. handleInputEvent (capture_io (w32_setRemoteControlActive (demo_w32\<lparr>we_post := PostFailed 1816\<rparr>))
        (w32_moveLocalCursor (demo_w32\<lparr>we_post := PostFailed 1816\<rparr>)) (\<lambda>_. True) (\<lambda>e sent. (True, sent @ [e])))
      (KeyEvent \<lparr>ke_key = Key_F12, ke_modifiers = 0, ke_nativeCode = 0, ke_repeat = False, ke_release = False\<rparr>)
      (host_at_peer demo_remote) = Some r' \<and> \<not> remote_view r' \<and> rt_capture r' = Some (Some demo_remote) \<and> wc_remote demo_remote"
proof -
  let ?env = "demo_w32\<lparr>we_post := PostFailed 1816\<rparr>"
  have remote: "remote_view (host_at_peer demo_remote)" "rt_capture (host_at_peer demo_remote) = Some (Some demo_remote)"
    using host_at_peer_ok(2) [of demo_remote] by (simp_all add: remote_view_def host_at_peer_def host_at_home_def)
  have mode: "wc_remote demo_remote" "we_post ?env \<noteq> Posted" by (simp_all add: demo_remote_def)
  from failed_post_keeps_input [OF host_at_peer_ok(1) remote mode,
      of "\<lparr>ke_key = Key_F12, ke_modifiers = 0, ke_nativeCode = 0, ke_repeat = False, ke_release = False\<rparr>"] mode(1)
  show ?thesis by simp
qed

text \<open>
  C13. On X11 the host is never locked out either, whichever requests the X server refuses.
\<close>

theorem x11_host_never_locked_out:
  assumes "(host_step (capture_ios (answered xcb_setRemoteControlActive) xcb_moveLocalCursor x11_usable valid send) xcb_own)\<^sup>*\<^sup>* r r'"
    and "router_ok r" and "rt_capture r = Some (Some c)" and "xcb_inv c" and "\<not> x11_grabbed c"
  shows "(\<exists>c'. rt_capture r' = Some (Some c') \<and> (x11_grabbed c' \<longrightarrow> remote_view r')) \<and>
    (\<forall>io \<in> capture_ios (answered xcb_setRemoteControlActive) xcb_moveLocalCursor x11_usable valid send.
       (\<forall>e. event_small e \<longrightarrow> handleInputEvent io e r' \<noteq> None) \<and>
       (\<forall>k. \<not> ke_release k \<and> ke_key k = Key_F12 \<longrightarrow>
          (\<exists>r'' c''. handleInputEvent io (KeyEvent k) r' = Some r'' \<and> rt_capture r'' = Some (Some c'') \<and> \<not> x11_grabbed c'')))"
  using assms by (rule x11.host_never_locked_out)

theorem x11_host_never_locked_out_witness:
  "\<exists>r' c'. handleInputEvent (capture_io (answered xcb_setRemoteControlActive demo_xcb) (xcb_moveLocalCursor demo_xcb) (\<lambda>_. True) (\<lambda>e sent. (True, sent @ [e])))
      (MouseMoveEvent (demo_move 1919 540 0 0)) (host_at_home (new_xcb_capture\<lparr>xc_connected := True\<rparr>)) = Some r' \<and>
     rt_capture r' = Some (Some c') \<and> (x11_grabbed c' \<longrightarrow> remote_view r')"
proof -
  let ?send = "\<lambda>e sent. (True, sent @ [e])" and ?c = "new_xcb_capture\<lparr>xc_connected := True\<rparr>"
  let ?io = "capture_io (answered xcb_setRemoteControlActive demo_xcb) (xcb_moveLocalCursor demo_xcb) (\<lambda>_. True) ?send"
  let ?ios = "capture_ios (answered xcb_setRemoteControlActive) xcb_moveLocalCursor x11_usable (\<lambda>_. True) ?send"
  obtain r' where r': "handleInputEvent ?io (MouseMoveEvent (demo_move 1919 540 0 0)) (host_at_home ?c) = Some r'"
    by (rule handleInputEvent_ok [OF host_at_home_ok(1) demo_move_small])
  have "x11_usable demo_xcb" by (simp add: x11_usable_def demo_xcb_def)
  then have "?io \<in> ?ios" by (auto simp: capture_ios_def)
  from host_step.captured [OF this demo_move_small r'] have "(host_step ?ios xcb_own)\<^sup>*\<^sup>* (host_at_home ?c) r'" by (rule r_into_rtranclp)
  from x11_host_never_locked_out [OF this host_at_home_ok(1), of ?c] r' show ?thesis
    by (auto simp: host_at_home_def new_xcb_capture_def xcb_inv_def x11_grabbed_def)
qed

text \<open>
  The router ignores that the capture refused: when the X server refuses the grab, the remote screen becomes
  active and gets the input, and the desktop of the host gets it as well, as nothing is grabbed.
\<close>

theorem refused_grab_is_ignored:
  assumes "router_ok r" and "active_view r = Some s" and "vs_local s" and "move_small m"
    and "p = \<lparr>sp_key = ScreenKey (key_ownerId (vs_key s)) (mv_screenIndex m), sp_x = mv_x m, sp_y = mv_y m\<rparr>"
    and "rt_pendingWarp r \<noteq> Some p"
    and "hitEdge (st_topology (rt_store r)) p = Some (Some e)"
    and "findNeighbor (st_topology (rt_store r)) (sp_key p) e = Some (Some k)"
    and "store_findScreen k (rt_store r) = Some (n, t)" and "\<not> vs_local t"
    and "map_find (rt_senders r) (vs_endpoint t) = Some sender" and "valid sender"
    and "rt_capture r = Some (Some c)" and "xcb_inv c" and "fst (xcb_setRemoteControlActive env True c) \<noteq> None"
  shows "\<exists>r' q c'. handleInputEvent (capture_io (answered xcb_setRemoteControlActive env) (xcb_moveLocalCursor env) valid send)
        (MouseMoveEvent m) r = Some r' \<and> rt_active r' = Some n \<and>
      map_find (rt_senders r') (vs_endpoint t) = Some (snd (send (point_move q) sender)) \<and>
      rt_capture r' = Some (Some c') \<and> \<not> x11_grabbed c'"
proof -
  let ?io = "capture_io (answered xcb_setRemoteControlActive env) (xcb_moveLocalCursor env) valid send"
  let ?r = "r\<lparr>rt_lastLocal := Some m, rt_point := Some p\<rparr>"
  obtain q where q: "handleInputEvent ?io (MouseMoveEvent m) r = Some (switched ?io n t q ?r)"
    using assms(1-9) by (rule crossing_switches)
  obtain err c' where step: "xcb_setRemoteControlActive env True c = (Some err, c')"
    using assms(15) by (cases "xcb_setRemoteControlActive env True c") auto
  from setRemote_cases [OF assms(14) step] have "\<not> x11_grabbed c'" by (simp add: x11_grabbed_remote)
  moreover have "rt_capture (switched ?io n t q ?r) = Some (Some c')"
    using assms(10,13) step by (simp add: switched_def Let_def set_mode_def capture_io_def answered_def)
  moreover have "map_find (rt_senders (switched ?io n t q ?r)) (vs_endpoint t) = Some (snd (send (point_move q) sender))"
    using router_okD(4) [OF assms(1)] assms(10-12) by (simp add: switched_def Let_def queue_senders capture_io_def)
  moreover have "rt_active (switched ?io n t q ?r) = Some n" using assms(10) by (simp add: switched_def Let_def)
  ultimately show ?thesis using q by blast
qed

theorem refused_grab_is_ignored_witness:
  "\<exists>r' c'. handleInputEvent (capture_io (answered xcb_setRemoteControlActive demo_xcb) (xcb_moveLocalCursor demo_xcb) (\<lambda>_. True) (\<lambda>e sent. (True, sent @ [e])))
      (MouseMoveEvent (demo_move 1919 540 0 0)) (host_at_home (new_xcb_capture\<lparr>xc_connected := True\<rparr>)) = Some r' \<and>
     rt_active r' = Some 1 \<and> rt_capture r' = Some (Some c') \<and> \<not> x11_grabbed c'"
proof -
  let ?c = "new_xcb_capture\<lparr>xc_connected := True\<rparr>"
  have "xcb_inv ?c" by (simp add: xcb_inv_def new_xcb_capture_def)
  moreover have "fst (xcb_setRemoteControlActive demo_xcb True ?c) \<noteq> None"
    by (simp add: xcb_setRemoteControlActive_def acquireRemoteControl_def new_xcb_capture_def demo_xcb_def
        ensureHiddenCursor_def ensureGrabWindow_def generate_id_def x_create_def x_free_def grabStatusError_def)
  ultimately show ?thesis
    using refused_grab_is_ignored [OF host_at_home_ok demo_screens_simps(1) demo_move_small [simplified] refl _ _ _
        host_crossing(4) demo_screens_simps(2) host_crossing(5), of ?c Edge_Right "\<lambda>_. True" ?c demo_xcb "\<lambda>e sent. (True, sent @ [e])"]
      host_crossing(1-3) [of ?c]
    by (auto simp: demo_move_def host_at_home_def)
qed

end
