(* ===== verification/Linux_Backends.thy ===== *)
theory Linux_Backends
  imports Backend_Registry Xcb_Platform Wayland_Platform Portal_Platform
begin

text \<open>
  The backends of Linux as the registry sees them: \<open>src/platform/xcb_connection.cpp\<close>, the construction
  of the X11 platform and the ends of \<open>src/platform/xcb.cpp\<close>, \<open>wayland.cpp\<close> and \<open>wayland_portal.cpp\<close>, with
  their checks and registrations.

  \<^item> \<open>getenv\<close> is the environment of the process; \<open>message\<close> the text of an error code, \<open>fmt\<close> the formatting of
    a number.
  \<^item> The X server and the D-Bus answer through records; the constructor of a platform that a check makes
    has its own answers.
\<close>

section \<open>The connection to the X server\<close>

datatype conn_error =
    CONN_ERROR | CONN_CLOSED_EXT_NOTSUPPORTED | CONN_CLOSED_MEM_INSUFFICIENT | CONN_CLOSED_REQ_LEN_EXCEED
  | CONN_CLOSED_PARSE_ERR | CONN_CLOSED_INVALID_SCREEN | CONN_CLOSED_FDPASSING_FAILED | CONN_OTHER

fun connectionError :: "conn_error \<Rightarrow> nat" where
  "connectionError CONN_ERROR = 111"
| "connectionError CONN_CLOSED_EXT_NOTSUPPORTED = 93"
| "connectionError CONN_CLOSED_MEM_INSUFFICIENT = 12"
| "connectionError CONN_CLOSED_REQ_LEN_EXCEED = 90"
| "connectionError CONN_CLOSED_PARSE_ERR = 22"
| "connectionError CONN_CLOSED_INVALID_SCREEN = 19"
| "connectionError _ = 5"

text \<open>
  \<open>xd_connect\<close> is what \<open>xcb_connect\<close> returns: a null pointer, or a handle with its error and default screen.
  \<open>connect\<close> also yields the calls that open and close the handle.
\<close>

record x_display =
  xd_connect :: "(conn_error option \<times> int) option"
  xd_roots :: "x_root list"

record xcb_connection =
  cx_screen :: int
  cx_roots :: "x_root list"

datatype handle_call = OpenHandle | CloseHandle

definition connection_connect :: "x_display \<Rightarrow> (nat + xcb_connection) \<times> handle_call list" where
  "connection_connect display =
     (case xd_connect display of
        None \<Rightarrow> (Inl 12, [])
      | Some (Some e, screen) \<Rightarrow> (Inl (connectionError e), [OpenHandle, CloseHandle])
      | Some (None, screen) \<Rightarrow> (Inr \<lparr>cx_screen = screen, cx_roots = xd_roots display\<rparr>, [OpenHandle]))"

text \<open>The iterator over the roots is the list of those that remain.\<close>

fun skip_roots :: "nat \<Rightarrow> x_root list \<Rightarrow> x_root list" where
  "skip_roots 0 iterator = iterator"
| "skip_roots (Suc n) [] = []"
| "skip_roots (Suc n) (r # rs) = skip_roots n rs"

definition connection_screen :: "xcb_connection \<Rightarrow> int \<Rightarrow> x_root option" where
  "connection_screen c index =
     (if index < 0 then None
      else (case skip_roots (nat index) (cx_roots c) of [] \<Rightarrow> None | r # _ \<Rightarrow> Some r))"

definition connection_check :: "bool \<Rightarrow> nat option" where
  "connection_check failed = (if \<not> failed then None else Some 5)"

definition connection_flush :: "int \<Rightarrow> conn_error option \<Rightarrow> nat option" where
  "connection_flush written failure =
     (if written > 0 then None
      else Some (case failure of None \<Rightarrow> 5 | Some e \<Rightarrow> connectionError e))"

section \<open>The X11 backend\<close>

definition envIsSet :: "(string \<Rightarrow> string option) \<Rightarrow> string \<Rightarrow> bool" where
  "envIsSet getenv name = (case getenv name of None \<Rightarrow> False | Some v \<Rightarrow> v \<noteq> [])"

definition isWaylandSession :: "(string \<Rightarrow> string option) \<Rightarrow> bool" where
  "isWaylandSession getenv \<longleftrightarrow> getenv ''XDG_SESSION_TYPE'' = Some ''wayland''"

record x11_answers =
  xa_display :: x_display
  xa_xinput :: "nat option"
  xa_xinputVersion :: "(nat \<times> nat) option"
  xa_randr :: randr_state

record xcb_platform =
  xp_root :: nat
  xp_rootWidth :: nat
  xp_rootHeight :: nat
  xp_xiOpcode :: nat
  xp_rawEventsDuringGrab :: bool
  xp_screens :: "xcb_screen list"

definition queryXInput :: "x11_answers \<Rightarrow> (nat \<times> bool) option" where
  "queryXInput answers =
     (case xa_xinput answers of
        None \<Rightarrow> None
      | Some opcode \<Rightarrow>
          (case xa_xinputVersion answers of
             None \<Rightarrow> None
           | Some (major, minor) \<Rightarrow> Some (opcode, major > 2 \<or> major = 2 \<and> minor \<ge> 1)))"

definition new_xcb_platform :: "(nat \<Rightarrow> string) \<Rightarrow> (nat \<Rightarrow> string) \<Rightarrow> x11_answers \<Rightarrow> string + xcb_platform" where
  "new_xcb_platform fmt message answers =
     (case fst (connection_connect (xa_display answers)) of
        Inl e \<Rightarrow> Inl (''Failed to open XCB connection: '' @ message e)
      | Inr connection \<Rightarrow>
          (case connection_screen connection (cx_screen connection) of
             None \<Rightarrow> Inl ''XCB display has no default screen''
           | Some root \<Rightarrow>
               (case queryXInput answers of
                  None \<Rightarrow> Inl ''XInput2 is not available''
                | Some (opcode, raw) \<Rightarrow>
                    (case xcb_enumerateScreens fmt (cx_screen connection) (xr_root root) (xa_randr answers) (cx_roots connection) of
                       None \<Rightarrow> Inl ''XCB display has no screens''
                     | Some screens \<Rightarrow>
                         Inr \<lparr>xp_root = xr_root root, xp_rootWidth = xr_width root, xp_rootHeight = xr_height root,
                              xp_xiOpcode = opcode, xp_rawEventsDuringGrab = raw, xp_screens = screens\<rparr>))))"

text \<open>A platform keeps a weak reference to its capture, and one to its injector: \<open>alive\<close> tells if it still exists.\<close>

definition createCapture :: "bool \<Rightarrow> string + bool" where
  "createCapture alive = (if alive then Inl ''InputCapture already created'' else Inr True)"

definition createInjector :: "bool \<Rightarrow> string + bool" where
  "createInjector alive = (if alive then Inl ''InputInjector already created'' else Inr True)"

datatype linux_platform = X11Platform xcb_platform | WlrPlatform wl_platform | XdgPlatform

text \<open>A constructor that throws becomes a null pointer.\<close>

definition created :: "('p \<Rightarrow> linux_platform) \<Rightarrow> string + 'p \<Rightarrow> string + linux_platform option" where
  "created wrap constructed = (case constructed of Inl what \<Rightarrow> Inr None | Inr p \<Rightarrow> Inr (Some (wrap p)))"

definition createX11Backend :: "(nat \<Rightarrow> string) \<Rightarrow> (nat \<Rightarrow> string) \<Rightarrow> x11_answers \<Rightarrow> string + linux_platform option" where
  "createX11Backend fmt message answers = created X11Platform (new_xcb_platform fmt message answers)"

text \<open>What a check of the X11 backend finds: the constructor, and the first start of its capture and injector.\<close>

record x11_probe =
  xq_answers :: x11_answers
  xq_capture :: xcb_env
  xq_injector :: xcb_inject_env

definition new_xcb_injector :: xcb_injector where
  "new_xcb_injector = \<lparr>xi_connected = False, xi_keySymbols = False, xi_sent = []\<rparr>"

definition interface_started :: "(nat \<Rightarrow> string) \<Rightarrow> string + bool \<Rightarrow> nat option \<Rightarrow> interface_probe" where
  "interface_started message interface error =
     \<lparr>if_create = interface, if_initialize = Inr (map_option message error), if_shutdown = None\<rparr>"

definition checkX11Backend ::
  "(nat \<Rightarrow> string) \<Rightarrow> (nat \<Rightarrow> string) \<Rightarrow> (string \<Rightarrow> string option) \<Rightarrow> x11_probe \<Rightarrow> backend_check" where
  "checkX11Backend fmt message getenv probe =
     (if isWaylandSession getenv \<or> envIsSet getenv ''WAYLAND_DISPLAY''
      then \<lparr>bc_available = False,
            bc_detail = ''Wayland session detected; XWayland is not a system-wide input backend'',
            bc_screens = \<lparr>fc_supported = False, fc_detail = ''X11 output discovery is not used in a Wayland session''\<rparr>,
            bc_capture = \<lparr>fc_supported = False, fc_detail = ''XWayland cannot capture native Wayland input''\<rparr>,
            bc_injection = \<lparr>fc_supported = False, fc_detail = ''XWayland cannot inject into native Wayland windows''\<rparr>\<rparr>
      else probeBackend fmt ''X11/XCB'' (createX11Backend fmt message (xq_answers probe))
             (Inr (case new_xcb_platform fmt message (xq_answers probe) of Inl _ \<Rightarrow> 0 | Inr p \<Rightarrow> length (xp_screens p)))
             (interface_started message (createCapture False) (fst (xcb_initialize (xq_capture probe) new_xcb_capture)))
             (interface_started message (createInjector False) (fst (xcb_injector_initialize (xq_injector probe) new_xcb_injector))))"

section \<open>The backend for wlroots\<close>

definition createWaylandPlatform :: "wl_env \<Rightarrow> string + linux_platform option" where
  "createWaylandPlatform env = created WlrPlatform (new_wl_platform env)"

record wl_probe =
  wq_env :: wl_env
  wq_injector :: wl_inject_env

definition new_wl_injector :: wl_injector where
  "new_wl_injector =
     \<lparr>wj_pointer = False, wj_keyboard = False, wj_poller = False, wj_context = False, wj_keymap = False, wj_shift = 0,
      wj_ctrl = 0, wj_alt = 0, wj_logo = 0, wj_sent = []\<rparr>"

text \<open>\<open>None\<close>: the start of the injector waits for the compositor and does not come back.\<close>

definition checkWaylandBackend :: "(nat \<Rightarrow> string) \<Rightarrow> (nat \<Rightarrow> string) \<Rightarrow> wl_probe \<Rightarrow> backend_check option" where
  "checkWaylandBackend fmt message probe =
     (case new_wl_platform (wq_env probe) of
        Inl what \<Rightarrow> Some (probeBackend fmt ''Wayland wlroots protocols'' (Inr (None :: linux_platform option)) (Inl what)
                           (interface_started message (createCapture False) None)
                           (interface_started message (createInjector False) None))
      | Inr p \<Rightarrow>
          do {
            (started, i) \<leftarrow> wl_initialize ((wq_injector probe)\<lparr>vj_platform := p\<rparr>) new_wl_injector;
            Some (probeBackend fmt ''Wayland wlroots protocols'' (Inr (Some (WlrPlatform p)))
                    (Inr (length (wl_screens fmt p)))
                    (interface_started message (createCapture False) wl_capture_initialize)
                    (interface_started message (createInjector False) started))
          })"

section \<open>The backend of the portals\<close>

text \<open>What the D-Bus tells of an interface: the proxy or its error, its owner, and two cached properties.\<close>

record portal_proxy =
  pp_proxy :: bool
  pp_error :: "string option"
  pp_owner :: bool
  pp_version :: "32 word option"
  pp_capabilities :: "32 word option"

record portal_interface =
  pi_available :: bool
  pi_version :: "32 word"
  pi_capabilities :: "32 word"
  pi_error :: string

definition portalInterface :: "portal_proxy \<Rightarrow> portal_interface" where
  "portalInterface proxy =
     (if \<not> pp_proxy proxy \<or> \<not> pp_owner proxy
      then \<lparr>pi_available = False, pi_version = 0, pi_capabilities = 0,
            pi_error = (case pp_error proxy of Some e \<Rightarrow> e | None \<Rightarrow> ''Portal interface has no D-Bus owner'')\<rparr>
      else \<lparr>pi_available = True, pi_version = (case pp_version proxy of Some v \<Rightarrow> v | None \<Rightarrow> 0),
            pi_capabilities = (case pp_capabilities proxy of Some v \<Rightarrow> v | None \<Rightarrow> 0), pi_error = []\<rparr>)"

text \<open>The masks of a pointer and a keyboard, which libportal defines, for capture and for remote desktops.\<close>

record portal_masks =
  pm_capture :: "32 word"
  pm_remote :: "32 word"

definition canCapture :: "portal_masks \<Rightarrow> portal_interface \<Rightarrow> bool" where
  "canCapture masks capture \<longleftrightarrow> pi_available capture \<and> pi_capabilities capture AND pm_capture masks = pm_capture masks"

definition canInject :: "portal_masks \<Rightarrow> portal_interface \<Rightarrow> bool" where
  "canInject masks remote \<longleftrightarrow>
     pi_available remote \<and> 2 \<le> pi_version remote \<and> pi_capabilities remote AND pm_remote masks = pm_remote masks"

definition checkPortalBackend ::
  "(nat \<Rightarrow> string) \<Rightarrow> (string \<Rightarrow> string option) \<Rightarrow> portal_masks \<Rightarrow> portal_proxy \<Rightarrow> portal_proxy \<Rightarrow> backend_check" where
  "checkPortalBackend fmt getenv masks captureProxy remoteProxy =
     (if \<not> envIsSet getenv ''WAYLAND_DISPLAY'' \<and> \<not> isWaylandSession getenv
      then (let f = \<lparr>fc_supported = False, fc_detail = ''Wayland session unavailable''\<rparr>
            in \<lparr>bc_available = False, bc_detail = ''Not running in a Wayland session'',
                bc_screens = f, bc_capture = f, bc_injection = f\<rparr>)
      else
        (let capture = portalInterface captureProxy; remote = portalInterface remoteProxy;
             captures = canCapture masks capture; injects = canInject masks remote;
             available = pi_available capture \<or> pi_available remote
         in \<lparr>bc_available = available,
             bc_detail =
               (if available
                then ''Portal interfaces detected (InputCapture v'' @ fmt (unat (pi_version capture)) @ '', RemoteDesktop v'' @
                     fmt (unat (pi_version remote)) @ ''); authorization is requested only when the backend starts''
                else ''Desktop portal unavailable: '' @ pi_error capture @ ''; '' @ pi_error remote),
             bc_screens =
               \<lparr>fc_supported = captures \<or> injects,
                fc_detail = (if captures then ''Outputs are provided by authorized InputCapture zones''
                             else if injects then ''Outputs are provided by authorized libei regions''
                             else ''No portal topology source is available'')\<rparr>,
             bc_capture =
               \<lparr>fc_supported = captures,
                fc_detail = (if captures
                             then ''InputCapture v'' @ fmt (unat (pi_version capture)) @ '' supports pointer and keyboard''
                             else if pi_error capture = [] then ''InputCapture lacks pointer/keyboard capabilities''
                             else pi_error capture)\<rparr>,
             bc_injection =
               \<lparr>fc_supported = injects,
                fc_detail = (if injects
                             then ''RemoteDesktop v'' @ fmt (unat (pi_version remote)) @
                                  '' supports libei pointer and keyboard injection''
                             else if pi_error remote = [] then ''RemoteDesktop v2/libei pointer and keyboard are required''
                             else pi_error remote)\<rparr>\<rparr>))"

definition createPortalPlatform :: "string + unit \<Rightarrow> string + linux_platform option" where
  "createPortalPlatform constructed = created (\<lambda>_. XdgPlatform) constructed"

section \<open>The registry on Linux\<close>

record linux_answers =
  la_fmt :: "nat \<Rightarrow> string"
  la_message :: "nat \<Rightarrow> string"
  la_getenv :: "string \<Rightarrow> string option"
  la_x11Probe :: x11_probe
  la_x11 :: x11_answers
  la_wlProbe :: wl_probe
  la_wl :: wl_env
  la_masks :: portal_masks
  la_captureProxy :: portal_proxy
  la_remoteProxy :: portal_proxy
  la_portal :: "string + unit"

definition x11_descriptor :: "linux_answers \<Rightarrow> linux_platform descriptor" where
  "x11_descriptor a =
     \<lparr>bd_name = ''x11'', bd_displayName = ''X11 (XCB/XInput2/XTest)'', bd_order = 200,
      bd_check = Some (Inr (checkX11Backend (la_fmt a) (la_message a) (la_getenv a) (la_x11Probe a))),
      bd_create = Some (createX11Backend (la_fmt a) (la_message a) (la_x11 a))\<rparr>"

definition wlr_descriptor :: "linux_answers \<Rightarrow> backend_check \<Rightarrow> linux_platform descriptor" where
  "wlr_descriptor a check =
     \<lparr>bd_name = ''wayland-wlr'', bd_displayName = ''Wayland (wlroots protocols)'', bd_order = 100,
      bd_check = Some (Inr check), bd_create = Some (createWaylandPlatform (la_wl a))\<rparr>"

definition portal_descriptor :: "linux_answers \<Rightarrow> linux_platform descriptor" where
  "portal_descriptor a =
     \<lparr>bd_name = ''wayland-portal'', bd_displayName = ''Wayland (XDG Portal/libei)'', bd_order = 50,
      bd_check = Some (Inr (checkPortalBackend (la_fmt a) (la_getenv a) (la_masks a) (la_captureProxy a) (la_remoteProxy a))),
      bd_create = Some (createPortalPlatform (la_portal a))\<rparr>"

definition linux_registry :: "linux_answers \<Rightarrow> linux_platform registry option" where
  "linux_registry a = do {
     check \<leftarrow> checkWaylandBackend (la_fmt a) (la_message a) (la_wlProbe a);
     Some (fold register [wlr_descriptor a check, portal_descriptor a, x11_descriptor a] [])
   }"

section \<open>Lemmas\<close>

lemma skip_roots_drop: "skip_roots n rs = drop n rs"
  by (induction n rs rule: skip_roots.induct) simp_all

definition wayland_session :: "(string \<Rightarrow> string option) \<Rightarrow> bool" where
  "wayland_session getenv \<longleftrightarrow> isWaylandSession getenv \<or> envIsSet getenv ''WAYLAND_DISPLAY''"

lemma x11_unavailable: "wayland_session getenv \<Longrightarrow> \<not> supports (checkX11Backend fmt message getenv probe) req"
  by (simp add: checkX11Backend_def wayland_session_def supports_def)

lemma portal_unavailable: "\<not> wayland_session getenv \<Longrightarrow> \<not> supports (checkPortalBackend fmt getenv masks c r) req"
  by (simp add: checkPortalBackend_def wayland_session_def supports_def Let_def)

lemma wlr_no_capture:
  assumes "checkWaylandBackend fmt message probe = Some check" and "hasRequirement req Requirement_Capture"
  shows "\<not> supports check req"
proof -
  have unsupported: "\<not> supports (probeBackend fmt name (Inr p) screens (interface_started message c error) i) req"
    if "p = None \<or> error \<noteq> None" for name screens c error i and p :: "linux_platform option"
    using that assms(2)
    by (auto simp: probeBackend_def supports_def unavailableCheck_def probe_interface_def interface_started_def Let_def
        split: option.splits sum.splits bool.splits)
  from assms(1) show ?thesis
    by (auto simp: checkWaylandBackend_def ub_bind_eq_Some unsupported wl_capture_initialize_def split: sum.splits)
qed

lemma linux_registry_eq:
  assumes "linux_registry a = Some reg"
  obtains check where "checkWaylandBackend (la_fmt a) (la_message a) (la_wlProbe a) = Some check"
    "reg = [wlr_descriptor a check, portal_descriptor a, x11_descriptor a]" "registry_inv reg"
proof -
  from assms obtain check where check: "checkWaylandBackend (la_fmt a) (la_message a) (la_wlProbe a) = Some check"
    "reg = fold register [wlr_descriptor a check, portal_descriptor a, x11_descriptor a] []"
    by (auto simp: linux_registry_def ub_bind_eq_Some)
  moreover have "fold register [wlr_descriptor a check, portal_descriptor a, x11_descriptor a] [] =
      [wlr_descriptor a check, portal_descriptor a, x11_descriptor a]"
    by (simp add: register_def incomplete_def find_named_def wlr_descriptor_def portal_descriptor_def x11_descriptor_def)
  moreover have "registry_inv reg" unfolding check(2) by (rule register_all_inv) simp
  ultimately show thesis using that by simp
qed

section \<open>Properties\<close>

text \<open>
  C36. A server on Linux runs on the backend of its session: whichever backend is asked for, by name or by
  ''auto'', and whatever the systems answer, a selection that requires capture yields the portal in a
  Wayland session, and only if the portal offers pointer and keyboard, and X11 outside of one. XWayland is
  never taken for the desktop, and the wlroots backend, which cannot capture, is never chosen.
\<close>

theorem linux_server_backend:
  assumes "linux_registry a = Some reg" and "hasRequirement req Requirement_Capture"
    and "selectBackend reg name req = Selected platform d check"
  shows "if wayland_session (la_getenv a)
    then bd_name d = ''wayland-portal'' \<and> platform = XdgPlatform \<and> canCapture (la_masks a) (portalInterface (la_captureProxy a))
    else bd_name d = ''x11'' \<and> (\<exists>p. platform = X11Platform p \<and> xp_screens p \<noteq> [])"
proof -
  obtain wlr where reg: "checkWaylandBackend (la_fmt a) (la_message a) (la_wlProbe a) = Some wlr"
    "reg = [wlr_descriptor a wlr, portal_descriptor a, x11_descriptor a]" "registry_inv reg"
    using assms(1) by (rule linux_registry_eq)
  note sel = selection_supports [OF reg(3) assms(3)]
  have supports: "supports c req" if "bd_check d = Some (Inr c)" for c
    using check_registered [OF reg(3) sel(1) that] sel(2,3) by simp
  consider (wlr) "d = wlr_descriptor a wlr" | (portal) "d = portal_descriptor a" | (x11) "d = x11_descriptor a"
    using sel(1) reg(2) by auto
  then show ?thesis
  proof cases
    case wlr
    then have "supports wlr req" by (intro supports) (simp add: wlr_descriptor_def)
    with wlr_no_capture [OF reg(1) assms(2)] show ?thesis by simp
  next
    case portal
    let ?check = "checkPortalBackend (la_fmt a) (la_getenv a) (la_masks a) (la_captureProxy a) (la_remoteProxy a)"
    have check: "supports ?check req" using portal by (intro supports) (simp add: portal_descriptor_def)
    with portal_unavailable have session: "wayland_session (la_getenv a)" by blast
    with check assms(2) have "canCapture (la_masks a) (portalInterface (la_captureProxy a))"
      by (auto simp: checkPortalBackend_def wayland_session_def supports_def Let_def split: if_splits)
    moreover have "platform = XdgPlatform"
      using sel(4) portal by (auto simp: portal_descriptor_def createPortalPlatform_def created_def split: sum.splits)
    ultimately show ?thesis using session portal by (simp add: portal_descriptor_def)
  next
    case x11
    have "supports (checkX11Backend (la_fmt a) (la_message a) (la_getenv a) (la_x11Probe a)) req"
      using x11 by (intro supports) (simp add: x11_descriptor_def)
    with x11_unavailable have session: "\<not> wayland_session (la_getenv a)" by blast
    from sel(4) x11 obtain p where p: "new_xcb_platform (la_fmt a) (la_message a) (la_x11 a) = Inr p" "platform = X11Platform p"
      by (auto simp: x11_descriptor_def createX11Backend_def created_def split: sum.splits)
    then have "xp_screens p \<noteq> []"
      by (auto simp: new_xcb_platform_def xcb_enumerateScreens_def Let_def split: sum.splits option.splits if_splits)
    with p session x11 show ?thesis by (simp add: x11_descriptor_def)
  qed
qed

text \<open>
  What the check of the portal promises: capture exactly if the session is a Wayland one and the owned
  interface reports both devices, injection exactly if the remote desktop also has version 2, and outputs
  exactly if one of the two is there.
\<close>

theorem portal_check_exact:
  "let check = checkPortalBackend fmt getenv masks captureProxy remoteProxy;
       has = (\<lambda>proxy mask. pp_proxy proxy \<and> pp_owner proxy \<and>
                (case pp_capabilities proxy of None \<Rightarrow> 0 | Some c \<Rightarrow> c) AND mask = mask);
       captures = (wayland_session getenv \<and> has captureProxy (pm_capture masks));
       injects = (wayland_session getenv \<and> has remoteProxy (pm_remote masks) \<and> (\<exists>v. pp_version remoteProxy = Some v \<and> 2 \<le> v))
   in (supports check Requirement_Capture \<longleftrightarrow> captures) \<and> (supports check Requirement_Injection \<longleftrightarrow> injects) \<and>
      (supports check Requirement_Screens \<longleftrightarrow> captures \<or> injects)"
proof -
  have two: "2 \<le> (case v of None \<Rightarrow> 0 | Some w \<Rightarrow> w) \<longleftrightarrow> (\<exists>w. v = Some w \<and> 2 \<le> w)" for v :: "32 word option"
    by (cases v) simp_all
  have req: "hasRequirement 1 1" "\<not> hasRequirement 1 2" "\<not> hasRequirement 1 4" "hasRequirement 2 2" "\<not> hasRequirement 2 1"
    "\<not> hasRequirement 2 4" "hasRequirement 4 4" "\<not> hasRequirement 4 1" "\<not> hasRequirement 4 2"
    by (simp_all add: hasRequirement_def requirement_and_def)
  show ?thesis
    by (auto simp: checkPortalBackend_def wayland_session_def supports_def canCapture_def canInject_def portalInterface_def
        two req Let_def split: if_splits)
qed

text \<open>
  A failed connection to the X server leaves no handle open, and a successful one exactly one; its screen of
  a number is the root of this number, if there is one.
\<close>

theorem x11_connect_exact:
  "case connection_connect display of
     (Inl e, calls) \<Rightarrow> count_list calls OpenHandle = count_list calls CloseHandle \<and> e \<noteq> 0
   | (Inr c, calls) \<Rightarrow> calls = [OpenHandle] \<and>
       (\<forall>i. connection_screen c i =
          (if 0 \<le> i \<and> nat i < length (xd_roots display) then Some (xd_roots display ! nat i) else None))"
proof -
  have screen: "(case drop n rs of [] \<Rightarrow> None | r # _ \<Rightarrow> Some r) = (if n < length rs then Some (rs ! n) else None)"
    for n and rs :: "x_root list"
    by (cases "n < length rs") (simp_all add: Cons_nth_drop_Suc [symmetric])
  have "connectionError e \<noteq> 0" for e by (cases e) simp_all
  then show ?thesis
    by (auto simp: connection_connect_def connection_screen_def skip_roots_drop screen split: option.split)
qed

definition demo_wl_env :: wl_env where
  "demo_wl_env =
     \<lparr>wl_displayError = Some 2, wl_registryOk = True, wl_listenOk = True, wl_bound = (\<lambda>_. True),
      wl_attachOk = (\<lambda>_. True), wl_discovered = Inr [], wl_geometry = Inr []\<rparr>"

definition demo_linux :: "(string \<Rightarrow> string option) \<Rightarrow> linux_answers" where
  "demo_linux getenv =
     (let proxy = \<lparr>pp_proxy = True, pp_error = None, pp_owner = True, pp_version = Some 2, pp_capabilities = Some 7\<rparr>;
          x11 = \<lparr>xa_display = \<lparr>xd_connect = None, xd_roots = []\<rparr>, xa_xinput = None, xa_xinputVersion = None, xa_randr = demo_randr\<rparr>
      in \<lparr>la_fmt = (\<lambda>_. ''2''), la_message = (\<lambda>_. ''failed''), la_getenv = getenv,
          la_x11Probe = \<lparr>xq_answers = x11, xq_capture = demo_xcb, xq_injector = demo_injection\<rparr>, la_x11 = x11,
          la_wlProbe = \<lparr>wq_env = demo_wl_env, wq_injector = demo_wl_injection\<rparr>, la_wl = demo_wl_env,
          la_masks = \<lparr>pm_capture = 3, pm_remote = 3\<rparr>, la_captureProxy = proxy, la_remoteProxy = proxy, la_portal = Inr ()\<rparr>)"

definition demo_getenv :: "string \<Rightarrow> string option" where
  "demo_getenv name = (if name = ''XDG_SESSION_TYPE'' then Some ''wayland'' else None)"

lemma demo_selection:
  "\<exists>reg d check. linux_registry (demo_linux demo_getenv) = Some reg \<and>
     selectBackend reg ''auto'' 3 = Selected XdgPlatform d check"
proof -
  let ?a = "demo_linux demo_getenv"
  obtain wlr where wlr: "checkWaylandBackend (la_fmt ?a) (la_message ?a) (la_wlProbe ?a) = Some wlr"
    by (simp add: checkWaylandBackend_def demo_linux_def demo_wl_env_def new_wl_platform_def Let_def)
  let ?reg = "[wlr_descriptor ?a wlr, portal_descriptor ?a, x11_descriptor ?a]"
  have "linux_registry ?a = Some (fold register ?reg [])" using wlr by (simp add: linux_registry_def)
  then have reg: "linux_registry ?a = Some ?reg" "registry_inv ?reg" using linux_registry_eq wlr by fastforce+
  have check: "checkBackend ?reg (bd_name (portal_descriptor ?a)) =
      checkPortalBackend (la_fmt ?a) (la_getenv ?a) (la_masks ?a) (la_captureProxy ?a) (la_remoteProxy ?a)"
    by (rule check_registered [OF reg(2)]) (simp_all add: portal_descriptor_def)
  have "registeredBackends ?reg = portal_descriptor ?a # [wlr_descriptor ?a wlr, x11_descriptor ?a]"
    by (simp add: registeredBackends_def wlr_descriptor_def portal_descriptor_def x11_descriptor_def)
  moreover have "supports (checkPortalBackend (la_fmt ?a) (la_getenv ?a) (la_masks ?a) (la_captureProxy ?a) (la_remoteProxy ?a)) 3"
    by (simp add: demo_linux_def checkPortalBackend_def demo_getenv_def isWaylandSession_def supports_def canCapture_def canInject_def
        portalInterface_def Let_def)
  moreover have "the (bd_create (portal_descriptor ?a)) = Inr (Some XdgPlatform)"
    by (simp add: portal_descriptor_def createPortalPlatform_def created_def demo_linux_def Let_def)
  ultimately have "selectBackend ?reg ''auto'' 3 = Selected XdgPlatform (portal_descriptor ?a) (checkBackend ?reg (bd_name (portal_descriptor ?a)))"
    using check by (simp add: selectBackend_def Let_def)
  with reg(1) show ?thesis by blast
qed

theorem linux_server_backend_witness:
  "\<exists>reg d check. linux_registry (demo_linux demo_getenv) = Some reg \<and>
     selectBackend reg ''auto'' 3 = Selected XdgPlatform d check \<and> bd_name d = ''wayland-portal''"
proof -
  obtain reg d check where sel: "linux_registry (demo_linux demo_getenv) = Some reg"
    "selectBackend reg ''auto'' 3 = Selected XdgPlatform d check"
    using demo_selection by blast
  have "hasRequirement 3 Requirement_Capture" by (simp add: hasRequirement_def requirement_and_def)
  moreover have "wayland_session (la_getenv (demo_linux demo_getenv))"
    by (simp add: demo_linux_def demo_getenv_def wayland_session_def isWaylandSession_def Let_def)
  ultimately have "bd_name d = ''wayland-portal''" using linux_server_backend [OF sel(1) _ sel(2)] by simp
  with sel show ?thesis by blast
qed

end
