(* ===== verification/Win32_Thread.thy ===== *)
theory Win32_Thread
  imports Win32_Platform
begin

text \<open>
  The thread of the window in \<open>src/platform/win32.cpp\<close>: \<open>Win32Platform\<close> starts a thread with a hidden window;
  everything that touches the hooks or the cursor is posted to this window as a function, and the caller waits
  on a latch until it has run. \<open>'p\<close> is the state the functions work on.

  \<^item> A message that carries a function has a number, for the latch its caller waits on; the results of the
    functions that history are kept in \<open>ut_results\<close>.
  \<^item> \<open>ui_exec\<close> is one step of the thread, or of another thread that posts or stops; \<open>None\<close> if the step cannot
    happen, in particular while \<open>GetMessageW\<close> blocks.
  \<^item> The main result: the posted functions run one after the other in the order in which they were posted, so
    that an operation of \<open>Win32_Platform\<close> is one step.
\<close>

section \<open>The thread\<close>

text \<open>The hooks are called while the thread waits for a message; they do not pass through the queue.\<close>

datatype 'p ui_message =
    PlatformCall nat "'p \<Rightarrow> nat option \<times> 'p"
  | DisplayChange "'p \<Rightarrow> 'p"
  | QuitMessage
  | OtherMessage
  | HookCall "'p \<Rightarrow> 'p"

datatype thread_phase = Starting | Pumping | Ended

record 'p ui_thread =
  ut_phase :: thread_phase
  ut_window :: bool
  ut_queue :: "'p ui_message list"
  ut_stop :: bool
  ut_latch :: nat
  ut_signaled :: bool
  ut_succeeded :: bool
  ut_startupError :: string
  ut_platform :: 'p
  ut_results :: "(nat \<times> nat option) list"
  ut_elsewhere :: "nat list"

fun messageProc :: "'p ui_message \<Rightarrow> 'p \<Rightarrow> (nat \<times> nat option) list \<times> 'p" where
  "messageProc (PlatformCall n fn) p = (case fn p of (error, p') \<Rightarrow> ([(n, error)], p'))"
| "messageProc (DisplayChange change) p = ([], change p)"
| "messageProc QuitMessage p = ([], p)"
| "messageProc OtherMessage p = ([], p)"
| "messageProc (HookCall hook) p = ([], hook p)"

definition signalStartup :: "'p ui_thread \<Rightarrow> 'p ui_thread" where
  "signalStartup s = (if ut_signaled s then s else s\<lparr>ut_signaled := True, ut_latch := ut_latch s - 1\<rparr>)"

definition failStartup :: "string \<Rightarrow> 'p ui_thread \<Rightarrow> 'p ui_thread" where
  "failStartup what s = signalStartup (s\<lparr>ut_startupError := what, ut_succeeded := False\<rparr>)"

text \<open>\<open>unhook\<close> takes the hooks down. Destroying the window drops the messages that are still in its queue.\<close>

definition ui_cleanup :: "('p \<Rightarrow> 'p) \<Rightarrow> 'p ui_thread \<Rightarrow> 'p ui_thread" where
  "ui_cleanup unhook s = s\<lparr>ut_platform := unhook (ut_platform s), ut_window := False, ut_queue := [], ut_phase := Ended\<rparr>"

record 'p ui_answers =
  ua_guiThread :: bool
  ua_classRegistered :: bool
  ua_windowCreated :: bool
  ua_enumerate :: "'p \<Rightarrow> bool \<times> 'p"
  ua_unhook :: "'p \<Rightarrow> 'p"

definition createMessageWindow :: "'p ui_answers \<Rightarrow> 'p ui_thread \<Rightarrow> bool \<times> 'p ui_thread" where
  "createMessageWindow answers s =
     (if \<not> ua_classRegistered answers then (False, s)
      else (let s1 = s\<lparr>ut_window := ua_windowCreated answers\<rparr>
            in if \<not> ut_window s1 then (False, s1) else (True, s1)))"

text \<open>The thread up to the point where it waits for its first message, or to its end.\<close>

definition runUiThread :: "'p ui_answers \<Rightarrow> 'p ui_thread \<Rightarrow> 'p ui_thread" where
  "runUiThread answers s =
     (if \<not> ua_guiThread answers
      then ui_cleanup (ua_unhook answers) (failStartup ''Failed to initialize GUI thread state'' s)
      else (case createMessageWindow answers s of
              (False, s1) \<Rightarrow> ui_cleanup (ua_unhook answers) (failStartup ''Failed to create Win32 message window'' s1)
            | (True, s1) \<Rightarrow>
                (case ua_enumerate answers (ut_platform s1) of
                   (False, p) \<Rightarrow>
                     ui_cleanup (ua_unhook answers) (failStartup ''Failed to enumerate Win32 monitors'' (s1\<lparr>ut_platform := p\<rparr>))
                 | (True, p) \<Rightarrow> (signalStartup (s1\<lparr>ut_platform := p, ut_succeeded := True\<rparr>))\<lparr>ut_phase := Pumping\<rparr>)))"

definition new_ui_thread :: "'p \<Rightarrow> 'p ui_thread" where
  "new_ui_thread p =
     \<lparr>ut_phase = Starting, ut_window = False, ut_queue = [], ut_stop = False, ut_latch = 1, ut_signaled = False,
      ut_succeeded = False, ut_startupError = [], ut_platform = p, ut_results = [], ut_elsewhere = []\<rparr>"

text \<open>Stopping wakes the thread with a message, behind those already posted.\<close>

definition request_stop :: "'p ui_thread \<Rightarrow> 'p ui_thread" where
  "request_stop s =
     (if ut_stop s then s
      else if ut_phase s = Pumping then s\<lparr>ut_stop := True, ut_queue := ut_queue s @ [QuitMessage]\<rparr>
      else s\<lparr>ut_stop := True\<rparr>)"

text \<open>The constructor waits until the latch is open; when the start failed, it joins the thread and throws.\<close>

definition new_win32_platform :: "'p ui_answers \<Rightarrow> 'p \<Rightarrow> (string + unit) \<times> 'p ui_thread" where
  "new_win32_platform answers p =
     (let s = runUiThread answers (new_ui_thread p)
      in if ut_succeeded s then (Inr (), s)
         else (Inl (if ut_startupError s = [] then ''Failed to initialize Win32 platform'' else ut_startupError s), request_stop s))"

section \<open>Calls\<close>

text \<open>
  \<open>failure\<close> is the error of \<open>PostMessageW\<close>, if any. Without a window its handle is null, and the message goes
  to the queue of the calling thread: it is not an error.
\<close>

definition uiCall :: "nat \<Rightarrow> ('p \<Rightarrow> nat option \<times> 'p) \<Rightarrow> nat option \<Rightarrow> 'p ui_thread \<Rightarrow> nat option \<times> 'p ui_thread" where
  "uiCall n fn failure s =
     (case failure of
        Some e \<Rightarrow> (Some e, s)
      | None \<Rightarrow> (None, if ut_window s then s\<lparr>ut_queue := ut_queue s @ [PlatformCall n fn]\<rparr>
                        else s\<lparr>ut_elsewhere := n # ut_elsewhere s\<rparr>))"

text \<open>
  The call that waits: an error of the post is returned at once, otherwise the answer is there when the
  function has run (\<open>None\<close>: the caller waits).
\<close>

definition syncUiCall_result :: "nat \<Rightarrow> nat option \<Rightarrow> 'p ui_thread \<Rightarrow> nat option option" where
  "syncUiCall_result n posted s = (case posted of Some e \<Rightarrow> Some (Some e) | None \<Rightarrow> map_of (ut_results s) n)"

text \<open>One turn of \<open>pumpMessages\<close>; \<open>failed\<close>: \<open>GetMessageW\<close> fails.\<close>

definition pumpMessages :: "('p \<Rightarrow> 'p) \<Rightarrow> bool \<Rightarrow> 'p ui_thread \<Rightarrow> 'p ui_thread option" where
  "pumpMessages unhook failed s =
     (if ut_phase s \<noteq> Pumping then None
      else if ut_stop s \<or> failed then Some (ui_cleanup unhook (signalStartup s))
      else (case ut_queue s of
              [] \<Rightarrow> None
            | QuitMessage # rest \<Rightarrow> Some (ui_cleanup unhook (signalStartup (s\<lparr>ut_queue := rest\<rparr>)))
            | m # rest \<Rightarrow>
                (case messageProc m (ut_platform s) of
                   (results, p) \<Rightarrow> Some (s\<lparr>ut_queue := rest, ut_platform := p, ut_results := ut_results s @ results\<rparr>))))"

datatype 'p ui_action =
    Post nat "'p \<Rightarrow> nat option \<times> 'p" "nat option"
  | WindowMessage "('p \<Rightarrow> 'p) option"
  | Pump bool
  | Hook "'p \<Rightarrow> 'p"
  | RequestStop

fun ui_exec :: "('p \<Rightarrow> 'p) \<Rightarrow> 'p ui_action \<Rightarrow> 'p ui_thread \<Rightarrow> 'p ui_thread option" where
  "ui_exec unhook (Post n fn failure) s = Some (snd (uiCall n fn failure s))"
| "ui_exec unhook (WindowMessage change) s =
     (if \<not> ut_window s then None
      else Some (s\<lparr>ut_queue := ut_queue s @ [case change of None \<Rightarrow> OtherMessage | Some f \<Rightarrow> DisplayChange f]\<rparr>))"
| "ui_exec unhook (Pump failed) s = pumpMessages unhook failed s"
| "ui_exec unhook (Hook hook) s =
     (if ut_phase s \<noteq> Pumping then None else Some (s\<lparr>ut_platform := snd (messageProc (HookCall hook) (ut_platform s))\<rparr>))"
| "ui_exec unhook RequestStop s = Some (request_stop s)"

fun ui_run :: "('p \<Rightarrow> 'p) \<Rightarrow> 'p ui_action list \<Rightarrow> 'p ui_thread \<Rightarrow> 'p ui_thread option" where
  "ui_run unhook [] s = Some s"
| "ui_run unhook (a # as) s = do { s1 \<leftarrow> ui_exec unhook a s; ui_run unhook as s1 }"

section \<open>The sequential reading\<close>

text \<open>
  What the callers may rely on, without thread and queue: each function is applied to the state that the one
  before has left, and a call answers with what its function returned.
\<close>

fun sequentially :: "'p ui_message list \<Rightarrow> 'p \<Rightarrow> (nat \<times> nat option) list \<times> 'p" where
  "sequentially [] p = ([], p)"
| "sequentially (PlatformCall n fn # ms) p =
     (let (answers, q) = sequentially ms (snd (fn p)) in ((n, fst (fn p)) # answers, q))"
| "sequentially (DisplayChange change # ms) p = sequentially ms (change p)"
| "sequentially (HookCall hook # ms) p = sequentially ms (hook p)"
| "sequentially (QuitMessage # ms) p = sequentially ms p"
| "sequentially (OtherMessage # ms) p = sequentially ms p"

text \<open>What an action hands to the window, and the hook that it calls.\<close>

fun handed :: "'p ui_action \<Rightarrow> 'p ui_message list" where
  "handed (Post n fn None) = [PlatformCall n fn]"
| "handed (WindowMessage None) = [OtherMessage]"
| "handed (WindowMessage (Some change)) = [DisplayChange change]"
| "handed _ = []"

fun hooked :: "'p ui_action \<Rightarrow> 'p ui_message list" where
  "hooked (Hook hook) = [HookCall hook]"
| "hooked _ = []"

fun is_call :: "'p ui_message \<Rightarrow> bool" where
  "is_call (HookCall hook) = False"
| "is_call QuitMessage = False"
| "is_call _ = True"

fun is_hook :: "'p ui_message \<Rightarrow> bool" where
  "is_hook (HookCall hook) = True"
| "is_hook _ = False"

lemma sequentially_append:
  "sequentially (xs @ ys) p =
     (fst (sequentially xs p) @ fst (sequentially ys (snd (sequentially xs p))),
      snd (sequentially ys (snd (sequentially xs p))))"
  by (induction xs p rule: sequentially.induct) (auto simp: Let_def split: prod.split)

lemma sequentially_one: "sequentially [m] p = messageProc m p"
  by (cases m) (auto simp: Let_def split: prod.split)

lemma ui_run_append: "ui_run unhook (as @ bs) s = do { s1 \<leftarrow> ui_run unhook as s; ui_run unhook bs s1 }"
  by (induction as arbitrary: s) (auto split: bind_splits)

text \<open>
  \<open>history\<close> is a sequential history of the calls and hooks for a state that the thread reached with \<open>messages\<close>
  handed to the window and \<open>hooks\<close> called.
\<close>

definition explains ::
  "('p \<Rightarrow> 'p) \<Rightarrow> 'p \<Rightarrow> 'p ui_message list \<Rightarrow> 'p ui_message list \<Rightarrow> 'p ui_message list \<Rightarrow> 'p ui_thread \<Rightarrow> bool" where
  "explains unhook p0 messages hooks history s \<longleftrightarrow>
     ut_results s = fst (sequentially history p0) \<and>
     filter is_hook history = hooks \<and>
     (if ut_phase s = Pumping
      then ut_platform s = snd (sequentially history p0) \<and>
        filter is_call history @ filter is_call (ut_queue s) = messages
      else ut_platform s = unhook (snd (sequentially history p0)) \<and>
        (\<exists>dropped. filter is_call history @ dropped = messages))"

definition linear ::
  "('p \<Rightarrow> 'p) \<Rightarrow> 'p \<Rightarrow> 'p ui_message list \<Rightarrow> 'p ui_message list \<Rightarrow> 'p ui_message list \<Rightarrow> 'p ui_thread \<Rightarrow> bool" where
  "linear unhook p0 messages hooks history s \<longleftrightarrow>
     explains unhook p0 messages hooks history s \<and> (ut_window s \<longleftrightarrow> ut_phase s = Pumping) \<and>
     list_all (\<lambda>m. \<not> is_hook m) (ut_queue s)"

lemma cleanup_fields [simp]:
  "ut_results (ui_cleanup unhook s) = ut_results s" "ut_phase (ui_cleanup unhook s) = Ended" "\<not> ut_window (ui_cleanup unhook s)"
  "ut_platform (ui_cleanup unhook s) = unhook (ut_platform s)" "ut_queue (ui_cleanup unhook s) = []"
  by (simp_all add: ui_cleanup_def)

lemma startup_signal_fields [simp]:
  "ut_results (signalStartup s) = ut_results s" "ut_platform (signalStartup s) = ut_platform s"
  "ut_queue (signalStartup s) = ut_queue s" "ut_window (signalStartup s) = ut_window s" "ut_stop (signalStartup s) = ut_stop s"
  "ut_succeeded (signalStartup s) = ut_succeeded s" "ut_startupError (signalStartup s) = ut_startupError s"
  by (simp_all add: signalStartup_def)

lemma pump_ends:
  assumes "pumpMessages unhook failed s = Some s'"
    and "\<not> (\<exists>m rest. ut_queue s = m # rest \<and> m \<noteq> QuitMessage \<and> \<not> ut_stop s \<and> \<not> failed)"
  shows "ut_phase s' = Ended" "\<not> ut_window s'" "ut_results s' = ut_results s" "ut_queue s' = []"
    "ut_platform s' = unhook (ut_platform s)"
  using assms by (auto simp: pumpMessages_def split: if_splits list.splits ui_message.splits)

lemma pump_runs:
  assumes "pumpMessages unhook failed s = Some s'"
    and "ut_queue s = m # rest" "m \<noteq> QuitMessage" "\<not> ut_stop s" "\<not> failed"
  shows "s' = s\<lparr>ut_queue := rest, ut_platform := snd (messageProc m (ut_platform s)),
    ut_results := ut_results s @ fst (messageProc m (ut_platform s))\<rparr>"
  using assms by (cases m) (auto simp: pumpMessages_def split: if_splits prod.splits)

lemma linear_pump:
  assumes "linear unhook p0 messages hooks history s" "pumpMessages unhook failed s = Some s'"
  shows "\<exists>more. linear unhook p0 messages hooks (history @ more) s'"
proof -
  have phase: "ut_phase s = Pumping" using assms(2) by (auto simp: pumpMessages_def split: if_splits)
  note lin = assms(1) [unfolded linear_def explains_def]
  show ?thesis
  proof (cases "\<exists>m rest. ut_queue s = m # rest \<and> m \<noteq> QuitMessage \<and> \<not> ut_stop s \<and> \<not> failed")
    case False
    from pump_ends [OF assms(2) this] lin phase have "linear unhook p0 messages hooks history s'"
      by (auto simp: linear_def explains_def)
    then show ?thesis by (intro exI [of _ "[]"]) simp
  next
    case True
    then obtain m rest where m: "ut_queue s = m # rest" "m \<noteq> QuitMessage" "\<not> ut_stop s" "\<not> failed" by blast
    have "is_call m" "\<not> is_hook m" using lin m(1,2) by (cases m; simp)+
    with pump_runs [OF assms(2) m] lin m(1) phase show ?thesis
      by (intro exI [of _ "[m]"])
         (auto simp: linear_def explains_def sequentially_append [of history] sequentially_one)
  qed
qed

lemma linear_step:
  assumes "linear unhook p0 messages hooks history s" "ui_exec unhook a s = Some s'"
  shows "\<exists>more. linear unhook p0 (messages @ handed a) (hooks @ hooked a) (history @ more) s'"
proof (cases a)
  case (Post n fn failure)
  have "linear unhook p0 (messages @ handed a) (hooks @ hooked a) history s'"
    using assms Post by (cases failure) (auto simp: linear_def explains_def uiCall_def)
  then show ?thesis by (intro exI [of _ "[]"]) simp
next
  case (WindowMessage change)
  with assms have "linear unhook p0 (messages @ handed a) (hooks @ hooked a) history s'"
    by (cases change) (auto simp: linear_def explains_def split: if_splits)
  then show ?thesis by (intro exI [of _ "[]"]) simp
next
  case (Pump failed)
  with linear_pump [OF assms(1)] assms(2) show ?thesis by simp
next
  case (Hook hook)
  with assms(2) have phase: "ut_phase s = Pumping" and s': "s' = s\<lparr>ut_platform := hook (ut_platform s)\<rparr>"
    by (simp_all split: if_splits)
  with assms(1) Hook show ?thesis
    by (intro exI [of _ "[HookCall hook]"]) (simp add: linear_def explains_def sequentially_append [of history])
next
  case RequestStop
  with assms have "linear unhook p0 (messages @ handed a) (hooks @ hooked a) history s'"
    by (auto simp: linear_def explains_def request_stop_def split: if_splits)
  then show ?thesis by (intro exI [of _ "[]"]) simp
qed

lemma linear_run:
  assumes "linear unhook p0 messages hooks history s" "ui_run unhook as s = Some s'"
  shows "\<exists>more. linear unhook p0 (messages @ concat (map handed as)) (hooks @ concat (map hooked as)) (history @ more) s'"
  using assms
proof (induction as arbitrary: messages hooks history s)
  case Nil
  then show ?case by (intro exI [of _ "[]"]) simp
next
  case (Cons a as)
  then obtain s1 where s1: "ui_exec unhook a s = Some s1" "ui_run unhook as s1 = Some s'" by (auto simp: ub_bind_eq_Some)
  obtain more where "linear unhook p0 (messages @ handed a) (hooks @ hooked a) (history @ more) s1"
    using linear_step [OF Cons.prems(1) s1(1)] by blast
  from Cons.IH [OF this s1(2)] show ?case by (metis append.assoc concat.simps(2) list.simps(9))
qed

definition running :: "'p ui_thread \<Rightarrow> bool" where
  "running s \<longleftrightarrow> ut_phase s = Pumping \<and> ut_window s \<and> \<not> ut_stop s \<and> QuitMessage \<notin> set (ut_queue s)"

lemma linear_start:
  "running s \<Longrightarrow> ut_queue s = [] \<Longrightarrow> ut_results s = [] \<Longrightarrow> linear unhook (ut_platform s) [] [] [] s"
  by (simp add: linear_def explains_def running_def)

text \<open>The thread works off its queue.\<close>

lemma pump_running:
  assumes "running s" "ut_queue s = m # rest"
  shows "pumpMessages unhook False s = Some (s\<lparr>ut_queue := rest, ut_platform := snd (messageProc m (ut_platform s)),
      ut_results := ut_results s @ fst (messageProc m (ut_platform s))\<rparr>)"
  using assms by (cases m) (auto simp: pumpMessages_def running_def split: prod.split)

lemma pump_queue:
  "running s \<Longrightarrow> n \<le> length (ut_queue s) \<Longrightarrow> \<exists>s'. ui_run unhook (replicate n (Pump False)) s = Some s'"
proof (induction n arbitrary: s)
  case (Suc n)
  then obtain m rest where m: "ut_queue s = m # rest" by (cases "ut_queue s") auto
  let ?s = "s\<lparr>ut_queue := rest, ut_platform := snd (messageProc m (ut_platform s)),
      ut_results := ut_results s @ fst (messageProc m (ut_platform s))\<rparr>"
  have "running ?s" "n \<le> length (ut_queue ?s)" using Suc.prems m by (simp_all add: running_def)
  with Suc.IH [of ?s] pump_running [OF Suc.prems(1) m] show ?case by simp
qed simp

lemma results_grow: "ui_run unhook as s = Some s' \<Longrightarrow> \<exists>more. ut_results s' = ut_results s @ more"
proof (induction as arbitrary: s)
  case (Cons a as)
  then obtain s1 where s1: "ui_exec unhook a s = Some s1" "ui_run unhook as s1 = Some s'" by (auto simp: ub_bind_eq_Some)
  have "\<exists>more. ut_results s1 = ut_results s @ more"
  proof (cases a)
    case (Pump failed)
    with s1(1) have pump: "pumpMessages unhook failed s = Some s1" by simp
    show ?thesis
    proof (cases "\<exists>m rest. ut_queue s = m # rest \<and> m \<noteq> QuitMessage \<and> \<not> ut_stop s \<and> \<not> failed")
      case True
      with pump_runs [OF pump] show ?thesis by auto
    next
      case False
      with pump_ends [OF pump] show ?thesis by simp
    qed
  qed (use s1(1) in \<open>auto simp: uiCall_def request_stop_def split: option.splits if_splits\<close>)
  with Cons.IH [OF s1(2)] show ?case by force
qed simp

text \<open>Nothing ends the thread: no stop is requested, and \<open>GetMessageW\<close> does not fail.\<close>

fun undisturbed :: "'p ui_action \<Rightarrow> bool" where
  "undisturbed RequestStop = False"
| "undisturbed (Pump failed) = (\<not> failed)"
| "undisturbed _ = True"

definition turns :: "'p ui_action list \<Rightarrow> nat" where
  "turns actions = length (filter (\<lambda>a. case a of Pump failed \<Rightarrow> True | _ \<Rightarrow> False) actions)"

lemma running_step:
  assumes "running s" "undisturbed a" "ui_exec unhook a s = Some s'"
  shows "running s'"
proof (cases a)
  case (Pump failed)
  then have pump: "pumpMessages unhook False s = Some s'" using assms(2,3) by simp
  then obtain m rest where "ut_queue s = m # rest"
    using assms(1) by (auto simp: pumpMessages_def running_def split: if_splits list.splits)
  with pump_running [OF assms(1) this, of unhook] pump assms(1) show ?thesis by (auto simp: running_def)
qed (use assms in \<open>auto simp: running_def uiCall_def split: option.splits if_splits\<close>)


lemma messageProc_answers: "(\<And>fn. m \<noteq> PlatformCall n fn) \<Longrightarrow> n \<notin> fst ` set (fst (messageProc m p))"
  by (cases m) (auto split: prod.splits)

lemma sequentially_Cons_state: "snd (sequentially (m # ms) p) = snd (sequentially ms (snd (messageProc m p)))"
  by (cases m) (auto simp: Let_def split: prod.split)

lemma answer_kept:
  assumes "ui_run unhook as s = Some s'" and "map_of (ut_results s) n = Some e"
  shows "map_of (ut_results s') n = Some e"
  using results_grow [OF assms(1)] assms(2) by (auto simp: map_add_def)

lemma call_reached:
  assumes "running s" and "ut_queue s = earlier @ PlatformCall n fn # later"
    and "n \<notin> fst ` set (ut_results s)" and "\<forall>fn. PlatformCall n fn \<notin> set earlier"
    and "list_all undisturbed actions" and "length earlier < turns actions"
    and "ui_run unhook actions s = Some s'"
  shows "\<exists>before hooks rest. before \<in> shuffles earlier hooks \<and> hooks @ rest = concat (map hooked actions) \<and>
    map_of (ut_results s') n = Some (fst (fn (snd (sequentially before (ut_platform s)))))"
  using assms
proof (induction actions arbitrary: s earlier later)
  case Nil
  then show ?case by (simp add: turns_def)
next
  case (Cons a as)
  obtain s1 where s1: "ui_exec unhook a s = Some s1" "ui_run unhook as s1 = Some s'"
    using Cons.prems(7) by (auto simp: ub_bind_eq_Some)
  have running: "running s1" using running_step [OF Cons.prems(1) _ s1(1)] Cons.prems(5) by simp
  have calm: "list_all undisturbed as" using Cons.prems(5) by simp
  show ?case
  proof (cases "\<exists>failed. a = Pump failed")
    case False
    have turns: "length earlier < turns as" using Cons.prems(6) False by (cases a) (simp_all add: turns_def)
    obtain more where queue: "ut_queue s1 = earlier @ PlatformCall n fn # later @ more" "ut_results s1 = ut_results s"
      "ut_platform s1 = snd (sequentially (hooked a) (ut_platform s))" "hooked a = [] \<or> (\<exists>h. hooked a = [h])"
      using s1(1) Cons.prems(2,5) False
      by (cases a) (auto simp: uiCall_def split: option.splits if_splits)
    obtain before hooks rest where IH: "before \<in> shuffles earlier hooks" "hooks @ rest = concat (map hooked as)"
      "map_of (ut_results s') n = Some (fst (fn (snd (sequentially before (ut_platform s1)))))"
      using Cons.IH [OF running queue(1) _ Cons.prems(4) calm turns s1(2)] Cons.prems(3) queue(2) by auto
    have "hooked a @ before \<in> shuffles earlier (hooked a @ hooks)"
      using IH(1) queue(4) by (auto intro: Cons_in_shuffles_rightI)
    with IH(2,3) queue(3) show ?thesis
      by (intro exI [of _ "hooked a @ before"] exI [of _ "hooked a @ hooks"] exI [of _ rest])
         (simp add: sequentially_append)
  next
    case True
    with Cons.prems(5) have a: "a = Pump False" by auto
    show ?thesis
    proof (cases earlier)
      case Nil
      with Cons.prems(2) pump_running [OF Cons.prems(1), of "PlatformCall n fn" later unhook] s1(1) a
      have "ut_results s1 = ut_results s @ [(n, fst (fn (ut_platform s)))]" by (auto split: prod.splits)
      with Cons.prems(3) have "map_of (ut_results s1) n = Some (fst (fn (ut_platform s)))"
        by (simp add: map_add_def map_of_eq_None_iff [THEN iffD2])
      from answer_kept [OF s1(2) this] show ?thesis
        by (intro exI [of _ "[]"] exI [of _ "concat (map hooked (a # as))"]) (simp add: Nil)
    next
      case (Cons m earlier')
      let ?s = "s\<lparr>ut_queue := earlier' @ PlatformCall n fn # later, ut_platform := snd (messageProc m (ut_platform s)),
        ut_results := ut_results s @ fst (messageProc m (ut_platform s))\<rparr>"
      have s1': "s1 = ?s"
        using pump_running [OF Cons.prems(1), of m "earlier' @ PlatformCall n fn # later" unhook] Cons.prems(2) Cons s1(1) a
        by simp
      have "n \<notin> fst ` set (ut_results s1)"
        using Cons.prems(3,4) messageProc_answers [of m n "ut_platform s"] Cons s1' by auto
      moreover have "\<forall>fn. PlatformCall n fn \<notin> set earlier'" "length earlier' < turns as"
        using Cons.prems(4,6) Cons a by (simp_all add: turns_def)
      ultimately obtain before hooks rest where IH: "before \<in> shuffles earlier' hooks" "hooks @ rest = concat (map hooked as)"
        "map_of (ut_results s') n = Some (fst (fn (snd (sequentially before (ut_platform s1)))))"
        using Cons.IH [OF running _ _ _ calm _ s1(2), of earlier' later] s1' by auto
      with Cons a show ?thesis
        by (intro exI [of _ "m # before"] exI [of _ hooks] exI [of _ rest])
           (auto simp: sequentially_Cons_state s1' intro: Cons_in_shuffles_leftI)
    qed
  qed
qed

section \<open>Properties\<close>

text \<open>
  C37. The thread makes every posted call one atomic step. In every interleaving of calls posted by other
  threads, window messages, hook callbacks, turns of the message loop and a stop, there is one sequential
  history: its functions applied one after the other (\<open>sequentially\<close>) give the answers that the callers get
  and the state. It consists of exactly the hooks that were called, in their order, and of posted calls in the
  order in which they were posted: while the thread runs all but those still in the queue, after its end all
  but a last part, which is dropped. And when the schedule goes on, the history only grows at its end.
\<close>

theorem ui_calls_linearizable:
  assumes "running s" and "ut_queue s = []" and "ut_results s = []"
    and "ui_run unhook as s = Some s1" and "ui_run unhook bs s1 = Some s2"
  shows "\<exists>past future.
    explains unhook (ut_platform s) (concat (map handed as)) (concat (map hooked as)) past s1 \<and>
    explains unhook (ut_platform s) (concat (map handed (as @ bs))) (concat (map hooked (as @ bs))) (past @ future) s2"
proof -
  obtain past where past: "linear unhook (ut_platform s) (concat (map handed as)) (concat (map hooked as)) past s1"
    using linear_run [OF linear_start [OF assms(1-3)] assms(4)] by auto
  from linear_run [OF this assms(5)] past show ?thesis by (auto simp: linear_def)
qed

text \<open>
  C38. A call that waits returns, as long as the thread runs on. A schedule exists in which the thread works
  off its queue; and in every schedule in which no stop is requested and no \<open>GetMessageW\<close> fails, whatever else
  is posted and whichever hooks are called, once the thread has made as many turns as there were messages
  before the call, and one more, the call is answered with the result of its function. The function sees the
  state after the messages before it, among which the hooks called in the meantime are interleaved.
\<close>

theorem sync_call_returns:
  assumes "running s" and "n \<notin> fst ` set (ut_results s)" and "\<forall>fn. PlatformCall n fn \<notin> set (ut_queue s)"
  shows "(\<exists>s'. ui_run unhook (replicate (length (ut_queue s) + 1) (Pump False)) (snd (uiCall n fn None s)) = Some s') \<and>
    (\<forall>actions s'. list_all undisturbed actions \<and> length (ut_queue s) < turns actions \<and>
       ui_run unhook actions (snd (uiCall n fn None s)) = Some s' \<longrightarrow>
       (\<exists>before hooks rest. before \<in> shuffles (ut_queue s) hooks \<and> hooks @ rest = concat (map hooked actions) \<and>
          syncUiCall_result n None s' = Some (fst (fn (snd (sequentially before (ut_platform s)))))))"
proof -
  let ?s = "s\<lparr>ut_queue := ut_queue s @ [PlatformCall n fn]\<rparr>"
  have posted: "snd (uiCall n fn None s) = ?s" using assms(1) by (simp add: uiCall_def running_def)
  have running: "running ?s" using assms(1) by (simp add: running_def)
  have "\<exists>s'. ui_run unhook (replicate (length (ut_queue s) + 1) (Pump False)) ?s = Some s'"
    using running by (rule pump_queue) simp
  moreover have "\<exists>before hooks rest. before \<in> shuffles (ut_queue s) hooks \<and> hooks @ rest = concat (map hooked actions) \<and>
      map_of (ut_results s') n = Some (fst (fn (snd (sequentially before (ut_platform s)))))"
    if "list_all undisturbed actions" "length (ut_queue s) < turns actions" "ui_run unhook actions ?s = Some s'" for actions s'
    using call_reached [OF running, of "ut_queue s" n fn "[]" actions unhook s'] that assms(2,3) by simp
  ultimately show ?thesis unfolding posted by (simp add: syncUiCall_result_def)
qed

text \<open>
  The platform starts completely or not at all: either the thread pumps messages with a window and the monitors
  enumerated, or the constructor throws with a text and the thread has ended, its window destroyed. In both
  cases the latch on which the constructor waits is open.
\<close>

theorem win32_start_all_or_nothing:
  "case new_win32_platform answers p of (r, s) \<Rightarrow> ut_latch s = 0 \<and>
     (case r of
        Inr _ \<Rightarrow> running s \<and> ua_enumerate answers p = (True, ut_platform s) \<and> ut_queue s = [] \<and> ut_results s = []
      | Inl what \<Rightarrow> what \<noteq> [] \<and> ut_phase s = Ended \<and> \<not> ut_window s)"
proof -
  obtain ok q where enumerated: "ua_enumerate answers p = (ok, q)" by (cases "ua_enumerate answers p")
  show ?thesis
    by (cases ok; cases "ua_windowCreated answers")
       (simp_all add: Let_def new_win32_platform_def runUiThread_def new_ui_thread_def createMessageWindow_def failStartup_def
         signalStartup_def ui_cleanup_def running_def enumerated request_stop_def)
qed

text \<open>
  A call made after the thread has ended waits for ever: the handle of the window is null then, posting to it
  succeeds, and whatever happens afterwards no result arrives.
\<close>

theorem call_after_end_hangs:
  assumes "ut_phase s = Ended" and "\<not> ut_window s" and "n \<notin> fst ` set (ut_results s)"
    and "ui_run unhook (Post n fn None # actions) s = Some s'"
  shows "fst (uiCall n fn None s) = None \<and> syncUiCall_result n None s' = None"
proof -
  have still: "ut_results t' = ut_results t" if "ui_run unhook as t = Some t'" "ut_phase t = Ended" "\<not> ut_window t" for as t t'
    using that
  proof (induction as arbitrary: t)
    case (Cons a as)
    then obtain t1 where t1: "ui_exec unhook a t = Some t1" "ui_run unhook as t1 = Some t'" by (auto simp: ub_bind_eq_Some)
    then have "ut_results t1 = ut_results t \<and> ut_phase t1 = Ended \<and> \<not> ut_window t1"
      using Cons.prems(2,3)
      by (cases a) (auto simp: uiCall_def pumpMessages_def request_stop_def split: option.splits if_splits)
    with Cons.IH t1(2) show ?case by simp
  qed simp
  from still [OF assms(4) assms(1,2)] assms(3) show ?thesis
    by (simp add: uiCall_def syncUiCall_result_def map_of_eq_None_iff)
qed

definition demo_ui_answers :: "w32_capture ui_answers" where
  "demo_ui_answers =
     \<lparr>ua_guiThread = True, ua_classRegistered = True, ua_windowCreated = True, ua_enumerate = (\<lambda>c. (True, c)),
      ua_unhook = (\<lambda>c. c\<lparr>wc_mouseHook := False, wc_keyboardHook := False, wc_instance := False\<rparr>)\<rparr>"

definition demo_ui :: "w32_capture ui_thread" where
  "demo_ui = snd (new_win32_platform demo_ui_answers (new_capture demo_table (5, 5) 0))"

lemma demo_ui_fields:
  "running demo_ui" "ut_queue demo_ui = []" "ut_results demo_ui = []" "ut_platform demo_ui = new_capture demo_table (5, 5) 0"
  "ut_phase demo_ui = Pumping" "ut_window demo_ui" "\<not> ut_stop demo_ui"
  by (simp_all add: demo_ui_def demo_ui_answers_def new_win32_platform_def runUiThread_def new_ui_thread_def createMessageWindow_def
      signalStartup_def running_def Let_def)

theorem ui_calls_linearizable_witness:
  "\<exists>s1 s2 past future. ui_run id [Post 1 (remote_call demo_w32 True) None, Pump False] demo_ui = Some s1 \<and>
     ui_run id [Post 2 (remote_call demo_w32 False) None, Hook (\<lambda>c. c\<lparr>wc_dropped := 7\<rparr>), RequestStop, Pump False] s1 = Some s2 \<and>
     ut_phase s2 = Ended \<and> ut_results s2 = fst (sequentially (past @ future) (new_capture demo_table (5, 5) 0)) \<and>
     length (filter is_hook (past @ future)) = 1"
proof -
  let ?as = "[Post 1 (remote_call demo_w32 True) None, Pump False]" and
    ?bs = "[Post 2 (remote_call demo_w32 False) None, Hook (\<lambda>c. c\<lparr>wc_dropped := 7\<rparr>), RequestStop, Pump False]"
  obtain s1 where s1: "ui_run id ?as demo_ui = Some s1" "ut_phase s1 = Pumping" "ut_window s1" "\<not> ut_stop s1"
    by (cases "remote_call demo_w32 True (new_capture demo_table (5, 5) 0)")
       (simp add: uiCall_def pumpMessages_def demo_ui_fields)
  obtain s2 where s2: "ui_run id ?bs s1 = Some s2" "ut_phase s2 = Ended"
    using s1(2-4) by (simp add: uiCall_def pumpMessages_def request_stop_def)
  obtain past future where
    "explains id (ut_platform demo_ui) (concat (map handed (?as @ ?bs))) (concat (map hooked (?as @ ?bs))) (past @ future) s2"
    using ui_calls_linearizable [OF demo_ui_fields(1-3) s1(1) s2(1)] by blast
  then have "ut_results s2 = fst (sequentially (past @ future) (new_capture demo_table (5, 5) 0))"
    and hooks: "filter is_hook (past @ future) = [HookCall (\<lambda>c. c\<lparr>wc_dropped := 7\<rparr>)]"
    by (simp_all add: explains_def demo_ui_fields)
  moreover have "length (filter is_hook (past @ future)) = 1" unfolding hooks by simp
  ultimately show ?thesis using s1(1) s2 by blast
qed

theorem sync_call_returns_witness:
  "\<exists>s'. ui_run id [Hook (\<lambda>c. c\<lparr>wc_dropped := 7\<rparr>), Post 2 (remote_call demo_w32 False) None, Pump False]
       (snd (uiCall 1 (remote_call demo_w32 True) None demo_ui)) = Some s' \<and>
     syncUiCall_result 1 None s' = Some None"
proof -
  let ?as = "[Hook (\<lambda>c. c\<lparr>wc_dropped := 7\<rparr>), Post 2 (remote_call demo_w32 False) None, Pump False]"
  have calls: "fst (remote_call demo_w32 True c) = None" for c
    by (simp add: remote_call_def beginRemoteControl_def demo_w32_def Let_def)
  obtain s' where s': "ui_run id ?as (snd (uiCall 1 (remote_call demo_w32 True) None demo_ui)) = Some s'"
    by (cases "remote_call demo_w32 True (new_capture demo_table (5, 5) 0\<lparr>wc_dropped := 7\<rparr>)")
       (simp add: uiCall_def pumpMessages_def demo_ui_fields)
  have fresh: "1 \<notin> fst ` set (ut_results demo_ui)" "\<forall>fn. PlatformCall 1 fn \<notin> set (ut_queue demo_ui)"
    by (simp_all add: demo_ui_fields)
  have "list_all undisturbed ?as \<and> length (ut_queue demo_ui) < turns ?as \<and>
      ui_run id ?as (snd (uiCall 1 (remote_call demo_w32 True) None demo_ui)) = Some s'"
    using s' by (simp add: turns_def demo_ui_fields del: ui_run.simps)
  from sync_call_returns [OF demo_ui_fields(1) fresh, where unhook = id and fn = "remote_call demo_w32 True",
      THEN conjunct2, THEN spec, THEN spec, THEN mp, OF this] s' calls
  show ?thesis by (auto simp del: ui_run.simps)
qed

theorem call_after_end_hangs_witness:
  "\<exists>ended s'. ui_run id [Pump True] demo_ui = Some ended \<and>
     ui_run id [Post 1 (remote_call demo_w32 False) None, RequestStop] ended = Some s' \<and>
     syncUiCall_result 1 None s' = None"
proof -
  obtain ended where ended: "ui_run id [Pump True] demo_ui = Some ended" "ut_phase ended = Ended" "\<not> ut_window ended" "ut_results ended = []"
    by (simp add: pumpMessages_def demo_ui_fields)
  obtain s' where s': "ui_run id [Post 1 (remote_call demo_w32 False) None, RequestStop] ended = Some s'" by simp
  from call_after_end_hangs [OF ended(2,3) _ s'] ended s' show ?thesis by auto
qed

end
