(* ===== verification/Portal_Runtime.thy ===== *)
theory Portal_Runtime
  imports Portal_Platform "HOL-Library.Multiset"
begin

text \<open>
  \<open>PortalRuntime\<close> of \<open>src/platform/wayland_portal.cpp\<close>: the thread that runs a GLib main loop, the requests
  to the desktop portal that are handed to it, and the replies that the waiting coroutines get.

  \<^item> A request has a number, for the channel its caller reads; \<open>rn_replies\<close> holds what was sent.
  \<^item> \<open>rn_held\<close> are the GLib objects the runtime holds, \<open>rn_refs\<close> counts the references to each session that
    requests hold.
  \<^item> \<open>runtime_step\<close> is one step: a coroutine hands over a request, the thread enters its loop, runs a function,
    or the portal answers. What GLib and the portal answer is part of the step.
\<close>

section \<open>Starting and ending\<close>

datatype glib_object = MainContext | MainLoop | XdpPortal

text \<open>The thread exists from the constructor on; \<open>LoopQuit\<close>: it has left the loop.\<close>

datatype loop_phase = NoThread | BeforeLoop | InLoop | LoopQuit

datatype portal_request =
    CreateInputCapture
  | CreateRemoteDesktop
  | StartRemoteDesktop nat
  | ConnectToEis nat

record portal_runtime =
  rn_held :: "glib_object list"
  rn_phase :: loop_phase
  rn_functions :: "(nat \<times> portal_request) list"
  rn_pending :: "(nat \<times> portal_request) list"
  rn_replies :: "(nat \<times> (nat + nat)) list"
  rn_refs :: "nat \<Rightarrow> nat"

record glib_answers =
  ga_context :: bool
  ga_loop :: bool
  ga_portal :: bool

definition empty_runtime :: portal_runtime where
  "empty_runtime =
     \<lparr>rn_held = [], rn_phase = NoThread, rn_functions = [], rn_pending = [], rn_replies = [], rn_refs = (\<lambda>_. 0)\<rparr>"

definition glib_release :: "glib_object \<Rightarrow> portal_runtime \<Rightarrow> portal_runtime" where
  "glib_release object r = r\<lparr>rn_held := removeAll object (rn_held r)\<rparr>"

definition new_portal_runtime :: "glib_answers \<Rightarrow> (string + unit) \<times> portal_runtime" where
  "new_portal_runtime answers =
     (if \<not> ga_context answers then (Inl ''Failed to create GLib main context'', empty_runtime)
      else (let r1 = empty_runtime\<lparr>rn_held := [MainContext]\<rparr>
            in if \<not> ga_loop answers then (Inl ''Failed to create GLib main loop'', glib_release MainContext r1)
               else (let r2 = r1\<lparr>rn_held := MainLoop # rn_held r1\<rparr>
                     in if \<not> ga_portal answers
                        then (Inl ''Failed to create libportal context'', glib_release MainContext (glib_release MainLoop r2))
                        else (Inr (), r2\<lparr>rn_held := XdpPortal # rn_held r2, rn_phase := BeforeLoop\<rparr>))))"

text \<open>
  \<open>quit\<close> is the effect of \<open>g_main_loop_quit\<close> on the loop. It ends a loop that runs; on one that has not begun
  to run it has no effect, as \<open>g_main_loop_run\<close> sets the loop running when it is entered.
\<close>

definition quit_laws :: "(loop_phase \<Rightarrow> loop_phase) \<Rightarrow> bool" where
  "quit_laws quit \<longleftrightarrow> quit InLoop = LoopQuit \<and> quit BeforeLoop = BeforeLoop"

text \<open>The destructor: \<open>None\<close> if joining the thread does not return.\<close>

definition delete_portal_runtime :: "(loop_phase \<Rightarrow> loop_phase) \<Rightarrow> portal_runtime \<Rightarrow> portal_runtime option" where
  "delete_portal_runtime quit r =
     (let r1 = (if MainLoop \<in> set (rn_held r) then r\<lparr>rn_phase := quit (rn_phase r)\<rparr> else r)
      in if rn_phase r1 = BeforeLoop \<or> rn_phase r1 = InLoop then None
         else (let r2 = glib_release XdpPortal r1;
                   r3 = (if MainLoop \<in> set (rn_held r2) then glib_release MainLoop r2 else r2);
                   r4 = (if MainContext \<in> set (rn_held r3) then glib_release MainContext r3 else r3)
               in Some (r4\<lparr>rn_phase := NoThread\<rparr>)))"

section \<open>Requests\<close>

fun request_session :: "portal_request \<Rightarrow> nat option" where
  "request_session (StartRemoteDesktop session) = Some session"
| "request_session (ConnectToEis session) = Some session"
| "request_session _ = None"

definition ref_session :: "portal_request \<Rightarrow> (nat \<Rightarrow> nat) \<Rightarrow> nat \<Rightarrow> nat" where
  "ref_session request refs = (case request_session request of None \<Rightarrow> refs | Some s \<Rightarrow> refs(s := refs s + 1))"

definition unref_session :: "portal_request \<Rightarrow> (nat \<Rightarrow> nat) \<Rightarrow> nat \<Rightarrow> nat" where
  "unref_session request refs = (case request_session request of None \<Rightarrow> refs | Some s \<Rightarrow> refs(s := refs s - 1))"

text \<open>The caller takes its reference, and the function goes to the context.\<close>

definition portal_invoke :: "nat \<Rightarrow> portal_request \<Rightarrow> portal_runtime \<Rightarrow> portal_runtime" where
  "portal_invoke n request r =
     r\<lparr>rn_functions := rn_functions r @ [(n, request)], rn_refs := ref_session request (rn_refs r)\<rparr>"

definition sendReply :: "nat \<Rightarrow> nat + nat \<Rightarrow> portal_runtime \<Rightarrow> portal_runtime" where
  "sendReply n result r = r\<lparr>rn_replies := rn_replies r @ [(n, result)]\<rparr>"

text \<open>
  A function starts its request and gives its reference back; only \<open>ConnectToEIS\<close> answers at once, with a
  descriptor or an error. The others are answered later: a session, a start without a value, or an error.
\<close>

definition run_function :: "(g_error option + nat) \<Rightarrow> nat \<Rightarrow> portal_request \<Rightarrow> portal_runtime \<Rightarrow> portal_runtime" where
  "run_function answer n request r =
     (let r1 = r\<lparr>rn_refs := unref_session request (rn_refs r)\<rparr>
      in case request of
           ConnectToEis session \<Rightarrow>
             sendReply n (case answer of Inl e \<Rightarrow> Inl (portalError e) | Inr fd \<Rightarrow> Inr fd) r1
         | _ \<Rightarrow> r1\<lparr>rn_pending := rn_pending r1 @ [(n, request)]\<rparr>)"

definition portal_answered :: "(g_error option + nat) \<Rightarrow> nat \<Rightarrow> portal_runtime \<Rightarrow> portal_runtime" where
  "portal_answered answer n r =
     sendReply n (case answer of Inl e \<Rightarrow> Inl (portalError e) | Inr v \<Rightarrow> Inr v)
       (r\<lparr>rn_pending := filter (\<lambda>(m, _). m \<noteq> n) (rn_pending r)\<rparr>)"

text \<open>What the coroutine gets: an error that the channel was closed, or the reply; \<open>None\<close>: it waits.\<close>

definition receiveReply :: "bool \<Rightarrow> nat \<Rightarrow> portal_runtime \<Rightarrow> (nat + nat) option" where
  "receiveReply closed n r = (if closed then Some (Inl 125) else map_of (rn_replies r) n)"

inductive runtime_step :: "portal_runtime \<Rightarrow> portal_runtime \<Rightarrow> bool" where
  invoked: "rn_phase r \<noteq> NoThread \<Longrightarrow> n \<notin> fst ` set (rn_functions r @ rn_pending r) \<union> fst ` set (rn_replies r) \<Longrightarrow>
     runtime_step r (portal_invoke n request r)"
| entered: "rn_phase r = BeforeLoop \<Longrightarrow> runtime_step r (r\<lparr>rn_phase := InLoop\<rparr>)"
| ran: "rn_phase r = InLoop \<Longrightarrow> rn_functions r = (n, request) # rest \<Longrightarrow>
     runtime_step r (run_function answer n request (r\<lparr>rn_functions := rest\<rparr>))"
| answered: "rn_phase r = InLoop \<Longrightarrow> (n, request) \<in> set (rn_pending r) \<Longrightarrow> runtime_step r (portal_answered answer n r)"

inductive_cases runtime_stepE: "runtime_step r r'"

section \<open>Lemmas\<close>

definition request_ids :: "portal_runtime \<Rightarrow> nat list" where
  "request_ids r = map fst (rn_functions r) @ map fst (rn_pending r) @ map fst (rn_replies r)"

definition session_refs :: "portal_runtime \<Rightarrow> nat \<Rightarrow> nat" where
  "session_refs r session = length (filter (\<lambda>(n, request). request_session request = Some session) (rn_functions r))"

definition runtime_ok :: "portal_runtime \<Rightarrow> bool" where
  "runtime_ok r \<longleftrightarrow> distinct (request_ids r) \<and> rn_refs r = session_refs r \<and>
     (rn_phase r = NoThread \<longrightarrow> rn_held r = [] \<and> request_ids r = []) \<and>
     (rn_phase r \<noteq> NoThread \<longrightarrow> set (rn_held r) = {MainContext, MainLoop, XdpPortal})"

lemma session_refs_cong: "rn_functions r = rn_functions r' \<Longrightarrow> session_refs r = session_refs r'"
  by (simp add: session_refs_def fun_eq_iff)

lemma distinct_without:
  assumes "distinct (map fst xs)" "(n, v) \<in> set xs"
  shows "mset (map fst xs) = add_mset n (mset (map fst (filter (\<lambda>(m, _). m \<noteq> n) xs)))"
  using assms
proof (induction xs)
  case (Cons x xs)
  show ?case
  proof (cases "fst x = n")
    case True
    with Cons.prems(1) have "n \<notin> fst ` set xs" by auto
    then have "filter (\<lambda>(m, _). m \<noteq> n) xs = xs" by (intro filter_True) (auto simp: image_iff)
    with True show ?thesis by (cases x) simp
  next
    case False
    with Cons show ?thesis by (cases x) auto
  qed
qed simp

text \<open>What a step does to the requests: it adds at most one that was handed over, and moves the others along.\<close>

lemma step_requests:
  assumes "runtime_step r r'" "runtime_ok r"
  shows "runtime_ok r'" "mset (request_ids r) \<subseteq># mset (request_ids r')" "\<exists>later. rn_replies r' = rn_replies r @ later"
proof -
  have "runtime_ok r' \<and> mset (request_ids r) \<subseteq># mset (request_ids r') \<and> (\<exists>later. rn_replies r' = rn_replies r @ later)"
    using assms(1)
  proof cases
    case (invoked n request)
    have refs: "ref_session request (session_refs r) = session_refs (portal_invoke n request r)"
      by (auto simp: ref_session_def session_refs_def portal_invoke_def fun_eq_iff split: option.split)
    have ids: "mset (request_ids r') = add_mset n (mset (request_ids r))"
      by (simp add: invoked(1) request_ids_def portal_invoke_def)
    have "n \<notin> set (request_ids r)" using invoked(3) by (auto simp: request_ids_def)
    then have "distinct (request_ids r')"
      using assms(2) mset_eq_imp_distinct_iff [of "request_ids r'" "n # request_ids r"] ids by (simp add: runtime_ok_def)
    moreover have "rn_phase r' = rn_phase r" "rn_held r' = rn_held r" "rn_replies r' = rn_replies r"
      "rn_refs r' = ref_session request (rn_refs r)"
      by (simp_all add: invoked(1) portal_invoke_def)
    moreover have "ref_session request (session_refs r) = session_refs r'" using refs invoked(1) by simp
    ultimately show ?thesis using assms(2) invoked(2) ids unfolding runtime_ok_def by auto
  next
    case entered
    then have "session_refs r' = session_refs r" by (intro session_refs_cong) simp
    with entered assms(2) show ?thesis by (simp add: runtime_ok_def request_ids_def)
  next
    case (ran n request rest answer)
    have refs: "unref_session request (session_refs r) =
        (\<lambda>s. length (filter (\<lambda>(n, request). request_session request = Some s) rest))"
      using ran(3) by (auto simp: unref_session_def session_refs_def fun_eq_iff split: option.split)
    have ids: "mset (request_ids r') = mset (request_ids r)" "rn_functions r' = rest" "rn_phase r' = InLoop" "rn_held r' = rn_held r"
      "rn_refs r' = unref_session request (rn_refs r)" "\<exists>later. rn_replies r' = rn_replies r @ later"
      using ran by (cases request; simp add: run_function_def request_ids_def sendReply_def Let_def)+
    then have "distinct (request_ids r')"
      using assms(2) mset_eq_imp_distinct_iff [of "request_ids r'" "request_ids r"] by (simp add: runtime_ok_def)
    moreover have "session_refs r' = unref_session request (session_refs r)"
      unfolding refs using ids(2) by (simp add: session_refs_def fun_eq_iff)
    ultimately show ?thesis using assms(2) ids ran(2) by (simp add: runtime_ok_def)
  next
    case (answered n request answer)
    have "distinct (map fst (rn_pending r))" using assms(2) by (simp add: runtime_ok_def request_ids_def)
    from distinct_without [OF this answered(3)] have ids: "mset (request_ids r') = mset (request_ids r)"
      by (simp add: answered(1) request_ids_def portal_answered_def sendReply_def)
    then have "distinct (request_ids r')"
      using assms(2) mset_eq_imp_distinct_iff [of "request_ids r'" "request_ids r"] by (simp add: runtime_ok_def)
    moreover have "rn_phase r' = InLoop" "rn_held r' = rn_held r" "rn_refs r' = rn_refs r" "session_refs r' = session_refs r"
      "\<exists>later. rn_replies r' = rn_replies r @ later"
      using answered(1,2) session_refs_cong [of r' r] by (simp_all add: portal_answered_def sendReply_def)
    ultimately show ?thesis using assms(2) ids answered(2) by (simp add: runtime_ok_def)
  qed
  then show "runtime_ok r'" "mset (request_ids r) \<subseteq># mset (request_ids r')" "\<exists>later. rn_replies r' = rn_replies r @ later"
    by simp_all
qed

lemma steps_requests:
  assumes "runtime_step\<^sup>*\<^sup>* r r'" "runtime_ok r"
  shows "runtime_ok r' \<and> mset (request_ids r) \<subseteq># mset (request_ids r') \<and> (\<exists>later. rn_replies r' = rn_replies r @ later)"
  using assms(1)
proof induction
  case base
  with assms(2) show ?case by simp
next
  case (step r1 r2)
  then have r1: "runtime_ok r1" "mset (request_ids r) \<subseteq># mset (request_ids r1)" "\<exists>later. rn_replies r1 = rn_replies r @ later"
    by simp_all
  note next_ = step_requests [OF step(2) r1(1)]
  from subset_mset.order_trans [OF r1(2) next_(2)] r1(3) next_(1,3) show ?case by auto
qed

lemma new_runtime_ok: "new_portal_runtime answers = (Inr (), r) \<Longrightarrow> runtime_ok r \<and> rn_phase r = BeforeLoop \<and> request_ids r = []"
  by (auto simp: new_portal_runtime_def empty_runtime_def runtime_ok_def request_ids_def session_refs_def Let_def fun_eq_iff
      split: if_splits)

lemma run_fields:
  "rn_functions (run_function answer n request r) = rn_functions r" "rn_phase (run_function answer n request r) = rn_phase r"
  by (simp_all add: run_function_def sendReply_def Let_def split: portal_request.split)

text \<open>The loop works off the functions that are before the last one.\<close>

lemma run_functions:
  "rn_phase r = InLoop \<Longrightarrow> rn_functions r = fs @ [(n, request)] \<Longrightarrow>
     \<exists>r'. runtime_step\<^sup>*\<^sup>* r r' \<and> rn_phase r' = InLoop \<and> rn_functions r' = [(n, request)]"
proof (induction fs arbitrary: r)
  case (Cons f fs)
  obtain m other where f: "f = (m, other)" by (cases f)
  let ?r = "run_function (Inr 0) m other (r\<lparr>rn_functions := fs @ [(n, request)]\<rparr>)"
  have "runtime_step r ?r" using Cons.prems f by (intro runtime_step.ran) simp_all
  moreover obtain r' where "runtime_step\<^sup>*\<^sup>* ?r r'" "rn_phase r' = InLoop" "rn_functions r' = [(n, request)]"
    using Cons.IH [of ?r] Cons.prems(1) by (auto simp: run_fields)
  ultimately show ?case by (blast intro: converse_rtranclp_into_rtranclp)
qed auto

lemma distinct_count_list: "distinct xs \<Longrightarrow> x \<in> set xs \<Longrightarrow> count_list xs x = 1"
  by (induction xs) auto

lemma reply_sent: "n \<notin> fst ` set (rn_replies r) \<Longrightarrow> receiveReply False n (sendReply n reply r) = Some reply"
  using map_of_eq_None_iff [of "rn_replies r" n] by (simp add: receiveReply_def sendReply_def map_add_def)

section \<open>Properties\<close>

text \<open>
  C39. No request to the portal is lost, answered twice or answered differently later: once it is handed over, it is
  in exactly one of three places (waiting for the loop, with the portal, replied), whatever happens in between,
  and a reply stays. The sessions are referenced exactly by the requests that have not run yet.
\<close>

theorem portal_requests_conserved:
  assumes "new_portal_runtime answers = (Inr (), r0)" and "runtime_step\<^sup>*\<^sup>* r0 r" and "runtime_step\<^sup>*\<^sup>* r r'"
    and "n \<in> set (request_ids r)"
  shows "count_list (request_ids r') n = 1 \<and>
    (\<forall>reply. receiveReply False n r = Some reply \<longrightarrow> receiveReply False n r' = Some reply) \<and>
    rn_refs r' = session_refs r'"
proof -
  have r: "runtime_ok r" using steps_requests [OF assms(2)] new_runtime_ok [OF assms(1)] by blast
  from steps_requests [OF assms(3) this] obtain later where r': "runtime_ok r'" "mset (request_ids r) \<subseteq># mset (request_ids r')"
    "rn_replies r' = rn_replies r @ later" by blast
  have "n \<in> set (request_ids r')" using mset_subset_eqD [OF r'(2)] assms(4) by (metis set_mset_mset)
  moreover have "distinct (request_ids r')" using r'(1) by (simp add: runtime_ok_def)
  ultimately have "count_list (request_ids r') n = 1" by (intro distinct_count_list)
  then show ?thesis using r'(1,3) by (auto simp: receiveReply_def runtime_ok_def map_add_def)
qed

text \<open>
  A request is answered exactly: whatever was handed over before it, once the loop has come to it and the portal
  answers, the caller gets this answer, its value or the error code of its error.
\<close>

theorem portal_reply_exact:
  assumes "rn_phase r = InLoop" and "runtime_ok r" and "n \<notin> set (request_ids r)"
  shows "\<exists>r'. runtime_step\<^sup>*\<^sup>* (portal_invoke n request r) r' \<and>
    receiveReply False n r' = Some (case answer of Inl e \<Rightarrow> Inl (portalError e) | Inr v \<Rightarrow> Inr v)"
proof -
  let ?reply = "case answer of Inl e \<Rightarrow> Inl (portalError e) | Inr v \<Rightarrow> Inr v" and ?r1 = "portal_invoke n request r"
  have "runtime_step r ?r1" using assms by (intro runtime_step.invoked) (auto simp: request_ids_def)
  then have ok1: "runtime_ok ?r1" using step_requests(1) assms(2) by blast
  have "rn_phase ?r1 = InLoop" "rn_functions ?r1 = rn_functions r @ [(n, request)]"
    using assms(1) by (simp_all add: portal_invoke_def)
  from run_functions [OF this] obtain r2 where r2: "runtime_step\<^sup>*\<^sup>* ?r1 r2" "rn_phase r2 = InLoop" "rn_functions r2 = [(n, request)]"
    by blast
  have "runtime_ok r2" using steps_requests [OF r2(1) ok1] by blast
  then have fresh: "n \<notin> fst ` set (rn_replies r2)" using r2(3) by (auto simp: runtime_ok_def request_ids_def)
  let ?r3 = "run_function answer n request (r2\<lparr>rn_functions := []\<rparr>)"
  have run: "runtime_step r2 ?r3" using r2(2,3) by (rule runtime_step.ran)
  show ?thesis
  proof (cases "\<exists>session. request = ConnectToEis session")
    case True
    then have "receiveReply False n ?r3 = Some ?reply" using fresh by (auto simp: run_function_def Let_def reply_sent)
    with r2(1) run show ?thesis by (blast intro: rtranclp.rtrancl_into_rtrancl)
  next
    case False
    then have r3: "(n, request) \<in> set (rn_pending ?r3)" "rn_replies ?r3 = rn_replies r2" "rn_phase ?r3 = InLoop"
      using r2(2) by (cases request; simp add: run_function_def Let_def)+
    let ?r4 = "portal_answered answer n ?r3"
    have "runtime_step ?r3 ?r4" using r3(3,1) by (rule runtime_step.answered)
    moreover have "receiveReply False n ?r4 = Some ?reply" using fresh r3(2) by (simp add: portal_answered_def reply_sent)
    ultimately show ?thesis using r2(1) run by (blast intro: rtranclp.rtrancl_into_rtrancl)
  qed
qed

text \<open>
  The runtime comes up with all its objects or with none; once its thread is in the loop, deleting it gives all
  of them back.
\<close>

theorem portal_runtime_releases:
  assumes "new_portal_runtime answers = (result, r)" and "quit_laws quit"
  shows "(case result of Inl what \<Rightarrow> rn_held r = [] \<and> rn_phase r = NoThread
     | Inr _ \<Rightarrow> \<forall>r'. runtime_step\<^sup>*\<^sup>* r r' \<and> rn_phase r' = InLoop \<longrightarrow>
         (\<exists>r''. delete_portal_runtime quit r' = Some r'' \<and> rn_held r'' = [] \<and> rn_phase r'' = NoThread))"
proof (cases result)
  case (Inl what)
  with assms show ?thesis by (auto simp: new_portal_runtime_def empty_runtime_def glib_release_def Let_def split: if_splits)
next
  case (Inr u)
  have ok: "runtime_ok r" using new_runtime_ok assms Inr by simp
  have "\<exists>r''. delete_portal_runtime quit r' = Some r'' \<and> rn_held r'' = [] \<and> rn_phase r'' = NoThread"
    if "runtime_step\<^sup>*\<^sup>* r r'" "rn_phase r' = InLoop" for r'
  proof -
    have "runtime_ok r'" using steps_requests [OF that(1) ok] by blast
    then have held: "set (rn_held r') = {MainContext, MainLoop, XdpPortal}" using that(2) by (simp add: runtime_ok_def)
    then have "set (removeAll MainContext (removeAll MainLoop (removeAll XdpPortal (rn_held r')))) = {}" by auto
    then have "removeAll MainContext (removeAll MainLoop (removeAll XdpPortal (rn_held r'))) = []" by (simp only: set_empty)
    with that(2) held assms(2) show ?thesis by (simp add: delete_portal_runtime_def quit_laws_def glib_release_def Let_def)
  qed
  with Inr show ?thesis by simp
qed

text \<open>
  A runtime that is deleted before its thread has entered the loop never ends: quitting a loop that does not run
  yet has no effect, the thread then enters it, and joining the thread waits for ever.
\<close>

theorem portal_runtime_early_delete_hangs:
  assumes "new_portal_runtime answers = (Inr (), r)" and "quit_laws quit"
  shows "delete_portal_runtime quit r = None"
proof -
  have "rn_phase r = BeforeLoop" using new_runtime_ok [OF assms(1)] by blast
  with assms(2) show ?thesis by (simp add: delete_portal_runtime_def quit_laws_def Let_def)
qed

definition demo_runtime :: portal_runtime where
  "demo_runtime = snd (new_portal_runtime \<lparr>ga_context = True, ga_loop = True, ga_portal = True\<rparr>)"

lemma demo_runtime_new:
  "new_portal_runtime \<lparr>ga_context = True, ga_loop = True, ga_portal = True\<rparr> = (Inr (), demo_runtime)"
  by (simp add: demo_runtime_def new_portal_runtime_def Let_def)

definition demo_quit :: "loop_phase \<Rightarrow> loop_phase" where
  "demo_quit phase = (if phase = InLoop then LoopQuit else phase)"

lemma demo_quit_laws: "quit_laws demo_quit"
  by (simp add: quit_laws_def demo_quit_def)

theorem portal_runtime_early_delete_hangs_witness: "delete_portal_runtime demo_quit demo_runtime = None"
  using demo_runtime_new demo_quit_laws by (rule portal_runtime_early_delete_hangs)

lemma demo_runtime_phase: "rn_phase demo_runtime = BeforeLoop" "rn_functions demo_runtime = []" "rn_pending demo_runtime = []"
  "rn_replies demo_runtime = []"
  by (simp_all add: demo_runtime_def new_portal_runtime_def empty_runtime_def Let_def)

theorem portal_requests_conserved_witness:
  "count_list (request_ids (portal_invoke 4 (ConnectToEis 7) (portal_invoke 3 CreateInputCapture demo_runtime))) 3 = 1"
proof -
  let ?r = "portal_invoke 3 CreateInputCapture demo_runtime"
  have "runtime_step demo_runtime ?r" using demo_runtime_phase by (intro runtime_step.invoked) simp_all
  moreover have "runtime_step ?r (portal_invoke 4 (ConnectToEis 7) ?r)"
    using demo_runtime_phase by (intro runtime_step.invoked) (simp_all add: portal_invoke_def)
  moreover have "3 \<in> set (request_ids ?r)" by (simp add: request_ids_def portal_invoke_def)
  ultimately show ?thesis using portal_requests_conserved [OF demo_runtime_new] by blast
qed

theorem portal_reply_exact_witness:
  "\<exists>r'. runtime_step\<^sup>*\<^sup>* (portal_invoke 3 CreateInputCapture (demo_runtime\<lparr>rn_phase := InLoop\<rparr>)) r' \<and>
     receiveReply False 3 r' = Some (Inl 5)"
proof -
  have "runtime_step demo_runtime (demo_runtime\<lparr>rn_phase := InLoop\<rparr>)" using demo_runtime_phase(1) by (rule runtime_step.entered)
  then have "runtime_ok (demo_runtime\<lparr>rn_phase := InLoop\<rparr>)" using step_requests(1) new_runtime_ok [OF demo_runtime_new] by blast
  moreover have "3 \<notin> set (request_ids (demo_runtime\<lparr>rn_phase := InLoop\<rparr>))" by (simp add: request_ids_def demo_runtime_phase)
  moreover have "portalError None = 5" by (simp add: portalError_def)
  ultimately show ?thesis
    using portal_reply_exact [of "demo_runtime\<lparr>rn_phase := InLoop\<rparr>" 3 CreateInputCapture "Inl None"] by simp
qed

theorem portal_runtime_releases_witness:
  "\<exists>r''. delete_portal_runtime demo_quit (demo_runtime\<lparr>rn_phase := InLoop\<rparr>) = Some r'' \<and> rn_held r'' = []"
proof -
  have "runtime_step\<^sup>*\<^sup>* demo_runtime (demo_runtime\<lparr>rn_phase := InLoop\<rparr>)"
    using runtime_step.entered [OF demo_runtime_phase(1)] by (rule r_into_rtranclp)
  with portal_runtime_releases [OF demo_runtime_new demo_quit_laws] show ?thesis by fastforce
qed

end
