(* ===== verification/Input_Delivery.thy ===== *)
theory Input_Delivery
  imports Server_App Client_App
begin

text \<open>
  The way of the input from the router of the server to the injector of one client: the channel a session
  publishes, its write loop (\<open>writeLoop\<close>, \<open>run\<close> and \<open>shutdown\<close> of \<open>src/app/server_session.cpp\<close>), the
  network, and the read loop of \<open>src/app/client.cpp\<close>.

  \<^item> The channel belongs to the coroutine library: \<open>channel_ops\<close> are its operations, and \<open>channel_laws\<close>
    states that it is a queue, which refuses what does not fit.
  \<^item> \<open>delivery_step\<close> interleaves any action of the server with the write loop of one connection, the
    arrival of bytes at its client, and the read loop of the client. Once published, the sender of the
    connection stays or is erased; a new connection of the peer is another run.
  \<^item> \<open>dv_accepted\<close> (the inputs the channel took), \<open>dv_wire\<close> and \<open>dv_arrived\<close> (the bytes given to the network
    and those it has delivered) record the history; no step of the program reads them.
\<close>

section \<open>The channel of a session\<close>

record 'c channel_ops =
  ch_trySend :: "rpc_message \<Rightarrow> 'c \<Rightarrow> bool \<times> 'c"
  ch_recv :: "'c \<Rightarrow> (rpc_message \<times> 'c) option"

definition channel_laws :: "'c channel_ops \<Rightarrow> ('c \<Rightarrow> rpc_message list) \<Rightarrow> bool" where
  "channel_laws cops queued \<longleftrightarrow>
     (\<forall>m c. queued (snd (ch_trySend cops m c)) = queued c @ (if fst (ch_trySend cops m c) then [m] else [])) \<and>
     (\<forall>c. case ch_recv cops c of None \<Rightarrow> queued c = [] | Some (m, c') \<Rightarrow> queued c = m # queued c')"

text \<open>The router queues an \<open>InputMessage\<close> for each event.\<close>

definition channel_io :: "'c channel_ops \<Rightarrow> ('cap, 'c) router_io \<Rightarrow> ('cap, 'c) router_io" where
  "channel_io cops io = io\<lparr>io_trySend := \<lambda>event. ch_trySend cops (InputMessage event)\<rparr>"

section \<open>The end of a session\<close>

definition session_shutdown :: "'s stream_ops \<Rightarrow> 's \<Rightarrow> 's" where
  "session_shutdown ops s = transport_close ops (snd (transport_shutdown ops s))"

definition session_result ::
  "(rpc_failure + unit) option \<Rightarrow> (rpc_failure + unit) option \<Rightarrow> rpc_failure + unit" where
  "session_result readResult writeResult =
     (case readResult of
        Some (Inl e) \<Rightarrow> Inl e
      | _ \<Rightarrow> (case writeResult of Some (Inl e) \<Rightarrow> Inl e | _ \<Rightarrow> Inr ()))"

text \<open>One round of the write loop: \<open>None\<close> if it waits for a message.\<close>

definition writeLoop_round ::
  "'s stream_ops \<Rightarrow> rpc_codec \<Rightarrow> 'c channel_ops \<Rightarrow> 'c \<times> 's \<Rightarrow> ((rpc_failure + unit) \<times> 'c \<times> 's) option" where
  "writeLoop_round ops codec cops st =
     (case st of (c, s) \<Rightarrow>
        case ch_recv cops c of
          None \<Rightarrow> None
        | Some (m, c') \<Rightarrow> (case writeMessage ops codec m s of (result, s') \<Rightarrow> Some (result, c', s')))"

section \<open>The whole way\<close>

record ('ep, 'cap, 'c, 's, 't, 'inj) delivery =
  dv_server :: "('ep, 'cap, 'c) server"
  dv_out :: 's
  dv_writing :: bool
  dv_in :: 't
  dv_client :: client
  dv_injector :: 'inj
  dv_reading :: bool
  dv_accepted :: "input_event list"
  dv_wire :: bytes
  dv_arrived :: bytes

definition sender_of :: "('ep::linorder, 'cap, 'c) server \<Rightarrow> 'ep \<Rightarrow> 'c option" where
  "sender_of sv ep = map_find (rt_senders (sv_router sv)) ep"

text \<open>What an action of the server added to the channel.\<close>

definition newly_queued :: "('c \<Rightarrow> rpc_message list) \<Rightarrow> 'c option \<Rightarrow> 'c option \<Rightarrow> input_event list" where
  "newly_queued queued before after =
     (case (before, after) of
        (Some c, Some c') \<Rightarrow> inputs_of (drop (length (queued c)) (queued c'))
      | _ \<Rightarrow> [])"

text \<open>A frame has arrived whole.\<close>

definition frame_ready :: "bytes \<Rightarrow> bool" where
  "frame_ready bs \<longleftrightarrow> (\<exists>mid payload rest. bs = frame mid payload @ rest \<and> length payload \<le> 65535)"

text \<open>
  The parties of the program: the server's stream and the client's may be of different kinds. \<open>de_queued\<close>,
  \<open>de_sent\<close> and \<open>de_pending\<close> are the views of the laws.
\<close>

record ('ep, 'cap, 'c, 's, 't, 'inj) delivery_env =
  de_store :: "'ep store_env"
  de_io :: "('cap, 'c) router_io"
  de_channel :: "'c channel_ops"
  de_codec :: rpc_codec
  de_out :: "'s stream_ops"
  de_in :: "'t stream_ops"
  de_injector :: "'inj injector_ops"
  de_queued :: "'c \<Rightarrow> rpc_message list"
  de_sent :: "'s \<Rightarrow> bytes"
  de_pending :: "'t \<Rightarrow> bytes"

definition delivery_laws :: "('ep, 'cap, 'c, 's, 't, 'inj) delivery_env \<Rightarrow> bool" where
  "delivery_laws E \<longleftrightarrow> channel_laws (de_channel E) (de_queued E) \<and>
     (\<exists>pending. stream_laws (de_out E) (de_sent E) pending) \<and> (\<exists>sent. stream_laws (de_in E) sent (de_pending E))"

inductive delivery_step ::
  "('ep::linorder, 'cap, 'c, 's, 't, 'inj) delivery_env \<Rightarrow> 'ep \<Rightarrow>
     ('ep, 'cap, 'c, 's, 't, 'inj) delivery \<Rightarrow> ('ep, 'cap, 'c, 's, 't, 'inj) delivery \<Rightarrow> bool"
  for E ep where
  acted: "server_exec (de_store E) (channel_io (de_channel E) (de_io E)) a (dv_server d) = Some sv' \<Longrightarrow>
    \<forall>sender. a \<noteq> Publish ep sender \<Longrightarrow>
    delivery_step E ep d
      (d\<lparr>dv_server := sv',
         dv_accepted := dv_accepted d @ newly_queued (de_queued E) (sender_of (dv_server d) ep) (sender_of sv' ep)\<rparr>)"
| wrote: "dv_writing d \<Longrightarrow> sender_of (dv_server d) ep = Some c \<Longrightarrow>
    writeLoop_round (de_out E) (de_codec E) (de_channel E) (c, dv_out d) = Some (Inr (), c', s') \<Longrightarrow>
    de_sent E s' = de_sent E (dv_out d) @ bs \<Longrightarrow>
    delivery_step E ep d
      (d\<lparr>dv_server := dv_server d\<lparr>sv_router := publish_sender ep c' (sv_router (dv_server d))\<rparr>, dv_out := s',
         dv_wire := dv_wire d @ bs\<rparr>)"
| write_failed: "dv_writing d \<Longrightarrow> sender_of (dv_server d) ep = Some c \<Longrightarrow>
    writeLoop_round (de_out E) (de_codec E) (de_channel E) (c, dv_out d) = Some (Inl e, c', s') \<Longrightarrow>
    ch_recv (de_channel E) c = Some (m, c') \<Longrightarrow> frame_of (de_codec E) m = part @ lost \<Longrightarrow>
    delivery_step E ep d
      (d\<lparr>dv_server := dv_server d\<lparr>sv_router := publish_sender ep c' (sv_router (dv_server d))\<rparr>,
         dv_out := session_shutdown (de_out E) s', dv_writing := False, dv_wire := dv_wire d @ part\<rparr>)"
| arrived: "dv_wire d = dv_arrived d @ bs @ later \<Longrightarrow> de_pending E t = de_pending E (dv_in d) @ bs \<Longrightarrow>
    delivery_step E ep d (d\<lparr>dv_in := t, dv_arrived := dv_arrived d @ bs\<rparr>)"
| read: "dv_reading d \<Longrightarrow> frame_ready (de_pending E (dv_in d)) \<Longrightarrow>
    handleRead (de_in E) (de_codec E) (de_injector E) 1 (dv_in d, dv_client d, dv_injector d) = (result, t, cl, j) \<Longrightarrow>
    delivery_step E ep d (d\<lparr>dv_in := t, dv_client := cl, dv_injector := j, dv_reading := (result = Inr ())\<rparr>)"

text \<open>A connection right after its write loop has published the sender of a new channel.\<close>

definition delivery_start ::
  "('ep::linorder, 'cap, 'c, 's, 't, 'inj) delivery_env \<Rightarrow> 'ep \<Rightarrow> ('ep, 'cap, 'c, 's, 't, 'inj) delivery \<Rightarrow> bool" where
  "delivery_start E ep d \<longleftrightarrow> map_wf (rt_senders (sv_router (dv_server d))) \<and>
     (case sender_of (dv_server d) ep of None \<Rightarrow> False | Some c \<Rightarrow> de_queued E c = []) \<and>
     dv_writing d \<and> dv_reading d \<and> dv_accepted d = [] \<and> dv_wire d = [] \<and> dv_arrived d = [] \<and> de_pending E (dv_in d) = []"

section \<open>Lemmas\<close>

lemma channel_lawsD:
  assumes "channel_laws cops queued"
  shows "queued (snd (ch_trySend cops m c)) = queued c @ (if fst (ch_trySend cops m c) then [m] else [])"
    "ch_recv cops c = Some (m', c') \<Longrightarrow> queued c = m' # queued c'" "ch_recv cops c = None \<Longrightarrow> queued c = []"
proof -
  note L = assms [unfolded channel_laws_def]
  show "queued (snd (ch_trySend cops m c)) = queued c @ (if fst (ch_trySend cops m c) then [m] else [])"
    using L by blast
  show "ch_recv cops c = Some (m', c') \<Longrightarrow> queued c = m' # queued c'" using spec [OF conjunct2 [OF L], of c] by simp
  show "ch_recv cops c = None \<Longrightarrow> queued c = []" using spec [OF conjunct2 [OF L], of c] by simp
qed

subsection \<open>The router only appends inputs\<close>

definition appended ::
  "('c \<Rightarrow> rpc_message list) \<Rightarrow> 'ep::linorder \<Rightarrow> 'c option \<Rightarrow> ('ep, 'c) std_map \<Rightarrow> bool" where
  "appended queued ep before senders \<longleftrightarrow> map_wf senders \<and>
     (\<forall>c'. map_find senders ep = Some c' \<longrightarrow>
        (\<exists>c es. before = Some c \<and> queued c' = queued c @ map InputMessage es))"

lemma queue_appended:
  assumes laws: "channel_laws cops queued" and app: "appended queued ep before (rt_senders r)"
  shows "appended queued ep before (rt_senders (snd (queueInputForScreen (channel_io cops io) s e r)))"
proof -
  have wf: "map_wf (rt_senders r)" using app by (simp add: appended_def)
  have "\<exists>c es. before = Some c \<and> queued c' = queued c @ map InputMessage es"
    if c': "map_find (rt_senders (snd (queueInputForScreen (channel_io cops io) s e r))) ep = Some c'" for c'
  proof -
    from c' obtain c1 where c1: "map_find (rt_senders r) ep = Some c1" "c' = c1 \<or> c' = snd (ch_trySend cops (InputMessage e) c1)"
      by (auto simp: queue_senders [OF wf] channel_io_def split: option.splits if_splits)
    with app obtain c es where c: "before = Some c" "queued c1 = queued c @ map InputMessage es"
      unfolding appended_def by blast
    have "queued c' = queued c @ map InputMessage es \<or> queued c' = queued c @ map InputMessage (es @ [e])"
      using c1(2) c(2) channel_lawsD(1) [OF laws, of "InputMessage e" c1] by auto
    with c(1) show ?thesis by blast
  qed
  with wf show ?thesis by (simp add: appended_def)
qed

lemma handshake_senders: "rt_senders (snd (handshake env x received r)) = rt_senders r"
  by (auto simp: handshake_def Let_def split: sum.splits rpc_message.splits)

lemma server_exec_appended:
  assumes laws: "channel_laws cops queued" and app: "appended queued ep before (rt_senders (sv_router sv))"
    and exec: "server_exec env (channel_io cops io) a sv = Some sv'" and other: "\<forall>sender. a \<noteq> Publish ep sender"
  shows "appended queued ep before (rt_senders (sv_router sv'))"
proof -
  let ?kept = "appended queued ep before"
  have keeps: "sender_invariant (channel_io cops io) ?kept" by unfold_locales (rule queue_appended [OF laws])
  note holds = sender_invariant.holds_def [OF keeps]
  note input = sender_invariant.handleInputEvent_holds [OF keeps, unfolded holds]
    and screens = sender_invariant.server_register_holds [OF keeps, unfolded holds]
    and removed = sender_invariant.removeEndpoint_holds [OF keeps, unfolded holds]
  have erase: "?kept (map_erase x senders)" if "?kept senders" for x senders
    using that by (auto simp: appended_def std_map.invar_erase map_of_erase)
  have closed: "?kept (rt_senders (sv_router sv2))"
    if "close_connection (channel_io cops io) x sv1 = Some sv2" "?kept (rt_senders (sv_router sv1))" for x sv1 sv2
    using that by (auto simp: close_connection_def onClosed_def ub_bind_eq_Some intro!: erase dest: removed)
  show ?thesis
  proof (cases a)
    case (Receive x received)
    have message: "?kept (rt_senders r')"
      if "session_message env (channel_io cops io) x session msg (sv_router sv) = Some r'" for session msg r'
      using that app by (auto simp: session_message_def onScreens_def split: rpc_message.splits dest: screens)
    show ?thesis
    proof (cases "handshake env x received (sv_router sv)")
      case (Pair result r)
      then have r: "rt_senders r = rt_senders (sv_router sv)" using handshake_senders [of env x received "sv_router sv"] by simp
      with exec Receive Pair app message show ?thesis
        by (auto simp: handleIncoming_message_def ub_bind_eq_Some split: option.splits connection.splits sum.splits
            dest!: closed)
    qed
  next
    case (Captured e)
    with exec app show ?thesis by (auto simp: ub_bind_eq_Some dest: input)
  next
    case (Publish x sender)
    with other have "x \<noteq> ep" by auto
    with exec Publish app show ?thesis
      by (auto simp: publish_sender_def appended_def std_map.invar_assign map_of_assign)
  next
    case (Disconnect x)
    with exec app show ?thesis by (auto dest: closed)
  qed (use exec app in auto)
qed

subsection \<open>Frames and injections\<close>

definition wire_of :: "rpc_codec \<Rightarrow> input_event list \<Rightarrow> bytes" where
  "wire_of codec es = concat (map (\<lambda>e. frame_of codec (InputMessage e)) es)"

lemma wire_of_simps [simp]:
  "wire_of codec [] = []" "wire_of codec (e # es) = frame_of codec (InputMessage e) @ wire_of codec es"
  "wire_of codec (es @ fs) = wire_of codec es @ wire_of codec fs"
  by (simp_all add: wire_of_def)

lemma inputs_of_map [simp]: "inputs_of (map InputMessage es) = es"
  by (induction es) simp_all

lemma inject_all_snoc:
  "inject_all iops es j0 = (Inr (), j) \<Longrightarrow> inject_all iops (es @ [e]) j0 = inj_inject iops e j"
  by (induction es arbitrary: j0) (auto split: prod.splits sum.splits)

lemma u16_be_eq: "u16_be v @ bs = u16_be w @ cs \<longleftrightarrow> v = w \<and> bs = cs"
proof -
  have "v = w" if "ucast (drop_bit 8 v) = (ucast (drop_bit 8 w) :: byte)" "ucast v = (ucast w :: byte)"
  proof (rule bit_word_eqI)
    fix n assume n: "n < LENGTH(16)"
    show "bit v n = bit w n"
    proof (cases "n < 8")
      case True
      then show ?thesis using arg_cong [OF that(2), of "\<lambda>x. bit x n"] by (simp add: bit_simps)
    next
      case False
      with n have "n - 8 < 8" by simp
      then show ?thesis using False n arg_cong [OF that(1), of "\<lambda>x. bit x (n - 8)"] by (simp add: bit_simps)
    qed
  qed
  then show ?thesis by (auto simp: u16_be_def)
qed

lemma frame_eq:
  assumes "frame mid payload @ rest = frame mid' payload' @ rest'" "length payload \<le> 65535" "length payload' \<le> 65535"
  shows "mid = mid'" "payload = payload'" "rest = rest'"
proof -
  from assms(1) have eq: "(word_of_nat (length payload) :: 16 word) = word_of_nat (length payload')"
    "mid = mid'" "payload @ rest = payload' @ rest'"
    by (simp_all add: frame_def u16_be_eq)
  have "length payload = length payload'"
    using arg_cong [OF eq(1), of unat] by (simp add: unat_size assms(2,3))
  with eq show "mid = mid'" "payload = payload'" "rest = rest'" by simp_all
qed

lemma frame_length: "length (frame mid payload) = 4 + length payload"
  by (simp add: frame_def u16_be_def)

lemma frame_of_good:
  assumes "codec_round_trip codec m"
  obtains payload where "frame_of codec m = frame (message_id_of m) payload" "length payload \<le> 65535"
  using assms by (auto simp: codec_round_trip_def frame_of_def split: option.splits)

text \<open>A whole frame at the front of a cut-off sequence of frames is the first of them.\<close>

lemma ready_is_next:
  assumes ready: "frame_ready bs" and cut: "bs @ lost = wire_of codec es"
    and good: "\<forall>e \<in> set es. codec_round_trip codec (InputMessage e)"
  obtains e es' rest where "es = e # es'" "bs = frame_of codec (InputMessage e) @ rest" "rest @ lost = wire_of codec es'"
proof -
  obtain mid payload rest where bs: "bs = frame mid payload @ rest" "length payload \<le> 65535"
    using ready by (auto simp: frame_ready_def)
  show ?thesis
  proof (cases es)
    case Nil
    with cut bs frame_length [of mid payload] show ?thesis by simp
  next
    case (Cons e es')
    with good obtain payload' where payload': "frame_of codec (InputMessage e) = frame (message_id_of (InputMessage e)) payload'"
      "length payload' \<le> 65535" by (auto elim: frame_of_good)
    from cut bs Cons payload'(1)
    have "frame mid payload @ rest @ lost = frame (message_id_of (InputMessage e)) payload' @ wire_of codec es'" by simp
    note eq = frame_eq [OF this bs(2) payload'(2)]
    show ?thesis by (rule that [OF Cons _ eq(3)]) (simp add: bs(1) eq(1,2) payload'(1))
  qed
qed

text \<open>The read loop over one input: it is injected, and only a refusal ends the loop.\<close>

lemma handleRead_input:
  assumes laws: "stream_laws ops sent pending" and codec: "codec_round_trip codec (InputMessage e)"
    and p: "pending s = frame_of codec (InputMessage e) @ rest"
  obtains t cl' where "pending t = rest"
    "handleRead ops codec iops 1 (s, cl, j) =
       (case inj_inject iops e j of (Inl errno, j') \<Rightarrow> (Inl (ClientSystem errno), t, cl, j') | (Inr _, j') \<Rightarrow> (Inr (), t, cl', j'))"
proof -
  obtain t where t: "pending t = rest"
    "handleRead ops codec iops (Suc 0) (s, cl, j) =
       (case handleMessage iops (InputMessage e) (cl, j) of
          (Inl e, st1) \<Rightarrow> (Inl e, t, st1)
        | (Inr _, st1) \<Rightarrow> handleRead ops codec iops 0 (t, st1))"
    by (rule handleRead_step [OF laws codec p])
  show ?thesis
  proof (cases "inj_inject iops e j")
    case (Pair r j')
    show ?thesis
      by (rule that [OF t(1), of "case e of MouseMoveEvent move \<Rightarrow> cl\<lparr>cl_lastScreen := Some (mv_screenIndex move)\<rparr> | _ \<Rightarrow> cl"])
         (use t(2) Pair in \<open>cases r; simp add: handleMessage_def del: handleRead.simps(2)\<close>)
  qed
qed


subsection \<open>The invariant of the way\<close>

text \<open>
  The channel holds the tail of what it accepted, and what was written before is the rest; the network
  delivers a prefix of it, of which the client has consumed whole frames and injected their inputs.
\<close>

definition channel_inv ::
  "('ep::linorder, 'cap, 'c, 's, 't, 'inj) delivery_env \<Rightarrow> 'ep \<Rightarrow> ('ep, 'cap, 'c, 's, 't, 'inj) delivery \<Rightarrow> bool" where
  "channel_inv E ep d \<longleftrightarrow> map_wf (rt_senders (sv_router (dv_server d))) \<and>
     (\<forall>c. sender_of (dv_server d) ep = Some c \<longrightarrow> (\<exists>es. de_queued E c = map InputMessage es \<and>
        set es \<subseteq> set (dv_accepted d) \<and> (dv_writing d \<longrightarrow> dv_wire d @ wire_of (de_codec E) es = wire_of (de_codec E) (dv_accepted d)))) \<and>
     (\<exists>lost. dv_wire d @ lost = wire_of (de_codec E) (dv_accepted d)) \<and> (\<exists>later. dv_wire d = dv_arrived d @ later)"

definition client_inv ::
  "('ep::linorder, 'cap, 'c, 's, 't, 'inj) delivery_env \<Rightarrow> 'inj \<Rightarrow> ('ep, 'cap, 'c, 's, 't, 'inj) delivery \<Rightarrow> bool" where
  "client_inv E j0 d \<longleftrightarrow> (\<exists>n \<le> length (dv_accepted d).
     snd (inject_all (de_injector E) (take n (dv_accepted d)) j0) = dv_injector d \<and>
     (dv_reading d \<longrightarrow> fst (inject_all (de_injector E) (take n (dv_accepted d)) j0) = Inr () \<and>
        dv_arrived d = wire_of (de_codec E) (take n (dv_accepted d)) @ de_pending E (dv_in d)))"

lemma channel_invI:
  assumes "map_wf (rt_senders (sv_router (dv_server d)))"
    and "\<And>c. sender_of (dv_server d) ep = Some c \<Longrightarrow> \<exists>es. de_queued E c = map InputMessage es \<and>
        set es \<subseteq> set (dv_accepted d) \<and> (dv_writing d \<longrightarrow> dv_wire d @ wire_of (de_codec E) es = wire_of (de_codec E) (dv_accepted d))"
    and "dv_wire d @ lost = wire_of (de_codec E) (dv_accepted d)" and "dv_wire d = dv_arrived d @ later"
  shows "channel_inv E ep d"
  unfolding channel_inv_def using assms by blast

lemma channel_invE:
  assumes "channel_inv E ep d"
  obtains lost later where "map_wf (rt_senders (sv_router (dv_server d)))"
    "dv_wire d @ lost = wire_of (de_codec E) (dv_accepted d)" "dv_wire d = dv_arrived d @ later"
  using assms unfolding channel_inv_def by blast

lemma delivery_start_inv: "delivery_start E ep d \<Longrightarrow> channel_inv E ep d \<and> client_inv E (dv_injector d) d"
  by (auto simp: delivery_start_def channel_inv_def client_inv_def split: option.splits)

lemma acted_inv:
  assumes laws: "delivery_laws E" and inv: "channel_inv E ep d" "client_inv E j0 d"
    and exec: "server_exec (de_store E) (channel_io (de_channel E) (de_io E)) a (dv_server d) = Some sv'"
      "\<forall>sender. a \<noteq> Publish ep sender"
    and d': "d' = d\<lparr>dv_server := sv',
         dv_accepted := dv_accepted d @ newly_queued (de_queued E) (sender_of (dv_server d) ep) (sender_of sv' ep)\<rparr>"
  shows "channel_inv E ep d' \<and> client_inv E j0 d'"
proof
  let ?w = "wire_of (de_codec E)" and ?new = "newly_queued (de_queued E) (sender_of (dv_server d) ep) (sender_of sv' ep)"
  obtain lost later where D: "map_wf (rt_senders (sv_router (dv_server d)))" "dv_wire d @ lost = ?w (dv_accepted d)"
    "dv_wire d = dv_arrived d @ later" using inv(1) by (rule channel_invE)
  have "appended (de_queued E) ep (sender_of (dv_server d) ep) (rt_senders (sv_router (dv_server d)))"
    using D(1) by (auto simp: appended_def sender_of_def intro: exI [of _ "[]"])
  then have app: "appended (de_queued E) ep (sender_of (dv_server d) ep) (rt_senders (sv_router sv'))"
    using laws exec by (auto simp: delivery_laws_def intro: server_exec_appended)
  show "channel_inv E ep d'"
  proof (rule channel_invI)
    show "map_wf (rt_senders (sv_router (dv_server d')))" using app by (simp add: appended_def d')
    show "dv_wire d' @ (lost @ ?w ?new) = ?w (dv_accepted d')" using D(2) by (simp add: d' flip: append_assoc)
    show "dv_wire d' = dv_arrived d' @ later" using D(3) by (simp add: d')
    fix c' assume "sender_of (dv_server d') ep = Some c'"
    then have c': "sender_of sv' ep = Some c'" by (simp add: d')
    obtain c fs where c: "sender_of (dv_server d) ep = Some c" "de_queued E c' = de_queued E c @ map InputMessage fs"
      using app c' by (auto simp: appended_def sender_of_def)
    with inv(1) obtain es where es: "de_queued E c = map InputMessage es" "dv_writing d \<Longrightarrow> dv_wire d @ ?w es = ?w (dv_accepted d)"
      "set es \<subseteq> set (dv_accepted d)"
      by (auto simp: channel_inv_def)
    have new: "?new = fs" using c c' by (simp add: newly_queued_def)
    then have "dv_writing d \<longrightarrow> dv_wire d @ ?w (es @ fs) = ?w (dv_accepted d @ ?new)"
      using es(2) by (simp add: new flip: append_assoc)
    then show "\<exists>es. de_queued E c' = map InputMessage es \<and> set es \<subseteq> set (dv_accepted d') \<and> (dv_writing d' \<longrightarrow> dv_wire d' @ ?w es = ?w (dv_accepted d'))"
      using c(2) es(1,3) new by (intro exI [of _ "es @ fs"]) (auto simp: d')
  qed
  obtain n where n: "n \<le> length (dv_accepted d)"
    "snd (inject_all (de_injector E) (take n (dv_accepted d)) j0) = dv_injector d"
    "dv_reading d \<longrightarrow> fst (inject_all (de_injector E) (take n (dv_accepted d)) j0) = Inr () \<and>
        dv_arrived d = ?w (take n (dv_accepted d)) @ de_pending E (dv_in d)"
    using inv(2) unfolding client_inv_def by blast
  then have "take n (dv_accepted d') = take n (dv_accepted d)" "n \<le> length (dv_accepted d')" by (simp_all add: d')
  with n show "client_inv E j0 d'" unfolding client_inv_def by (intro exI [of _ n]) (simp add: d')
qed

lemma publish_sender_of:
  assumes "map_wf (rt_senders (sv_router sv))"
  shows "sender_of (sv\<lparr>sv_router := publish_sender ep c (sv_router sv)\<rparr>) ep = Some c"
    "map_wf (rt_senders (publish_sender ep c (sv_router sv)))"
  using assms by (simp_all add: sender_of_def publish_sender_def map_of_assign std_map.invar_assign)

lemma round_cases:
  assumes "writeLoop_round ops codec cops (c, s) = Some (result, c', s')"
  obtains m where "ch_recv cops c = Some (m, c')" "writeMessage ops codec m s = (result, s')"
  using assms by (auto simp: writeLoop_round_def split: option.splits prod.splits)

text \<open>A message was taken out of the channel, and a part of its frame was written: all of it if the loop goes on.\<close>

lemma taken_inv:
  assumes laws: "delivery_laws E" and inv: "channel_inv E ep d" "client_inv E j0 d"
    and wr: "dv_writing d" "sender_of (dv_server d) ep = Some c" "ch_recv (de_channel E) c = Some (m, c')"
      "frame_of (de_codec E) m = part @ lost" "writing \<Longrightarrow> lost = []"
    and d': "d' = d\<lparr>dv_server := dv_server d\<lparr>sv_router := publish_sender ep c' (sv_router (dv_server d))\<rparr>,
         dv_out := s, dv_writing := writing, dv_wire := dv_wire d @ part\<rparr>"
  shows "channel_inv E ep d' \<and> client_inv E j0 d'"
proof
  let ?w = "wire_of (de_codec E)"
  obtain lost' later where D: "map_wf (rt_senders (sv_router (dv_server d)))" "dv_wire d @ lost' = ?w (dv_accepted d)"
    "dv_wire d = dv_arrived d @ later" using inv(1) by (rule channel_invE)
  obtain fs where fs: "de_queued E c = map InputMessage fs" "dv_wire d @ ?w fs = ?w (dv_accepted d)"
    "set fs \<subseteq> set (dv_accepted d)"
    using inv(1) wr(1,2) by (auto simp: channel_inv_def)
  have "de_queued E c = m # de_queued E c'"
    using laws wr(3) by (auto simp: delivery_laws_def dest: channel_lawsD(2))
  with fs(1) obtain e es where es: "fs = e # es" "m = InputMessage e" "de_queued E c' = map InputMessage es"
    by (cases fs) auto
  with fs(2) wr(4) have w: "(dv_wire d @ part) @ (lost @ ?w es) = ?w (dv_accepted d)" by simp
  show "channel_inv E ep d'"
  proof (rule channel_invI)
    show "map_wf (rt_senders (sv_router (dv_server d')))" using publish_sender_of(2) [OF D(1)] by (simp add: d')
    show "dv_wire d' @ (lost @ ?w es) = ?w (dv_accepted d')" using w by (simp add: d')
    show "dv_wire d' = dv_arrived d' @ (later @ part)" using D(3) by (simp add: d')
    fix c2 assume "sender_of (dv_server d') ep = Some c2"
    then have "c2 = c'" using publish_sender_of(1) [OF D(1)] by (simp add: d')
    then show "\<exists>es. de_queued E c2 = map InputMessage es \<and> set es \<subseteq> set (dv_accepted d') \<and> (dv_writing d' \<longrightarrow> dv_wire d' @ ?w es = ?w (dv_accepted d'))"
      using es(1,3) fs(3) w wr(5) by (intro exI [of _ es]) (cases writing; simp add: d')
  qed
  show "client_inv E j0 d'" using inv(2) unfolding client_inv_def d' by simp
qed

lemma wrote_part:
  assumes laws: "delivery_laws E" and wr: "writeMessage (de_out E) (de_codec E) m s = (Inr (), s')" "de_sent E s' = de_sent E s @ bs"
  shows "frame_of (de_codec E) m = bs @ []"
proof -
  obtain pend where "stream_laws (de_out E) (de_sent E) pend" using laws by (auto simp: delivery_laws_def)
  from this wr(1) show ?thesis by (rule writeMessage_success) (use wr(2) in \<open>simp add: frame_of_def\<close>)
qed

lemma arrived_inv:
  assumes inv: "channel_inv E ep d" "client_inv E j0 d"
    and step: "dv_wire d = dv_arrived d @ bs @ later" "de_pending E t = de_pending E (dv_in d) @ bs"
    and d': "d' = d\<lparr>dv_in := t, dv_arrived := dv_arrived d @ bs\<rparr>"
  shows "channel_inv E ep d' \<and> client_inv E j0 d'"
  using inv step by (auto simp: channel_inv_def client_inv_def d')

lemma read_inv:
  assumes laws: "delivery_laws E" and inv: "channel_inv E ep d" "client_inv E j0 d"
    and good: "\<forall>e \<in> set (dv_accepted d). codec_round_trip (de_codec E) (InputMessage e)"
    and step: "dv_reading d" "frame_ready (de_pending E (dv_in d))"
      "handleRead (de_in E) (de_codec E) (de_injector E) 1 (dv_in d, dv_client d, dv_injector d) = (result, t, cl, j)"
    and d': "d' = d\<lparr>dv_in := t, dv_client := cl, dv_injector := j, dv_reading := (result = Inr ())\<rparr>"
  shows "channel_inv E ep d' \<and> client_inv E j0 d'"
proof
  show "channel_inv E ep d'" using inv(1) by (simp add: channel_inv_def d')
  let ?acc = "dv_accepted d" and ?w = "wire_of (de_codec E)" and ?inject = "inject_all (de_injector E)"
  obtain lost later where D: "dv_wire d @ lost = ?w ?acc" "dv_wire d = dv_arrived d @ later"
    using inv(1) by (rule channel_invE)
  obtain n where n: "n \<le> length ?acc" "?inject (take n ?acc) j0 = (Inr (), dv_injector d)"
    "dv_arrived d = ?w (take n ?acc) @ de_pending E (dv_in d)"
    using inv(2) step(1) unfolding client_inv_def by (metis prod.collapse)
  have "?w (take n ?acc) @ (de_pending E (dv_in d) @ later @ lost) = ?w (take n ?acc @ drop n ?acc)"
    using D n(3) by simp
  then have cut: "de_pending E (dv_in d) @ (later @ lost) = ?w (drop n ?acc)" unfolding wire_of_simps(3) by simp
  have "\<forall>e \<in> set (drop n ?acc). codec_round_trip (de_codec E) (InputMessage e)" using good by (auto dest: in_set_dropD)
  with step(2) cut obtain e es rest where e: "drop n ?acc = e # es"
    "de_pending E (dv_in d) = frame_of (de_codec E) (InputMessage e) @ rest" by (rule ready_is_next)
  have len: "Suc n \<le> length ?acc" using e(1) by (metis drop_all list.distinct(1) not_less_eq_eq)
  have take_n: "take (Suc n) ?acc = take n ?acc @ [e]"
    using e(1) len by (metis Suc_le_eq nth_via_drop take_Suc_conv_app_nth)
  have good_e: "codec_round_trip (de_codec E) (InputMessage e)"
    using good e(1) by (metis in_set_dropD list.set_intros(1))
  obtain sent where "stream_laws (de_in E) sent (de_pending E)" using laws by (auto simp: delivery_laws_def)
  from this good_e e(2) obtain t2 cl2 where t2: "de_pending E t2 = rest"
    "handleRead (de_in E) (de_codec E) (de_injector E) 1 (dv_in d, dv_client d, dv_injector d) =
       (case inj_inject (de_injector E) e (dv_injector d) of
          (Inl errno, j') \<Rightarrow> (Inl (ClientSystem errno), t2, dv_client d, j') | (Inr _, j') \<Rightarrow> (Inr (), t2, cl2, j'))"
    by (rule handleRead_input [where cl = "dv_client d" and j = "dv_injector d" and iops = "de_injector E"])
  have inj: "?inject (take (Suc n) ?acc) j0 = inj_inject (de_injector E) e (dv_injector d)"
    unfolding take_n by (rule inject_all_snoc [OF n(2)])
  have "dv_arrived d = ?w (take (Suc n) ?acc) @ rest" using n(3) e(2) by (simp add: take_n)
  with inj t2 step(3) show "client_inv E j0 d'"
    unfolding client_inv_def d'
    by (intro exI [of _ "Suc n"]) (auto simp: len split: prod.splits sum.splits)
qed

lemma delivery_step_accepted: "delivery_step E ep d d' \<Longrightarrow> set (dv_accepted d) \<subseteq> set (dv_accepted d')"
  by (cases rule: delivery_step.cases) auto

lemma delivery_step_inv:
  assumes laws: "delivery_laws E" and inv: "channel_inv E ep d \<and> client_inv E j0 d" and step: "delivery_step E ep d d'"
    and good: "\<forall>e \<in> set (dv_accepted d'). codec_round_trip (de_codec E) (InputMessage e)"
  shows "channel_inv E ep d' \<and> client_inv E j0 d'"
  using step
proof cases
  case (acted a sv')
  then show ?thesis by (intro acted_inv [OF laws conjunct1 [OF inv] conjunct2 [OF inv]])
next
  case (wrote c c' s' bs)
  obtain m where m: "ch_recv (de_channel E) c = Some (m, c')" "writeMessage (de_out E) (de_codec E) m (dv_out d) = (Inr (), s')"
    using wrote(4) by (rule round_cases)
  have "d' = d\<lparr>dv_server := dv_server d\<lparr>sv_router := publish_sender ep c' (sv_router (dv_server d))\<rparr>,
         dv_out := s', dv_writing := True, dv_wire := dv_wire d @ bs\<rparr>"
    using wrote(1,2) by simp
  with taken_inv [OF laws conjunct1 [OF inv] conjunct2 [OF inv] wrote(2,3) m(1) wrote_part [OF laws m(2) wrote(5)]]
  show ?thesis by simp
next
  case (write_failed c e c' s' m part lost)
  from taken_inv [OF laws conjunct1 [OF inv] conjunct2 [OF inv] write_failed(2,3,5,6) _ write_failed(1)]
  show ?thesis by simp
next
  case (arrived bs later t)
  from arrived_inv [OF conjunct1 [OF inv] conjunct2 [OF inv] arrived(2,3,1)] show ?thesis .
next
  case (read result t cl j)
  have "\<forall>e \<in> set (dv_accepted d). codec_round_trip (de_codec E) (InputMessage e)"
    using good delivery_step_accepted [OF step] by blast
  from read_inv [OF laws conjunct1 [OF inv] conjunct2 [OF inv] this read(2,3,4,1)] show ?thesis .
qed

lemma delivery_steps_inv:
  assumes laws: "delivery_laws E" and inv: "channel_inv E ep d \<and> client_inv E j0 d" and steps: "(delivery_step E ep)\<^sup>*\<^sup>* d d'"
    and good: "\<forall>e \<in> set (dv_accepted d'). codec_round_trip (de_codec E) (InputMessage e)"
  shows "channel_inv E ep d' \<and> client_inv E j0 d'"
  using steps good
proof induction
  case base
  show ?case by (rule inv)
next
  case (step d1 d2)
  have "\<forall>e \<in> set (dv_accepted d1). codec_round_trip (de_codec E) (InputMessage e)"
    using step.prems delivery_step_accepted [OF step.hyps(2)] by blast
  from delivery_step_inv [OF laws step.IH [OF this] step.hyps(2) step.prems] show ?case .
qed


subsection \<open>Progress\<close>

text \<open>Nothing fails: writes succeed, the client's stream takes what arrives, the injector injects.\<close>

definition nothing_fails :: "('ep, 'cap, 'c, 's, 't, 'inj) delivery_env \<Rightarrow> bool" where
  "nothing_fails E \<longleftrightarrow>
     (\<forall>m s. codec_round_trip (de_codec E) m \<longrightarrow> fst (writeMessage (de_out E) (de_codec E) m s) = Inr ()) \<and>
     (\<forall>t bs. \<exists>t'. de_pending E t' = de_pending E t @ bs) \<and> (\<forall>e j. fst (inj_inject (de_injector E) e j) = Inr ())"

lemma write_progress:
  assumes laws: "delivery_laws E" and runs: "nothing_fails E"
    and good: "\<forall>e \<in> set es. codec_round_trip (de_codec E) (InputMessage e)"
    and d: "dv_writing d" "sender_of (dv_server d) ep = Some c" "de_queued E c = map InputMessage es"
      "map_wf (rt_senders (sv_router (dv_server d)))"
  shows "\<exists>sv s. (delivery_step E ep)\<^sup>*\<^sup>* d
    (d\<lparr>dv_server := sv, dv_out := s, dv_wire := dv_wire d @ wire_of (de_codec E) es\<rparr>)"
  using good d
proof (induction es arbitrary: d c)
  case Nil
  have "d = d\<lparr>dv_server := dv_server d, dv_out := dv_out d, dv_wire := dv_wire d @ wire_of (de_codec E) []\<rparr>" by simp
  then show ?case by (metis rtranclp.rtrancl_refl)
next
  case (Cons e es)
  have ch: "channel_laws (de_channel E) (de_queued E)" using laws by (simp add: delivery_laws_def)
  obtain c' where c': "ch_recv (de_channel E) c = Some (InputMessage e, c')" "de_queued E c' = map InputMessage es"
  proof (cases "ch_recv (de_channel E) c")
    case None
    with channel_lawsD(3) [OF ch] Cons.prems(4) show ?thesis by simp
  next
    case (Some r)
    with channel_lawsD(2) [OF ch, of c "fst r" "snd r"] Cons.prems(4) that [of "snd r"] show ?thesis by (cases r) simp
  qed
  obtain s where s: "writeMessage (de_out E) (de_codec E) (InputMessage e) (dv_out d) = (Inr (), s)"
    using runs Cons.prems(1) unfolding nothing_fails_def by (metis list.set_intros(1) prod.collapse)
  obtain pend where pend: "stream_laws (de_out E) (de_sent E) pend" using laws by (auto simp: delivery_laws_def)
  obtain bs where bs: "de_sent E s = de_sent E (dv_out d) @ bs" using pend s by (rule writeMessage_success) blast
  have frame: "bs = frame_of (de_codec E) (InputMessage e)" using wrote_part [OF laws s bs] by simp
  let ?sv = "dv_server d\<lparr>sv_router := publish_sender ep c' (sv_router (dv_server d))\<rparr>"
  let ?d = "d\<lparr>dv_server := ?sv, dv_out := s, dv_wire := dv_wire d @ bs\<rparr>"
  have round: "writeLoop_round (de_out E) (de_codec E) (de_channel E) (c, dv_out d) = Some (Inr (), c', s)"
    by (simp add: writeLoop_round_def c'(1) s)
  have step: "delivery_step E ep d ?d" using Cons.prems(2,3) round bs by (rule delivery_step.wrote)
  note sender = publish_sender_of [OF Cons.prems(5), of ep c']
  have "\<exists>sv s. (delivery_step E ep)\<^sup>*\<^sup>* ?d
    (?d\<lparr>dv_server := sv, dv_out := s, dv_wire := dv_wire ?d @ wire_of (de_codec E) es\<rparr>)"
    using Cons.prems(1,2) c'(2) sender by (intro Cons.IH [of ?d c']) simp_all
  then obtain sv s2 where "(delivery_step E ep)\<^sup>*\<^sup>* ?d
    (d\<lparr>dv_server := sv, dv_out := s2, dv_wire := dv_wire d @ wire_of (de_codec E) (e # es)\<rparr>)"
    by (auto simp: frame)
  with step show ?case by (blast intro: converse_rtranclp_into_rtranclp)
qed

lemma read_progress:
  assumes laws: "delivery_laws E" and runs: "nothing_fails E"
    and good: "\<forall>e \<in> set es. codec_round_trip (de_codec E) (InputMessage e)"
    and d: "dv_reading d" "de_pending E (dv_in d) = wire_of (de_codec E) es"
  shows "\<exists>d'. (delivery_step E ep)\<^sup>*\<^sup>* d d' \<and> dv_accepted d' = dv_accepted d \<and>
    inject_all (de_injector E) es (dv_injector d) = (Inr (), dv_injector d')"
  using good d
proof (induction es arbitrary: d)
  case (Cons e es)
  have e: "codec_round_trip (de_codec E) (InputMessage e)" using Cons.prems(1) by simp
  have pending: "de_pending E (dv_in d) = frame_of (de_codec E) (InputMessage e) @ wire_of (de_codec E) es"
    using Cons.prems(3) by simp
  obtain payload where "frame_of (de_codec E) (InputMessage e) = frame (message_id_of (InputMessage e)) payload"
    "length payload \<le> 65535" using e by (rule frame_of_good)
  then have ready: "frame_ready (de_pending E (dv_in d))" unfolding frame_ready_def pending by metis
  obtain j where j: "inj_inject (de_injector E) e (dv_injector d) = (Inr (), j)"
    using runs unfolding nothing_fails_def by (metis prod.collapse)
  obtain sent where "stream_laws (de_in E) sent (de_pending E)" using laws by (auto simp: delivery_laws_def)
  from this e pending obtain t cl where t: "de_pending E t = wire_of (de_codec E) es"
    "handleRead (de_in E) (de_codec E) (de_injector E) 1 (dv_in d, dv_client d, dv_injector d) = (Inr (), t, cl, j)"
    by (rule handleRead_input [where cl = "dv_client d" and j = "dv_injector d" and iops = "de_injector E"]) (simp add: j)
  let ?d = "d\<lparr>dv_in := t, dv_client := cl, dv_injector := j, dv_reading := ((Inr () :: client_failure + unit) = Inr ())\<rparr>"
  have step: "delivery_step E ep d ?d" using Cons.prems(2) ready t(2) by (rule delivery_step.read)
  have "\<exists>d'. (delivery_step E ep)\<^sup>*\<^sup>* ?d d' \<and> dv_accepted d' = dv_accepted ?d \<and>
    inject_all (de_injector E) es (dv_injector ?d) = (Inr (), dv_injector d')"
    using Cons.prems(1) t(1) by (intro Cons.IH) simp_all
  then obtain d' where "(delivery_step E ep)\<^sup>*\<^sup>* ?d d'" "dv_accepted d' = dv_accepted d"
    "inject_all (de_injector E) es j = (Inr (), dv_injector d')" by auto
  with step j show ?case by (auto intro: converse_rtranclp_into_rtranclp)
qed auto

lemma inject_all_append:
  "inject_all iops es j0 = (Inr (), j) \<Longrightarrow> inject_all iops (es @ fs) j0 = inject_all iops fs j"
  by (induction es arbitrary: j0) (auto split: prod.splits sum.splits)

text \<open>From any state of the invariant, the loops and the network complete the delivery.\<close>

lemma delivery_completes:
  assumes laws: "delivery_laws E" and inv: "channel_inv E ep d" "client_inv E j0 d"
    and good: "\<forall>e \<in> set (dv_accepted d). codec_round_trip (de_codec E) (InputMessage e)" and runs: "nothing_fails E"
    and live: "dv_writing d" "dv_reading d" "sender_of (dv_server d) ep = Some c"
  shows "\<exists>d'. (delivery_step E ep)\<^sup>*\<^sup>* d d' \<and> dv_accepted d' = dv_accepted d \<and>
    inject_all (de_injector E) (dv_accepted d) j0 = (Inr (), dv_injector d')"
proof -
  let ?acc = "dv_accepted d" and ?w = "wire_of (de_codec E)" and ?inject = "inject_all (de_injector E)"
  obtain lost later where D: "map_wf (rt_senders (sv_router (dv_server d)))" "dv_wire d = dv_arrived d @ later"
    using inv(1) by (rule channel_invE)
  obtain n where n: "n \<le> length ?acc" "?inject (take n ?acc) j0 = (Inr (), dv_injector d)"
    "dv_arrived d = ?w (take n ?acc) @ de_pending E (dv_in d)"
    using inv(2) live(2) unfolding client_inv_def by (metis prod.collapse)
  obtain es where es: "de_queued E c = map InputMessage es" "dv_wire d @ ?w es = ?w ?acc" "set es \<subseteq> set ?acc"
    using inv(1) live(1,3) by (auto simp: channel_inv_def)
  have "\<forall>e \<in> set es. codec_round_trip (de_codec E) (InputMessage e)" using good es(3) by blast
  from write_progress [OF laws runs this live(1,3) es(1) D(1)] obtain sv s where
    written: "(delivery_step E ep)\<^sup>*\<^sup>* d (d\<lparr>dv_server := sv, dv_out := s, dv_wire := dv_wire d @ ?w es\<rparr>)" by blast
  let ?d1 = "d\<lparr>dv_server := sv, dv_out := s, dv_wire := dv_wire d @ ?w es\<rparr>" and ?bs = "later @ ?w es"
  obtain t where t: "de_pending E t = de_pending E (dv_in ?d1) @ ?bs" using runs unfolding nothing_fails_def by blast
  let ?d2 = "?d1\<lparr>dv_in := t, dv_arrived := dv_arrived ?d1 @ ?bs\<rparr>"
  have arrived: "delivery_step E ep ?d1 ?d2" using t D(2) by (intro delivery_step.arrived [where later = "[]"]) simp_all
  have "?w (take n ?acc) @ de_pending E t = ?w (take n ?acc @ drop n ?acc)"
    using t n(3) D(2) es(2) by simp
  then have pending: "de_pending E (dv_in ?d2) = ?w (drop n ?acc)" unfolding wire_of_simps(3) by simp
  have "\<forall>e \<in> set (drop n ?acc). codec_round_trip (de_codec E) (InputMessage e)" using good by (auto dest: in_set_dropD)
  from read_progress [OF laws runs this _ pending] live(2) obtain d' where
    d': "(delivery_step E ep)\<^sup>*\<^sup>* ?d2 d'" "dv_accepted d' = ?acc" "?inject (drop n ?acc) (dv_injector d) = (Inr (), dv_injector d')"
    by auto
  have "?inject ?acc j0 = (Inr (), dv_injector d')"
    using inject_all_append [OF n(2), of "drop n ?acc"] d'(3) by simp
  with written arrived d'(1,2) show ?thesis by (meson rtranclp.rtrancl_into_rtrancl rtranclp_trans)
qed

section \<open>A small example\<close>

text \<open>A key is pressed while the screen of the client is active.\<close>

definition demo_press :: input_event where
  "demo_press = KeyEvent \<lparr>ke_key = Key_A, ke_modifiers = 0, ke_nativeCode = 0, ke_repeat = False, ke_release = False\<rparr>"

definition demo_way :: "(nat, bool, rpc_message list, bytes \<times> bytes, bytes \<times> bytes, input_event list) delivery_env" where
  "demo_way = \<lparr>de_store = demo_env,
     de_io = \<lparr>io_setRemote = \<lambda>a c. (True, a), io_moveCursor = \<lambda>i x y c. (True, c), io_senderValid = \<lambda>_. True,
       io_trySend = \<lambda>_ c. (False, c)\<rparr>,
     de_channel = \<lparr>ch_trySend = \<lambda>m c. if length c < 10 then (True, c @ [m]) else (False, c),
       ch_recv = \<lambda>c. case c of [] \<Rightarrow> None | m # rest \<Rightarrow> Some (m, rest)\<rparr>,
     de_codec = demo_codec\<lparr>codec_ser := \<lambda>m. case m of InputMessage _ \<Rightarrow> Some [7] | _ \<Rightarrow> None,
       codec_input := \<lambda>_. Some demo_press\<rparr>,
     de_out = mem_ops, de_in = mem_ops,
     de_injector = \<lparr>inj_initialize = \<lambda>j. (Inr (), j), inj_inject = \<lambda>e j. (Inr (), j @ [e]), inj_shutdown = \<lambda>j. j\<rparr>,
     de_queued = \<lambda>c. c, de_sent = fst, de_pending = snd\<rparr>"

definition demo_link :: "(nat, bool, rpc_message list, bytes \<times> bytes, bytes \<times> bytes, input_event list) delivery" where
  "demo_link = \<lparr>
     dv_server = \<lparr>sv_router = \<lparr>rt_store = two_store, rt_senders = [(7, [])], rt_capture = Some True, rt_active = Some 1,
         rt_point = Some \<lparr>sp_key = ScreenKey ''peer'' 0, sp_x = 960, sp_y = 540\<rparr>, rt_lastLocal = None,
         rt_pendingWarp = None\<rparr>, sv_connections = [(7, Serving demo_session)]\<rparr>,
     dv_out = ([], []), dv_writing = True, dv_in = ([], []), dv_client = new_client (\<lambda>_. 0) default_config,
     dv_injector = [], dv_reading = True, dv_accepted = [], dv_wire = [], dv_arrived = []\<rparr>"

lemma demo_way_laws: "delivery_laws demo_way"
  unfolding delivery_laws_def
  by (intro conjI exI [of _ fst] exI [of _ snd])
     (auto simp: demo_way_def channel_laws_def mem_laws split: list.split)

lemma demo_way_runs: "nothing_fails demo_way"
  unfolding nothing_fails_def
proof (intro conjI allI impI)
  fix m and s :: "bytes \<times> bytes"
  assume "codec_round_trip (de_codec demo_way) m"
  then show "fst (writeMessage (de_out demo_way) (de_codec demo_way) m s) = Inr ()"
    by (cases s) (auto simp: codec_round_trip_def demo_way_def writeMessage_def writePayload_def writeHeader_def co_try_def
        co_return_def mem_ops_def split: option.splits)
qed (auto simp: demo_way_def)

lemma demo_way_good: "codec_round_trip (de_codec demo_way) (InputMessage demo_press)"
  by (simp add: codec_round_trip_def demo_way_def findById_def parse_as_def)

lemma demo_link_start: "delivery_start demo_way 7 demo_link"
  by (simp add: delivery_start_def demo_link_def demo_way_def sender_of_def map_wf_def)

definition demo_pressed :: "(nat, bool, rpc_message list, bytes \<times> bytes, bytes \<times> bytes, input_event list) delivery" where
  "demo_pressed = demo_link\<lparr>dv_server := dv_server demo_link\<lparr>
     sv_router := publish_sender 7 [InputMessage demo_press] (sv_router (dv_server demo_link))\<rparr>, dv_accepted := [demo_press]\<rparr>"

lemma demo_step: "delivery_step demo_way 7 demo_link demo_pressed"
proof -
  let ?r = "sv_router (dv_server demo_link)" and ?io = "channel_io (de_channel demo_way) (de_io demo_way)"
  have active: "active_screen ?r = Some (Some demo_peer)"
    by (simp add: active_screen_def demo_link_def two_store_nodes [simplified])
  have "\<not> is_hotkey demo_press" by (simp add: is_hotkey_def demo_press_def)
  then have "handleInputEvent ?io demo_press ?r = Some (snd (queueInputForScreen ?io demo_peer demo_press ?r))"
    by (simp add: handleInputEvent_def not_hotkey active eventAtActivePoint_def demo_press_def split: option.split)
  also have "snd (queueInputForScreen ?io demo_peer demo_press ?r) = publish_sender 7 [InputMessage demo_press] ?r"
    by (simp add: queueInputForScreen_def publish_sender_def channel_io_def demo_way_def demo_link_def)
  finally have exec: "server_exec (de_store demo_way) ?io (Captured demo_press) (dv_server demo_link) =
      Some (dv_server demo_pressed)"
    by (simp add: demo_pressed_def)
  have new: "newly_queued (de_queued demo_way) (sender_of (dv_server demo_link) 7) (sender_of (dv_server demo_pressed) 7) = [demo_press]"
    by (simp add: newly_queued_def sender_of_def demo_pressed_def publish_sender_def demo_link_def demo_way_def)
  from delivery_step.acted [OF exec, of 7, unfolded new] show ?thesis
    by (simp add: demo_pressed_def demo_link_def)
qed

lemma demo_pressed_fields:
  "dv_accepted demo_pressed = [demo_press]" "dv_writing demo_pressed" "dv_reading demo_pressed" "dv_injector demo_link = []"
  "sender_of (dv_server demo_pressed) 7 = Some [InputMessage demo_press]"
  by (simp_all add: demo_pressed_def demo_link_def sender_of_def publish_sender_def)

section \<open>Properties\<close>

text \<open>
  C10. What the client injects is, event for event and in order, a prefix of what the router has queued for it:
  whatever the server does meanwhile, however writes, the network and reads interleave, and wherever the
  connection breaks, nothing is injected twice, out of order, or that was not queued.
\<close>

theorem input_delivered_in_order:
  assumes "delivery_laws E" and "delivery_start E ep d0" and "(delivery_step E ep)\<^sup>*\<^sup>* d0 d"
    and "\<forall>e \<in> set (dv_accepted d). codec_round_trip (de_codec E) (InputMessage e)"
  shows "\<exists>n \<le> length (dv_accepted d).
    snd (inject_all (de_injector E) (take n (dv_accepted d)) (dv_injector d0)) = dv_injector d \<and>
    (dv_reading d \<longrightarrow> fst (inject_all (de_injector E) (take n (dv_accepted d)) (dv_injector d0)) = Inr ())"
  using delivery_steps_inv [OF assms(1) delivery_start_inv [OF assms(2)] assms(3,4)] unfolding client_inv_def by blast

text \<open>
  C11. As long as nothing fails, whatever was queued can still reach the injector: from every state in which the
  connection stands, the two loops and the network come to a state in which exactly the queued inputs
  were injected.
\<close>

theorem queued_input_arrives:
  assumes "delivery_laws E" and "delivery_start E ep d0" and "(delivery_step E ep)\<^sup>*\<^sup>* d0 d"
    and "\<forall>e \<in> set (dv_accepted d). codec_round_trip (de_codec E) (InputMessage e)"
    and "nothing_fails E" and "dv_writing d" and "dv_reading d" and "sender_of (dv_server d) ep = Some c"
  shows "\<exists>d'. (delivery_step E ep)\<^sup>*\<^sup>* d d' \<and> dv_accepted d' = dv_accepted d \<and>
    inject_all (de_injector E) (dv_accepted d) (dv_injector d0) = (Inr (), dv_injector d')"
  using delivery_steps_inv [OF assms(1) delivery_start_inv [OF assms(2)] assms(3,4)]
  by (auto intro: delivery_completes [OF assms(1) _ _ assms(4-8)])

theorem input_delivered_in_order_witness:
  "\<exists>d. (delivery_step demo_way 7)\<^sup>*\<^sup>* demo_link d \<and> dv_injector d = [demo_press] \<and>
     (\<exists>n \<le> 1. snd (inject_all (de_injector demo_way) (take n [demo_press]) []) = dv_injector d)"
proof -
  have steps: "(delivery_step demo_way 7)\<^sup>*\<^sup>* demo_link demo_pressed" using demo_step by blast
  note D = demo_pressed_fields
  have good: "\<forall>e \<in> set (dv_accepted demo_pressed). codec_round_trip (de_codec demo_way) (InputMessage e)"
    by (simp add: demo_way_good D)
  note inv = delivery_steps_inv [OF demo_way_laws delivery_start_inv [OF demo_link_start] steps good]
  obtain d where d: "(delivery_step demo_way 7)\<^sup>*\<^sup>* demo_pressed d" "dv_accepted d = [demo_press]"
    "inject_all (de_injector demo_way) [demo_press] [] = (Inr (), dv_injector d)"
    using delivery_completes [OF demo_way_laws conjunct1 [OF inv] conjunct2 [OF inv] good demo_way_runs D(2,3,5)]
    by (auto simp: D)
  have run: "(delivery_step demo_way 7)\<^sup>*\<^sup>* demo_link d" using steps d(1) by simp
  have "\<forall>e \<in> set (dv_accepted d). codec_round_trip (de_codec demo_way) (InputMessage e)" by (simp add: demo_way_good d(2))
  from input_delivered_in_order [OF demo_way_laws demo_link_start run this]
  have "\<exists>n \<le> 1. snd (inject_all (de_injector demo_way) (take n [demo_press]) []) = dv_injector d" by (auto simp: d(2) D)
  moreover have "dv_injector d = [demo_press]" using d(3) by (simp add: demo_way_def)
  ultimately show ?thesis using run by blast
qed

theorem queued_input_arrives_witness:
  "\<exists>d'. (delivery_step demo_way 7)\<^sup>*\<^sup>* demo_link d' \<and> dv_injector d' = [demo_press]"
proof -
  have steps: "(delivery_step demo_way 7)\<^sup>*\<^sup>* demo_link demo_pressed" using demo_step by blast
  note D = demo_pressed_fields
  have "\<forall>e \<in> set (dv_accepted demo_pressed). codec_round_trip (de_codec demo_way) (InputMessage e)"
    by (simp add: demo_way_good D)
  from queued_input_arrives [OF demo_way_laws demo_link_start steps this demo_way_runs D(2,3,5)]
  obtain d' where "(delivery_step demo_way 7)\<^sup>*\<^sup>* demo_pressed d'"
    "inject_all (de_injector demo_way) [demo_press] [] = (Inr (), dv_injector d')" by (auto simp: D)
  with steps show ?thesis by (intro exI [of _ d']) (auto simp: demo_way_def)
qed


end
