(* ===== verification/Windows_Backend.thy ===== *)
theory Windows_Backend
  imports Win32_Thread Linux_Backends
begin

text \<open>
  The creation and the registration of the Windows backend, the end of \<open>src/platform/win32.cpp\<close>: the platform
  is its window thread over the table of the monitors. As on Linux, each creation (the one of the check and
  the one of the selection) has answers of the system of its own.
\<close>

section \<open>Creation\<close>

record win32_answers =
  na_ui :: "monitor_table ui_answers"
  na_table :: monitor_table
  na_env :: w32_env
  na_shutdownEnv :: w32_env
  na_cursor :: point
  na_showCount :: int

definition w32_createCapture :: "bool \<Rightarrow> string + bool" where
  "w32_createCapture alive = (if alive then Inl ''InputCapture already created'' else Inr True)"

definition w32_createInjector :: "bool \<Rightarrow> string + bool" where
  "w32_createInjector alive = (if alive then Inl ''InputInjector already created'' else Inr True)"

text \<open>A constructor that throws becomes a null pointer.\<close>

definition Platform_create :: "win32_answers \<Rightarrow> monitor_table ui_thread option" where
  "Platform_create a =
     (case new_win32_platform (na_ui a) (na_table a) of (Inl what, s) \<Rightarrow> None | (Inr _, s) \<Rightarrow> Some s)"

definition createRegisteredWin32Backend :: "win32_answers \<Rightarrow> string + monitor_table ui_thread option" where
  "createRegisteredWin32Backend a = Inr (Platform_create a)"

text \<open>
  The probe starts a capture, and an injector, which cannot fail to start, and shuts them down again. The
  capture is started and stopped on the thread of the window; if a post fails, the exception is the detail
  of the check, and if the thread has ended, the check waits for ever (\<open>None\<close>).
\<close>

definition thrown_text :: "(nat \<Rightarrow> string) \<Rightarrow> nat \<Rightarrow> string" where
  "thrown_text message error = ''Failed to post call to Win32 platform thread: '' @ message error"

definition win32_capture_probe :: "(nat \<Rightarrow> string) \<Rightarrow> win32_answers \<Rightarrow> monitor_table \<Rightarrow> interface_probe option" where
  "win32_capture_probe message a table =
     (case w32_initialize (na_env a) (new_capture table (na_cursor a) (na_showCount a)) of
        (Returned started, c) \<Rightarrow>
          (let failure = (case started of Inl error \<Rightarrow> Some (message error) | Inr _ \<Rightarrow> None)
           in (case w32_shutdown (na_shutdownEnv a) c of
                 (Returned _, _) \<Rightarrow>
                   Some \<lparr>if_create = w32_createCapture False, if_initialize = Inr failure, if_shutdown = None\<rparr>
               | (Thrown error, _) \<Rightarrow>
                   Some \<lparr>if_create = w32_createCapture False, if_initialize = Inr failure,
                         if_shutdown = Some (thrown_text message error)\<rparr>
               | (Waiting, _) \<Rightarrow> None))
      | (Thrown error, _) \<Rightarrow>
          Some \<lparr>if_create = w32_createCapture False, if_initialize = Inl (thrown_text message error), if_shutdown = None\<rparr>
      | (Waiting, _) \<Rightarrow> None)"

definition checkWin32Backend :: "(nat \<Rightarrow> string) \<Rightarrow> (nat \<Rightarrow> string) \<Rightarrow> win32_answers \<Rightarrow> backend_check option" where
  "checkWin32Backend fmt message a =
     (case Platform_create a of
        None \<Rightarrow> Some (probeBackend fmt ''Win32'' (createRegisteredWin32Backend a) (Inr 0)
                       (interface_started message (w32_createCapture False) None)
                       (interface_started message (w32_createInjector False) None))
      | Some s \<Rightarrow> do {
          capture \<leftarrow> win32_capture_probe message a (ut_platform s);
          Some (probeBackend fmt ''Win32'' (createRegisteredWin32Backend a) (Inr (length (w32_screens (ut_platform s))))
                  capture (interface_started message (w32_createInjector False) None))
        })"

definition win32_descriptor ::
  "backend_check \<Rightarrow> win32_answers \<Rightarrow> monitor_table ui_thread descriptor" where
  "win32_descriptor check a =
     \<lparr>bd_name = ''win32'', bd_displayName = ''Win32'', bd_order = 100,
      bd_check = Some (Inr check), bd_create = Some (createRegisteredWin32Backend a)\<rparr>"

definition windows_registry ::
  "(nat \<Rightarrow> string) \<Rightarrow> (nat \<Rightarrow> string) \<Rightarrow> win32_answers \<Rightarrow> win32_answers \<Rightarrow> monitor_table ui_thread registry option" where
  "windows_registry fmt message probe a = do {
     check \<leftarrow> checkWin32Backend fmt message probe;
     Some (register (win32_descriptor check a) [])
   }"

section \<open>Properties\<close>

lemma windows_registry_eq:
  "register (win32_descriptor check a) [] = [win32_descriptor check a]" "registry_inv [win32_descriptor check a]"
  by (simp_all add: register_def incomplete_def find_named_def win32_descriptor_def registry_inv_def)

lemma Platform_create_running:
  assumes "Platform_create a = Some s"
  shows "running s \<and> ua_enumerate (na_ui a) (na_table a) = (True, ut_platform s)"
proof -
  obtain ok q where enumerated: "ua_enumerate (na_ui a) (na_table a) = (ok, q)" by (cases "ua_enumerate (na_ui a) (na_table a)")
  with assms show ?thesis
    by (cases ok; cases "ua_windowCreated (na_ui a)"; cases "ua_classRegistered (na_ui a)")
       (auto simp: Platform_create_def new_win32_platform_def runUiThread_def new_ui_thread_def createMessageWindow_def
         failStartup_def signalStartup_def ui_cleanup_def running_def Let_def split: if_splits)
qed

lemma win32_probe_started:
  assumes "win32_capture_probe message a table = Some probe" and "if_initialize probe = Inr None"
  shows "fst (w32_initialize (na_env a) (new_capture table (na_cursor a) (na_showCount a))) = Returned (Inr ())"
  using assms
  by (auto simp: win32_capture_probe_def Let_def split: prod.splits ui_outcome.splits sum.splits)

lemma win32_check_supports:
  assumes "checkWin32Backend fmt message a = Some check" and "supports check req"
  obtains s where "Platform_create a = Some s"
    "hasRequirement req Requirement_Screens \<Longrightarrow> fst (ut_platform s) \<noteq> []"
    "hasRequirement req Requirement_Capture \<Longrightarrow>
       fst (w32_initialize (na_env a) (new_capture (ut_platform s) (na_cursor a) (na_showCount a))) = Returned (Inr ())"
proof (cases "Platform_create a")
  case None
  with assms show ?thesis
    by (auto simp: checkWin32Backend_def createRegisteredWin32Backend_def probeBackend_def supports_def unavailableCheck_def Let_def)
next
  case (Some s)
  then obtain capture where capture: "win32_capture_probe message a (ut_platform s) = Some capture"
    and check: "check = probeBackend fmt ''Win32'' (createRegisteredWin32Backend a) (Inr (length (w32_screens (ut_platform s))))
                  capture (interface_started message (w32_createInjector False) None)"
    using assms(1) by (auto simp: checkWin32Backend_def ub_bind_eq_Some)
  then have parts: "bc_capture check = probe_interface ''Capture'' capture"
    "bc_screens check = probe_screens fmt (Inr (length (w32_screens (ut_platform s))))"
    using Some by (simp_all add: createRegisteredWin32Backend_def probeBackend_def)
  have "if_initialize capture = Inr None" if "fc_supported (probe_interface ''Capture'' capture)"
    using that by (auto simp: probe_interface_def Let_def split: sum.splits bool.splits option.splits)
  moreover have "fc_supported (bc_capture check)" if "hasRequirement req Requirement_Capture"
    using assms(2) that by (simp add: supports_def split: if_splits)
  ultimately have "if_initialize capture = Inr None" if "hasRequirement req Requirement_Capture"
    using that parts(1) by simp
  moreover have "fc_supported (bc_screens check)" if "hasRequirement req Requirement_Screens"
    using assms(2) that by (simp add: supports_def split: if_splits)
  then have "fst (ut_platform s) \<noteq> []" if "hasRequirement req Requirement_Screens"
    using that parts(2) by (auto simp: probe_screens_def w32_screens_def Let_def)
  ultimately show ?thesis using that [OF Some] win32_probe_started [OF capture] by blast
qed

text \<open>
  On Windows a backend is chosen only when it works: the platform that a selection returns has its window
  thread running and the monitors enumerated, its name was asked for or left open, and the check before has
  seen a platform come up, with outputs and with a capture that started, as far as they were required.
\<close>

theorem windows_backend_works:
  assumes "windows_registry fmt message probe a = Some reg" and "selectBackend reg name req = Selected platform d check"
  shows "running platform \<and> ua_enumerate (na_ui a) (na_table a) = (True, ut_platform platform) \<and>
    name \<in> {[], ''auto'', ''win32''} \<and>
    (\<exists>s. Platform_create probe = Some s \<and>
       (hasRequirement req Requirement_Screens \<longrightarrow> fst (ut_platform s) \<noteq> []) \<and>
       (hasRequirement req Requirement_Capture \<longrightarrow>
          fst (w32_initialize (na_env probe) (new_capture (ut_platform s) (na_cursor probe) (na_showCount probe))) =
            Returned (Inr ())))"
proof -
  obtain checked where checked: "checkWin32Backend fmt message probe = Some checked"
    and reg: "reg = [win32_descriptor checked a]"
    using assms(1) by (auto simp: windows_registry_def ub_bind_eq_Some windows_registry_eq(1))
  note inv = windows_registry_eq(2) [of checked a, folded reg]
  note sel = selection_supports [OF inv assms(2)]
  have d: "d = win32_descriptor checked a" using sel(1) by (simp add: reg)
  have "check = checked"
    using sel(2) check_registered [OF inv sel(1), of checked] by (simp add: d win32_descriptor_def)
  with sel(3) have supports: "supports checked req" by simp
  have created: "Platform_create a = Some platform"
    using sel(4) by (simp add: d win32_descriptor_def createRegisteredWin32Backend_def)
  have "name \<in> {[], ''auto'', ''win32''}"
  proof (rule ccontr)
    assume other: "\<not> name \<in> {[], ''auto'', ''win32''}"
    have "findBackend name reg = None"
    proof (cases "findBackend name reg")
      case (Some d')
      then have "d' \<in> set reg \<and> bd_name d' = name" using findBackend_iff [OF inv] by blast
      with other show ?thesis by (auto simp: reg win32_descriptor_def)
    qed
    with other assms(2) show False by (simp add: selectBackend_def)
  qed
  moreover have "\<exists>s. Platform_create probe = Some s \<and>
      (hasRequirement req Requirement_Screens \<longrightarrow> fst (ut_platform s) \<noteq> []) \<and>
      (hasRequirement req Requirement_Capture \<longrightarrow>
         fst (w32_initialize (na_env probe) (new_capture (ut_platform s) (na_cursor probe) (na_showCount probe))) =
           Returned (Inr ()))"
    by (rule win32_check_supports [OF checked supports]) blast
  ultimately show ?thesis using Platform_create_running [OF created] by blast
qed

definition demo_win32 :: win32_answers where
  "demo_win32 = \<lparr>na_ui = \<lparr>ua_guiThread = True, ua_classRegistered = True, ua_windowCreated = True,
     ua_enumerate = \<lambda>_. (True, demo_table), ua_unhook = \<lambda>p. p\<rparr>, na_table = ([], []), na_env = demo_w32,
     na_shutdownEnv = demo_w32, na_cursor = (5, 5), na_showCount = 0\<rparr>"

theorem windows_backend_works_witness:
  "\<exists>reg platform d check. windows_registry (\<lambda>_. ''1'') (\<lambda>_. ''e'') demo_win32 demo_win32 = Some reg \<and>
     selectBackend reg ''auto'' Requirement_Capture = Selected platform d check \<and>
     running platform \<and> ut_platform platform = demo_table"
proof -
  obtain s where s: "Platform_create demo_win32 = Some s"
    by (auto simp: Platform_create_def demo_win32_def new_win32_platform_def runUiThread_def new_ui_thread_def
        createMessageWindow_def signalStartup_def Let_def)
  have table: "ut_platform s = demo_table" using Platform_create_running [OF s] by (simp add: demo_win32_def)
  have capture: "win32_capture_probe (\<lambda>_. ''e'') demo_win32 demo_table =
      Some \<lparr>if_create = Inr True, if_initialize = Inr None, if_shutdown = None\<rparr>"
    by (simp add: win32_capture_probe_def w32_initialize_def w32_shutdown_def w32_createCapture_def installHooks_def
        demo_win32_def demo_w32_def Let_def)
  obtain check where check: "checkWin32Backend (\<lambda>_. ''1'') (\<lambda>_. ''e'') demo_win32 = Some check"
    and supports: "supports check Requirement_Capture"
    by (simp add: supports_def checkWin32Backend_def createRegisteredWin32Backend_def probeBackend_def s table capture
        probe_interface_def hasRequirement_def requirement_and_def Let_def)
  let ?d = "win32_descriptor check demo_win32"
  note reg = windows_registry_eq [of check demo_win32]
  have registry: "windows_registry (\<lambda>_. ''1'') (\<lambda>_. ''e'') demo_win32 demo_win32 = Some [?d]"
    using check by (simp add: windows_registry_def reg(1))
  have "?d \<in> set [?d]" by simp
  from check_registered [OF reg(2) this, of check]
  have checked: "checkBackend [?d] (bd_name ?d) = check" by (simp add: win32_descriptor_def)
  have selected: "selectBackend [?d] ''auto'' Requirement_Capture = Selected s ?d check"
    using checked supports s
    by (simp add: selectBackend_def registeredBackends_def Let_def)
      (simp add: win32_descriptor_def createRegisteredWin32Backend_def)
  from windows_backend_works [OF registry selected] table registry selected show ?thesis by blast
qed

end
