(* ===== verification/Refl_Names.thy ===== *)
theory Refl_Names
  imports Rpc_Transport "HOL-Library.Sublist"
begin

text \<open>
  Names of enumerations and texts of values: \<open>src/refl/formatter.hpp\<close>, and the error codes of
  \<open>src/refl/this_error.hpp\<close>.

  \<^item> What the reflection library knows of an enumeration is the record \<open>reflection\<close>: the name of a value
    (empty for one that has none), the map from names to values in its order, and the list of the values.
  \<^item> \<open>format_to\<close> appends to the text; an output iterator is the text written so far. A member of a structure
    is its name and its text, \<open>None\<close> if its type cannot be formatted.
\<close>

section \<open>Enumerations\<close>

record 'e reflection =
  rf_name :: "'e \<Rightarrow> string"
  rf_nameMap :: "(string \<times> 'e) list"
  rf_values :: "'e list"

fun find_last_of :: "char \<Rightarrow> string \<Rightarrow> nat option" where
  "find_last_of c [] = None"
| "find_last_of c (x # xs) =
     (case find_last_of c xs of
        Some pos \<Rightarrow> Some (Suc pos)
      | None \<Rightarrow> if x = c then Some 0 else None)"

definition enumToString :: "'e reflection \<Rightarrow> 'e \<Rightarrow> string" where
  "enumToString R e =
     (let name = rf_name R e
      in if name \<noteq> [] then (case find_last_of CHR '':'' name of Some pos \<Rightarrow> drop (pos + 1) name | None \<Rightarrow> name)
         else ''<unknown>'')"

definition enumFromString :: "'e reflection \<Rightarrow> string \<Rightarrow> 'e option" where
  "enumFromString R name =
     (case rf_nameMap R of
        [] \<Rightarrow> None
      | (first, _) # _ \<Rightarrow>
          (let nameWithNs =
             (case find_last_of CHR '':'' first of
                None \<Rightarrow> name
              | Some pos \<Rightarrow> (let scope = take (pos + 1) first in if \<not> sublist scope name then scope @ name else name))
           in map_of (rf_nameMap R) nameWithNs))"

section \<open>Texts\<close>

fun formatFlags_loop :: "'w::len word reflection \<Rightarrow> 'w word \<Rightarrow> 'w word list \<Rightarrow> bool \<times> string \<Rightarrow> bool \<times> string" where
  "formatFlags_loop R v [] st = st"
| "formatFlags_loop R v (e # es) (prev, it) =
     (if and v e \<noteq> 0
      then formatFlags_loop R v es (True, (if prev then it @ '' | '' else it) @ enumToString R e)
      else formatFlags_loop R v es (prev, it))"

definition formatFlags :: "'w::len word reflection \<Rightarrow> 'w word \<Rightarrow> string \<Rightarrow> string" where
  "formatFlags R v it =
     (case formatFlags_loop R v (rf_values R) (False, it) of (prev, it') \<Rightarrow> if \<not> prev then it' @ ''<none>'' else it')"

definition formatVariant :: "string \<Rightarrow> string \<Rightarrow> string \<Rightarrow> string" where
  "formatVariant name element it = it @ name @ '' { '' @ element @ '' }''"

fun formatMembers :: "(string \<times> string option) list \<Rightarrow> bool \<times> string \<Rightarrow> bool \<times> string" where
  "formatMembers [] st = st"
| "formatMembers ((name, text) # members) (prev, it) =
     formatMembers members (True, (if prev then it @ '', '' else it) @ (if name = [] then ''<unnamed>'' else name) @ '': '' @
       (case text of Some member \<Rightarrow> member | None \<Rightarrow> ''<unformattable>''))"

definition formatStruct :: "string \<Rightarrow> (string \<times> string option) list \<Rightarrow> string \<Rightarrow> string" where
  "formatStruct className members it =
     (if members = [] then it @ className @ '' { }''
      else snd (formatMembers members (False, it @ className @ '' { ''))) @ '' }''"

definition formatTo_enum :: "'e reflection \<Rightarrow> 'e \<Rightarrow> string \<Rightarrow> string" where
  "formatTo_enum R e it = it @ enumToString R e"

section \<open>Error codes\<close>

text \<open>
  An error code is a number and the name of its category; \<open>number\<close> and \<open>value\<close> are the conversions between
  the enumeration and its integer.
\<close>

definition make_error_code :: "string \<Rightarrow> ('e \<Rightarrow> int) \<Rightarrow> 'e \<Rightarrow> int \<times> string" where
  "make_error_code category number e = (number e, category)"

definition category_message :: "'e reflection \<Rightarrow> (int \<Rightarrow> 'e) \<Rightarrow> int \<times> string \<Rightarrow> string" where
  "category_message R value code = enumToString R (value (fst code))"

section \<open>Lemmas\<close>

lemma find_last_of_None: "find_last_of c s = None \<longleftrightarrow> c \<notin> set s"
  by (induction s) (auto split: option.splits)

lemma find_last_of_Some:
  "find_last_of c s = Some pos \<Longrightarrow> pos < length s \<and> s ! pos = c \<and> c \<notin> set (drop (pos + 1) s)"
proof (induction s arbitrary: pos)
  case (Cons x xs)
  then show ?case by (auto simp: find_last_of_None split: option.splits if_splits)
qed simp

text \<open>The scope of a name, with its colons, and what follows it.\<close>

definition scope_of :: "string \<Rightarrow> string" where
  "scope_of name = (case find_last_of CHR '':'' name of None \<Rightarrow> [] | Some pos \<Rightarrow> take (pos + 1) name)"

definition short_of :: "string \<Rightarrow> string" where
  "short_of name = (case find_last_of CHR '':'' name of None \<Rightarrow> name | Some pos \<Rightarrow> drop (pos + 1) name)"

lemma scope_short: "scope_of name @ short_of name = name"
  by (simp add: scope_of_def short_of_def split: option.split)

lemma short_plain: "CHR '':'' \<notin> set (short_of name)"
proof (cases "find_last_of CHR '':'' name")
  case None
  with find_last_of_None [THEN iffD1, OF None] show ?thesis by (simp add: short_of_def)
next
  case (Some pos)
  with find_last_of_Some [OF Some] show ?thesis by (simp add: short_of_def)
qed

lemma scope_colon: "find_last_of CHR '':'' name = Some pos \<Longrightarrow> CHR '':'' \<in> set (scope_of name)"
  using find_last_of_Some [of "CHR '':''" name pos] by (simp add: scope_of_def take_Suc_conv_app_nth)

text \<open>What the reflection of an enumeration promises: the map inverts the names, which share their scope.\<close>

definition reflection_laws :: "'e reflection \<Rightarrow> bool" where
  "reflection_laws R \<longleftrightarrow>
     (\<forall>name e. map_of (rf_nameMap R) name = Some e \<longleftrightarrow> rf_name R e = name \<and> name \<noteq> []) \<and>
     (\<forall>(n1, _) \<in> set (rf_nameMap R). \<forall>(n2, _) \<in> set (rf_nameMap R). scope_of n1 = scope_of n2)"

lemma reflection_scopes:
  assumes "reflection_laws R" "(n1, e1) \<in> set (rf_nameMap R)" "(n2, e2) \<in> set (rf_nameMap R)"
  shows "scope_of n1 = scope_of n2"
  using bspec [OF bspec [OF conjunct2 [OF assms(1) [unfolded reflection_laws_def]] assms(2), unfolded prod.case] assms(3)] by simp

lemma enumToString_short: "rf_name R e \<noteq> [] \<Longrightarrow> enumToString R e = short_of (rf_name R e)"
  by (simp add: enumToString_def short_of_def Let_def)

lemma enumFromString_scoped:
  assumes "reflection_laws R" "rf_name R e \<noteq> []" "name = rf_name R e \<or> name = short_of (rf_name R e)"
  shows "enumFromString R name = Some e"
proof -
  have e: "map_of (rf_nameMap R) (rf_name R e) = Some e" using assms(1,2) unfolding reflection_laws_def by blast
  then obtain first v rest where map_: "rf_nameMap R = (first, v) # rest" by (cases "rf_nameMap R") auto
  have "(rf_name R e, e) \<in> set (rf_nameMap R)" using e by (rule map_of_SomeD)
  then have scope: "scope_of first = scope_of (rf_name R e)" 
    using reflection_scopes [OF assms(1), of first v "rf_name R e" e] by (simp add: map_)
  show ?thesis
  proof (cases "find_last_of CHR '':'' first")
    case None
    then have "scope_of (rf_name R e) = []" using scope by (simp add: scope_of_def)
    then have "name = rf_name R e" using assms(3) scope_short [of "rf_name R e"] by auto
    with e map_ None show ?thesis by (simp add: enumFromString_def Let_def split: if_splits)
  next
    case (Some pos)
    have whole: "scope_of (rf_name R e) @ short_of (rf_name R e) = rf_name R e" by (rule scope_short)
    have colon: "CHR '':'' \<in> set (scope_of (rf_name R e))" using scope_colon [OF Some] scope by simp
    have "(if \<not> sublist (scope_of first) name then scope_of first @ name else name) = rf_name R e"
    proof (cases "name = rf_name R e")
      case True
      have "sublist (scope_of first) (rf_name R e)" using whole scope by (metis prefix_def prefix_imp_sublist)
      with True show ?thesis by simp
    next
      case False
      then have name: "name = short_of (rf_name R e)" using assms(3) by blast
      have "\<not> sublist (scope_of first) name"
        using colon scope short_plain [of "rf_name R e"] set_mono_sublist [of "scope_of first" name] by (auto simp: name)
      with name whole scope show ?thesis by simp
    qed
    moreover have "scope_of first = take (pos + 1) first" using Some by (simp add: scope_of_def)
    ultimately show ?thesis using e map_ Some by (simp add: enumFromString_def Let_def split: if_splits)
  qed
qed

subsection \<open>Texts of flags\<close>

fun join :: "string list \<Rightarrow> string" where
  "join [] = []"
| "join [name] = name"
| "join (name # names) = name @ '' | '' @ join names"

definition set_flags :: "'w::len word reflection \<Rightarrow> 'w word \<Rightarrow> 'w word list" where
  "set_flags R v = filter (\<lambda>e. and v e \<noteq> 0) (rf_values R)"

lemma formatFlags_loop_eq:
  "formatFlags_loop R v es (prev, it) =
     (let names = map (enumToString R) (filter (\<lambda>e. and v e \<noteq> 0) es)
      in (prev \<or> names \<noteq> [], if prev \<and> names \<noteq> [] then it @ '' | '' @ join names else it @ join names))"
proof (induction es arbitrary: prev it)
  case (Cons e es)
  show ?case
    by (cases "filter (\<lambda>e. and v e \<noteq> 0) es") (simp_all add: Cons.IH Let_def)
qed simp

lemma formatFlags_eq:
  "formatFlags R v it = it @ (if set_flags R v = [] then ''<none>'' else join (map (enumToString R) (set_flags R v)))"
  by (simp add: formatFlags_def formatFlags_loop_eq set_flags_def Let_def)

lemma bar_join: "\<forall>n \<in> set names. CHR ''|'' \<notin> set n \<Longrightarrow> CHR ''|'' \<in> set (join names) \<longleftrightarrow> 2 \<le> length names"
  by (induction names rule: join.induct) auto

lemma join_inj:
  assumes "join xs = join ys" "xs \<noteq> []" "ys \<noteq> []" "\<forall>n \<in> set xs \<union> set ys. CHR ''|'' \<notin> set n"
  shows "xs = ys"
  using assms
proof (induction xs arbitrary: ys rule: join.induct)
  case (2 x)
  then have "\<not> 2 \<le> length ys" using bar_join [of "[x]"] bar_join [of ys] by auto
  with 2 show ?case by (cases ys) (auto simp: Suc_le_eq)
next
  case (3 x x' xs)
  then have "2 \<le> length ys" using bar_join [of "x # x' # xs"] bar_join [of ys] by auto
  then obtain y y' ys' where ys: "ys = y # y' # ys'" by (cases ys; cases "tl ys") auto
  have first: "takeWhile (\<lambda>c. c \<noteq> CHR ''|'') (n @ '' | '' @ rest) = n @ '' ''" if "CHR ''|'' \<notin> set n" for n rest :: string
    using that by (induction n) auto
  have eq: "x @ '' | '' @ join (x' # xs) = y @ '' | '' @ join (y' # ys')" using "3.prems"(1) ys by simp
  from arg_cong [OF eq, of "takeWhile (\<lambda>c. c \<noteq> CHR ''|'')"] have "x = y" using first "3.prems"(4) ys by simp
  with eq have "join (x' # xs) = join (y' # ys')" by simp
  then have "x' # xs = y' # ys'" using "3.prems"(4) ys by (intro "3.IH") auto
  with \<open>x = y\<close> ys show ?case by simp
qed simp

section \<open>Properties\<close>

text \<open>
  C40. The name that is printed for an enumerator is read back as this enumerator, and so is its full name with the
  scope.
\<close>

theorem enum_name_round_trip:
  assumes "reflection_laws R" and "rf_name R e \<noteq> []"
  shows "enumFromString R (formatTo_enum R e []) = Some e \<and> enumFromString R (rf_name R e) = Some e"
  using enumFromString_scoped [OF assms] by (simp add: formatTo_enum_def enumToString_short [OF assms(2)])

text \<open>
  The text of a set of flags tells exactly which flags are set, as long as names are distinct and do not
  contain the separator or the text for none.
\<close>

theorem flags_text_exact:
  assumes "inj_on (enumToString R) (set (rf_values R))"
    and "\<forall>e \<in> set (rf_values R). CHR ''|'' \<notin> set (enumToString R e) \<and> enumToString R e \<noteq> ''<none>''"
  shows "formatFlags R v it = formatFlags R w it \<longleftrightarrow> (\<forall>e \<in> set (rf_values R). and v e \<noteq> 0 \<longleftrightarrow> and w e \<noteq> 0)"
proof
  assume "\<forall>e \<in> set (rf_values R). and v e \<noteq> 0 \<longleftrightarrow> and w e \<noteq> 0"
  then have "set_flags R v = set_flags R w" by (auto simp: set_flags_def intro: filter_cong)
  then show "formatFlags R v it = formatFlags R w it" by (simp add: formatFlags_eq)
next
  assume same: "formatFlags R v it = formatFlags R w it"
  let ?names = "\<lambda>v. map (enumToString R) (set_flags R v)"
  have inside: "set (set_flags R v) \<subseteq> set (rf_values R)" for v by (auto simp: set_flags_def)
  then have plain: "\<forall>n \<in> set (?names v). CHR ''|'' \<notin> set n \<and> n \<noteq> ''<none>''" for v using assms(2) by auto
  have none: "join (?names v) \<noteq> ''<none>''" if "set_flags R v \<noteq> []" for v
  proof
    assume "join (?names v) = ''<none>''"
    then have shown: "join (?names v) = join [''<none>'']" by simp
    have "?names v = [''<none>'']" using shown that plain [of v] by (intro join_inj) auto
    with plain [of v] show False by auto
  qed
  have "set_flags R v = set_flags R w"
  proof (cases "set_flags R v = [] \<or> set_flags R w = []")
    case True
    with same none [of v] none [of w] show ?thesis by (auto simp: formatFlags_eq split: if_splits)
  next
    case False
    with same have "join (?names v) = join (?names w)" by (simp add: formatFlags_eq)
    then have "?names v = ?names w" using False plain [of v] plain [of w] by (intro join_inj) auto
    moreover have "inj_on (enumToString R) (set (set_flags R v) \<union> set (set_flags R w))"
      using assms(1) inside by (meson inj_on_subset le_sup_iff)
    ultimately show ?thesis by (simp add: inj_on_map_eq_map)
  qed
  then have "e \<in> set (set_flags R v) \<longleftrightarrow> e \<in> set (set_flags R w)" for e by simp
  then show "\<forall>e \<in> set (rf_values R). and v e \<noteq> 0 \<longleftrightarrow> and w e \<noteq> 0" by (auto simp: set_flags_def)
qed

text \<open>A structure without members is closed twice.\<close>

theorem empty_struct_closed_twice: "formatStruct className [] it = it @ className @ '' { } }''"
  by (simp add: formatStruct_def)

text \<open>The message of an error code is the name of the error it was made of.\<close>

theorem error_code_message:
  assumes "value (number e) = e"
  shows "category_message R value (make_error_code category number e) = enumToString R e"
  using assms by (simp add: category_message_def make_error_code_def)

text \<open>The errors of the transport, and two of the modifiers.\<close>

fun demo_error_name :: "rpc_error \<Rightarrow> string" where
  "demo_error_name RpcOk = ''mks::RpcError::Ok''"
| "demo_error_name MessageTooLarge = ''mks::RpcError::MessageTooLarge''"
| "demo_error_name UnknownMessageType = ''mks::RpcError::UnknownMessageType''"
| "demo_error_name ProtocolError = ''mks::RpcError::ProtocolError''"

definition demo_errors :: "rpc_error reflection" where
  "demo_errors = \<lparr>rf_name = demo_error_name,
     rf_nameMap = map (\<lambda>e. (demo_error_name e, e)) [MessageTooLarge, RpcOk, ProtocolError, UnknownMessageType],
     rf_values = [RpcOk, MessageTooLarge, UnknownMessageType, ProtocolError]\<rparr>"

definition demo_modifiers :: "8 word reflection" where
  "demo_modifiers = \<lparr>rf_name = (\<lambda>m. if m = 1 then ''KeyModifier::LeftCtrl'' else if m = 2 then ''KeyModifier::LeftShift'' else []),
     rf_nameMap = [(''KeyModifier::LeftCtrl'', 1), (''KeyModifier::LeftShift'', 2)], rf_values = [1, 2]\<rparr>"

lemma demo_errors_laws: "reflection_laws demo_errors"
  unfolding reflection_laws_def
proof (intro conjI allI)
  fix name e
  show "map_of (rf_nameMap demo_errors) name = Some e \<longleftrightarrow> rf_name demo_errors e = name \<and> name \<noteq> []"
    by (cases e) (auto simp: demo_errors_def)
qed (simp add: demo_errors_def scope_of_def)

theorem enum_name_round_trip_witness:
  "enumFromString demo_errors ''ProtocolError'' = Some ProtocolError \<and>
   enumFromString demo_errors ''mks::RpcError::ProtocolError'' = Some ProtocolError"
proof -
  have "rf_name demo_errors ProtocolError \<noteq> []" by (simp add: demo_errors_def)
  from enum_name_round_trip [OF demo_errors_laws this] show ?thesis
    by (simp add: formatTo_enum_def enumToString_def demo_errors_def)
qed

theorem flags_text_exact_witness:
  "formatFlags demo_modifiers 3 [] = ''LeftCtrl | LeftShift'' \<and> formatFlags demo_modifiers 3 [] \<noteq> formatFlags demo_modifiers 2 []"
proof -
  have shown: "formatFlags demo_modifiers 3 [] = ''LeftCtrl | LeftShift''"
    by (simp add: formatFlags_def demo_modifiers_def enumToString_def)
  have names: "enumToString demo_modifiers 1 = ''LeftCtrl''" "enumToString demo_modifiers 2 = ''LeftShift''"
    "rf_values demo_modifiers = [1, 2]"
    by (simp_all add: demo_modifiers_def enumToString_def)
  have "inj_on (enumToString demo_modifiers) (set (rf_values demo_modifiers))" by (simp add: names)
  moreover have "\<forall>e \<in> set (rf_values demo_modifiers). CHR ''|'' \<notin> set (enumToString demo_modifiers e) \<and>
      enumToString demo_modifiers e \<noteq> ''<none>''" by (simp add: names)
  ultimately show ?thesis using shown flags_text_exact [of demo_modifiers 3 "[]" 2] by (simp add: names)
qed

theorem error_code_message_witness:
  "category_message demo_errors (\<lambda>n. if n = 3 then ProtocolError else RpcOk)
     (make_error_code ''RpcError'' (\<lambda>e. if e = ProtocolError then 3 else 0) ProtocolError) = ''ProtocolError''"
  using error_code_message [of "\<lambda>n. if n = 3 then ProtocolError else RpcOk" "\<lambda>e. if e = ProtocolError then 3 else (0 :: int)" ProtocolError demo_errors "''RpcError''"]
  by (simp add: demo_errors_def enumToString_def)


end
