(* ===== verification/Spec2Isabelle.thy ===== *)
theory Spec2Isabelle
  imports Server_App Client_App Backend_Registry Key_Evdev Key_Win32 Settings_Presenter Cli_Main Runtime_Presenter
    Win32_Platform Xcb_Platform Wayland_Platform Portal_Platform
    Host_Capture Linux_Backends Win32_Thread Portal_Runtime
    Input_Delivery Windows_Backend Refl_Names
begin

text \<open>
  mksync shares one mouse and keyboard among several computers. The server runs on the computer whose devices
  are used: it captures their input, and when the cursor leaves the screen over a border behind which a screen
  of another computer lies, it keeps the input from its own desktop and sends it to the client on that
  computer, which injects it there. This development is a model of the program with its proofs. Paths are
  relative to the root of the repository.

  \<^bold>\<open>Parts and theories\<close>

  \<^item> \<open>Mks_Prelude\<close>: undefined behaviour as \<open>None\<close>, 32-bit arithmetic, \<open>std::map\<close> and \<open>std::multimap\<close> as
    ordered association lists behind the interface \<open>std_map_interface\<close>. \<open>Cxx_Double\<close>: the \<open>double\<close>
    operations in use, as exact dyadic numbers rounded to 53 bits.
  \<^item> \<open>Key_Codes\<close>, \<open>Core_Events\<close>: \<open>src/core/key.hpp\<close>, \<open>events.hpp\<close>, \<open>mouse.hpp\<close>.
  \<^item> \<open>Screen_Topology\<close>: \<open>src/core/topology.cpp\<close>, screens on a grid of cells: insertion, removal of the
    screens of an owner, neighbours, border hits, the entry point on the next screen.
  \<^item> \<open>App_Config\<close>: \<open>src/config/app_config.cpp\<close>, the JSON file with the machine id, the remembered cells
    and the trusted clients.
  \<^item> \<open>Screen_Store\<close>: \<open>src/app/server_screens.cpp\<close>, the screens known to the server, their places in the
    topology, and what of it is remembered.
  \<^item> \<open>Input_Router\<close>: \<open>src/app/server_input.cpp\<close>, the state machine that decides for every captured event
    whether it stays local, moves the virtual cursor, crosses to another screen, or is sent.
  \<^item> \<open>Rpc_Transport\<close>: \<open>src/rpc/message.hpp\<close> and \<open>transport.cpp\<close>, messages and their frames.
  \<^item> \<open>Server_App\<close>: \<open>src/app/server.cpp\<close> and \<open>server_session.cpp\<close>, the handshake, the sessions, and the
    process as interleavings of connections, messages, disconnects and captured events.
  \<^item> \<open>Client_App\<close>: \<open>src/app/client.cpp\<close>, announcement, read loop and injection.
  \<^item> \<open>Backend_Registry\<close>: \<open>src/platform/backend.cpp\<close>, registration, check, selection and probe.
  \<^item> \<open>Key_Evdev\<close>, \<open>Key_Win32\<close>, \<open>Key_Xcb\<close>: the key tables of \<open>src/platform/wayland_keymap.hpp\<close>,
    \<open>win32_key.hpp\<close> and \<open>xcb.cpp\<close>.
  \<^item> \<open>Win32_Platform\<close>, \<open>Xcb_Platform\<close>, \<open>Wayland_Platform\<close>, \<open>Portal_Platform\<close>: \<open>src/platform/win32.cpp\<close>,
    \<open>xcb.cpp\<close>, \<open>wayland.cpp\<close> and \<open>wayland_portal.cpp\<close>, the capture and injection of the systems
    (the second last injects only). \<open>Linux_Backends\<close>: \<open>xcb_connection.cpp\<close>, the construction of the
    three platforms on Linux, their checks and registrations. \<open>Win32_Thread\<close>: the thread of the hidden
    window of Windows and the calls posted to it. \<open>Portal_Runtime\<close>: the thread that runs GLib, the
    requests to the desktop portal and their replies. \<open>Windows_Backend\<close>: creation and registration on
    Windows.
  \<^item> \<open>Input_Delivery\<close>: the way from the router to the injector of a client: channel, write loop
    (\<open>server_session.cpp\<close>), network and read loop as interleaved steps.
  \<^item> \<open>Refl_Names\<close>: \<open>src/refl\<close>, names of enumerators, texts of flags and structures, error codes.
  \<^item> \<open>Host_Capture\<close>: the router with a real capture. The locale \<open>input_capture\<close> states what the router relies
    on; it is interpreted by the captures of Windows and X11, and its facts are lifted to all interleavings of
    captured events with hook callbacks, reads, starts and stops.
  \<^item> \<open>Cli_Config\<close>, \<open>Cli_Main\<close>: \<open>src/config/arg_config.cpp\<close> and \<open>src/main.cpp\<close>.
  \<^item> \<open>Settings_Presenter\<close>, \<open>Runtime_Presenter\<close>: \<open>ui/model/settings_model.cpp\<close> and
    \<open>ui/presentation\<close>, the two pages of the window.

  Captured events go from a backend to the router (\<open>handleInputEvent\<close>), which asks the store for screens and
  neighbours and queues messages for the sender of a session; the transport frames them; the client reads
  them and hands them to the injector of its backend. The registry supplies the backend to the programs.

  \<^bold>\<open>Conventions\<close>

  A class is a record with the source's members, a method a function on it with the source's name (prefixed
  where two classes share it). \<open>std::expected\<close> and \<open>std::error_code\<close> are sums, numbers stand for error
  codes. Signed arithmetic that can overflow, a missing key of \<open>at\<close>, a dangling pointer and an exception
  that nothing catches are the value \<open>None\<close> of an option. A coroutine is cut at its suspension points; the
  pieces in between are the steps of the interleavings. What a foreign party answers (the operating system,
  the X server, the JSON codec, the argument parser, the network) is a parameter: a record of answers for an
  operation, or a function. Reads and writes of the stream are lists of bytes.

  \<^bold>\<open>Lemma groups\<close>

  Each theory proves an invariant of its state and that every operation keeps it (\<open>topo_inv\<close>,
  \<open>store_inv\<close>, \<open>router_ok\<close>, \<open>server_inv\<close>, \<open>w32_inv\<close>, \<open>xcb_inv\<close>, \<open>runtime_inv\<close>), with it
  the absence of undefined behaviour, then what each operation does on its branches. On these rest the
  properties: input reaches only the active screen, and only trusted clients; the cursor is where it should
  be; what is captured is what is injected (tables, coordinates, frames); start, stop and quit do what they
  say; no resource is lost. Some theorems show what the code does where it does not do what it means to; they
  are stated as what it does.

  \<^bold>\<open>Bounds\<close>

  The model needs no fuel: every loop is structurally recursive but \<open>nextFreeX\<close> (the scan for a free cell,
  which ends as only finitely many cells are taken) and \<open>keyFromEvdev_from\<close> (bounded by the table). Screens
  are assumed to be of the size the systems allow (\<open>small_rect\<close>, \<open>on_wire\<close>) where overflow
  is excluded.

  \<^bold>\<open>Not modelled\<close>

  Left out are logging (\<open>spdlog\<close>), the serializer adapters of \<open>src/refl/serde.hpp\<close>, the abstract interfaces of
  \<open>platform.hpp\<close>, the crash handlers, and libraries (\<open>ilias\<close>, \<open>NekoProto\<close>, Qt), of which the documented
  behaviour in use is a parameter.
\<close>

end
